(* ===== verification/Prelude.thy ===== *)
theory Prelude
  imports Main "HOL-Library.Sublist" "HOL-Library.List_Lexorder" "HOL-Library.Char_ord"
    "HOL-Library.Product_Lexorder" "HOL-Library.Multiset"
begin

text \<open>
  What every component of the model shares: Go strings as lists of bytes, the operations of Go's
  packages strings, strconv and sort that the sources call, and the generic facts about them.

  A Go string is a byte sequence, so it is a \<^typ>\<open>string\<close> here and \<open>len\<close> is
  \<^const>\<open>length\<close>. Case folding and the character classes are those of ASCII: the
  sources apply them to Go identifiers, module paths, rule ids, configuration keys and route paths.
  Bytes from 128 upwards (the inside of a multi-byte UTF-8 sequence) have no case and belong to no
  class. Strings are ordered bytewise (List_Lexorder over Char_ord), as Go compares them.
\<close>

named_theorems str_simps \<open>rewrite rules about the Go string operations\<close>

section \<open>Characters\<close>

abbreviation code :: "char \<Rightarrow> nat" where
  "code c \<equiv> of_char c"

definition is_upper :: "char \<Rightarrow> bool" where
  "is_upper c \<longleftrightarrow> 65 \<le> code c \<and> code c \<le> 90"

definition is_lower :: "char \<Rightarrow> bool" where
  "is_lower c \<longleftrightarrow> 97 \<le> code c \<and> code c \<le> 122"

definition is_digit :: "char \<Rightarrow> bool" where
  "is_digit c \<longleftrightarrow> 48 \<le> code c \<and> code c \<le> 57"

definition is_letter :: "char \<Rightarrow> bool" where
  "is_letter c \<longleftrightarrow> is_upper c \<or> is_lower c"

definition lower_char :: "char \<Rightarrow> char" where
  "lower_char c = (if is_upper c then char_of (code c + 32) else c)"

definition upper_char :: "char \<Rightarrow> char" where
  "upper_char c = (if is_lower c then char_of (code c - 32) else c)"

lemma code_lt_256 [simp]: "code c < 256"
  by (cases c) (simp add: of_char_def)

lemma code_char_of: "n < 256 \<Longrightarrow> code (char_of n) = n"
  by simp

lemma code_eq_iff [simp]: "code c = code d \<longleftrightarrow> c = d"
  by (simp add: of_char_eq_iff)

lemma code_lower_char: "code (lower_char c) = (if is_upper c then code c + 32 else code c)"
  by (auto simp: lower_char_def is_upper_def)

lemma code_upper_char: "code (upper_char c) = (if is_lower c then code c - 32 else code c)"
  using code_lt_256 [of c] by (auto simp: upper_char_def is_lower_def)

lemma char_eqI: "code c = code d \<Longrightarrow> c = d"
  by simp

lemma lower_lower_char [simp, str_simps]: "lower_char (lower_char c) = lower_char c"
  by (rule char_eqI) (auto simp: code_lower_char is_upper_def)

lemma upper_upper_char [simp, str_simps]: "upper_char (upper_char c) = upper_char c"
  by (rule char_eqI) (auto simp: code_upper_char is_lower_def)

lemma upper_lower_char [simp, str_simps]: "upper_char (lower_char c) = upper_char c"
  by (rule char_eqI) (auto simp: code_upper_char code_lower_char is_lower_def is_upper_def)

lemma lower_upper_char [simp, str_simps]: "lower_char (upper_char c) = lower_char c"
  by (rule char_eqI) (auto simp: code_upper_char code_lower_char is_lower_def is_upper_def)

lemma not_is_upper_lower_char [simp]: "\<not> is_upper (lower_char c)"
  by (auto simp: is_upper_def code_lower_char)

lemma not_is_lower_upper_char [simp]: "\<not> is_lower (upper_char c)"
  using code_lt_256 [of c] by (auto simp: is_lower_def code_upper_char)

lemma lower_char_id: "\<not> is_upper c \<Longrightarrow> lower_char c = c"
  by (simp add: lower_char_def)

lemma upper_char_id: "\<not> is_lower c \<Longrightarrow> upper_char c = c"
  by (simp add: upper_char_def)

lemma is_digit_lower_char [simp]: "is_digit (lower_char c) = is_digit c"
  by (auto simp: is_digit_def code_lower_char is_upper_def)

lemma is_letter_lower_char [simp]: "is_letter (lower_char c) = is_letter c"
  by (auto simp: is_letter_def is_lower_def is_upper_def code_lower_char)

lemma is_letter_upper_char [simp]: "is_letter (upper_char c) = is_letter c"
  using code_lt_256 [of c]
  by (auto simp: is_letter_def is_lower_def is_upper_def code_upper_char)

lemma upper_char_neq_letter: "is_lower c \<Longrightarrow> upper_char c \<noteq> c"
  using not_is_lower_upper_char [of c] by metis

lemma is_lower_lower_char [simp]: "is_lower (lower_char c) \<longleftrightarrow> is_letter c"
  by (auto simp: is_letter_def is_lower_def is_upper_def code_lower_char)

section \<open>Case folding and trimming\<close>

definition to_lower :: "string \<Rightarrow> string" where
  "to_lower = map lower_char"

definition to_upper :: "string \<Rightarrow> string" where
  "to_upper = map upper_char"

lemma to_lower_simps [simp]:
  "to_lower [] = []" "to_lower (c # s) = lower_char c # to_lower s"
  "to_lower (s @ t) = to_lower s @ to_lower t"
  by (simp_all add: to_lower_def)

lemma to_upper_simps [simp]:
  "to_upper [] = []" "to_upper (c # s) = upper_char c # to_upper s"
  "to_upper (s @ t) = to_upper s @ to_upper t"
  by (simp_all add: to_upper_def)

lemma to_lower_eq_Nil [simp]: "to_lower s = [] \<longleftrightarrow> s = []"
  by (simp add: to_lower_def)

lemma to_upper_eq_Nil [simp]: "to_upper s = [] \<longleftrightarrow> s = []"
  by (simp add: to_upper_def)

lemma length_to_lower [simp]: "length (to_lower s) = length s"
  by (simp add: to_lower_def)

lemma length_to_upper [simp]: "length (to_upper s) = length s"
  by (simp add: to_upper_def)

lemma to_lower_idem [simp, str_simps]: "to_lower (to_lower s) = to_lower s"
  by (simp add: to_lower_def)

lemma to_upper_idem [simp, str_simps]: "to_upper (to_upper s) = to_upper s"
  by (simp add: to_upper_def)

lemma to_upper_to_lower [simp, str_simps]: "to_upper (to_lower s) = to_upper s"
  by (simp add: to_lower_def to_upper_def)

lemma to_lower_to_upper [simp, str_simps]: "to_lower (to_upper s) = to_lower s"
  by (simp add: to_lower_def to_upper_def)

text \<open>The white space strings.TrimSpace and strings.Fields cut at (ASCII).\<close>

definition is_space :: "char \<Rightarrow> bool" where
  "is_space c \<longleftrightarrow> code c = 32 \<or> (9 \<le> code c \<and> code c \<le> 13)"

definition trim_left_by :: "(char \<Rightarrow> bool) \<Rightarrow> string \<Rightarrow> string" where
  "trim_left_by p s = dropWhile p s"

definition trim_right_by :: "(char \<Rightarrow> bool) \<Rightarrow> string \<Rightarrow> string" where
  "trim_right_by p s = rev (dropWhile p (rev s))"

definition trim_by :: "(char \<Rightarrow> bool) \<Rightarrow> string \<Rightarrow> string" where
  "trim_by p s = trim_right_by p (trim_left_by p s)"

abbreviation trim_space :: "string \<Rightarrow> string" where
  "trim_space \<equiv> trim_by is_space"

text \<open>strings.Trim, TrimLeft and TrimRight with a cut set.\<close>

abbreviation trim_set :: "string \<Rightarrow> string \<Rightarrow> string" where
  "trim_set cs \<equiv> trim_by (\<lambda>c. c \<in> set cs)"

lemma trim_by_Nil [simp]: "trim_by p [] = []"
  by (simp add: trim_by_def trim_left_by_def trim_right_by_def)

lemma trim_right_by_prefix: "prefix (trim_right_by p s) s"
proof -
  have "rev s = takeWhile p (rev s) @ dropWhile p (rev s)" by simp
  then have "s = rev (dropWhile p (rev s)) @ rev (takeWhile p (rev s))"
    by (metis rev_append rev_rev_ident)
  then show ?thesis unfolding trim_right_by_def by (metis prefixI)
qed

lemma trim_by_hd: "trim_by p s \<noteq> [] \<Longrightarrow> \<not> p (hd (trim_by p s))"
proof -
  assume ne: "trim_by p s \<noteq> []"
  let ?l = "dropWhile p s"
  have pre: "prefix (trim_by p s) ?l"
    by (simp add: trim_by_def trim_left_by_def trim_right_by_prefix)
  with ne have "?l \<noteq> []" by (cases ?l) auto
  then have "\<not> p (hd ?l)" by (rule hd_dropWhile)
  moreover have "hd (trim_by p s) = hd ?l"
    using pre ne by (auto elim!: prefixE)
  ultimately show ?thesis by simp
qed

lemma trim_by_last: "trim_by p s \<noteq> [] \<Longrightarrow> \<not> p (last (trim_by p s))"
  unfolding trim_by_def trim_right_by_def
  by (simp add: last_rev hd_dropWhile)

lemma trim_by_id: "s = [] \<or> (\<not> p (hd s) \<and> \<not> p (last s)) \<Longrightarrow> trim_by p s = s"
proof (cases "s = []")
  case False
  assume "s = [] \<or> (\<not> p (hd s) \<and> \<not> p (last s))"
  with False have hl: "\<not> p (hd s)" "\<not> p (last s)" by auto
  have 1: "dropWhile p s = s" using False hl by (cases s) auto
  have "hd (rev s) = last s" using False by (simp add: hd_rev)
  then have 2: "dropWhile p (rev s) = rev s"
    using False hl by (metis dropWhile_eq_self_iff)
  show ?thesis by (simp add: trim_by_def trim_left_by_def trim_right_by_def 1 2)
qed simp

lemma trim_by_idem [simp, str_simps]: "trim_by p (trim_by p s) = trim_by p s"
  using trim_by_hd trim_by_last by (intro trim_by_id) blast

lemma set_trim_by: "set (trim_by p s) \<subseteq> set s"
  by (auto simp: trim_by_def trim_left_by_def trim_right_by_def dest!: set_dropWhileD)

section \<open>Prefixes, suffixes, substrings\<close>

text \<open>strings.HasPrefix, HasSuffix and Contains are \<^const>\<open>prefix\<close>, \<^const>\<open>suffix\<close> and \<^const>\<open>sublist\<close>.\<close>

abbreviation has_prefix :: "string \<Rightarrow> string \<Rightarrow> bool" where
  "has_prefix s p \<equiv> prefix p s"

abbreviation has_suffix :: "string \<Rightarrow> string \<Rightarrow> bool" where
  "has_suffix s p \<equiv> suffix p s"

abbreviation str_contains :: "string \<Rightarrow> string \<Rightarrow> bool" where
  "str_contains s p \<equiv> sublist p s"

definition trim_prefix :: "string \<Rightarrow> string \<Rightarrow> string" where
  "trim_prefix s p = (if has_prefix s p then drop (length p) s else s)"

definition trim_suffix :: "string \<Rightarrow> string \<Rightarrow> string" where
  "trim_suffix s p = (if has_suffix s p then take (length s - length p) s else s)"

lemma trim_prefix_append [simp]: "trim_prefix (p @ s) p = s"
  by (simp add: trim_prefix_def)

lemma trim_suffix_append [simp]: "trim_suffix (s @ p) p = s"
  by (auto simp: trim_suffix_def suffix_def)

lemma trim_prefix_Nil [simp]: "trim_prefix s [] = s"
  by (simp add: trim_prefix_def)

text \<open>strings.Index: the first offset at which \<open>p\<close> occurs, if it does.\<close>

fun str_index :: "string \<Rightarrow> string \<Rightarrow> nat option" where
  "str_index [] p = (if p = [] then Some 0 else None)"
| "str_index (c # s) p =
     (if has_prefix (c # s) p then Some 0 else map_option Suc (str_index s p))"

text \<open>strings.IndexByte and strings.LastIndexByte.\<close>

fun index_char :: "string \<Rightarrow> char \<Rightarrow> nat option" where
  "index_char [] x = None"
| "index_char (c # s) x = (if c = x then Some 0 else map_option Suc (index_char s x))"

fun last_index_char :: "string \<Rightarrow> char \<Rightarrow> nat option" where
  "last_index_char [] x = None"
| "last_index_char (c # s) x =
     (case last_index_char s x of
        Some i \<Rightarrow> Some (Suc i)
      | None \<Rightarrow> if c = x then Some 0 else None)"

lemma index_char_Some:
  "index_char s x = Some i \<Longrightarrow> i < length s \<and> s ! i = x \<and> x \<notin> set (take i s)"
  by (induction s arbitrary: i) (auto split: if_splits)

lemma index_char_None [simp]: "index_char s x = None \<longleftrightarrow> x \<notin> set s"
  by (induction s) auto

lemma last_index_char_None [simp]: "last_index_char s x = None \<longleftrightarrow> x \<notin> set s"
  by (induction s) (auto split: option.splits)

lemma last_index_char_Some:
  "last_index_char s x = Some i \<Longrightarrow> i < length s \<and> s ! i = x \<and> x \<notin> set (drop (Suc i) s)"
  by (induction s arbitrary: i) (auto split: option.splits if_splits)

text \<open>strings.Cut at a one-byte separator: the part before, the part after, and whether it was found.\<close>

definition cut_char :: "string \<Rightarrow> char \<Rightarrow> string \<times> string \<times> bool" where
  "cut_char s x =
     (case index_char s x of
        None \<Rightarrow> (s, [], False)
      | Some i \<Rightarrow> (take i s, drop (Suc i) s, True))"

lemma cut_char_append: "cut_char s x = (a, b, True) \<Longrightarrow> s = a @ x # b \<and> x \<notin> set a"
  by (auto simp: cut_char_def split: option.splits dest: index_char_Some)
    (metis index_char_Some id_take_nth_drop)

lemma cut_char_absent: "x \<notin> set s \<Longrightarrow> cut_char s x = (s, [], False)"
  by (simp add: cut_char_def flip: index_char_None)

lemma cut_char_found: "x \<notin> set a \<Longrightarrow> cut_char (a @ x # b) x = (a, b, True)"
proof -
  assume a: "x \<notin> set a"
  then have "index_char (a @ x # b) x = Some (length a)" by (induction a) auto
  then show ?thesis by (simp add: cut_char_def)
qed

section \<open>Split, join, replace\<close>

text \<open>strings.Split at a one-byte separator.\<close>

fun split_char :: "char \<Rightarrow> string \<Rightarrow> string list" where
  "split_char x [] = [[]]"
| "split_char x (c # s) =
     (if c = x then [] # split_char x s
      else (case split_char x s of
              [] \<Rightarrow> [[c]]
            | w # ws \<Rightarrow> (c # w) # ws))"

text \<open>strings.Join.\<close>

fun str_join :: "string \<Rightarrow> string list \<Rightarrow> string" where
  "str_join sep [] = []"
| "str_join sep [w] = w"
| "str_join sep (w # v # ws) = w @ sep @ str_join sep (v # ws)"

lemma split_char_not_Nil [simp]: "split_char x s \<noteq> []"
  by (induction s) (auto split: list.splits)

lemma join_split_char [simp, str_simps]: "str_join [x] (split_char x s) = s"
proof (induction s)
  case (Cons c s)
  obtain w ws where e: "split_char x s = w # ws" by (cases "split_char x s") auto
  show ?case using Cons e by (cases ws) auto
qed simp

lemma split_char_free: "w \<in> set (split_char x s) \<Longrightarrow> x \<notin> set w"
proof (induction s arbitrary: w)
  case (Cons c s)
  obtain v vs where e: "split_char x s = v # vs" by (cases "split_char x s") auto
  show ?case using Cons e by (auto split: if_splits)
qed simp

lemma split_char_single: "x \<notin> set s \<Longrightarrow> split_char x s = [s]"
  by (induction s) auto

lemma split_char_append:
  "x \<notin> set w \<Longrightarrow> split_char x (w @ x # s) = w # split_char x s"
  by (induction w) auto

lemma split_join_char:
  "\<lbrakk>ws \<noteq> []; \<forall>w \<in> set ws. x \<notin> set w\<rbrakk> \<Longrightarrow> split_char x (str_join [x] ws) = ws"
  by (induction "[x]" ws rule: str_join.induct)
    (auto simp: split_char_single split_char_append)

lemma str_join_Cons: "ws \<noteq> [] \<Longrightarrow> str_join sep (w # ws) = w @ sep @ str_join sep ws"
  by (cases ws) auto

lemma str_join_append:
  "xs \<noteq> [] \<Longrightarrow> ys \<noteq> [] \<Longrightarrow> str_join sep (xs @ ys) = str_join sep xs @ sep @ str_join sep ys"
proof (induction xs)
  case (Cons x xs)
  then show ?case by (cases xs; cases ys) auto
qed simp

lemma str_join_Nil_sep: "str_join [] ws = concat ws"
  by (induction "[] :: string" ws rule: str_join.induct) auto

lemma set_str_join: "set (str_join sep ws) \<subseteq> set sep \<union> (\<Union>w \<in> set ws. set w)"
  by (induction sep ws rule: str_join.induct) auto

lemma str_join_eq_Nil_iff:
  "sep \<noteq> [] \<Longrightarrow> str_join sep ws = [] \<longleftrightarrow> ws = [] \<or> ws = [[]]"
  by (induction sep ws rule: str_join.induct) auto

text \<open>strings.Fields.\<close>

fun words_of :: "string \<Rightarrow> string \<Rightarrow> string list" where
  "words_of w [] = (if w = [] then [] else [rev w])"
| "words_of w (c # s) =
     (if is_space c then (if w = [] then words_of [] s else rev w # words_of [] s) else words_of (c # w) s)"

definition str_words :: "string \<Rightarrow> string list" where
  "str_words s = words_of [] s"

lemma words_of_nonempty: "v \<in> set (words_of w s) \<Longrightarrow> v \<noteq> []"
  by (induction w s rule: words_of.induct) (auto split: if_splits)

text \<open>strings.ReplaceAll of a one-byte pattern.\<close>

definition replace_char :: "char \<Rightarrow> string \<Rightarrow> string \<Rightarrow> string" where
  "replace_char x r s = concat (map (\<lambda>c. if c = x then r else [c]) s)"

lemma replace_char_simps [simp]:
  "replace_char x r [] = []"
  "replace_char x r (c # s) = (if c = x then r else [c]) @ replace_char x r s"
  "replace_char x r (s @ t) = replace_char x r s @ replace_char x r t"
  by (simp_all add: replace_char_def)

lemma replace_char_id: "x \<notin> set s \<Longrightarrow> replace_char x r s = s"
  by (induction s) auto

lemma replace_char_join:
  assumes "\<And>w. w \<in> set ws \<Longrightarrow> x \<notin> set w"
  shows "replace_char x r (str_join [x] ws) = str_join r ws"
  using assms
  by (induction "[x]" ws rule: str_join.induct) (auto simp: replace_char_id)

section \<open>Decimal rendering\<close>

text \<open>strconv.Itoa on the non-negative ints the sources print.\<close>

fun itoa :: "nat \<Rightarrow> string" where
  "itoa n = (if n < 10 then [char_of (48 + n)] else itoa (n div 10) @ [char_of (48 + n mod 10)])"

declare itoa.simps [simp del]

lemma itoa_not_Nil [simp]: "itoa n \<noteq> []"
  by (subst itoa.simps) simp

lemma is_digit_char_of: "(k::nat) < 10 \<Longrightarrow> is_digit (char_of (48 + k))"
  by (simp add: is_digit_def)

lemma itoa_digits: "c \<in> set (itoa n) \<Longrightarrow> is_digit c"
proof (induction n rule: itoa.induct)
  case (1 n)
  show ?case
  proof (cases "n < 10")
    case True
    then show ?thesis using "1.prems" by (subst (asm) itoa.simps) (simp add: is_digit_char_of)
  next
    case False
    then have "c \<in> set (itoa (n div 10)) \<or> c = char_of (48 + n mod 10)"
      using "1.prems" by (subst (asm) itoa.simps) auto
    then show ?thesis using "1.IH" [OF False] is_digit_char_of [of "n mod 10"] by auto
  qed
qed

text \<open>The UTF-8 bytes of the characters beyond ASCII that messages, citations and documents use.\<close>

definition emdash :: string where
  "emdash = [CHR 0xE2, CHR 0x80, CHR 0x94]"

definition sect :: string where
  "sect = [CHR 0xC2, CHR 0xA7]"

definition endash :: string where
  "endash = [CHR 0xE2, CHR 0x80, CHR 0x93]"

definition arrow :: string where
  "arrow = [CHR 0xE2, CHR 0x86, CHR 0x92]"

definition ellipsis :: string where
  "ellipsis = [CHR 0xE2, CHR 0x80, CHR 0xA6]"

definition tick :: string where
  "tick = [CHR 0xE2, CHR 0x9C, CHR 0x93]"

text \<open>Lines, each with its line end.\<close>

definition text_lines :: "string list \<Rightarrow> string" where
  "text_lines ls = concat (map (\<lambda>l. l @ [CHR 0x0A]) ls)"

section \<open>Lists and sorting\<close>

text \<open>
  sort.Strings and sort.Slice. sort.SliceStable keeps ties in order, as \<^const>\<open>sort_key\<close> does;
  where the source calls the unstable sort.Slice, the model picks the stable outcome among those
  the library may return (they differ only in the order of elements with equal keys).
\<close>

abbreviation sort_strings :: "string list \<Rightarrow> string list" where
  "sort_strings \<equiv> sort"

lemma sorted_sort_key_map: "sorted (map f (sort_key f xs))"
  by simp

lemma filter_partition3:
  assumes "\<And>x. x \<in> set xs \<Longrightarrow> p x \<or> q x \<or> r x"
    and "\<And>x. \<not> (p x \<and> q x)" "\<And>x. \<not> (p x \<and> r x)" "\<And>x. \<not> (q x \<and> r x)"
  shows "mset xs = mset (filter p xs) + mset (filter q xs) + mset (filter r xs)"
  using assms by (induction xs) auto

text \<open>The order-preserving removal of duplicates a Go loop with a \<open>seen\<close> map performs.\<close>

fun dedup :: "'a list \<Rightarrow> 'a list \<Rightarrow> 'a list" where
  "dedup seen [] = []"
| "dedup seen (x # xs) = (if x \<in> set seen then dedup seen xs else x # dedup (x # seen) xs)"

lemma set_dedup: "set (dedup seen xs) = set xs - set seen"
  by (induction xs arbitrary: seen) auto

lemma distinct_dedup: "distinct (dedup seen xs)"
  by (induction xs arbitrary: seen) (auto simp: set_dedup)

text \<open>A list of optional results, all of which must be there (a Go loop that returns on the first error).\<close>

fun all_some :: "'a option list \<Rightarrow> 'a list option" where
  "all_some [] = Some []"
| "all_some (None # _) = None"
| "all_some (Some x # xs) = map_option ((#) x) (all_some xs)"

end
