(* ===== verification/Naming.thy ===== *)
theory Naming
  imports Prelude
begin

text \<open>
  Model of gotools/internal/naming/naming.go: the splitting of identifiers into words, the case
  styles (Pascal, Camel, Snake, Kebab, Title) and the pluraliser, which the linter and the
  scaffolders share. The lemmas show that splitting loses nothing but separators, that the
  decomposition of runs of initialisms is sound and complete, and that the database tag of a name
  leads back to the name.
\<close>

section \<open>Initialisms and keywords\<close>

definition initialisms :: "string list" where
  "initialisms =
     [''ACL'', ''API'', ''ASCII'', ''CPU'', ''CSS'', ''DNS'', ''EOF'', ''GUID'', ''HTML'', ''HTTP'',
      ''HTTPS'', ''ID'', ''IP'', ''JSON'', ''LHS'', ''QPS'', ''RAM'', ''RHS'', ''RPC'', ''SLA'',
      ''SMTP'', ''SQL'', ''SSH'', ''TCP'', ''TLS'', ''TTL'', ''UDP'', ''UI'', ''UID'', ''UUID'',
      ''URI'', ''URL'', ''UTF8'', ''VM'', ''XML'', ''XMPP'', ''XSRF'', ''XSS'',
      ''PPO'', ''HOA'', ''DOP'', ''OTP'', ''PIN'', ''SMS'', ''PAN'', ''IFSC'', ''GST'', ''KYC'',
      ''MICR'', ''NEFT'', ''RTGS'', ''UPI'', ''DOB'', ''CSI'', ''PLI'', ''RPLI'', ''GDS'', ''NPS'']"

definition IsInitialism :: "string \<Rightarrow> bool" where
  "IsInitialism word \<longleftrightarrow> to_upper word \<in> set initialisms"

definition goKeywords :: "string list" where
  "goKeywords =
     [''break'', ''case'', ''chan'', ''const'', ''continue'', ''default'', ''defer'', ''else'',
      ''fallthrough'', ''for'', ''func'', ''go'', ''goto'', ''if'', ''import'', ''interface'',
      ''map'', ''package'', ''range'', ''return'', ''select'', ''struct'', ''switch'', ''type'',
      ''var'']"

definition IsGoKeyword :: "string \<Rightarrow> bool" where
  "IsGoKeyword s \<longleftrightarrow> s \<in> set goKeywords"

section \<open>Words\<close>

definition is_sep :: "char \<Rightarrow> bool" where
  "is_sep c \<longleftrightarrow> c \<in> set ''_- ./''"

definition flush :: "string \<Rightarrow> string list \<Rightarrow> string list" where
  "flush cur out = (if cur = [] then out else out @ [cur])"

text \<open>
  The loop of Words over the runes: \<open>prev\<close> is the rune before the current one (none at the
  start), \<open>cur\<close> the word being collected, \<open>out\<close> the finished words.
\<close>

fun words_scan :: "char option \<Rightarrow> string \<Rightarrow> string list \<Rightarrow> string \<Rightarrow> string list" where
  "words_scan prev cur out [] = flush cur out"
| "words_scan prev cur out (r # rs) =
     (if is_sep r then words_scan (Some r) [] (flush cur out) rs
      else if is_digit r then words_scan (Some r) (cur @ [r]) out rs
      else if is_upper r then
        (let prevLower = (case prev of Some p \<Rightarrow> is_lower p \<or> is_digit p | None \<Rightarrow> False);
             nextLower = (case rs of n # _ \<Rightarrow> is_lower n | [] \<Rightarrow> False);
             prevUpper = (case prev of Some p \<Rightarrow> is_upper p | None \<Rightarrow> False)
         in if prevLower \<or> (prevUpper \<and> nextLower)
            then words_scan (Some r) [r] (flush cur out) rs
            else words_scan (Some r) (cur @ [r]) out rs)
      else words_scan (Some r) (cur @ [r]) out rs)"

definition isAlpha :: "string \<Rightarrow> bool" where
  "isAlpha s \<longleftrightarrow> list_all is_letter s"

text \<open>
  The closure \<open>walk\<close> of decompose: \<open>walk s\<close> splits all of \<open>s\<close>, \<open>walk_heads n s\<close> is its
  loop over the lengths of the first piece, from \<open>n\<close> down to 2.
\<close>

function walk :: "string \<Rightarrow> string list option"
  and walk_heads :: "nat \<Rightarrow> string \<Rightarrow> string list option" where
  "walk s = (if s = [] then Some [] else walk_heads (length s) s)"
| "walk_heads n s =
     (if n < 2 then None
      else if take n s \<in> set initialisms then
        (case walk (drop n s) of
           Some rest \<Rightarrow> Some (take n s # rest)
         | None \<Rightarrow> walk_heads (n - 1) s)
      else walk_heads (n - 1) s)"
  by pat_completeness auto
termination
proof (relation "measures [\<lambda>x. case x of Inl s \<Rightarrow> length s | Inr (n, s) \<Rightarrow> length s,
    \<lambda>x. case x of Inl s \<Rightarrow> Suc (length s) | Inr (n, s) \<Rightarrow> n]", goal_cases)
  case (3 n s)
  then have "take n s \<noteq> []" by (auto simp: initialisms_def)
  with 3 show ?case by (auto simp: in_measures)
qed auto

declare walk.simps [simp del] walk_heads.simps [simp del]

definition decompose :: "string \<Rightarrow> string list option" where
  "decompose w =
     (if 32 < length w then None
      else (case walk w of
              None \<Rightarrow> None
            | Some parts \<Rightarrow> if length parts < 2 then None else Some parts))"

definition split_run :: "string \<Rightarrow> string list" where
  "split_run w =
     (if length w \<le> 3 \<or> w \<noteq> to_upper w \<or> \<not> isAlpha w then [w]
      else (case decompose w of Some parts \<Rightarrow> parts | None \<Rightarrow> [w]))"

definition splitInitialismRuns :: "string list \<Rightarrow> string list" where
  "splitInitialismRuns words = concat (map split_run words)"

definition Words :: "string \<Rightarrow> string list" where
  "Words s = splitInitialismRuns (words_scan None [] [] s)"

section \<open>Case styles\<close>

definition capitalise :: "string \<Rightarrow> string" where
  "capitalise w =
     (if w = [] then []
      else if to_upper w \<in> set initialisms then to_upper w
      else (case to_lower w of [] \<Rightarrow> [] | c # cs \<Rightarrow> upper_char c # cs))"

definition escapeKeyword :: "string \<Rightarrow> string" where
  "escapeKeyword s = (if s \<in> set goKeywords then s @ ''Val'' else s)"

definition Pascal :: "string \<Rightarrow> string" where
  "Pascal s = concat (map capitalise (Words s))"

definition Camel :: "string \<Rightarrow> string" where
  "Camel s =
     (case Words s of
        [] \<Rightarrow> []
      | w # ws \<Rightarrow> escapeKeyword (to_lower w @ concat (map capitalise ws)))"

definition Snake :: "string \<Rightarrow> string" where
  "Snake s = str_join ''_'' (map to_lower (Words s))"

definition Kebab :: "string \<Rightarrow> string" where
  "Kebab s = replace_char (CHR ''_'') ''-'' (Snake s)"

definition Title :: "string \<Rightarrow> string" where
  "Title s = str_join '' '' (map capitalise (Words s))"

section \<open>Plurals\<close>

definition irregularPlurals :: "(string \<times> string) list" where
  "irregularPlurals =
     [(''person'', ''people''), (''child'', ''children''), (''man'', ''men''), (''woman'', ''women''),
      (''datum'', ''data''), (''index'', ''indexes''), (''status'', ''statuses''),
      (''foot'', ''feet''), (''tooth'', ''teeth''), (''mouse'', ''mice''),
      (''criterion'', ''criteria'')]"

definition uncountable :: "string list" where
  "uncountable = [''data'', ''info'', ''equipment'', ''staff'', ''news'', ''series'', ''species'']"

definition isVowel :: "char \<Rightarrow> bool" where
  "isVowel b \<longleftrightarrow> b \<in> set ''aeiou''"

definition pluraliseWord :: "string \<Rightarrow> string" where
  "pluraliseWord w =
     (if w = [] \<or> w \<in> set uncountable then w
      else (case map_of irregularPlurals w of
              Some p \<Rightarrow> p
            | None \<Rightarrow>
                if has_suffix w ''s'' \<or> has_suffix w ''x'' \<or> has_suffix w ''z''
                   \<or> has_suffix w ''ch'' \<or> has_suffix w ''sh'' then w @ ''es''
                else if 1 < length w \<and> has_suffix w ''y'' \<and> \<not> isVowel (w ! (length w - 2))
                  then take (length w - 1) w @ ''ies''
                else w @ ''s''))"

definition restoreCase :: "string \<Rightarrow> string \<Rightarrow> string" where
  "restoreCase original inflected =
     (if original = [] then inflected
      else if original = to_upper original \<and> 1 < length original then to_upper inflected
      else if is_upper (hd original) then
        (case inflected of [] \<Rightarrow> [] | c # cs \<Rightarrow> upper_char c # cs)
      else inflected)"

definition rejoinLike :: "string \<Rightarrow> string list \<Rightarrow> string" where
  "rejoinLike original words =
     (if str_contains original ''_'' then str_join ''_'' words
      else if str_contains original ''-'' then str_join ''-'' words
      else str_join '''' words)"

definition Plural :: "string \<Rightarrow> string" where
  "Plural s =
     (let words = Words s in
      if words = [] then []
      else rejoinLike s
        (butlast words @ [restoreCase (last words) (pluraliseWord (to_lower (last words)))]))"

section \<open>Splitting loses nothing\<close>

lemma flush_Nil [simp]: "flush [] out = out"
  by (simp add: flush_def)

lemma concat_flush [simp]: "concat (flush cur out) = concat out @ cur"
  by (simp add: flush_def)

lemma set_flush: "set (flush cur out) = set out \<union> (if cur = [] then {} else {cur})"
  by (auto simp: flush_def)

lemma digit_not_sep: "is_digit c \<Longrightarrow> \<not> is_sep c"
  by (auto simp: is_digit_def is_sep_def)

lemma letter_not_sep: "is_letter c \<Longrightarrow> \<not> is_sep c"
  by (auto simp: is_letter_def is_upper_def is_lower_def is_sep_def)

lemma is_sep_lower_char [simp]: "is_sep (lower_char c) = is_sep c"
  using letter_not_sep [of "lower_char c"] letter_not_sep [of c]
  by (cases "is_upper c") (auto simp: lower_char_id is_letter_def)

lemma concat_words_scan:
  "concat (words_scan prev cur out s) = concat out @ cur @ filter (\<lambda>c. \<not> is_sep c) s"
  by (induction prev cur out s rule: words_scan.induct) (simp_all add: Let_def)

text \<open>A word the scanner can produce: not empty and free of separators.\<close>

definition word_ok :: "string \<Rightarrow> bool" where
  "word_ok w \<longleftrightarrow> w \<noteq> [] \<and> list_all (\<lambda>c. \<not> is_sep c) w"

lemma list_all_flush:
  "list_all word_ok (flush cur out) \<longleftrightarrow>
     list_all word_ok out \<and> (cur = [] \<or> list_all (\<lambda>c. \<not> is_sep c) cur)"
  by (auto simp: flush_def word_ok_def [of cur])

lemma words_scan_ok:
  assumes "list_all word_ok out" "list_all (\<lambda>c. \<not> is_sep c) cur"
  shows "list_all word_ok (words_scan prev cur out s)"
  using assms
proof (induction prev cur out s rule: words_scan.induct)
  case (1 prev cur out)
  then show ?case by (simp add: list_all_flush)
next
  case (2 prev cur out r rs)
  have f: "list_all word_ok (flush cur out)"
    using "2.prems" by (simp add: list_all_flush)
  show ?case using 2 f by (simp add: Let_def)
qed

lemma initialisms_ok: "w \<in> set initialisms \<Longrightarrow> 2 \<le> length w \<and> word_ok w"
  unfolding initialisms_def word_ok_def is_sep_def by auto

lemma walk_sound:
  "walk s = Some ps \<Longrightarrow> concat ps = s \<and> set ps \<subseteq> set initialisms"
  "walk_heads n s = Some ps \<Longrightarrow> concat ps = s \<and> set ps \<subseteq> set initialisms"
proof (induction s and n s arbitrary: ps and ps rule: walk_walk_heads.induct)
  case (1 s)
  from "1.prems" show ?case
    by (subst (asm) walk.simps) (auto split: if_splits dest: "1.IH")
next
  case (2 n s)
  from "2.prems" have n: "\<not> n < 2" by (subst (asm) walk_heads.simps) (auto split: if_splits)
  show ?case
  proof (cases "take n s \<in> set initialisms")
    case True
    note IH = "2.IH"(1) [OF n True] "2.IH"(2) [OF n True]
    show ?thesis
    proof (cases "walk (drop n s)")
      case None
      with "2.prems" n True have "walk_heads (n - 1) s = Some ps"
        by (subst (asm) walk_heads.simps) simp
      then show ?thesis using IH(2) [OF None] by simp
    next
      case (Some rest)
      with "2.prems" n True have ps: "ps = take n s # rest"
        by (subst (asm) walk_heads.simps) simp
      then show ?thesis using IH(1) [OF Some] True by simp
    qed
  next
    case False
    with "2.prems" n have "walk_heads (n - 1) s = Some ps"
      by (subst (asm) walk_heads.simps) simp
    then show ?thesis using "2.IH"(3) [OF n False] by simp
  qed
qed

lemma walk_heads_finds:
  assumes "2 \<le> k" "take k s \<in> set initialisms" "walk (drop k s) \<noteq> None" "k \<le> n"
  shows "walk_heads n s \<noteq> None"
  using assms(4)
proof (induction n)
  case 0
  with assms(1) show ?case by simp
next
  case (Suc n)
  show ?case
  proof (cases "k = Suc n")
    case True
    then show ?thesis using assms(1-3)
      by (subst walk_heads.simps) (auto split: option.splits)
  next
    case False
    with Suc have "walk_heads n s \<noteq> None" by simp
    then show ?thesis using assms(1) Suc.prems False
      by (subst walk_heads.simps) (auto split: option.splits)
  qed
qed

lemma walk_complete: "set ps \<subseteq> set initialisms \<Longrightarrow> walk (concat ps) \<noteq> None"
proof (induction ps)
  case Nil
  then show ?case by (simp add: walk.simps)
next
  case (Cons p ps)
  then have p: "p \<in> set initialisms" by simp
  let ?s = "p @ concat ps"
  have "walk_heads (length ?s) ?s \<noteq> None"
    using Cons initialisms_ok [OF p] by (intro walk_heads_finds [of "length p"]) simp_all
  moreover have "?s \<noteq> []" using initialisms_ok [OF p] by auto
  ultimately show ?case by (simp add: walk.simps [of ?s])
qed

text \<open>
  What decompose promises: its answer is a split of the word into at least two initialisms, and it
  only answers none when the word is too long, when the search's own (longest-first) answer is the
  word itself, or when the word is not a concatenation of initialisms.
\<close>

lemma decompose_sound:
  "decompose w = Some ps \<Longrightarrow> concat ps = w \<and> set ps \<subseteq> set initialisms \<and> 2 \<le> length ps"
  by (auto simp: decompose_def split: if_splits option.splits dest: walk_sound(1))

lemma walk_initialism: "w \<in> set initialisms \<Longrightarrow> walk w = Some [w]"
proof -
  assume w: "w \<in> set initialisms"
  then have l: "2 \<le> length w" using initialisms_ok by blast
  then have "w \<noteq> []" by auto
  then show ?thesis using w l
    by (simp add: walk.simps [of w] walk_heads.simps [of "length w"] walk.simps [of "[]"])
qed

lemma decompose_complete:
  assumes "length w \<le> 32" "w \<notin> set initialisms" "w \<noteq> []"
    and "concat ps = w" "set ps \<subseteq> set initialisms"
  shows "decompose w \<noteq> None"
proof -
  obtain qs where qs: "walk w = Some qs" using walk_complete assms(4,5) by blast
  note q = walk_sound(1) [OF qs]
  have "2 \<le> length qs"
  proof (cases qs)
    case Nil
    then show ?thesis using q assms(3) by simp
  next
    case (Cons a as)
    then show ?thesis using q assms(2) by (cases as) auto
  qed
  with qs assms(1) show ?thesis by (simp add: decompose_def)
qed

lemma split_run_ok: "word_ok w \<Longrightarrow> list_all word_ok (split_run w) \<and> concat (split_run w) = w"
proof -
  assume w: "word_ok w"
  show ?thesis
  proof (cases "length w \<le> 3 \<or> w \<noteq> to_upper w \<or> \<not> isAlpha w \<or> decompose w = None")
    case True
    then have "split_run w = [w]" unfolding split_run_def by auto
    then show ?thesis using w by simp
  next
    case False
    then obtain ps where d: "decompose w = Some ps" by auto
    then have "split_run w = ps" using False by (simp add: split_run_def)
    then show ?thesis using decompose_sound [OF d] initialisms_ok by (auto simp: list_all_iff)
  qed
qed

lemma splitInitialismRuns_ok:
  "list_all word_ok ws \<Longrightarrow>
     list_all word_ok (splitInitialismRuns ws) \<and> concat (splitInitialismRuns ws) = concat ws"
  by (induction ws) (simp_all add: splitInitialismRuns_def split_run_ok)

lemma Words_ok: "list_all word_ok (Words s)"
  unfolding Words_def using splitInitialismRuns_ok words_scan_ok by simp

lemma concat_Words: "concat (Words s) = filter (\<lambda>c. \<not> is_sep c) s"
  unfolding Words_def
  using splitInitialismRuns_ok [OF words_scan_ok [of "[]" "[]" None s]]
  by (simp add: concat_words_scan)

section \<open>The words of a snake-case name\<close>

text \<open>A word without capitals or separators goes through the scanner in one piece.\<close>

definition low_word :: "string \<Rightarrow> bool" where
  "low_word w \<longleftrightarrow> word_ok w \<and> list_all (\<lambda>c. \<not> is_upper c) w"

lemma words_scan_low:
  assumes "list_all (\<lambda>c. \<not> is_sep c \<and> \<not> is_upper c) w"
  shows "words_scan prev cur out (w @ rest) =
    words_scan (if w = [] then prev else Some (last w)) (cur @ w) out rest"
  using assms
proof (induction w arbitrary: prev cur)
  case (Cons c w)
  then show ?case by (cases "is_digit c") auto
qed simp

lemma words_scan_join:
  assumes "list_all low_word ws"
  shows "words_scan prev [] out (str_join ''_'' ws) = out @ ws"
  using assms
proof (induction ws arbitrary: prev out rule: induct_list012)
  case 1
  then show ?case by simp
next
  case (2 w)
  then have "list_all (\<lambda>c. \<not> is_sep c \<and> \<not> is_upper c) w" "w \<noteq> []"
    by (auto simp: low_word_def word_ok_def list_all_iff)
  then show ?case using words_scan_low [of w prev "[]" out "[]"] by (simp add: flush_def)
next
  case (3 w v ws)
  then have w: "list_all (\<lambda>c. \<not> is_sep c \<and> \<not> is_upper c) w" "w \<noteq> []"
    by (auto simp: low_word_def word_ok_def list_all_iff)
  have sep: "is_sep (CHR ''_'')" by (simp add: is_sep_def)
  show ?case
    using words_scan_low [OF w(1), of prev "[]" out "''_'' @ str_join ''_'' (v # ws)"] w(2) sep
      "3.IH"(2) [of "Some (CHR ''_'')" "out @ [w]"] "3.prems"
    by (simp add: flush_def)
qed

lemma split_run_low: "low_word w \<Longrightarrow> split_run w = [w]"
proof -
  assume w: "low_word w"
  have "w \<noteq> to_upper w \<or> \<not> isAlpha w"
  proof (rule ccontr)
    assume "\<not> ?thesis"
    then have u: "w = to_upper w" and a: "list_all is_letter w" by (auto simp: isAlpha_def)
    obtain c cs where w': "w = c # cs" using w by (cases w) (auto simp: low_word_def word_ok_def)
    then have "is_lower c" using a w by (auto simp: low_word_def is_letter_def)
    then show False using u w' upper_char_neq_letter [of c] by simp
  qed
  then show ?thesis by (auto simp: split_run_def)
qed

lemma Words_join_low: "list_all low_word ws \<Longrightarrow> Words (str_join ''_'' ws) = ws"
proof -
  assume ws: "list_all low_word ws"
  then have "splitInitialismRuns ws = ws"
    by (induction ws) (simp_all add: splitInitialismRuns_def split_run_low)
  then show ?thesis using words_scan_join [OF ws, of None "[]"] by (simp add: Words_def)
qed

lemma low_word_to_lower: "word_ok w \<Longrightarrow> low_word (to_lower w)"
  by (auto simp: low_word_def word_ok_def list_all_iff to_lower_def)

lemma Snake_char_origin: "c \<in> set (Snake s) \<Longrightarrow> c = CHR ''_'' \<or> (\<exists>d \<in> set s. c = lower_char d)"
proof -
  assume "c \<in> set (Snake s)"
  then have "c = CHR ''_'' \<or> (\<exists>w \<in> set (Words s). c \<in> set (to_lower w))"
    using set_str_join [of "''_''" "map to_lower (Words s)"] by (auto simp: Snake_def)
  moreover have "set (concat (Words s)) \<subseteq> set s" by (auto simp: concat_Words)
  ultimately show ?thesis by (auto simp: to_lower_def)
qed

lemma Words_Snake: "Words (Snake s) = map to_lower (Words s)"
  unfolding Snake_def using Words_ok [of s]
  by (intro Words_join_low) (auto simp: list_all_iff low_word_to_lower)

lemma capitalise_to_lower [simp]: "capitalise (to_lower w) = capitalise w"
  by (simp add: capitalise_def)

lemma low_chars_Snake: "c \<in> set (Snake s) \<Longrightarrow> \<not> is_upper c"
proof -
  assume "c \<in> set (Snake s)"
  then consider "c \<in> set ''_''" | w where "w \<in> set (Words s)" "c \<in> set (to_lower w)"
    using set_str_join [of "''_''" "map to_lower (Words s)"] unfolding Snake_def by fastforce
  then show ?thesis
  proof cases
    case 1
    then show ?thesis by (simp add: is_upper_def)
  next
    case 2
    then show ?thesis by (auto simp: to_lower_def)
  qed
qed

lemma map_to_lower_idem [simp]: "map (to_lower \<circ> to_lower) ws = map to_lower ws"
  by simp

lemma escapeKeyword_not_keyword: "\<not> IsGoKeyword (escapeKeyword s)"
  by (auto simp: escapeKeyword_def IsGoKeyword_def goKeywords_def)

lemma pluraliseWord_not_Nil: "w \<noteq> [] \<Longrightarrow> pluraliseWord w \<noteq> []"
  unfolding pluraliseWord_def irregularPlurals_def
  by (auto split: option.splits if_splits)

section \<open>Properties\<close>

text \<open>
  The names the linter and the scaffolder exchange agree. Snake is a right inverse on the level
  of words, so whatever style an identifier is written in, going through its snake-case form (the
  db and json tag) changes none of the other renderings.
\<close>

theorem snake_roundtrip:
  "Pascal (Snake s) = Pascal s \<and> Camel (Snake s) = Camel s \<and> Title (Snake s) = Title s
   \<and> Snake (Snake s) = Snake s \<and> Kebab (Snake s) = Kebab s"
proof -
  have "Camel (Snake s) = Camel s"
    by (simp add: Camel_def Words_Snake o_def split: list.splits)
  then show ?thesis
    by (simp add: Pascal_def Title_def Kebab_def Snake_def [of "Snake s"] Words_Snake o_def)
      (simp add: Snake_def)
qed

end
