(* ===== verification/GoAst.thy ===== *)
theory GoAst
  imports Prelude
begin

text \<open>
  The part of Go's standard library the analysers read source code through: the syntax trees of
  go/ast with their positions, ast.Inspect, strconv.Unquote and strconv.Quote, and
  reflect.StructTag. Node kinds whose fields the sources never look at (expression statements,
  switches, sends and so on) are \<open>OtherNode\<close>: ast.Inspect still walks their children. Doc
  comments are not nodes here, since no visitor of the sources reads one. Producing a tree from
  source text is go/parser's work and is not modelled: trees are inputs.
\<close>

section \<open>Nodes\<close>

text \<open>Where a node starts and ends, as token.FileSet.Position resolves it (lines and columns from 1).\<close>

datatype span = Span (sline: nat) (scol: nat) (slo: nat) (shi: nat) (sendline: nat)

definition no_span :: span where
  "no_span = Span 0 0 0 0 0"

datatype lit_kind = INT | FLOAT | IMAG | CHARLIT | STRING

datatype decl_tok = IMPORT | CONST | TYPE | VAR

datatype (plugins only: code size) node =
    Ident span string
  | BasicLit span lit_kind string
  | CompositeLit span "node option" "node list"
  | FuncLit span node node
  | ParenExpr span node
  | SelectorExpr span node string
  | IndexExpr span node node
  | IndexListExpr span node "node list"
  | CallExpr span node "node list" span span
  | StarExpr span node
  | UnaryExpr span string node
  | BinaryExpr span node string node
  | KeyValueExpr span node node
  | ArrayType span "node option" node
  | StructType span "node list option"
  | FuncType span "node list option" "node list option"
  | InterfaceType span "node list option"
  | MapType span node node
  | ChanType span node
  | Ellipsis span "node option"
  | Field span "string list" node "string option"
  | AssignStmt span "node list" string "node list"
  | BlockStmt span "node list"
  | IfStmt span "node option" node node "node option"
  | ForStmt span "node option" "node option" "node option" node
  | RangeStmt span "node option" "node option" node node
  | ReturnStmt span "node list"
  | ImportSpec span "string option" node
  | ValueSpec span "string list" "node option" "node list"
  | TypeSpec span string node
  | GenDecl span decl_tok "node list" "span option" span
  | FuncDecl span "node list option" string node "node option"
  | FileNode span node "node list"
  | OtherNode span string "node list"

text \<open>
  The arguments follow go/ast's fields. \<open>CallExpr p fun args lparen rparen\<close>;
  \<open>FuncType p params results\<close>; \<open>Field p names type tag\<close> (the tag as written);
  \<open>GenDecl p tok specs lparen rparen\<close> (no lparen: an unparenthesised declaration);
  \<open>FuncDecl p recv name type body\<close>; \<open>ImportSpec p alias path\<close> (the path is a string literal node).
  \<open>FileNode p name decls\<close>, the name being the identifier of the package clause.
\<close>

fun node_span :: "node \<Rightarrow> span" where
  "node_span (Ident p _) = p"
| "node_span (BasicLit p _ _) = p"
| "node_span (CompositeLit p _ _) = p"
| "node_span (FuncLit p _ _) = p"
| "node_span (ParenExpr p _) = p"
| "node_span (SelectorExpr p _ _) = p"
| "node_span (IndexExpr p _ _) = p"
| "node_span (IndexListExpr p _ _) = p"
| "node_span (CallExpr p _ _ _ _) = p"
| "node_span (StarExpr p _) = p"
| "node_span (UnaryExpr p _ _) = p"
| "node_span (BinaryExpr p _ _ _) = p"
| "node_span (KeyValueExpr p _ _) = p"
| "node_span (ArrayType p _ _) = p"
| "node_span (StructType p _) = p"
| "node_span (FuncType p _ _) = p"
| "node_span (InterfaceType p _) = p"
| "node_span (MapType p _ _) = p"
| "node_span (ChanType p _) = p"
| "node_span (Ellipsis p _) = p"
| "node_span (Field p _ _ _) = p"
| "node_span (AssignStmt p _ _ _) = p"
| "node_span (BlockStmt p _) = p"
| "node_span (IfStmt p _ _ _ _) = p"
| "node_span (ForStmt p _ _ _ _) = p"
| "node_span (RangeStmt p _ _ _ _) = p"
| "node_span (ReturnStmt p _) = p"
| "node_span (ImportSpec p _ _) = p"
| "node_span (ValueSpec p _ _ _) = p"
| "node_span (TypeSpec p _ _) = p"
| "node_span (GenDecl p _ _ _ _) = p"
| "node_span (FuncDecl p _ _ _ _) = p"
| "node_span (FileNode p _ _) = p"
| "node_span (OtherNode p _ _) = p"

fun opt_list :: "'a option \<Rightarrow> 'a list" where
  "opt_list None = []"
| "opt_list (Some x) = [x]"

fun olist :: "'a list option \<Rightarrow> 'a list" where
  "olist None = []"
| "olist (Some xs) = xs"

text \<open>The children of a node in the order ast.Walk visits them.\<close>

fun children :: "node \<Rightarrow> node list" where
  "children (Ident _ _) = []"
| "children (BasicLit _ _ _) = []"
| "children (CompositeLit _ t es) = opt_list t @ es"
| "children (FuncLit _ t b) = [t, b]"
| "children (ParenExpr _ x) = [x]"
| "children (SelectorExpr p x s) = [x, Ident p s]"
| "children (IndexExpr _ x i) = [x, i]"
| "children (IndexListExpr _ x is) = x # is"
| "children (CallExpr _ f as _ _) = f # as"
| "children (StarExpr _ x) = [x]"
| "children (UnaryExpr _ _ x) = [x]"
| "children (BinaryExpr _ x _ y) = [x, y]"
| "children (KeyValueExpr _ k v) = [k, v]"
| "children (ArrayType _ l e) = opt_list l @ [e]"
| "children (StructType _ fs) = olist fs"
| "children (FuncType _ ps rs) = olist ps @ olist rs"
| "children (InterfaceType _ ms) = olist ms"
| "children (MapType _ k v) = [k, v]"
| "children (ChanType _ v) = [v]"
| "children (Ellipsis _ e) = opt_list e"
| "children (Field p ns t g) =
     map (Ident p) ns @ [t] @ (case g of None \<Rightarrow> [] | Some v \<Rightarrow> [BasicLit p STRING v])"
| "children (AssignStmt _ ls _ rs) = ls @ rs"
| "children (BlockStmt _ ss) = ss"
| "children (IfStmt _ i c b e) = opt_list i @ [c, b] @ opt_list e"
| "children (ForStmt _ i c p b) = opt_list i @ opt_list c @ opt_list p @ [b]"
| "children (RangeStmt _ k v x b) = opt_list k @ opt_list v @ [x, b]"
| "children (ReturnStmt _ rs) = rs"
| "children (ImportSpec p a v) =
     (case a of None \<Rightarrow> [] | Some n \<Rightarrow> [Ident p n]) @ [v]"
| "children (ValueSpec p ns t vs) = map (Ident p) ns @ opt_list t @ vs"
| "children (TypeSpec p n t) = [Ident p n, t]"
| "children (GenDecl _ _ ss _ _) = ss"
| "children (FuncDecl p r n t b) = olist r @ [Ident p n, t] @ opt_list b"
| "children (FileNode _ n ds) = n # ds"
| "children (OtherNode _ _ cs) = cs"

lemma size_opt_list: "c \<in> set (opt_list x) \<Longrightarrow> size c < size_option size x"
  by (cases x) auto

lemma size_olist: "c \<in> set (olist x) \<Longrightarrow> size c < size_option (size_list size) x"
proof (cases x)
  case (Some xs)
  assume "c \<in> set (olist x)"
  with Some have "size c \<le> size_list size xs" by (auto intro: size_list_estimation')
  with Some show ?thesis by simp
qed simp

lemma size_in_list: "c \<in> set xs \<Longrightarrow> size c < Suc (size_list size xs)"
  by (simp add: less_Suc_eq_le size_list_estimation')

lemma children_smaller: "c \<in> set (children n) \<Longrightarrow> size c < size n"
  apply (cases n)
  apply (auto dest!: size_opt_list size_olist split: option.splits)
  apply (drule size_in_list; simp)+
  done

section \<open>ast.Inspect\<close>

text \<open>
  The visitor is a closure over mutable state: it gets a node and the state and returns the new
  state and whether to descend.
\<close>

function inspect :: "(node \<Rightarrow> 's \<Rightarrow> 's \<times> bool) \<Rightarrow> node \<Rightarrow> 's \<Rightarrow> 's" where
  "inspect v n s =
     (case v n s of
        (s', descend) \<Rightarrow> if descend then fold (inspect v) (children n) s' else s')"
  by pat_completeness auto
termination
  by (relation "measure (\<lambda>(v, n, s). size n)") (auto dest: children_smaller)

declare inspect.simps [simp del]

text \<open>Every node of the tree, in the order a visitor that always descends sees them.\<close>

function subnodes :: "node \<Rightarrow> node list" where
  "subnodes n = n # concat (map subnodes (children n))"
  by pat_completeness auto
termination
  by (relation "measure size") (auto dest: children_smaller)

declare subnodes.simps [simp del]

lemma subnodes_self [simp]: "n \<in> set (subnodes n)"
  by (subst subnodes.simps) simp

lemma subnodes_children: "m \<in> set (subnodes n) \<longleftrightarrow> m = n \<or> (\<exists>c \<in> set (children n). m \<in> set (subnodes c))"
  by (subst subnodes.simps) auto

lemma fold_concat_map: "fold (\<lambda>x. fold g (f x)) xs s = fold g (concat (map f xs)) s"
  by (induction xs arbitrary: s) auto

lemma inspect_all:
  assumes v: "\<And>n s. v n s = (g n s, True)"
  shows "inspect v n s = fold g (subnodes n) s"
proof (induction n arbitrary: s rule: subnodes.induct)
  case (1 n)
  have "fold (inspect v) (children n) t = fold (\<lambda>c. fold g (subnodes c)) (children n) t" for t
    by (rule fold_cong) (auto simp: "1.IH")
  then show ?case
    by (subst inspect.simps, subst subnodes.simps) (simp add: v fold_concat_map)
qed

text \<open>A visitor that stops at the first node satisfying \<open>p\<close> finds exactly that node.\<close>

definition find_visitor :: "(node \<Rightarrow> bool) \<Rightarrow> node \<Rightarrow> node option \<Rightarrow> node option \<times> bool" where
  "find_visitor p n s =
     (if s \<noteq> None then (s, False) else if p n then (Some n, False) else (None, True))"

lemma inspect_find_found: "inspect (find_visitor p) n (Some m) = Some m"
  by (simp add: inspect.simps find_visitor_def)

lemma fold_inspect_found: "fold (inspect (find_visitor p)) ns (Some m) = Some m"
  by (induction ns) (simp_all add: inspect_find_found)

lemma find_append: "List.find p (xs @ ys) = (case List.find p xs of None \<Rightarrow> List.find p ys | Some x \<Rightarrow> Some x)"
  by (induction xs) auto

lemma inspect_find: "inspect (find_visitor p) n None = List.find p (subnodes n)"
proof (induction n rule: subnodes.induct)
  case (1 n)
  have "fold (inspect (find_visitor p)) cs None = List.find p (concat (map subnodes cs))"
    if "set cs \<subseteq> set (children n)" for cs
    using that
  proof (induction cs)
    case (Cons c cs)
    then show ?case
      using "1.IH" [of c]
      by (cases "List.find p (subnodes c)") (simp_all add: find_append fold_inspect_found)
  qed simp
  then show ?case
    by (subst inspect.simps, subst subnodes.simps) (simp add: find_visitor_def)
qed

lemma find_Some_iff_bex: "List.find p xs \<noteq> None \<longleftrightarrow> (\<exists>x \<in> set xs. p x)"
  by (auto simp: find_None_iff)

section \<open>Literals and struct tags\<close>

definition hex_digit :: "char \<Rightarrow> nat option" where
  "hex_digit c =
     (if is_digit c then Some (code c - 48)
      else if 97 \<le> code c \<and> code c \<le> 102 then Some (code c - 87)
      else if 65 \<le> code c \<and> code c \<le> 70 then Some (code c - 55)
      else None)"

text \<open>
  strconv.Unquote for string literals. Escapes of the interpreted form: the single-letter ones and
  \<open>\x\<close> with two hex digits; octal and Unicode escapes are errors here (no literal the
  sources read uses them: tags, paths, keys, SQL).
\<close>

fun unescape :: "string \<Rightarrow> string option" where
  "unescape [] = Some []"
| "unescape (c # s) =
     (if c = CHR 0x22 \<or> c = CHR 0x0A then None
      else if c \<noteq> CHR 0x5C then map_option ((#) c) (unescape s)
      else (case s of
              [] \<Rightarrow> None
            | e # t \<Rightarrow>
                if e = CHR ''n'' then map_option ((#) (CHR 0x0A)) (unescape t)
                else if e = CHR ''t'' then map_option ((#) (CHR 0x09)) (unescape t)
                else if e = CHR ''r'' then map_option ((#) (CHR 0x0D)) (unescape t)
                else if e = CHR ''a'' then map_option ((#) (CHR 0x07)) (unescape t)
                else if e = CHR ''b'' then map_option ((#) (CHR 0x08)) (unescape t)
                else if e = CHR ''f'' then map_option ((#) (CHR 0x0C)) (unescape t)
                else if e = CHR ''v'' then map_option ((#) (CHR 0x0B)) (unescape t)
                else if e = CHR 0x5C then map_option ((#) (CHR 0x5C)) (unescape t)
                else if e = CHR 0x22 then map_option ((#) (CHR 0x22)) (unescape t)
                else if e = CHR ''x'' then
                  (case t of
                     h # l # u \<Rightarrow>
                       (case (hex_digit h, hex_digit l) of
                          (Some a, Some b) \<Rightarrow>
                            map_option ((#) (char_of (16 * a + b))) (unescape u)
                        | _ \<Rightarrow> None)
                   | _ \<Rightarrow> None)
                else None))"

definition go_unquote :: "string \<Rightarrow> string option" where
  "go_unquote s =
     (if length s < 2 \<or> hd s \<noteq> last s then None
      else let body = butlast (tl s) in
        if hd s = CHR 0x60 then
          (if CHR 0x60 \<in> set body then None else Some (filter (\<lambda>c. c \<noteq> CHR 0x0D) body))
        else if hd s = CHR 0x22 then unescape body
        else None)"

text \<open>strconv.Quote on printable ASCII text (what the messages print with the verb q).\<close>

definition quote_char :: "char \<Rightarrow> string" where
  "quote_char c =
     (if c = CHR 0x22 \<or> c = CHR 0x5C then [CHR 0x5C, c]
      else if c = CHR 0x0A then [CHR 0x5C, CHR ''n'']
      else if c = CHR 0x09 then [CHR 0x5C, CHR ''t'']
      else if c = CHR 0x0D then [CHR 0x5C, CHR ''r'']
      else [c])"

definition go_quote :: "string \<Rightarrow> string" where
  "go_quote s = [CHR 0x22] @ concat (map quote_char s) @ [CHR 0x22]"

lemma unescape_quote_char: "unescape (quote_char c @ s) = map_option ((#) c) (unescape s)"
  unfolding quote_char_def by (auto simp: option.map_comp)

lemma unescape_quoted: "unescape (concat (map quote_char s)) = Some s"
  by (induction s) (simp_all add: unescape_quote_char)

lemma unquote_quote [simp]: "go_unquote (go_quote s) = Some s"
  by (simp add: go_unquote_def go_quote_def butlast_append unescape_quoted)

end
