(* ===== verification/Workspace.thy ===== *)
theory Workspace
  imports GoAst "HOL-Library.AList"
begin

text \<open>
  Model of gotools/internal/workspace: layers, the parsed files of a Go module, the walk that loads
  them, the go.mod reader, and (configs.go) the key tables of the YAML configuration files.

  The file system is a tree of entries and the outcome of reading a file or a directory is part of
  it. go/parser and yaml.Unmarshal are parameters (their results, documents included, are inputs);
  everything the package does with those results is modelled.
\<close>

section \<open>Layers\<close>

datatype Layer =
    LayerOther | LayerDomain | LayerPort | LayerRepo | LayerHandler | LayerResponse
  | LayerBootstrap | LayerMain | LayerRoutes | LayerTest

fun layer_string :: "Layer \<Rightarrow> string" where
  "layer_string LayerOther = ''other''"
| "layer_string LayerDomain = ''domain''"
| "layer_string LayerPort = ''port''"
| "layer_string LayerRepo = ''repo''"
| "layer_string LayerHandler = ''handler''"
| "layer_string LayerResponse = ''response''"
| "layer_string LayerBootstrap = ''bootstrap''"
| "layer_string LayerMain = ''main''"
| "layer_string LayerRoutes = ''routes''"
| "layer_string LayerTest = ''test''"

definition classify :: "string \<Rightarrow> bool \<Rightarrow> Layer" where
  "classify rel isTest =
     (if isTest then LayerTest
      else if rel = ''main.go'' then LayerMain
      else if has_prefix rel ''core/domain/'' then LayerDomain
      else if has_prefix rel ''core/port/'' then LayerPort
      else if has_prefix rel ''repo/'' then LayerRepo
      else if has_prefix rel ''handler/response/'' then LayerResponse
      else if has_prefix rel ''handler/'' then LayerHandler
      else if has_prefix rel ''bootstrap/'' then LayerBootstrap
      else if has_prefix rel ''routes/'' then LayerRoutes
      else LayerOther)"

section \<open>Files and workspaces\<close>

record gofile =
  fRel :: string
  fSrc :: string
  fAST :: node
  fPackage :: string
  fLayer :: Layer
  fGenerated :: bool
  fParseErr :: "string option"

record Require =
  rqPath :: string
  rqVersion :: string
  rqLine :: nat

record ConfigKey =
  ckPath :: string
  ckLine :: nat
  ckCol :: nat
  ckScalar :: bool
  ckEmpty :: bool
  ckValue :: string

type_synonym key_table = "(string \<times> ConfigKey) list"

record ConfigFile =
  cfRel :: string
  cfEnv :: string
  cfKeys :: key_table
  cfParseErr :: "string option"

record workspace =
  wsModulePath :: string
  wsGoVersion :: string
  wsFiles :: "gofile list"
  wsRequires :: "Require list"
  wsConfigs :: "ConfigFile list"
  wsReadCount :: nat

text \<open>token.FileSet positions are part of the tree, so Position reads the span; a node is never nil here.\<close>

definition Position :: "node \<Rightarrow> nat \<times> nat" where
  "Position n = (sline (node_span n), scol (node_span n))"

text \<open>file.Imports of go/ast: the import specs of the file's declarations, in order.\<close>

fun file_decls :: "node \<Rightarrow> node list" where
  "file_decls (FileNode _ _ ds) = ds"
| "file_decls _ = []"

fun gen_specs :: "node \<Rightarrow> node list" where
  "gen_specs (GenDecl _ _ ss _ _) = ss"
| "gen_specs _ = []"

definition is_import_spec :: "node \<Rightarrow> bool" where
  "is_import_spec n = (case n of ImportSpec _ _ _ \<Rightarrow> True | _ \<Rightarrow> False)"

definition ast_imports :: "node \<Rightarrow> node list" where
  "ast_imports f = filter is_import_spec (concat (map gen_specs (file_decls f)))"

definition import_value :: "node \<Rightarrow> string" where
  "import_value n =
     (case n of
        ImportSpec _ _ p \<Rightarrow> (case p of BasicLit _ _ v \<Rightarrow> v | _ \<Rightarrow> [])
      | _ \<Rightarrow> [])"

definition import_path :: "node \<Rightarrow> string" where
  "import_path n = trim_set [CHR 0x22] (import_value n)"

definition import_alias :: "node \<Rightarrow> string" where
  "import_alias n = (case n of ImportSpec _ (Some a) _ \<Rightarrow> a | _ \<Rightarrow> [])"

text \<open>The map path to alias; a later import of the same path overwrites an earlier one.\<close>

definition Imports :: "gofile \<Rightarrow> (string \<times> string) list" where
  "Imports f = fold (\<lambda>im m. AList.update (import_path im) (import_alias im) m) (ast_imports (fAST f)) []"

definition ImportsAny :: "gofile \<Rightarrow> string list \<Rightarrow> (string \<times> node) option" where
  "ImportsAny f substrings =
     map_option (\<lambda>im. (import_path im, im))
       (List.find (\<lambda>im. list_ex (\<lambda>s. str_contains (import_path im) s) substrings)
         (ast_imports (fAST f)))"

definition Text :: "gofile \<Rightarrow> node \<Rightarrow> string" where
  "Text f n =
     (let lo = slo (node_span n); hi = shi (node_span n) in
      if length (fSrc f) < hi \<or> hi < lo then [] else take (hi - lo) (drop lo (fSrc f)))"

definition ws_file :: "workspace \<Rightarrow> string \<Rightarrow> gofile option" where
  "ws_file w rel = List.find (\<lambda>f. fRel f = rel) (rev (wsFiles w))"

definition FilesIn :: "workspace \<Rightarrow> Layer list \<Rightarrow> gofile list" where
  "FilesIn w layers = filter (\<lambda>f. fLayer f \<in> set layers) (wsFiles w)"

definition SourceOf :: "workspace \<Rightarrow> Layer list \<Rightarrow> string" where
  "SourceOf w layers = concat (map (\<lambda>f. fSrc f @ [CHR 0x0A]) (FilesIn w layers))"

section \<open>go.mod\<close>

text \<open>The class of white space in Go's regular expressions (no vertical tab).\<close>

definition re_space :: "char \<Rightarrow> bool" where
  "re_space c \<longleftrightarrow> c \<in> set [CHR 0x20, CHR 0x09, CHR 0x0A, CHR 0x0C, CHR 0x0D]"

definition re_word_path :: "char \<Rightarrow> bool" where
  "re_word_path c \<longleftrightarrow> is_letter c \<or> is_digit c \<or> c \<in> set ''_.-/''"

text \<open>\<open>(?m)^KW\s+(\S+)\<close>: the first line start where the keyword, white space and a word follow.\<close>

definition kw_at :: "string \<Rightarrow> string \<Rightarrow> string option" where
  "kw_at kw s =
     (if has_prefix s kw then
        (let r = drop (length kw) s; w = takeWhile (\<lambda>c. \<not> re_space c) (dropWhile re_space r)
         in if r \<noteq> [] \<and> re_space (hd r) \<and> w \<noteq> [] then Some w else None)
      else None)"

fun kw_find :: "string \<Rightarrow> bool \<Rightarrow> string \<Rightarrow> string option" where
  "kw_find kw at_start [] = None"
| "kw_find kw at_start (c # s) =
     (case (if at_start then kw_at kw (c # s) else None) of
        Some w \<Rightarrow> Some w
      | None \<Rightarrow> kw_find kw (c = CHR 0x0A) s)"

definition moduleRe :: "string \<Rightarrow> string option" where
  "moduleRe b = kw_find ''module'' True b"

definition goVerRe :: "string \<Rightarrow> string option" where
  "goVerRe b = kw_find ''go'' True b"

text \<open>The tail of a require line after the version: nothing, or an indirect comment.\<close>

definition require_tail :: "string \<Rightarrow> bool" where
  "require_tail s \<longleftrightarrow>
     (let r = trim_by re_space s in
      r = [] \<or> (has_prefix r ''//'' \<and> trim_by re_space (drop 2 r) = ''indirect''))"

definition requireRe :: "string \<Rightarrow> (string \<times> string) option" where
  "requireRe line =
     (let s = dropWhile re_space line;
          p = takeWhile re_word_path s;
          r = dropWhile re_word_path s;
          t = dropWhile re_space r;
          n = length (takeWhile (\<lambda>c. \<not> re_space c) t)
      in if 3 \<le> length p \<and> CHR ''.'' \<in> set (butlast (tl p)) \<and> r \<noteq> [] \<and> re_space (hd r)
            \<and> t \<noteq> [] \<and> hd t = CHR ''v''
         then map_option (\<lambda>k. (p, take k t))
           (List.find (\<lambda>k. require_tail (drop k t)) (rev [2..<Suc n]))
         else None)"

fun require_lines :: "nat \<Rightarrow> string list \<Rightarrow> Require list" where
  "require_lines i [] = []"
| "require_lines i (line # ls) =
     (case requireRe line of
        None \<Rightarrow> require_lines (Suc i) ls
      | Some (p, v) \<Rightarrow>
          if str_contains line ''// indirect'' then require_lines (Suc i) ls
          else \<lparr>rqPath = p, rqVersion = v, rqLine = i + 1\<rparr> # require_lines (Suc i) ls)"

text \<open>A file read: its content, that it does not exist, or another error.\<close>

datatype read_result = ReadOk string | NotExist | ReadErr string

definition loadGoMod :: "read_result \<Rightarrow> workspace \<Rightarrow> string + workspace" where
  "loadGoMod r w =
     (case r of
        NotExist \<Rightarrow> Inr w
      | ReadErr e \<Rightarrow> Inl (''read go.mod: '' @ e)
      | ReadOk b \<Rightarrow>
          Inr (w\<lparr>wsModulePath := (case moduleRe b of Some m \<Rightarrow> m | None \<Rightarrow> wsModulePath w),
                 wsGoVersion := (case goVerRe b of Some m \<Rightarrow> m | None \<Rightarrow> wsGoVersion w),
                 wsRequires := wsRequires w @ require_lines 0 (split_char (CHR 0x0A) b)\<rparr>))"

definition ModulePath :: "string \<Rightarrow> read_result \<Rightarrow> string + string" where
  "ModulePath root r =
     (case r of
        NotExist \<Rightarrow> Inl (''no go.mod in '' @ root @ ''; run `go mod init <module>` first'')
      | ReadErr e \<Rightarrow> Inl (''read go.mod: '' @ e)
      | ReadOk b \<Rightarrow>
          (case moduleRe b of
             None \<Rightarrow> Inl (''go.mod in '' @ root @ '' has no module declaration'')
           | Some m \<Rightarrow> Inr m))"

section \<open>Loading\<close>

text \<open>
  A directory entry: a directory whose listing may fail, or a file whose read may fail. Entries are
  in the lexical order filepath.WalkDir visits them.
\<close>

datatype entry =
    EDir string "entry list option"
  | EFile string "string option"

record parsed =
  paAST :: node
  paPackage :: string
  paComments :: "string list"
  paErr :: "string option"

record loadOpts =
  includeTests :: bool
  includeGen :: bool
  extraPrune :: "string list"

definition pruneDirs :: "string list" where
  "pruneDirs = [''.git'', ''vendor'', ''node_modules'', ''.venv'', ''__pycache__'', ''bin'', ''dist'',
     ''build'', ''.dakcoder'', ''.claude'', ''.idea'', ''.vscode'', ''testdata'']"

definition prunes :: "loadOpts \<Rightarrow> string \<Rightarrow> bool" where
  "prunes opt name \<longleftrightarrow> name \<in> set pruneDirs \<or> name \<in> set (extraPrune opt) \<or> has_prefix name ''.''"

definition generated_text :: "string \<Rightarrow> bool" where
  "generated_text c \<longleftrightarrow>
     has_prefix c ''// Code generated '' \<and> has_suffix c '' DO NOT EDIT.''
     \<and> length ''// Code generated '' + length '' DO NOT EDIT.'' \<le> length c \<and> CHR 0x0A \<notin> set c"

definition isGenerated :: "string list \<Rightarrow> bool" where
  "isGenerated comments \<longleftrightarrow> list_ex generated_text comments"

definition rel_join :: "string \<Rightarrow> string \<Rightarrow> string" where
  "rel_join dir name = (if dir = [] then name else dir @ ''/'' @ name)"

text \<open>The walk's callback on one file, on the files found and the number of reads so far.\<close>

definition visit_file ::
  "(string \<Rightarrow> string \<Rightarrow> parsed option) \<Rightarrow> loadOpts \<Rightarrow> string \<Rightarrow> string option
    \<Rightarrow> gofile list \<times> nat \<Rightarrow> gofile list \<times> nat" where
  "visit_file parse opt rel content st =
     (let isTest = has_suffix rel ''_test.go'' in
      if \<not> has_suffix rel ''.go'' then st
      else if isTest \<and> \<not> includeTests opt then st
      else (case content of
              None \<Rightarrow> st
            | Some src \<Rightarrow>
                (case parse rel src of
                   None \<Rightarrow> (fst st, snd st + 1)
                 | Some pa \<Rightarrow>
                     let f = \<lparr>fRel = rel, fSrc = src, fAST = paAST pa, fPackage = paPackage pa,
                              fLayer = classify rel isTest, fGenerated = isGenerated (paComments pa),
                              fParseErr = paErr pa\<rparr>
                     in if fGenerated f \<and> \<not> includeGen opt then (fst st, snd st + 1)
                        else (fst st @ [f], snd st + 1))))"

fun walk_entry ::
  "(string \<Rightarrow> string \<Rightarrow> parsed option) \<Rightarrow> loadOpts \<Rightarrow> string \<Rightarrow> entry
    \<Rightarrow> gofile list \<times> nat \<Rightarrow> gofile list \<times> nat" where
  "walk_entry parse opt dir (EFile name content) st =
     visit_file parse opt (rel_join dir name) content st"
| "walk_entry parse opt dir (EDir name listing) st =
     (if prunes opt name then st
      else (case listing of
              None \<Rightarrow> st
            | Some es \<Rightarrow> fold (walk_entry parse opt (rel_join dir name)) es st))"

section \<open>Configuration files\<close>

text \<open>A yaml.v3 node: scalars with their tag, mappings and sequences with their contents.\<close>

datatype ynode =
    YScalar (yvalue: string) string nat nat
  | YMapping "ynode list" nat nat
  | YSequence "ynode list" nat nat
  | YAlias nat nat

definition placeholderValues :: "string list" where
  "placeholderValues =
     ['''', ''~'', ''null'', ''<nil>'', ''changeme'', ''change_me'', ''todo'', ''tbd'', ''xxx'',
      ''placeholder'', ''example'', ''none'', ''your_password_here'', ''secret'']"

definition HasRealValue :: "ConfigKey \<Rightarrow> bool" where
  "HasRealValue k =
     (if \<not> ckScalar k \<or> ckEmpty k then False
      else let v = trim_space (ckValue k) in
        if to_lower v \<in> set placeholderValues then False
        else if has_prefix v ''${'' \<or> (has_prefix v ''<'' \<and> has_suffix v ''>'') then False
        else True)"

definition dotted :: "string \<Rightarrow> string \<Rightarrow> string" where
  "dotted pre k = (if pre = [] then k else pre @ ''.'' @ k)"

definition key_entry :: "string \<Rightarrow> nat \<Rightarrow> nat \<Rightarrow> ynode \<Rightarrow> ConfigKey" where
  "key_entry path line col v =
     (case v of
        YScalar value tag _ _ \<Rightarrow>
          \<lparr>ckPath = path, ckLine = line, ckCol = col, ckScalar = True,
           ckEmpty = (value = [] \<or> tag = ''!!null''), ckValue = value\<rparr>
      | _ \<Rightarrow>
          \<lparr>ckPath = path, ckLine = line, ckCol = col, ckScalar = False, ckEmpty = False,
           ckValue = []\<rparr>)"

fun flatten :: "ynode \<Rightarrow> string \<Rightarrow> key_table \<Rightarrow> key_table"
  and flatten_pairs :: "ynode list \<Rightarrow> string \<Rightarrow> key_table \<Rightarrow> key_table" where
  "flatten (YMapping content _ _) pre out = flatten_pairs content pre out"
| "flatten (YScalar _ _ _ _) pre out = out"
| "flatten (YSequence _ _ _) pre out = out"
| "flatten (YAlias _ _) pre out = out"
| "flatten_pairs (YScalar k t line col # v # rest) pre out =
     (let path = dotted pre k;
          out' = flatten v path out
      in flatten_pairs rest pre (AList.update (to_lower path) (key_entry path line col v) out'))"
| "flatten_pairs (_ # v # rest) pre out = flatten_pairs rest pre out"
| "flatten_pairs _ pre out = out"

definition envOf :: "string \<Rightarrow> string" where
  "envOf name =
     (let base = trim_suffix (trim_suffix name ''.yaml'') ''.yml'' in
      if base = ''config'' then [] else trim_prefix base ''config.'')"

text \<open>
  loadConfigs: the directory's files (none: the directory cannot be read), each with its content
  and what yaml.Unmarshal made of it (an error, or the document's root if it has one).
\<close>

definition config_name :: "string \<Rightarrow> bool" where
  "config_name n \<longleftrightarrow> has_suffix n ''.yaml'' \<or> has_suffix n ''.yml''"

definition load_config ::
  "(string \<Rightarrow> string + ynode option) \<Rightarrow> string \<times> string option \<Rightarrow> workspace \<Rightarrow> workspace" where
  "load_config unmarshal e w =
     (case snd e of
        None \<Rightarrow> w
      | Some body \<Rightarrow>
          let cf = \<lparr>cfRel = ''configs/'' @ fst e, cfEnv = envOf (fst e), cfKeys = [], cfParseErr = None\<rparr>;
              cf' = (case unmarshal body of
                       Inl err \<Rightarrow> cf\<lparr>cfParseErr := Some err\<rparr>
                     | Inr None \<Rightarrow> cf
                     | Inr (Some root) \<Rightarrow> cf\<lparr>cfKeys := flatten root [] []\<rparr>)
          in w\<lparr>wsConfigs := wsConfigs w @ [cf'], wsReadCount := wsReadCount w + 1\<rparr>)"

definition loadConfigs ::
  "(string \<Rightarrow> string + ynode option) \<Rightarrow> (string \<times> string option) list option \<Rightarrow> workspace \<Rightarrow> workspace" where
  "loadConfigs unmarshal dir w =
     (case dir of
        None \<Rightarrow> w
      | Some es \<Rightarrow>
          fold (load_config unmarshal) (sort_key fst (filter (\<lambda>e. config_name (fst e)) es)) w)"

definition cf_key :: "ConfigFile \<Rightarrow> string \<Rightarrow> ConfigKey option" where
  "cf_key c path = map_of (cfKeys c) (to_lower path)"

definition cf_has :: "ConfigFile \<Rightarrow> string \<Rightarrow> bool" where
  "cf_has c path \<longleftrightarrow> map_of (cfKeys c) (to_lower path) \<noteq> None"

definition BaseConfig :: "workspace \<Rightarrow> ConfigFile option" where
  "BaseConfig w = List.find (\<lambda>c. cfEnv c = []) (wsConfigs w)"

section \<open>Load\<close>

definition empty_workspace :: workspace where
  "empty_workspace = \<lparr>wsModulePath = [], wsGoVersion = [], wsFiles = [], wsRequires = [],
     wsConfigs = [], wsReadCount = 0\<rparr>"

text \<open>The root directory as the loader finds it: what os.Stat says of its absolute path, and its contents.\<close>

datatype root_stat = StatErr string | NotDir | IsDir

record root_dir =
  rdAbs :: string
  rdStat :: root_stat
  rdGoMod :: read_result
  rdEntries :: "entry list option"
  rdConfigs :: "(string \<times> string option) list option"

definition Load ::
  "(string \<Rightarrow> string \<Rightarrow> parsed option) \<Rightarrow> (string \<Rightarrow> string + ynode option) \<Rightarrow> loadOpts
    \<Rightarrow> root_dir \<Rightarrow> string + workspace" where
  "Load parse unmarshal opt root =
     (case rdStat root of
        StatErr e \<Rightarrow> Inl (''stat root: '' @ e)
      | NotDir \<Rightarrow> Inl (''root is not a directory: '' @ rdAbs root)
      | IsDir \<Rightarrow>
          (case loadGoMod (rdGoMod root) empty_workspace of
             Inl e \<Rightarrow> Inl e
           | Inr w \<Rightarrow>
               let (fs, reads) =
                     (case rdEntries root of
                        None \<Rightarrow> ([], 0)
                      | Some es \<Rightarrow> fold (walk_entry parse opt []) es ([], 0))
               in Inr (loadConfigs unmarshal (rdConfigs root)
                    (w\<lparr>wsFiles := fs, wsReadCount := reads\<rparr>))))"

section \<open>What the walk keeps\<close>

text \<open>The names the operating system can return: no slash inside.\<close>

fun names_ok :: "entry \<Rightarrow> bool" where
  "names_ok (EFile n _) \<longleftrightarrow> CHR ''/'' \<notin> set n"
| "names_ok (EDir n None) \<longleftrightarrow> CHR ''/'' \<notin> set n"
| "names_ok (EDir n (Some es)) \<longleftrightarrow> CHR ''/'' \<notin> set n \<and> list_all names_ok es"

definition kept_file :: "loadOpts \<Rightarrow> gofile \<Rightarrow> bool" where
  "kept_file opt f \<longleftrightarrow>
     has_suffix (fRel f) ''.go''
     \<and> (includeTests opt \<or> \<not> has_suffix (fRel f) ''_test.go'')
     \<and> (includeGen opt \<or> \<not> fGenerated f)
     \<and> fLayer f = classify (fRel f) (has_suffix (fRel f) ''_test.go'')
     \<and> list_all (\<lambda>d. \<not> prunes opt d) (butlast (split_char (CHR ''/'') (fRel f)))"

text \<open>The directories on the way down to \<open>dir\<close>; the root itself is the empty path.\<close>

definition dir_ok :: "loadOpts \<Rightarrow> string \<Rightarrow> bool" where
  "dir_ok opt dir \<longleftrightarrow> dir = [] \<or> list_all (\<lambda>d. \<not> prunes opt d) (split_char (CHR ''/'') dir)"

lemma split_char_snoc:
  "CHR ''/'' \<notin> set n \<Longrightarrow> split_char (CHR ''/'') (d @ ''/'' @ n) = split_char (CHR ''/'') d @ [n]"
proof (induction d)
  case Nil
  then show ?case by (simp add: split_char_single)
next
  case (Cons c d)
  obtain w ws where "split_char (CHR ''/'') d = w # ws" by (cases "split_char (CHR ''/'') d") auto
  with Cons show ?case by auto
qed

lemma split_rel_join:
  "CHR ''/'' \<notin> set n \<Longrightarrow>
     split_char (CHR ''/'') (rel_join dir n) = (if dir = [] then [n] else split_char (CHR ''/'') dir @ [n])"
  by (auto simp: rel_join_def split_char_single split_char_snoc simp del: append_Cons append_Nil
      simp flip: append.append_Cons)

definition walk_inv :: "loadOpts \<Rightarrow> gofile list \<times> nat \<Rightarrow> bool" where
  "walk_inv opt st \<longleftrightarrow> list_all (kept_file opt) (fst st) \<and> length (fst st) \<le> snd st"

lemma visit_file_inv:
  assumes "walk_inv opt st" "dir_ok opt dir" "CHR ''/'' \<notin> set name"
  shows "walk_inv opt (visit_file parse opt (rel_join dir name) content st)"
  using assms
  by (auto simp: visit_file_def walk_inv_def kept_file_def dir_ok_def split_rel_join Let_def
      split: option.splits)

lemma dir_ok_join:
  "\<lbrakk>dir_ok opt dir; \<not> prunes opt name; CHR ''/'' \<notin> set name\<rbrakk> \<Longrightarrow> dir_ok opt (rel_join dir name)"
  by (auto simp: dir_ok_def split_rel_join)

lemma walk_entry_inv:
  "\<lbrakk>walk_inv opt st; dir_ok opt dir; names_ok e\<rbrakk> \<Longrightarrow> walk_inv opt (walk_entry parse opt dir e st)"
proof (induction parse opt dir e st rule: walk_entry.induct)
  case (1 parse opt dir name content st)
  then show ?case by (simp add: visit_file_inv)
next
  case (2 parse opt dir name listing st)
  show ?case
  proof (cases "prunes opt name \<or> listing = None")
    case True
    then show ?thesis using "2.prems" by auto
  next
    case False
    then obtain es where es: "listing = Some es" and np: "\<not> prunes opt name" by auto
    from "2.prems"(3) es have n: "CHR ''/'' \<notin> set name" "list_all names_ok es" by auto
    have "walk_inv opt (fold (walk_entry parse opt (rel_join dir name)) xs t)"
      if "walk_inv opt t" "set xs \<subseteq> set es" for xs t
      using that
    proof (induction xs arbitrary: t)
      case (Cons x xs)
      then have "x \<in> set es" by simp
      then have "walk_inv opt (walk_entry parse opt (rel_join dir name) x t)"
        using "2.IH" [OF np es, of x t] Cons.prems(1) n(2) dir_ok_join [OF "2.prems"(2) np n(1)]
        by (simp add: list_all_iff)
      then show ?case using Cons by simp
    qed simp
    then show ?thesis using es np "2.prems"(1) by simp
  qed
qed

lemma walk_entries_inv:
  "\<lbrakk>walk_inv opt st; dir_ok opt dir; list_all names_ok es\<rbrakk>
     \<Longrightarrow> walk_inv opt (fold (walk_entry parse opt dir) es st)"
  by (induction es arbitrary: st) (simp_all add: walk_entry_inv)

lemma load_configs_frame:
  "wsFiles (fold (load_config um) es w) = wsFiles w
   \<and> wsReadCount (fold (load_config um) es w)
      = wsReadCount w + length (filter (\<lambda>e. snd e \<noteq> None) es)
   \<and> length (wsConfigs (fold (load_config um) es w))
      = length (wsConfigs w) + length (filter (\<lambda>e. snd e \<noteq> None) es)"
  by (induction es arbitrary: w) (auto simp: load_config_def Let_def split: option.splits)

section \<open>What the key table holds\<close>

text \<open>
  The declarative reading of a document: \<open>ydecl n segs v line col\<close> when following the mapping
  keys \<open>segs\<close> from \<open>n\<close> leads to the value \<open>v\<close>, whose key stands at that position.
\<close>

inductive ypair :: "ynode list \<Rightarrow> string \<Rightarrow> nat \<Rightarrow> nat \<Rightarrow> ynode \<Rightarrow> bool" where
  here: "ypair (YScalar k t line col # v # rest) k line col v"
| there: "ypair rest k line col v \<Longrightarrow> ypair (x # y # rest) k line col v"

inductive ydecl :: "ynode \<Rightarrow> string list \<Rightarrow> nat \<Rightarrow> nat \<Rightarrow> ynode \<Rightarrow> bool" where
  key: "ypair c k line col v \<Longrightarrow> ydecl (YMapping c l p) [k] line col v"
| nested: "\<lbrakk>ypair c k line' col' u; ydecl u segs line col v\<rbrakk> \<Longrightarrow> ydecl (YMapping c l p) (k # segs) line col v"

inductive_cases ypair_ConsE: "ypair (x # y # rest) k line col v"
inductive_cases ypair_shortE: "ypair [] k line col v" "ypair [x] k line col v"
inductive_cases ydecl_MappingE: "ydecl (YMapping c l p) segs line col v"
inductive_simps ydecl_leaf: "ydecl (YScalar a t l p) segs line col v" "ydecl (YSequence c l p) segs line col v"
  "ydecl (YAlias l p) segs line col v"

definition dotted_path :: "string \<Rightarrow> string list \<Rightarrow> string" where
  "dotted_path pre segs = foldl dotted pre segs"

lemma dotted_path_simps [simp]:
  "dotted_path pre [] = pre" "dotted_path pre (k # ks) = dotted_path (dotted pre k) ks"
  by (simp_all add: dotted_path_def)

text \<open>The writes flatten makes, in order.\<close>

fun ywrites :: "ynode \<Rightarrow> string \<Rightarrow> (string \<times> ConfigKey) list"
  and ywrites_pairs :: "ynode list \<Rightarrow> string \<Rightarrow> (string \<times> ConfigKey) list" where
  "ywrites (YMapping content _ _) pre = ywrites_pairs content pre"
| "ywrites _ pre = []"
| "ywrites_pairs (YScalar k t line col # v # rest) pre =
     (let path = dotted pre k in
      ywrites v path @ (to_lower path, key_entry path line col v) # ywrites_pairs rest pre)"
| "ywrites_pairs (_ # v # rest) pre = ywrites_pairs rest pre"
| "ywrites_pairs _ pre = []"

abbreviation put_keys :: "(string \<times> ConfigKey) list \<Rightarrow> key_table \<Rightarrow> key_table" where
  "put_keys ws out \<equiv> fold (\<lambda>(k, e) m. AList.update k e m) ws out"

lemma flatten_writes:
  "flatten n pre out = put_keys (ywrites n pre) out"
  "flatten_pairs ns pre out = put_keys (ywrites_pairs ns pre) out"
  by (induction n pre out and ns pre out rule: flatten_flatten_pairs.induct) (simp_all add: Let_def)

lemma map_of_put_keys: "map_of (put_keys ws out) = map_of out ++ map_of (rev ws)"
proof (induction ws arbitrary: out)
  case (Cons w ws)
  obtain k e where w: "w = (k, e)" by (cases w)
  have "map_of (AList.update k e out) ++ map_of (rev ws) = map_of out ++ map_of (rev ws @ [(k, e)])"
    by (auto simp: fun_eq_iff update_conv' map_add_def split: option.splits)
  then show ?case using Cons w by simp
qed simp

lemma distinct_put_keys:
  "distinct (map fst out) \<Longrightarrow> distinct (map fst (put_keys ws out))"
  by (induction ws arbitrary: out) (auto simp: distinct_update)

lemma ydecl_pos: "ydecl (YMapping c l p) segs line col v \<longleftrightarrow> ydecl (YMapping c 0 0) segs line col v"
  by (auto elim!: ydecl_MappingE intro: ydecl.intros)

lemma ydecl_short: "\<not> ydecl (YMapping [] l p) segs line col v" "\<not> ydecl (YMapping [x] l p) segs line col v"
  by (auto elim!: ydecl_MappingE ypair_shortE)

lemma ydecl_scalar_key:
  "ydecl (YMapping (YScalar k t line col # v # rest) l p) segs ln cl u \<longleftrightarrow>
     (segs = [k] \<and> ln = line \<and> cl = col \<and> u = v)
     \<or> (\<exists>ks. segs = k # ks \<and> ydecl v ks ln cl u)
     \<or> ydecl (YMapping rest 0 0) segs ln cl u"
  by (auto elim!: ydecl_MappingE ypair_ConsE intro: ydecl.intros ypair.intros)

lemma ydecl_other_key:
  "(\<nexists>k t line col. x = YScalar k t line col) \<Longrightarrow>
     ydecl (YMapping (x # v # rest) l p) segs ln cl u \<longleftrightarrow> ydecl (YMapping rest 0 0) segs ln cl u"
  by (auto elim!: ydecl_MappingE ypair_ConsE intro: ydecl.intros ypair.intros)

lemma ywrites_iff:
  "(lp, e) \<in> set (ywrites n pre) \<longleftrightarrow>
     (\<exists>segs line col v. ydecl n segs line col v \<and> lp = to_lower (dotted_path pre segs)
        \<and> e = key_entry (dotted_path pre segs) line col v)"
  "(lp, e) \<in> set (ywrites_pairs ns pre) \<longleftrightarrow>
     (\<exists>segs line col v. ydecl (YMapping ns 0 0) segs line col v \<and> lp = to_lower (dotted_path pre segs)
        \<and> e = key_entry (dotted_path pre segs) line col v)"
proof (induction n pre and ns pre arbitrary: lp e and lp e rule: ywrites_ywrites_pairs.induct)
  case (1 content l p pre)
  then show ?case using ydecl_pos [of content l p] by simp
next
  case (3 k t line col v rest pre)
  have deep: "(\<exists>segs ln cl u. (\<exists>ks. segs = k # ks \<and> ydecl v ks ln cl u) \<and> Q segs ln cl u) \<longleftrightarrow>
      (\<exists>ks ln cl u. ydecl v ks ln cl u \<and> Q (k # ks) ln cl u)" for Q
    by blast
  show ?case
    unfolding ydecl_scalar_key conj_disj_distribR ex_disj_distrib deep
    using "3.IH" by (auto simp: Let_def)
qed (auto simp: ydecl_leaf ydecl_short ydecl_other_key)

lemma in_dom_rev_writes: "map_of (rev ws) k \<noteq> None \<longleftrightarrow> (\<exists>e. (k, e) \<in> set ws)"
  by (auto simp: map_of_eq_None_iff image_iff intro: bexI [rotated])

text \<open>
  The key table against the document. A dotted path is declared exactly when some chain of mapping
  keys spells it (case folded), and the entry found is one of a chain that does.
\<close>

lemma flatten_has_iff:
  "map_of (flatten root [] []) (to_lower path) \<noteq> None \<longleftrightarrow>
     (\<exists>segs line col v. ydecl root segs line col v
        \<and> to_lower (dotted_path [] segs) = to_lower path)"
  unfolding flatten_writes map_of_put_keys
  using in_dom_rev_writes [of "ywrites root []" "to_lower path"]
  by (auto simp: ywrites_iff map_add_def split: option.splits) metis+

lemma flatten_sound:
  "map_of (flatten root [] []) k = Some e \<Longrightarrow>
     \<exists>segs line col v. ydecl root segs line col v \<and> k = to_lower (dotted_path [] segs)
       \<and> e = key_entry (dotted_path [] segs) line col v"
proof -
  assume "map_of (flatten root [] []) k = Some e"
  then have "(k, e) \<in> set (ywrites root [])"
    unfolding flatten_writes map_of_put_keys by (auto dest: map_of_SomeD)
  then show ?thesis by (simp add: ywrites_iff)
qed

section \<open>Properties\<close>

text \<open>
  The loader hands the rules exactly the files they may see. Whatever the file system holds and
  the parser returns, every loaded file is a Go file outside the pruned directories, test files and
  generated files are there only when asked for, the recorded layer is the one of the file's path,
  and no file was counted without having been read (the single-read budget).
\<close>

theorem load_admits_only_kept:
  assumes "Load parse unmarshal opt root = Inr w"
    and "list_all names_ok (olist (rdEntries root))"
  shows "list_all (kept_file opt) (wsFiles w)
    \<and> length (wsFiles w) + length (wsConfigs w) \<le> wsReadCount w"
proof -
  let ?st = "case rdEntries root of None \<Rightarrow> ([], 0) | Some es \<Rightarrow> fold (walk_entry parse opt []) es ([], 0)"
  have i: "walk_inv opt ?st"
    using assms(2) walk_entries_inv [of opt "([], 0)" "[]" _ parse]
    by (auto simp: walk_inv_def dir_ok_def split: option.splits)
  obtain w0 where w0: "loadGoMod (rdGoMod root) empty_workspace = Inr w0"
    and w: "w = loadConfigs unmarshal (rdConfigs root) (w0\<lparr>wsFiles := fst ?st, wsReadCount := snd ?st\<rparr>)"
    using assms(1) by (auto simp: Load_def case_prod_beta Let_def split: root_stat.splits sum.splits)
  have "wsConfigs w0 = []"
    using w0 by (auto simp: loadGoMod_def empty_workspace_def split: read_result.splits)
  with i w show ?thesis
    by (auto simp: walk_inv_def loadConfigs_def load_configs_frame split: option.splits)
qed

definition demo_root :: root_dir where
  "demo_root =
     \<lparr>rdAbs = ''/srv'', rdStat = IsDir, rdGoMod = ReadOk ''module pisapi'',
      rdEntries = Some [EFile ''main.go'' (Some ''package main''),
        EDir ''handler'' (Some [EFile ''user.go'' (Some ''package handler''),
          EFile ''user_test.go'' (Some ''package handler'')]),
        EDir ''vendor'' (Some [EFile ''x.go'' (Some ''package x'')])],
      rdConfigs = None\<rparr>"

definition demo_parse :: "string \<Rightarrow> string \<Rightarrow> parsed option" where
  "demo_parse rel src =
     Some \<lparr>paAST = FileNode no_span (Ident no_span ''p'') [], paPackage = ''p'', paComments = [], paErr = None\<rparr>"

definition demo_opts :: loadOpts where
  "demo_opts = \<lparr>includeTests = False, includeGen = False, extraPrune = []\<rparr>"

definition demo_ws :: workspace where
  "demo_ws =
     (case Load demo_parse (\<lambda>_. Inr None) demo_opts demo_root of Inr w \<Rightarrow> w | Inl _ \<Rightarrow> empty_workspace)"

lemma demo_load: "Load demo_parse (\<lambda>_. Inr None) demo_opts demo_root = Inr demo_ws"
  by (simp add: demo_ws_def Load_def demo_root_def loadGoMod_def loadConfigs_def case_prod_beta Let_def)

lemma demo_ws_files: "map fRel (wsFiles demo_ws) = [''main.go'', ''handler/user.go'']"
  by code_simp

theorem load_admits_only_kept_witness:
  "map fRel (wsFiles demo_ws) = [''main.go'', ''handler/user.go'']
   \<and> list_all (kept_file demo_opts) (wsFiles demo_ws)"
  using load_admits_only_kept [OF demo_load] demo_ws_files by (simp add: demo_root_def)

text \<open>
  A configuration key is present in the key table that the rules query exactly when the YAML
  document declares it: some chain of mapping keys, joined with dots, spells the key up to case.
\<close>

theorem config_key_declared_iff:
  "cf_has (cf\<lparr>cfKeys := flatten root [] []\<rparr>) path \<longleftrightarrow>
     (\<exists>segs line col v. ydecl root segs line col v
        \<and> to_lower (dotted_path [] segs) = to_lower path)"
  unfolding cf_has_def flatten_has_iff [symmetric] by simp

end
