(* ===== verification/RuleEngine.thy ===== *)
theory RuleEngine
  imports Workspace Naming
begin

text \<open>
  Model of the engine of gotools/internal/rules: the severities, violations and findings of
  rule.go, the deployment configuration of config.go, the registry and its Run.

  A Go rule reports by appending to a shared slice; here a check is the list of what it reports,
  in order, and Run concatenates these lists. A nil Check is \<^const>\<open>None\<close>. The pass hands a rule its own
  metadata, so the record of the metadata comes first and \<open>Rule\<close> extends it with the check. The
  duration of a run is not part of its result.
\<close>

named_theorems reported \<open>membership in the violations a check reports\<close>

section \<open>Severities and violations\<close>

type_synonym severity = string

definition SeverityError :: severity where
  "SeverityError = ''error''"

definition SeverityWarning :: severity where
  "SeverityWarning = ''warning''"

lemma severities_differ [simp]: "SeverityError \<noteq> SeverityWarning" "SeverityWarning \<noteq> SeverityError"
  by (simp_all add: SeverityError_def SeverityWarning_def)

record Violation =
  vRule :: string
  vSeverity :: severity
  vPath :: string
  vLine :: nat
  vCol :: nat
  vMessage :: string
  vFix :: string
  vCitation :: string

definition violation_string :: "Violation \<Rightarrow> string" where
  "violation_string v =
     (let loc = (if 0 < vLine v then vPath v @ '':'' @ itoa (vLine v) else vPath v);
          s = ''['' @ vRule v @ ''] '' @ loc @ '' '' @ emdash @ '' '' @ vMessage v;
          s1 = (if vFix v \<noteq> [] then s @ [CHR 0x0A] @ ''      fix: '' @ vFix v else s)
      in if vCitation v \<noteq> [] then s1 @ [CHR 0x0A] @ ''      see: '' @ vCitation v else s1)"

record rule_meta =
  rID :: string
  rSeverity :: severity
  rSummary :: string
  rCitation :: string
  rLegacy :: bool

section \<open>Configuration\<close>

text \<open>
  A nil slice is \<^const>\<open>None\<close>. The two index maps hold only true entries, so they are the lists of
  their keys.
\<close>

record Config =
  cAllowedDeps :: "string list option"
  cAllowedTestDeps :: "string list option"
  cMaxFileLines :: int
  cDisable :: "string list"
  cSeverityOverride :: "(string \<times> severity) list"
  cRequiredDomainFields :: "string list option"
  cTimestampLayout :: string
  cRoundTripNotice :: int
  cRoundTripRecommend :: int
  cSensitiveFields :: "string list option"
  cDisabled :: "string list"
  cSensitive :: "string list"

definition normaliseIdent :: "string \<Rightarrow> string" where
  "normaliseIdent s = map lower_char (filter (\<lambda>r. is_upper r \<or> is_lower r \<or> is_digit r) s)"

definition index_config :: "Config \<Rightarrow> Config" where
  "index_config c =
     c\<lparr>cDisabled := cDisable c, cSensitive := map normaliseIdent (olist (cSensitiveFields c))\<rparr>"

definition DefaultSensitiveFields :: "string list" where
  "DefaultSensitiveFields =
     [''password'', ''passwd'', ''pwd'',
      ''token'', ''accesstoken'', ''refreshtoken'',
      ''authorization'', ''auth'', ''secret'', ''secretkey'', ''credential'', ''credentials'',
      ''otp'',
      ''aadhaar'', ''aadhar'', ''adhar'', ''aadhaarnumber'', ''aadharnumber'',
      ''pan'', ''pannumber'',
      ''mobile'', ''mobileno'', ''mobilenumber'', ''phone'', ''phoneno'', ''phonenumber'',
      ''email'', ''emailid'',
      ''accountnumber'', ''accountno'', ''ifsc'', ''upiid'',
      ''card'', ''cardnumber'', ''cvv'', ''pin'',
      ''dob'', ''dateofbirth'']"

definition TimestampLayout :: string where
  "TimestampLayout = ''2006-01-02 15:04:05''"

definition DefaultConfig :: Config where
  "DefaultConfig = index_config
     \<lparr>cAllowedDeps = Some
        [''github.com/Masterminds/squirrel'', ''github.com/jackc/pgx/v5'',
         ''gitlab.cept.gov.in/it-2.0-common/'', ''go.uber.org/fx''],
      cAllowedTestDeps = Some
        [''github.com/stretchr/testify'', ''github.com/testcontainers/testcontainers-go'',
         ''github.com/golang-migrate/migrate'', ''github.com/magiconair/properties'',
         ''go.uber.org/mock'', ''github.com/golang/mock''],
      cMaxFileLines = 600, cDisable = [], cSeverityOverride = [],
      cRequiredDomainFields = Some [''ID'', ''CreatedAt'', ''UpdatedAt''],
      cTimestampLayout = TimestampLayout, cRoundTripNotice = 2, cRoundTripRecommend = 3,
      cSensitiveFields = Some DefaultSensitiveFields, cDisabled = [], cSensitive = []\<rparr>"

definition isZero :: "Config \<Rightarrow> bool" where
  "isZero c \<longleftrightarrow> cAllowedDeps c = None \<and> cMaxFileLines c = 0"

definition Disabled :: "Config \<Rightarrow> string \<Rightarrow> bool" where
  "Disabled c i \<longleftrightarrow> i \<in> set (cDisabled c)"

definition HasSeverityOverride :: "Config \<Rightarrow> string \<Rightarrow> bool" where
  "HasSeverityOverride c i =
     (case map_of (cSeverityOverride c) i of
        None \<Rightarrow> False
      | Some s \<Rightarrow> s = SeverityError \<or> s = SeverityWarning)"

definition SeverityFor :: "Config \<Rightarrow> 'a rule_meta_scheme \<Rightarrow> severity" where
  "SeverityFor c r =
     (case map_of (cSeverityOverride c) (rID r) of
        None \<Rightarrow> rSeverity r
      | Some s \<Rightarrow> if s = SeverityError \<or> s = SeverityWarning then s else rSeverity r)"

text \<open>identWords: \<open>prev\<close> is the rune before the current one and \<open>cur\<close> the word being collected.\<close>

definition ident_sep :: "char \<Rightarrow> bool" where
  "ident_sep r \<longleftrightarrow> r = CHR ''_'' \<or> r = CHR ''-'' \<or> r = CHR '' ''"

definition ident_flush :: "string \<Rightarrow> string list" where
  "ident_flush cur = (if cur = [] then [] else [to_lower cur])"

fun ident_scan :: "char option \<Rightarrow> string \<Rightarrow> string \<Rightarrow> string list" where
  "ident_scan prev cur [] = ident_flush cur"
| "ident_scan prev cur (r # rs) =
     (if ident_sep r then ident_flush cur @ ident_scan (Some r) [] rs
      else if is_upper r then
        (let prevLower = (case prev of Some q \<Rightarrow> \<not> is_upper q \<and> q \<noteq> CHR ''_'' | None \<Rightarrow> False);
             nextLower = (case rs of n # _ \<Rightarrow> \<not> is_upper n \<and> n \<noteq> CHR ''_'' | [] \<Rightarrow> False);
             prevUpper = (case prev of Some q \<Rightarrow> is_upper q | None \<Rightarrow> False)
         in if prevLower \<or> (prevUpper \<and> nextLower)
            then ident_flush cur @ ident_scan (Some r) [r] rs
            else ident_scan (Some r) (cur @ [r]) rs)
      else ident_scan (Some r) (cur @ [r]) rs)"

definition identWords :: "string \<Rightarrow> string list" where
  "identWords s = ident_scan None [] s"

text \<open>The words and adjacent pairs of words that IsSensitive looks up.\<close>

fun word_pairs :: "string list \<Rightarrow> string list" where
  "word_pairs [] = []"
| "word_pairs [w] = [w]"
| "word_pairs (w # v # ws) = w # (w @ v) # word_pairs (v # ws)"

definition IsSensitive :: "Config \<Rightarrow> string \<Rightarrow> bool" where
  "IsSensitive c ident =
     (if ident = [] then False
      else if normaliseIdent ident \<in> set (cSensitive c) then True
      else list_ex (\<lambda>w. w \<in> set (cSensitive c)) (word_pairs (identWords ident)))"

definition isExternal :: "string \<Rightarrow> bool" where
  "isExternal path = (CHR ''.'' \<in> set (fst (cut_char path (CHR ''/''))))"

definition DepAllowed :: "Config \<Rightarrow> string \<Rightarrow> string \<Rightarrow> bool \<Rightarrow> bool" where
  "DepAllowed c path modulePath inTest =
     (if \<not> isExternal path then True
      else if modulePath \<noteq> [] \<and> (path = modulePath \<or> has_prefix path (modulePath @ ''/'')) then True
      else if list_ex (has_prefix path) (olist (cAllowedDeps c)) then True
      else inTest \<and> list_ex (has_prefix path) (olist (cAllowedTestDeps c)))"

text \<open>LoadConfig on the outcome of the read; yaml.Unmarshal into a Config is the parameter.\<close>

definition merge_config :: "Config \<Rightarrow> Config \<Rightarrow> Config" where
  "merge_config base over = index_config
     (base\<lparr>cAllowedDeps := (if cAllowedDeps over \<noteq> None then cAllowedDeps over else cAllowedDeps base),
       cAllowedTestDeps :=
         (if cAllowedTestDeps over \<noteq> None then cAllowedTestDeps over else cAllowedTestDeps base),
       cMaxFileLines := (if cMaxFileLines over \<noteq> 0 then cMaxFileLines over else cMaxFileLines base),
       cRequiredDomainFields :=
         (if cRequiredDomainFields over \<noteq> None then cRequiredDomainFields over
          else cRequiredDomainFields base),
       cTimestampLayout :=
         (if cTimestampLayout over \<noteq> [] then cTimestampLayout over else cTimestampLayout base),
       cRoundTripNotice :=
         (if cRoundTripNotice over \<noteq> 0 then cRoundTripNotice over else cRoundTripNotice base),
       cRoundTripRecommend :=
         (if cRoundTripRecommend over \<noteq> 0 then cRoundTripRecommend over else cRoundTripRecommend base),
       cSensitiveFields :=
         (if cSensitiveFields over \<noteq> None then cSensitiveFields over else cSensitiveFields base),
       cDisable := cDisable over, cSeverityOverride := cSeverityOverride over\<rparr>)"

definition LoadConfig :: "(string \<Rightarrow> string + Config) \<Rightarrow> read_result \<Rightarrow> string + Config" where
  "LoadConfig unmarshal r =
     (case r of
        NotExist \<Rightarrow> Inr DefaultConfig
      | ReadErr e \<Rightarrow> Inl (''read .dakcoder/gotools.yaml: '' @ e)
      | ReadOk b \<Rightarrow>
          (case unmarshal b of
             Inl e \<Rightarrow> Inl (''parse .dakcoder/gotools.yaml: '' @ e)
           | Inr over \<Rightarrow> Inr (merge_config DefaultConfig over)))"

section \<open>Passes and findings\<close>

definition normalisePath :: "string \<Rightarrow> string" where
  "normalisePath p = trim_prefix (replace_char (CHR 0x5C) ''/'' p) ''./''"

record Pass =
  pWS :: workspace
  pCfg :: Config
  pRule :: rule_meta
  pScope :: "string list"

definition Touched :: "Pass \<Rightarrow> string \<Rightarrow> bool" where
  "Touched p path = (if pScope p = [] then False else normalisePath path \<in> set (pScope p))"

text \<open>A finding keeps of its file only the path, the one field Report reads.\<close>

record Finding =
  fdPath :: string
  fdLine :: nat
  fdCol :: nat
  fdFix :: string
  fdSeverity :: severity

definition At :: "gofile \<Rightarrow> node \<Rightarrow> Finding" where
  "At f n = \<lparr>fdPath = fRel f, fdLine = fst (Position n), fdCol = snd (Position n), fdFix = [], fdSeverity = []\<rparr>"

definition AtLine :: "gofile \<Rightarrow> nat \<Rightarrow> Finding" where
  "AtLine f line = \<lparr>fdPath = fRel f, fdLine = line, fdCol = 0, fdFix = [], fdSeverity = []\<rparr>"

definition AtFile :: "gofile \<Rightarrow> Finding" where
  "AtFile f = \<lparr>fdPath = fRel f, fdLine = 1, fdCol = 0, fdFix = [], fdSeverity = []\<rparr>"

definition AtPath :: "string \<Rightarrow> nat \<Rightarrow> Finding" where
  "AtPath path line = \<lparr>fdPath = path, fdLine = line, fdCol = 0, fdFix = [], fdSeverity = []\<rparr>"

definition Fix :: "string \<Rightarrow> Finding \<Rightarrow> Finding" where
  "Fix s fd = fd\<lparr>fdFix := s\<rparr>"

definition Sev :: "severity \<Rightarrow> Finding \<Rightarrow> Finding" where
  "Sev s fd = fd\<lparr>fdSeverity := s\<rparr>"

definition Report :: "Pass \<Rightarrow> Finding \<Rightarrow> string \<Rightarrow> Violation" where
  "Report p fd msg =
     (let severity = SeverityFor (pCfg p) (pRule p) in
      \<lparr>vRule = rID (pRule p),
       vSeverity =
         (if fdSeverity fd \<noteq> [] \<and> \<not> HasSeverityOverride (pCfg p) (rID (pRule p))
          then fdSeverity fd else severity),
       vPath = fdPath fd, vLine = fdLine fd, vCol = fdCol fd, vMessage = msg,
       vFix = fdFix fd, vCitation = rCitation (pRule p)\<rparr>)"

record Rule = rule_meta +
  rCheck :: "(Pass \<Rightarrow> Violation list) option"

definition mk_rule ::
  "string \<Rightarrow> severity \<Rightarrow> string \<Rightarrow> string \<Rightarrow> bool \<Rightarrow> (Pass \<Rightarrow> Violation list) \<Rightarrow> Rule" where
  "mk_rule i sev summary citation legacy check =
     \<lparr>rID = i, rSeverity = sev, rSummary = summary, rCitation = citation, rLegacy = legacy,
      rCheck = Some check\<rparr>"

lemma mk_rule_sel [simp]:
  "rID (mk_rule i s su ci l c) = i" "rSeverity (mk_rule i s su ci l c) = s"
  "rLegacy (mk_rule i s su ci l c) = l" "rCheck (mk_rule i s su ci l c) = Some c"
  "rCitation (mk_rule i s su ci l c) = ci" "rSummary (mk_rule i s su ci l c) = su"
  by (simp_all add: mk_rule_def)

section \<open>The registry\<close>

record Registry =
  rgRules :: "Rule list"
  rgByID :: "(string \<times> Rule) list"

text \<open>The loop of NewRegistry; a panic is \<^const>\<open>Inl\<close> its message.\<close>

fun add_rules :: "Rule list \<Rightarrow> string list \<Rightarrow> Rule list \<Rightarrow> string + Rule list" where
  "add_rules acc seen [] = Inr acc"
| "add_rules acc seen (r # rs) =
     (if rID r = [] then Inl ''rules: rule with empty ID''
      else if rCheck r = None then Inl (''rules: rule '' @ rID r @ '' has no Check'')
      else if rID r \<in> set seen then Inl (''rules: duplicate rule ID '' @ rID r)
      else add_rules (acc @ [r]) (rID r # seen) rs)"

definition NewRegistry :: "Rule list \<Rightarrow> string + Registry" where
  "NewRegistry rs =
     (case add_rules [] [] rs of
        Inl e \<Rightarrow> Inl e
      | Inr acc \<Rightarrow>
          let rules = sort_key rID acc in
          Inr \<lparr>rgRules = rules, rgByID = map (\<lambda>r. (rID r, r)) rules\<rparr>)"

definition All_rules :: "Registry \<Rightarrow> Rule list" where
  "All_rules reg = rgRules reg"

definition Get :: "Registry \<Rightarrow> string \<Rightarrow> Rule option" where
  "Get reg i = map_of (rgByID reg) i"

record RunOptions =
  oOnly :: "string list"
  oScope :: "string list"
  oLegacy :: bool
  oConfig :: Config

definition effective_config :: "Config \<Rightarrow> Config" where
  "effective_config c = (if isZero c then DefaultConfig else c)"

datatype UnknownRuleError = UnknownRuleError "string list"

fun unknown_rule_string :: "UnknownRuleError \<Rightarrow> string" where
  "unknown_rule_string (UnknownRuleError ids) = ''unknown rule(s): '' @ str_join '', '' ids"

definition selectRules :: "Registry \<Rightarrow> RunOptions \<Rightarrow> UnknownRuleError + Rule list" where
  "selectRules reg opts =
     (let cfg = effective_config (oConfig opts) in
      if oOnly opts \<noteq> [] then
        (let unknown = filter (\<lambda>i. Get reg i = None) (oOnly opts);
             out = concat (map (\<lambda>i. opt_list (Get reg i)) (oOnly opts))
         in if unknown \<noteq> [] then Inl (UnknownRuleError unknown) else Inr out)
      else Inr (filter (\<lambda>r. rLegacy r = oLegacy opts \<and> \<not> Disabled cfg (rID r)) (rgRules reg)))"

definition violation_key :: "Violation \<Rightarrow> string \<times> nat \<times> string" where
  "violation_key v = (vPath v, vLine v, vRule v)"

definition sortViolations :: "Violation list \<Rightarrow> Violation list" where
  "sortViolations vs = sort_key violation_key vs"

record Result =
  resOK :: bool
  resCount :: nat
  resViolations :: "Violation list"
  resOutOfScope :: "Violation list"
  resOutOfScopeCount :: nat
  resWarnings :: "Violation list"
  resFilesScanned :: nat
  resRulesRun :: nat

text \<open>The switch that places one violation.\<close>

datatype bucket = InWarnings | InOutOfScope | InViolations

definition place :: "string list \<Rightarrow> Violation \<Rightarrow> bucket" where
  "place scope v =
     (if vSeverity v = SeverityWarning then InWarnings
      else if scope \<noteq> [] \<and> normalisePath (vPath v) \<notin> set scope then InOutOfScope
      else InViolations)"

definition run_rule :: "workspace \<Rightarrow> Config \<Rightarrow> string list \<Rightarrow> Rule \<Rightarrow> Violation list" where
  "run_rule ws cfg scope r =
     (case rCheck r of
        None \<Rightarrow> []
      | Some check \<Rightarrow> check \<lparr>pWS = ws, pCfg = cfg, pRule = rule_meta.truncate r, pScope = scope\<rparr>)"

definition Run :: "Registry \<Rightarrow> workspace \<Rightarrow> RunOptions \<Rightarrow> UnknownRuleError + Result" where
  "Run reg ws opts =
     (let cfg = effective_config (oConfig opts) in
      case selectRules reg opts of
        Inl e \<Rightarrow> Inl e
      | Inr selected \<Rightarrow>
          (let scope = map normalisePath (oScope opts);
               all = concat (map (run_rule ws cfg scope) selected);
               vs = sortViolations (filter (\<lambda>v. place scope v = InViolations) all);
               oos = sortViolations (filter (\<lambda>v. place scope v = InOutOfScope) all);
               warns = sortViolations (filter (\<lambda>v. place scope v = InWarnings) all)
           in Inr \<lparr>resOK = (length vs = 0), resCount = length vs, resViolations = vs,
                   resOutOfScope = oos, resOutOfScopeCount = length oos, resWarnings = warns,
                   resFilesScanned = length (wsFiles ws), resRulesRun = length selected\<rparr>))"

section \<open>What NewRegistry accepts and builds\<close>

definition rules_ok :: "Rule list \<Rightarrow> bool" where
  "rules_ok rs \<longleftrightarrow>
     distinct (map rID rs) \<and> list_all (\<lambda>r. rID r \<noteq> [] \<and> rCheck r \<noteq> None) rs"

lemma add_rules_Inr:
  "add_rules acc seen rs = Inr out \<longleftrightarrow>
     out = acc @ rs \<and> rules_ok rs \<and> set (map rID rs) \<inter> set seen = {}"
  by (induction acc seen rs arbitrary: out rule: add_rules.induct) (auto simp: rules_ok_def)

lemma NewRegistry_Inr:
  "NewRegistry rs = Inr reg \<longleftrightarrow>
     rules_ok rs \<and> reg = \<lparr>rgRules = sort_key rID rs, rgByID = map (\<lambda>r. (rID r, r)) (sort_key rID rs)\<rparr>"
proof (cases "add_rules [] [] rs")
  case (Inl e)
  then have "\<not> rules_ok rs" using add_rules_Inr [of "[]" "[]" rs rs] by auto
  then show ?thesis using Inl by (simp add: NewRegistry_def)
next
  case (Inr out)
  then show ?thesis using add_rules_Inr [of "[]" "[]" rs out] by (auto simp: NewRegistry_def Let_def)
qed

lemma map_of_key: "distinct (map f xs) \<Longrightarrow> map_of (map (\<lambda>x. (f x, x)) xs) k = Some x \<longleftrightarrow> x \<in> set xs \<and> f x = k"
  by (induction xs) (auto simp: image_iff)

lemma distinct_map_sort_key: "distinct (map f (sort_key g xs)) \<longleftrightarrow> distinct (map f xs)"
  by (metis mset_sort mset_map mset_eq_imp_distinct_iff)

lemma Get_iff:
  assumes "NewRegistry rs = Inr reg"
  shows "Get reg i = Some r \<longleftrightarrow> r \<in> set rs \<and> rID r = i"
proof -
  from assms have ok: "distinct (map rID rs)" and reg: "rgByID reg = map (\<lambda>r. (rID r, r)) (sort_key rID rs)"
    by (auto simp: NewRegistry_Inr rules_ok_def)
  have "distinct (map rID (sort_key rID rs))" using ok by (simp only: distinct_map_sort_key)
  then show ?thesis unfolding Get_def reg by (subst map_of_key) auto
qed

lemma Get_None_iff:
  assumes "NewRegistry rs = Inr reg"
  shows "Get reg i = None \<longleftrightarrow> i \<notin> rID ` set rs"
proof -
  have "(\<exists>r. Get reg i = Some r) \<longleftrightarrow> (\<exists>r \<in> set rs. rID r = i)"
    using Get_iff [OF assms] by auto
  then show ?thesis by (auto simp: not_Some_eq [symmetric] simp del: not_Some_eq)
qed

section \<open>What selectRules selects\<close>

lemma selectRules_only:
  assumes reg: "NewRegistry rs = Inr reg" and only: "oOnly opts \<noteq> []"
  shows "selectRules reg opts =
    (if set (oOnly opts) \<subseteq> rID ` set rs then Inr (map (\<lambda>i. the (Get reg i)) (oOnly opts))
     else Inl (UnknownRuleError (filter (\<lambda>i. i \<notin> rID ` set rs) (oOnly opts))))"
proof -
  have n: "\<And>i. Get reg i = None \<longleftrightarrow> i \<notin> rID ` set rs" by (rule Get_None_iff [OF reg])
  have "concat (map (\<lambda>i. opt_list (Get reg i)) is) = map (\<lambda>i. the (Get reg i)) is"
    if "set is \<subseteq> rID ` set rs" for "is"
    using that
  proof (induction "is")
    case (Cons i "is")
    then have "Get reg i \<noteq> None" using n [of i] by simp
    with Cons show ?case by auto
  qed simp
  then show ?thesis
    using only by (auto simp: selectRules_def Let_def n filter_empty_conv subset_eq)
qed

lemma selectRules_in_registry:
  assumes reg: "NewRegistry rs = Inr reg" and sel: "selectRules reg opts = Inr selected"
  shows "set selected \<subseteq> set rs"
proof (cases "oOnly opts = []")
  case True
  then show ?thesis using sel reg by (auto simp: selectRules_def Let_def NewRegistry_Inr)
next
  case False
  with sel have inr: "set (oOnly opts) \<subseteq> rID ` set rs"
    and eq: "selected = map (\<lambda>i. the (Get reg i)) (oOnly opts)"
    unfolding selectRules_only [OF reg False] by (auto split: if_splits)
  show ?thesis
  proof
    fix r assume "r \<in> set selected"
    then obtain i where i: "i \<in> set (oOnly opts)" "r = the (Get reg i)" unfolding eq by auto
    with inr have "Get reg i \<noteq> None" using Get_None_iff [OF reg, of i] by blast
    then obtain r' where r': "Get reg i = Some r'" by auto
    then have "r = r'" using i by simp
    with r' show "r \<in> set rs" using Get_iff [OF reg, of i r'] by simp
  qed
qed

section \<open>What Run makes of the reports\<close>

lemma place_cases: "place scope v = InWarnings \<or> place scope v = InOutOfScope \<or> place scope v = InViolations"
  by (cases "place scope v") auto

lemma mset_place:
  "mset vs = mset (filter (\<lambda>v. place scope v = InViolations) vs)
     + mset (filter (\<lambda>v. place scope v = InOutOfScope) vs)
     + mset (filter (\<lambda>v. place scope v = InWarnings) vs)"
  by (rule filter_partition3) (use place_cases in auto)

lemma sortViolations_eq_Nil [simp]: "sortViolations vs = [] \<longleftrightarrow> vs = []"
  using length_sort [of violation_key vs] by (auto simp: sortViolations_def simp del: length_sort)

lemma set_sortViolations [simp]: "set (sortViolations vs) = set vs"
  by (simp add: sortViolations_def)

lemma mset_sortViolations [simp]: "mset (sortViolations vs) = mset vs"
  by (simp add: sortViolations_def)

lemma length_sortViolations [simp]: "length (sortViolations vs) = length vs"
  by (simp add: sortViolations_def)

lemma sorted_sortViolations [simp]: "sorted (map violation_key (sortViolations vs))"
  by (simp add: sortViolations_def)

definition reports_of :: "workspace \<Rightarrow> RunOptions \<Rightarrow> Rule list \<Rightarrow> Violation list" where
  "reports_of ws opts selected =
     concat (map (run_rule ws (effective_config (oConfig opts)) (map normalisePath (oScope opts))) selected)"

lemma Run_Inr:
  assumes "Run reg ws opts = Inr res"
  obtains selected where "selectRules reg opts = Inr selected"
    "resViolations res = sortViolations (filter (\<lambda>v. place (map normalisePath (oScope opts)) v = InViolations)
       (reports_of ws opts selected))"
    "resOutOfScope res = sortViolations (filter (\<lambda>v. place (map normalisePath (oScope opts)) v = InOutOfScope)
       (reports_of ws opts selected))"
    "resWarnings res = sortViolations (filter (\<lambda>v. place (map normalisePath (oScope opts)) v = InWarnings)
       (reports_of ws opts selected))"
    "resCount res = length (resViolations res)" "resOK res \<longleftrightarrow> resCount res = 0"
    "resOutOfScopeCount res = length (resOutOfScope res)" "resRulesRun res = length selected"
proof (cases "selectRules reg opts")
  case (Inl e)
  then show ?thesis using assms by (simp add: Run_def Let_def)
next
  case (Inr selected)
  show ?thesis
    by (rule that [OF Inr]) (use assms Inr in \<open>auto simp: Run_def Let_def reports_of_def\<close>)
qed

definition result_all :: "Result \<Rightarrow> Violation list" where
  "result_all res = resViolations res @ resOutOfScope res @ resWarnings res"

lemma Run_reports:
  assumes "Run reg ws opts = Inr res" "v \<in> set (result_all res)"
  obtains selected r where "selectRules reg opts = Inr selected" "r \<in> set selected"
    "v \<in> set (run_rule ws (effective_config (oConfig opts)) (map normalisePath (oScope opts)) r)"
  using assms by (elim Run_Inr) (auto simp: result_all_def reports_of_def)

section \<open>The contract of a rule\<close>

text \<open>
  What every rule owes the engine: all it returns comes out of Report on its own pass. The engine
  promises in return that a result is attributable and that operator settings win.
\<close>

definition reports_only :: "(Pass \<Rightarrow> Violation list) \<Rightarrow> bool" where
  "reports_only c \<longleftrightarrow> (\<forall>p. \<forall>v \<in> set (c p). \<exists>fd msg. v = Report p fd msg)"

definition sev_ok :: "severity \<Rightarrow> bool" where
  "sev_ok s \<longleftrightarrow> s = SeverityError \<or> s = SeverityWarning"

lemma Report_sel [simp]:
  "vRule (Report p fd msg) = rID (pRule p)" "vCitation (Report p fd msg) = rCitation (pRule p)"
  "vPath (Report p fd msg) = fdPath fd" "vLine (Report p fd msg) = fdLine fd"
  "vCol (Report p fd msg) = fdCol fd" "vMessage (Report p fd msg) = msg" "vFix (Report p fd msg) = fdFix fd"
  by (simp_all add: Report_def Let_def)

lemma finding_sel [simp]:
  "fdPath (At f n) = fRel f" "fdPath (AtLine f l) = fRel f" "fdPath (AtFile f) = fRel f"
  "fdPath (AtPath q l) = q" "fdPath (Fix s fd) = fdPath fd" "fdPath (Sev t fd) = fdPath fd"
  "fdLine (At f n) = sline (node_span n)" "fdLine (AtLine f l) = l" "fdLine (AtFile f) = 1"
  "fdLine (AtPath q l) = l" "fdLine (Fix s fd) = fdLine fd" "fdLine (Sev t fd) = fdLine fd"
  "fdFix (Fix s fd) = s" "fdFix (Sev t fd) = fdFix fd" "fdSeverity (Sev t fd) = t"
  "fdSeverity (Fix s fd) = fdSeverity fd" "fdSeverity (At f n) = []" "fdSeverity (AtLine f l) = []"
  "fdSeverity (AtFile f) = []" "fdSeverity (AtPath q l) = []"
  by (simp_all add: At_def AtLine_def AtFile_def AtPath_def Fix_def Sev_def Position_def)

lemma Report_severity:
  "vSeverity (Report p fd msg) =
     (if fdSeverity fd = [] \<or> HasSeverityOverride (pCfg p) (rID (pRule p))
      then SeverityFor (pCfg p) (pRule p) else fdSeverity fd)"
  by (simp add: Report_def Let_def)

lemma truncate_sel [simp]:
  "rID (rule_meta.truncate r) = rID r" "rSeverity (rule_meta.truncate r) = rSeverity r"
  "rCitation (rule_meta.truncate r) = rCitation r"
  by (simp_all add: rule_meta.truncate_def)

lemma SeverityFor_pinned:
  "HasSeverityOverride c (rID r) \<Longrightarrow> map_of (cSeverityOverride c) (rID r) = Some (SeverityFor c r)"
  by (auto simp: HasSeverityOverride_def SeverityFor_def split: option.splits)

lemma SeverityFor_truncate [simp]: "SeverityFor c (rule_meta.truncate r) = SeverityFor c r"
  by (simp add: SeverityFor_def split: option.splits)

locale rule_contract =
  fixes rs :: "Rule list" and reg :: Registry
  assumes registered: "NewRegistry rs = Inr reg"
    and honest: "\<And>r c. \<lbrakk>r \<in> set rs; rCheck r = Some c\<rbrakk> \<Longrightarrow> reports_only c"
begin

lemma run_attributed:
  assumes run: "Run reg ws opts = Inr res" and v: "v \<in> set (result_all res)"
  obtains r fd msg selected where "selectRules reg opts = Inr selected" "r \<in> set selected" "r \<in> set rs"
    "v = Report \<lparr>pWS = ws, pCfg = effective_config (oConfig opts), pRule = rule_meta.truncate r,
                  pScope = map normalisePath (oScope opts)\<rparr> fd msg"
proof -
  from run v obtain selected r where sel: "selectRules reg opts = Inr selected" "r \<in> set selected"
    and mem: "v \<in> set (run_rule ws (effective_config (oConfig opts)) (map normalisePath (oScope opts)) r)"
    by (rule Run_reports)
  have r: "r \<in> set rs" using selectRules_in_registry [OF registered sel(1)] sel(2) by auto
  from mem obtain c where c: "rCheck r = Some c"
    by (cases "rCheck r") (auto simp: run_rule_def)
  with mem honest [OF r c] obtain fd msg where
    "v = Report \<lparr>pWS = ws, pCfg = effective_config (oConfig opts), pRule = rule_meta.truncate r,
                  pScope = map normalisePath (oScope opts)\<rparr> fd msg"
    unfolding run_rule_def reports_only_def by (simp, meson)
  then show ?thesis by (rule that [OF sel r])
qed

lemma run_rule_ids:
  assumes "Run reg ws opts = Inr res" "v \<in> set (result_all res)"
  shows "\<exists>r \<in> set rs. vRule v = rID r \<and> vCitation v = rCitation r"
  using assms by (elim run_attributed) auto

lemma run_disabled_silent:
  assumes "Run reg ws opts = Inr res" "oOnly opts = []" "v \<in> set (result_all res)"
  shows "\<not> Disabled (effective_config (oConfig opts)) (vRule v)"
  using assms by (elim run_attributed) (auto simp: selectRules_def Let_def)

lemma run_legacy_separate:
  assumes "Run reg ws opts = Inr res" "oOnly opts = []" "v \<in> set (result_all res)"
  shows "\<exists>r \<in> set rs. vRule v = rID r \<and> rLegacy r = oLegacy opts"
  using assms by (elim run_attributed) (auto simp: selectRules_def Let_def)

lemma run_pinned:
  assumes "Run reg ws opts = Inr res" "v \<in> set (result_all res)"
    and "HasSeverityOverride (effective_config (oConfig opts)) (vRule v)"
  shows "map_of (cSeverityOverride (effective_config (oConfig opts))) (vRule v) = Some (vSeverity v)"
  using assms by (elim run_attributed) (auto simp: Report_severity intro: SeverityFor_pinned)

end

section \<open>Sensitive identifiers\<close>

definition low_letters :: "string \<Rightarrow> bool" where
  "low_letters w \<longleftrightarrow> w \<noteq> [] \<and> list_all is_lower w"

definition cap_word :: "string \<Rightarrow> string" where
  "cap_word w = upper_char (hd w) # tl w"

lemma is_lower_facts: "is_lower c \<Longrightarrow> \<not> is_upper c \<and> \<not> ident_sep c \<and> c \<noteq> CHR ''_'' \<and> lower_char c = c"
  by (auto simp: is_lower_def is_upper_def ident_sep_def lower_char_def)

lemma is_upper_upper_char: "is_lower c \<Longrightarrow> is_upper (upper_char c)"
  by (auto simp: is_upper_def is_lower_def code_upper_char)

lemma is_upper_not_sep: "is_upper c \<Longrightarrow> \<not> ident_sep c"
  by (auto simp: is_upper_def ident_sep_def)

lemma to_lower_low: "list_all is_lower w \<Longrightarrow> to_lower w = w"
  by (induction w) (auto simp: is_lower_facts)

lemma ident_scan_low:
  "\<lbrakk>list_all is_lower w; w \<noteq> []\<rbrakk> \<Longrightarrow> ident_scan prev cur (w @ rest) = ident_scan (Some (last w)) (cur @ w) rest"
proof (induction w arbitrary: prev cur)
  case (Cons c w)
  then have c: "\<not> is_upper c" "\<not> ident_sep c" using is_lower_facts [of c] by auto
  then show ?case using Cons by (cases "w = []") simp_all
qed simp

lemma identWords_snake_aux:
  "\<lbrakk>ws \<noteq> []; list_all low_letters ws\<rbrakk> \<Longrightarrow> ident_scan prev [] (str_join ''_'' ws) = ws"
proof (induction ws arbitrary: prev)
  case (Cons w ws)
  then have w: "list_all is_lower w" "w \<noteq> []" by (auto simp: low_letters_def)
  show ?case
  proof (cases "ws = []")
    case True
    then show ?thesis using ident_scan_low [OF w, of prev "[]" "[]"] w by (simp add: ident_flush_def to_lower_low)
  next
    case False
    then have "str_join ''_'' (w # ws) = w @ CHR ''_'' # str_join ''_'' ws" by (cases ws) auto
    moreover have "ident_sep (CHR ''_'')" by (simp add: ident_sep_def)
    ultimately show ?thesis
      using Cons False w by (simp add: ident_scan_low [OF w] ident_flush_def to_lower_low)
  qed
qed simp

lemma identWords_snake: "\<lbrakk>ws \<noteq> []; list_all low_letters ws\<rbrakk> \<Longrightarrow> identWords (str_join ''_'' ws) = ws"
  by (simp add: identWords_def identWords_snake_aux)

lemma ident_scan_cap:
  assumes "low_letters w" "2 \<le> length w"
    and ctx: "(prev = None \<and> cur = []) \<or> (\<exists>q. prev = Some q \<and> is_lower q)"
  shows "ident_scan prev cur (cap_word w @ rest)
    = ident_flush cur @ ident_scan (Some (last w)) (cap_word w) rest"
proof -
  from assms obtain c cs where w: "w = c # cs" "cs \<noteq> []" "is_lower c" "list_all is_lower cs"
    by (cases w) (auto simp: low_letters_def Suc_le_eq)
  have up: "is_upper (upper_char c)" "\<not> ident_sep (upper_char c)"
    using w by (simp_all add: is_upper_upper_char is_upper_not_sep)
  have "ident_scan prev cur (upper_char c # cs @ rest)
    = ident_flush cur @ ident_scan (Some (upper_char c)) [upper_char c] (cs @ rest)"
    using ctx up by (auto simp: ident_flush_def dest!: is_lower_facts)
  then show ?thesis using w ident_scan_low [OF w(4) w(2)] by (simp add: cap_word_def)
qed

lemma to_lower_cap_word: "low_letters w \<Longrightarrow> to_lower (cap_word w) = w"
  by (cases w) (auto simp: cap_word_def low_letters_def to_lower_low is_lower_facts)

lemma ident_scan_pascal:
  "\<lbrakk>list_all low_letters ws; list_all (\<lambda>w. 2 \<le> length w) ws;
    (prev = None \<and> cur = []) \<or> (\<exists>q. prev = Some q \<and> is_lower q)\<rbrakk>
   \<Longrightarrow> ident_scan prev cur (concat (map cap_word ws)) = ident_flush cur @ ws"
proof (induction ws arbitrary: prev cur)
  case (Cons w ws)
  then have w: "low_letters w" "2 \<le> length w" by auto
  then have "is_lower (last w)" by (auto simp: low_letters_def list_all_iff)
  then have "ident_scan (Some (last w)) (cap_word w) (concat (map cap_word ws)) = w # ws"
    using Cons.IH [of "Some (last w)" "cap_word w"] Cons.prems w
    by (simp add: ident_flush_def to_lower_cap_word) (simp add: cap_word_def)
  then show ?case using ident_scan_cap [OF w Cons.prems(3)] by simp
qed simp

lemma identWords_pascal:
  "\<lbrakk>list_all low_letters ws; list_all (\<lambda>w. 2 \<le> length w) ws\<rbrakk> \<Longrightarrow> identWords (concat (map cap_word ws)) = ws"
  using ident_scan_pascal [of ws None "[]"] by (simp add: identWords_def ident_flush_def)

lemma identWords_camel:
  assumes "list_all low_letters (w # ws)" "list_all (\<lambda>w. 2 \<le> length w) ws"
  shows "identWords (w @ concat (map cap_word ws)) = w # ws"
proof -
  have w: "list_all is_lower w" "w \<noteq> []" using assms by (auto simp: low_letters_def)
  then have "is_lower (last w)" by (simp add: list_all_iff)
  then show ?thesis
    using ident_scan_pascal [of ws "Some (last w)" w] assms ident_scan_low [OF w, of None "[]"] w
    by (simp add: identWords_def ident_flush_def to_lower_low)
qed

lemma normaliseIdent_append [simp]: "normaliseIdent (s @ t) = normaliseIdent s @ normaliseIdent t"
  by (simp add: normaliseIdent_def)

lemma normaliseIdent_low: "list_all is_lower w \<Longrightarrow> normaliseIdent w = w"
  by (induction w) (auto simp: normaliseIdent_def is_lower_facts)

lemma normaliseIdent_cap: "low_letters w \<Longrightarrow> normaliseIdent (cap_word w) = w"
  by (cases w) (auto simp: cap_word_def low_letters_def normaliseIdent_def is_upper_upper_char is_lower_facts
      list_all_iff intro!: map_idI)

lemma normaliseIdent_pascal: "list_all low_letters ws \<Longrightarrow> normaliseIdent (concat (map cap_word ws)) = concat ws"
  by (induction ws) (simp_all add: normaliseIdent_cap, simp add: normaliseIdent_def)

lemma normaliseIdent_snake: "list_all low_letters ws \<Longrightarrow> normaliseIdent (str_join ''_'' ws) = concat ws"
proof (induction ws rule: induct_list012)
  case 1
  show ?case by (simp add: normaliseIdent_def)
next
  case (2 w)
  then show ?case by (simp add: low_letters_def normaliseIdent_low)
next
  case (3 w v ws)
  have "normaliseIdent ''_'' = []" by (simp add: normaliseIdent_def is_lower_def is_upper_def is_digit_def)
  then have "normaliseIdent (CHR ''_'' # s) = normaliseIdent s" for s
    using normaliseIdent_append [of "''_''" s] by simp
  with 3 show ?case by (simp add: low_letters_def normaliseIdent_low)
qed

lemma word_pairs_iff:
  "x \<in> set (word_pairs ws) \<longleftrightarrow>
     (\<exists>ys. sublist ys ws \<and> (length ys = 1 \<or> length ys = 2) \<and> x = concat ys)"
proof (induction ws rule: word_pairs.induct)
  case (2 w)
  show ?case
    by (auto simp: sublist_Cons_right length_Suc_conv prefix_Cons numeral_2_eq_2 intro: exI [of _ "[w]"])
next
  case (3 w v ws)
  have "(\<exists>ys. prefix ys (w # v # ws) \<and> (length ys = 1 \<or> length ys = 2) \<and> x = concat ys)
    \<longleftrightarrow> x = w \<or> x = w @ v"
    by (auto simp: numeral_2_eq_2 length_Suc_conv prefix_Cons intro: exI [of _ "[w]"] exI [of _ "[w, v]"])
  then show ?case unfolding sublist_Cons_right [of _ w] using 3 by auto
qed auto

section \<open>Properties of the engine\<close>

text \<open>
  A registry is built exactly from rules with distinct non-empty ids and a check; it holds
  those rules in id order, and Get finds under every id the rule that has it, and nothing else.
\<close>

theorem new_registry_index:
  "(case NewRegistry rs of
      Inl _ \<Rightarrow> \<not> rules_ok rs
    | Inr reg \<Rightarrow> rules_ok rs \<and> mset (All_rules reg) = mset rs \<and> sorted (map rID (All_rules reg))
        \<and> (\<forall>i. Get reg i = List.find (\<lambda>r. rID r = i) rs))"
proof (cases "NewRegistry rs")
  case (Inl e)
  then show ?thesis using NewRegistry_Inr [of rs] by (cases "rules_ok rs") auto
next
  case (Inr reg)
  then have ok: "rules_ok rs" by (simp add: NewRegistry_Inr)
  have "Get reg i = List.find (\<lambda>r. rID r = i) rs" for i
  proof (cases "List.find (\<lambda>r. rID r = i) rs")
    case None
    then have "i \<notin> rID ` set rs" by (auto simp: find_None_iff)
    then show ?thesis using Get_None_iff [OF Inr, of i] None by simp
  next
    case (Some r)
    then have "r \<in> set rs \<and> rID r = i" by (auto simp: find_Some_iff)
    then show ?thesis using Get_iff [OF Inr, of i r] Some by simp
  qed
  moreover have "All_rules reg = sort_key rID rs" using Inr by (simp add: NewRegistry_Inr All_rules_def)
  ultimately show ?thesis using Inr ok by simp
qed

text \<open>
  C4: a run reports every violation its selected rules raise exactly once: the three lists of the
  result together are a permutation of all reports, each is sorted by path, line and rule, the
  counts are their lengths, and the gate is green exactly when no report is both above a warning
  and (in a scoped run) on a path the caller named.
\<close>

theorem run_outcome:
  "(case Run reg ws opts of
      Inl e \<Rightarrow> selectRules reg opts = Inl e
    | Inr res \<Rightarrow>
        (\<exists>selected. selectRules reg opts = Inr selected
           \<and> mset (result_all res) = mset (reports_of ws opts selected)
           \<and> sorted (map violation_key (resViolations res))
           \<and> sorted (map violation_key (resOutOfScope res))
           \<and> sorted (map violation_key (resWarnings res))
           \<and> resCount res = length (resViolations res)
           \<and> resOutOfScopeCount res = length (resOutOfScope res)
           \<and> set (resWarnings res) = {v. v \<in> set (reports_of ws opts selected) \<and> vSeverity v = SeverityWarning}
           \<and> (resOK res \<longleftrightarrow>
                {v. v \<in> set (reports_of ws opts selected) \<and> vSeverity v \<noteq> SeverityWarning
                  \<and> (oScope opts = [] \<or> normalisePath (vPath v) \<in> normalisePath ` set (oScope opts))} = {})))"
proof (cases "Run reg ws opts")
  case (Inl e)
  then show ?thesis by (auto simp: Run_def Let_def split: sum.splits)
next
  case (Inr res)
  then show ?thesis
  proof (elim Run_Inr, goal_cases)
    case (1 selected)
    let ?all = "reports_of ws opts selected" and ?sc = "map normalisePath (oScope opts)"
    have "mset (result_all res) = mset ?all"
      unfolding mset_place [of ?all ?sc] using 1 by (simp only: result_all_def mset_append mset_sortViolations ac_simps)
    moreover have "set (resWarnings res) = {v. v \<in> set ?all \<and> vSeverity v = SeverityWarning}"
      using 1 by (auto simp: place_def split: if_splits)
    moreover have "resOK res \<longleftrightarrow> {v. v \<in> set ?all \<and> vSeverity v \<noteq> SeverityWarning
        \<and> (oScope opts = [] \<or> normalisePath (vPath v) \<in> normalisePath ` set (oScope opts))} = {}"
      using 1 by (auto simp: place_def filter_empty_conv)
    ultimately show ?thesis using Inr 1 by (simp del: mset_append)
  qed
qed

text \<open>
  Asking for rules by id never runs fewer rules than were asked for: if every id exists, the
  selection is those rules in the order asked, disabled ones included; otherwise the run fails
  and the error lists exactly the ids that do not exist. Without ids the selection is every rule
  of the requested family that the configuration does not disable.
\<close>

theorem select_rules_exact:
  "(case NewRegistry rs of
      Inl _ \<Rightarrow> True
    | Inr reg \<Rightarrow>
       (case selectRules reg opts of
          Inl (UnknownRuleError ids) \<Rightarrow>
            oOnly opts \<noteq> [] \<and> ids = filter (\<lambda>i. i \<notin> rID ` set rs) (oOnly opts) \<and> ids \<noteq> []
        | Inr selected \<Rightarrow>
            set selected \<subseteq> set rs
            \<and> (if oOnly opts \<noteq> [] then map rID selected = oOnly opts
               else sorted (map rID selected)
                 \<and> set selected = {r. r \<in> set rs \<and> rLegacy r = oLegacy opts
                     \<and> \<not> Disabled (effective_config (oConfig opts)) (rID r)})))"
proof (cases "NewRegistry rs")
  case (Inr reg)
  show ?thesis
  proof (cases "oOnly opts = []")
    case True
    have "rgRules reg = sort_key rID rs" using Inr by (simp add: NewRegistry_Inr)
    then show ?thesis using True Inr
      by (auto simp: selectRules_def Let_def sorted_filter)
  next
    case False
    note sel = selectRules_only [OF Inr False]
    show ?thesis
    proof (cases "set (oOnly opts) \<subseteq> rID ` set rs")
      case True
      then have eq: "selectRules reg opts = Inr (map (\<lambda>i. the (Get reg i)) (oOnly opts))" using sel by simp
      have "rID (the (Get reg i)) = i" if "i \<in> set (oOnly opts)" for i
        using that True Get_None_iff [OF Inr, of i] Get_iff [OF Inr, of i] by (cases "Get reg i") auto
      then have "map (rID \<circ> (\<lambda>i. the (Get reg i))) (oOnly opts) = oOnly opts" by (intro map_idI) simp
      then show ?thesis using Inr False eq selectRules_in_registry [OF Inr eq] by simp
    next
      case False': False
      then show ?thesis using Inr False sel by (auto simp: filter_empty_conv)
    qed
  qed
qed simp

text \<open>
  An identifier is sensitive by its words and not by its spelling convention: the snake, Pascal
  and camel spellings of the same words are all sensitive exactly when the list names one word, two
  adjacent words or all of them run together. A listed word inside a longer word does not match.
\<close>

theorem sensitive_any_convention:
  assumes "list_all low_letters (w # ws)" "list_all (\<lambda>v. 2 \<le> length v) (w # ws)"
  shows "(IsSensitive c (str_join ''_'' (w # ws)) \<longleftrightarrow>
      (\<exists>ys. sublist ys (w # ws) \<and> (length ys = 1 \<or> length ys = 2 \<or> ys = w # ws) \<and> concat ys \<in> set (cSensitive c)))
    \<and> (IsSensitive c (concat (map cap_word (w # ws))) \<longleftrightarrow> IsSensitive c (str_join ''_'' (w # ws)))
    \<and> (IsSensitive c (w @ concat (map cap_word ws)) \<longleftrightarrow> IsSensitive c (str_join ''_'' (w # ws)))"
proof -
  let ?hit = "\<exists>ys. sublist ys (w # ws) \<and> (length ys = 1 \<or> length ys = 2 \<or> ys = w # ws) \<and> concat ys \<in> set (cSensitive c)"
  have hit: "IsSensitive c s \<longleftrightarrow> ?hit"
    if "s \<noteq> []" "normaliseIdent s = concat (w # ws)" "identWords s = w # ws" for s
  proof -
    have "list_ex (\<lambda>w. w \<in> set (cSensitive c)) (word_pairs (w # ws)) \<longleftrightarrow>
        (\<exists>ys. sublist ys (w # ws) \<and> (length ys = 1 \<or> length ys = 2) \<and> concat ys \<in> set (cSensitive c))"
      unfolding list_ex_iff Bex_def word_pairs_iff by blast
    then have "IsSensitive c s \<longleftrightarrow> concat (w # ws) \<in> set (cSensitive c) \<or>
        (\<exists>ys. sublist ys (w # ws) \<and> (length ys = 1 \<or> length ys = 2) \<and> concat ys \<in> set (cSensitive c))"
      using that by (simp add: IsSensitive_def del: concat.simps word_pairs.simps)
    moreover have "sublist (w # ws) (w # ws)" by simp
    ultimately show ?thesis by blast
  qed
  from assms have wn: "w \<noteq> []" by (simp add: low_letters_def)
  have 1: "IsSensitive c (str_join ''_'' (w # ws)) \<longleftrightarrow> ?hit"
    by (rule hit) (use assms wn normaliseIdent_snake [of "w # ws"] identWords_snake [of "w # ws"] in
        \<open>simp_all add: str_join_eq_Nil_iff\<close>)
  have 2: "IsSensitive c (concat (map cap_word (w # ws))) \<longleftrightarrow> ?hit"
    by (rule hit) (use assms normaliseIdent_pascal [of "w # ws"] identWords_pascal [of "w # ws"] in
        \<open>simp_all add: cap_word_def\<close>)
  have 3: "IsSensitive c (w @ concat (map cap_word ws)) \<longleftrightarrow> ?hit"
    by (rule hit) (use assms wn normaliseIdent_pascal [of ws] identWords_camel [of w ws] in
        \<open>simp_all add: low_letters_def normaliseIdent_low\<close>)
  show ?thesis using 1 2 3 by blast
qed

theorem sensitive_any_convention_witness:
  "IsSensitive DefaultConfig ''receiver_adhar_no'' \<and> IsSensitive DefaultConfig ''ReceiverAdharNo''
   \<and> IsSensitive DefaultConfig ''receiverAdharNo''"
proof -
  have low: "list_all low_letters [''receiver'', ''adhar'', ''no'']"
    by (simp add: low_letters_def is_lower_def)
  have len: "list_all (\<lambda>v. 2 \<le> length v) [''receiver'', ''adhar'', ''no'']" by simp
  have "normaliseIdent ''adhar'' = ''adhar''" by (rule normaliseIdent_low) (simp add: is_lower_def)
  then have mem: "''adhar'' \<in> set (cSensitive DefaultConfig)"
    by (simp add: DefaultConfig_def index_config_def DefaultSensitiveFields_def)
  have "sublist [''adhar''] ([''receiver''] @ [''adhar''] @ [''no''])" unfolding sublist_def by blast
  then have "sublist [''adhar''] [''receiver'', ''adhar'', ''no'']" by (simp only: append_Cons append_Nil)
  then have hit: "\<exists>ys. sublist ys [''receiver'', ''adhar'', ''no'']
      \<and> (length ys = 1 \<or> length ys = 2 \<or> ys = [''receiver'', ''adhar'', ''no'']) \<and> concat ys \<in> set (cSensitive DefaultConfig)"
    using mem by (intro exI [of _ "[''adhar'']"]) (simp del: sublist_Cons_right)
  have "concat (map cap_word [''receiver'', ''adhar'', ''no'']) = ''ReceiverAdharNo''"
    "''receiver'' @ concat (map cap_word [''adhar'', ''no'']) = ''receiverAdharNo''"
    by code_simp+
  with sensitive_any_convention [OF low len, of DefaultConfig] hit show ?thesis by simp
qed

end
