(* ===== verification/AstUtil.thy ===== *)
theory AstUtil
  imports RuleEngine
begin

text \<open>
  Model of gotools/internal/rules/astutil.go: how the rules read syntax trees. An AST argument that
  Go leaves nil is an option; a type switch is a match on the constructors. A visitor that appends
  to a slice is \<open>visit\<close> below; the repeated-call analysis callsInLoops gets a declarative
  reading, the inductive relation \<open>scans\<close>.
\<close>

section \<open>Views of nodes\<close>

fun is_call :: "node \<Rightarrow> bool" where
  "is_call (CallExpr _ _ _ _ _) = True"
| "is_call _ = False"

fun call_fun :: "node \<Rightarrow> node" where
  "call_fun (CallExpr _ f _ _ _) = f"
| "call_fun n = n"

fun call_args :: "node \<Rightarrow> node list" where
  "call_args (CallExpr _ _ as _ _) = as"
| "call_args _ = []"

fun is_func :: "node \<Rightarrow> bool" where
  "is_func (FuncDecl _ _ _ _ _) = True"
| "is_func _ = False"

fun fd_name :: "node \<Rightarrow> string" where
  "fd_name (FuncDecl _ _ n _ _) = n"
| "fd_name _ = []"

fun fd_recv :: "node \<Rightarrow> node list" where
  "fd_recv (FuncDecl _ r _ _ _) = olist r"
| "fd_recv _ = []"

fun fd_body :: "node \<Rightarrow> node option" where
  "fd_body (FuncDecl _ _ _ _ b) = b"
| "fd_body _ = None"

fun func_params :: "node \<Rightarrow> node list" where
  "func_params (FuncType _ ps _) = olist ps"
| "func_params _ = []"

fun func_results :: "node \<Rightarrow> node list" where
  "func_results (FuncType _ _ rs) = olist rs"
| "func_results _ = []"

fun fd_params :: "node \<Rightarrow> node list" where
  "fd_params (FuncDecl _ _ _ t _) = func_params t"
| "fd_params _ = []"

fun fd_results :: "node \<Rightarrow> node list" where
  "fd_results (FuncDecl _ _ _ t _) = func_results t"
| "fd_results _ = []"

fun field_names :: "node \<Rightarrow> string list" where
  "field_names (Field _ ns _ _) = ns"
| "field_names _ = []"

fun field_type :: "node \<Rightarrow> node" where
  "field_type (Field _ _ t _) = t"
| "field_type n = n"

fun field_tag :: "node \<Rightarrow> string option" where
  "field_tag (Field _ _ _ g) = g"
| "field_tag _ = None"

fun ident_name :: "node \<Rightarrow> string option" where
  "ident_name (Ident _ n) = Some n"
| "ident_name _ = None"

fun sel_name :: "node \<Rightarrow> string option" where
  "sel_name (SelectorExpr _ _ s) = Some s"
| "sel_name _ = None"

section \<open>Rendering\<close>

fun typeString :: "node \<Rightarrow> string" where
  "typeString (Ident _ n) = n"
| "typeString (StarExpr _ x) = ''*'' @ typeString x"
| "typeString (SelectorExpr _ x s) = typeString x @ ''.'' @ s"
| "typeString (ArrayType _ None e) = ''[]'' @ typeString e"
| "typeString (ArrayType _ (Some l) e) = ''[N]'' @ typeString e"
| "typeString (MapType _ k v) = ''map['' @ typeString k @ '']'' @ typeString v"
| "typeString (Ellipsis _ e) = ''...'' @ (case e of None \<Rightarrow> [] | Some t \<Rightarrow> typeString t)"
| "typeString (InterfaceType _ ms) = (if olist ms = [] then ''any'' else ''interface{...}'')"
| "typeString (StructType _ fs) = (if olist fs = [] then ''struct{}'' else ''struct{...}'')"
| "typeString (FuncType _ _ _) = ''func(...)''"
| "typeString (IndexExpr _ x i) = typeString x @ ''['' @ typeString i @ '']''"
| "typeString (ChanType _ v) = ''chan '' @ typeString v"
| "typeString _ = ''?''"

definition callName :: "node \<Rightarrow> string" where
  "callName c =
     (case call_fun c of
        Ident _ n \<Rightarrow> n
      | SelectorExpr _ x s \<Rightarrow> typeString x @ ''.'' @ s
      | IndexExpr _ x _ \<Rightarrow> typeString x
      | _ \<Rightarrow> [])"

function chain_up :: "node \<Rightarrow> string list" where
  "chain_up e =
     (if is_call e then
        (case call_fun e of
           SelectorExpr _ x s \<Rightarrow>
             if is_call x then s # chain_up x else [typeString x @ ''.'' @ s]
         | _ \<Rightarrow> [callName e])
      else [])"
  by pat_completeness auto
termination
proof (relation "measure size")
  fix e p x s
  assume e: "is_call e" "call_fun e = SelectorExpr p x s"
  then have "call_fun e \<in> set (children e)" by (cases e) auto
  then have "size (SelectorExpr p x s) < size e" using e(2) children_smaller by metis
  then show "(x, e) \<in> measure size" by simp
qed simp

declare chain_up.simps [simp del]

definition selectorChain :: "node \<Rightarrow> string list" where
  "selectorChain e = rev (chain_up e)"

definition newArgType :: "node \<Rightarrow> string option" where
  "newArgType e =
     (if is_call e \<and> ident_name (call_fun e) = Some ''new'' then
        (case call_args e of [a] \<Rightarrow> Some (typeString a) | _ \<Rightarrow> None)
      else None)"

definition hasSuffixFold :: "string \<Rightarrow> string \<Rightarrow> bool" where
  "hasSuffixFold s suf \<longleftrightarrow>
     length suf \<le> length s \<and> to_lower (drop (length s - length suf) s) = to_lower suf"

section \<open>Struct tags\<close>

text \<open>
  reflect.StructTag.Lookup. The quoted value is scanned up to its closing quote, backslashes
  skipping a byte, and then unquoted.
\<close>

fun scan_quoted :: "string \<Rightarrow> (string \<times> string) option" where
  "scan_quoted [] = None"
| "scan_quoted (c # s) =
     (if c = CHR 0x22 then Some ([], s)
      else if c = CHR 0x5C then
        (case s of
           [] \<Rightarrow> None
         | d # t \<Rightarrow> map_option (\<lambda>(b, r). (c # d # b, r)) (scan_quoted t))
      else map_option (\<lambda>(b, r). (c # b, r)) (scan_quoted s))"

lemma scan_quoted_shorter: "scan_quoted s = Some (b, r) \<Longrightarrow> length r < length s"
  by (induction s arbitrary: b r rule: scan_quoted.induct) (force split: if_splits list.splits)+

definition tag_name_char :: "char \<Rightarrow> bool" where
  "tag_name_char c \<longleftrightarrow> 32 < code c \<and> c \<noteq> CHR '':'' \<and> c \<noteq> CHR 0x22 \<and> code c \<noteq> 127"

function tag_lookup :: "string \<Rightarrow> string \<Rightarrow> string option" where
  "tag_lookup key tag =
     (let t = dropWhile (\<lambda>c. c = CHR '' '') tag;
          name = takeWhile tag_name_char t;
          rest = dropWhile tag_name_char t
      in (case rest of
            c # d # body \<Rightarrow>
              if name = [] \<or> c \<noteq> CHR '':'' \<or> d \<noteq> CHR 0x22 then None
              else (case scan_quoted body of
                      None \<Rightarrow> None
                    | Some (v, r) \<Rightarrow>
                        if name = key then go_unquote ([CHR 0x22] @ v @ [CHR 0x22])
                        else tag_lookup key r)
          | _ \<Rightarrow> None))"
  by pat_completeness auto
termination
proof (relation "measure (\<lambda>(k, t). length t)")
  fix key tag t name rest c l d body p v r
  assume t: "t = dropWhile (\<lambda>c. c = CHR '' '') tag" and rest: "rest = dropWhile tag_name_char t"
    and cons: "rest = c # l" "l = d # body" and sc: "scan_quoted body = Some p" "(v, r) = p"
  have "length rest \<le> length tag" unfolding rest t
    by (meson length_dropWhile_le order_trans)
  moreover have "length r < length body" using sc scan_quoted_shorter by auto
  ultimately show "((key, r), key, tag) \<in> measure (\<lambda>(k, t). length t)" using cons by simp
qed simp

declare tag_lookup.simps [simp del]

definition tagOf :: "node \<Rightarrow> string" where
  "tagOf f =
     (case field_tag f of
        None \<Rightarrow> []
      | Some v \<Rightarrow> (case go_unquote v of None \<Rightarrow> [] | Some u \<Rightarrow> u))"

definition tag_get :: "string \<Rightarrow> string \<Rightarrow> string" where
  "tag_get tag key = (case tag_lookup key tag of None \<Rightarrow> [] | Some v \<Rightarrow> v)"

section \<open>Declarations\<close>

definition fieldName :: "node \<Rightarrow> string" where
  "fieldName f = (case field_names f of [] \<Rightarrow> [] | n # _ \<Rightarrow> n)"

definition isEmbedded :: "node \<Rightarrow> bool" where
  "isEmbedded f \<longleftrightarrow> field_names f = []"

text \<open>structsIn: name, type spec and fields of each top-level struct, in order.\<close>

definition struct_of_spec :: "node \<Rightarrow> (string \<times> node \<times> node list) list" where
  "struct_of_spec s =
     (case s of
        TypeSpec _ n t \<Rightarrow> (case t of StructType _ (Some fs) \<Rightarrow> [(n, s, fs)] | _ \<Rightarrow> [])
      | _ \<Rightarrow> [])"

definition structsIn :: "gofile \<Rightarrow> (string \<times> node \<times> node list) list" where
  "structsIn f = concat (map struct_of_spec (concat (map gen_specs (file_decls (fAST f)))))"

definition funcsIn :: "gofile \<Rightarrow> node list" where
  "funcsIn f = filter is_func (file_decls (fAST f))"

definition receiverType :: "node \<Rightarrow> string option" where
  "receiverType fd =
     (case fd_recv fd of [] \<Rightarrow> None | r # _ \<Rightarrow> Some (typeString (field_type r)))"

definition field_types :: "node list \<Rightarrow> string list" where
  "field_types fs =
     concat (map (\<lambda>r. replicate (if 1 < length (field_names r) then length (field_names r) else 1)
       (typeString (field_type r))) fs)"

definition results :: "node \<Rightarrow> string list" where
  "results fd = field_types (fd_results fd)"

definition params :: "node \<Rightarrow> string list" where
  "params fd = field_types (fd_params fd)"

section \<open>Calls\<close>

definition findCall :: "(string \<Rightarrow> bool) \<Rightarrow> node \<Rightarrow> node option" where
  "findCall m n = inspect (find_visitor (\<lambda>x. is_call x \<and> m (callName x))) n None"

definition anyCall :: "node \<Rightarrow> string list \<Rightarrow> bool" where
  "anyCall n names \<longleftrightarrow> findCall (\<lambda>name. name \<in> set names) n \<noteq> None"

definition callsMatching :: "node \<Rightarrow> string \<Rightarrow> bool" where
  "callsMatching n sub \<longleftrightarrow> findCall (\<lambda>name. str_contains name sub) n \<noteq> None"

definition countCalls :: "(node \<Rightarrow> bool) \<Rightarrow> node \<Rightarrow> nat" where
  "countCalls m n = inspect (\<lambda>x k. (if is_call x \<and> m x then k + 1 else k, True)) n 0"

definition methodNamed :: "string \<Rightarrow> string list \<Rightarrow> bool" where
  "methodNamed name methods \<longleftrightarrow> list_ex (\<lambda>m. name = m \<or> has_suffix name (''.'' @ m)) methods"

text \<open>A visitor appending to a slice: what it appends at a node and whether it descends.\<close>

definition visit :: "(node \<Rightarrow> 'a list \<times> bool) \<Rightarrow> node \<Rightarrow> 'a list" where
  "visit g n = inspect (\<lambda>m acc. (acc @ fst (g m), snd (g m))) n []"

fun is_string_lit :: "node \<Rightarrow> bool" where
  "is_string_lit (BasicLit _ k _) = (k = STRING)"
| "is_string_lit _ = False"

definition stringLitsIn :: "node \<Rightarrow> node list" where
  "stringLitsIn n = visit (\<lambda>x. (if is_string_lit x then [x] else [], True)) n"

definition litValue :: "node \<Rightarrow> string" where
  "litValue bl =
     (case bl of
        BasicLit _ k v \<Rightarrow>
          if k \<noteq> STRING then [] else (case go_unquote v of None \<Rightarrow> [] | Some u \<Rightarrow> u)
      | _ \<Rightarrow> [])"

text \<open>The header nodes of a loop that callsInLoops scans, and its body.\<close>

fun loop_parts :: "node \<Rightarrow> (node list \<times> node) option" where
  "loop_parts (ForStmt _ i c p b) = Some (opt_list i @ opt_list c @ opt_list p, b)"
| "loop_parts (RangeStmt _ k v x b) = Some ([x], b)"
| "loop_parts _ = None"

lemma loop_parts_children: "loop_parts n = Some (hs, b) \<Longrightarrow> set hs \<subseteq> set (children n) \<and> b \<in> set (children n)"
  by (cases n rule: loop_parts.cases) auto

function scan_loops :: "(node \<Rightarrow> bool) \<Rightarrow> node \<Rightarrow> bool \<Rightarrow> node list" where
  "scan_loops m n inLoop =
     (case loop_parts n of
        Some (headers, body) \<Rightarrow>
          concat (map (\<lambda>x. scan_loops m x inLoop) headers) @ scan_loops m body True
      | None \<Rightarrow>
          (if is_call n \<and> inLoop \<and> m n then [n] else [])
          @ concat (map (\<lambda>c. scan_loops m c inLoop) (children n)))"
  by pat_completeness auto
termination
  by (relation "measure (\<lambda>(m, n, l). size n)")
    (auto dest!: loop_parts_children children_smaller intro: children_smaller)

declare scan_loops.simps [simp del]

definition callsInLoops :: "(node \<Rightarrow> bool) \<Rightarrow> node \<Rightarrow> node list" where
  "callsInLoops m body = scan_loops m body False"

section \<open>Facts about visitors\<close>

lemma inspect_accumulates:
  "inspect (\<lambda>m acc. (acc @ fst (g m), snd (g m))) n acc = acc @ visit g n"
proof (induction n arbitrary: acc rule: subnodes.induct)
  case (1 n)
  let ?v = "\<lambda>m acc. (acc @ fst (g m), snd (g m))"
  have fold: "fold (inspect ?v) cs acc = acc @ concat (map (visit g) cs)" if "set cs \<subseteq> set (children n)" for cs acc
    using that
  proof (induction cs arbitrary: acc)
    case (Cons c cs)
    then show ?case using "1.IH" [of c] by simp
  qed simp
  have step: "inspect ?v n acc = (if snd (g n) then fold (inspect ?v) (children n) (acc @ fst (g n)) else acc @ fst (g n))" for acc
    by (subst inspect.simps) simp
  show ?case unfolding visit_def step using fold [of "children n"] by simp
qed

lemma visit_unfold:
  "visit g n = fst (g n) @ (if snd (g n) then concat (map (visit g) (children n)) else [])"
proof -
  let ?v = "\<lambda>m acc. (acc @ fst (g m), snd (g m))"
  have "fold (inspect ?v) cs acc = acc @ concat (map (visit g) cs)" for cs acc
    by (induction cs arbitrary: acc) (simp_all add: inspect_accumulates)
  then show ?thesis unfolding visit_def by (subst inspect.simps) (simp add: case_prod_beta)
qed

lemma concat_concat_map: "concat (concat (map f xs)) = concat (map (\<lambda>x. concat (f x)) xs)"
  by (induction xs) auto

lemma visit_all: "visit (\<lambda>m. (g m, True)) n = concat (map g (subnodes n))"
proof (induction n rule: subnodes.induct)
  case (1 n)
  then show ?case by (subst visit_unfold, subst subnodes.simps) (simp add: map_concat concat_concat_map cong: map_cong)
qed

lemma set_visit: "x \<in> set (visit g n) \<Longrightarrow> \<exists>m \<in> set (subnodes n). x \<in> set (fst (g m))"
proof (induction n rule: subnodes.induct)
  case (1 n)
  from "1.prems" consider "x \<in> set (fst (g n))" | c where "c \<in> set (children n)" "x \<in> set (visit g c)"
    by (subst (asm) visit_unfold) (auto split: if_splits)
  then show ?case
  proof cases
    case 1
    then show ?thesis by (intro bexI [of _ n]) auto
  next
    case 2
    then show ?thesis using "1.IH" by (metis subnodes_children)
  qed
qed

lemma inspect_invariant:
  assumes "I s" "\<And>m s. \<lbrakk>m \<in> set (subnodes n); I s\<rbrakk> \<Longrightarrow> I (fst (v m s))"
  shows "I (inspect v n s)"
  using assms
proof (induction n arbitrary: s rule: subnodes.induct)
  case (1 n)
  have kids: "I (fold (inspect v) cs t)" if "set cs \<subseteq> set (children n)" "I t" for cs t
    using that
  proof (induction cs arbitrary: t)
    case (Cons c cs)
    moreover have "I (inspect v c t)"
      using Cons.prems "1.IH" [of c t] "1.prems"(2) by (simp, meson subnodes_children)
    ultimately show ?case by simp
  qed simp
  obtain t d where t: "v n s = (t, d)" by force
  have "I t" using "1.prems" t by (metis fst_conv subnodes_self)
  then show ?case using kids by (subst inspect.simps) (simp add: t)
qed

text \<open>
  Two ways the sources look for a node: a flag that also stops the walk, and a flag that only keeps
  the walk out of the node where it was set.
\<close>

definition inspect_found :: "(node \<Rightarrow> bool) \<Rightarrow> node \<Rightarrow> bool" where
  "inspect_found P n =
     inspect (\<lambda>x found. if found then (True, False) else (P x, \<not> P x)) n False"

definition inspect_any :: "(node \<Rightarrow> bool) \<Rightarrow> node \<Rightarrow> bool" where
  "inspect_any P n = inspect (\<lambda>x found. if P x then (True, False) else (found, True)) n False"

lemma inspect_found_iff: "inspect_found P n \<longleftrightarrow> (\<exists>x \<in> set (subnodes n). P x)"
proof -
  let ?v = "\<lambda>x found. if found then (True, False) else (P x, \<not> P x)"
  have "inspect ?v n s \<longleftrightarrow> s \<or> (\<exists>x \<in> set (subnodes n). P x)" for s
  proof (induction n arbitrary: s rule: subnodes.induct)
    case (1 n)
    have "fold (inspect ?v) cs t \<longleftrightarrow> t \<or> (\<exists>c \<in> set cs. \<exists>x \<in> set (subnodes c). P x)"
      if "set cs \<subseteq> set (children n)" for cs t
      using that by (induction cs arbitrary: t) (auto simp: "1.IH")
    then show ?case
      by (subst inspect.simps, subst subnodes.simps) auto
  qed
  then show ?thesis by (simp add: inspect_found_def)
qed

lemma inspect_any_iff: "inspect_any P n \<longleftrightarrow> (\<exists>x \<in> set (subnodes n). P x)"
proof -
  let ?v = "\<lambda>x found. if P x then (True, False) else (found, True)"
  have "inspect ?v n s \<longleftrightarrow> s \<or> (\<exists>x \<in> set (subnodes n). P x)" for s
  proof (induction n arbitrary: s rule: subnodes.induct)
    case (1 n)
    have "fold (inspect ?v) cs t \<longleftrightarrow> t \<or> (\<exists>c \<in> set cs. \<exists>x \<in> set (subnodes c). P x)"
      if "set cs \<subseteq> set (children n)" for cs t
      using that by (induction cs arbitrary: t) (auto simp: "1.IH")
    then show ?case
      by (subst inspect.simps, subst subnodes.simps) auto
  qed
  then show ?thesis by (simp add: inspect_any_def)
qed

lemma findCall_spec: "findCall m n = List.find (\<lambda>x. is_call x \<and> m (callName x)) (subnodes n)"
  by (simp add: findCall_def inspect_find)

lemma anyCall_iff: "anyCall n names \<longleftrightarrow> (\<exists>x \<in> set (subnodes n). is_call x \<and> callName x \<in> set names)"
  by (auto simp: anyCall_def findCall_spec find_None_iff)

lemma callsMatching_iff:
  "callsMatching n sub \<longleftrightarrow> (\<exists>x \<in> set (subnodes n). is_call x \<and> str_contains (callName x) sub)"
  by (auto simp: callsMatching_def findCall_spec find_None_iff)

lemma countCalls_spec: "countCalls m n = length (filter (\<lambda>x. is_call x \<and> m x) (subnodes n))"
proof -
  have "fold (\<lambda>x k. if is_call x \<and> m x then k + 1 else k) xs k = k + length (filter (\<lambda>x. is_call x \<and> m x) xs)"
    for xs and k :: nat
    by (induction xs arbitrary: k) auto
  then show ?thesis
    unfolding countCalls_def
    by (subst inspect_all [where g = "\<lambda>x k. if is_call x \<and> m x then k + 1 else k"]) simp_all
qed

lemma stringLitsIn_spec: "stringLitsIn n = filter is_string_lit (subnodes n)"
proof -
  have "concat (map (\<lambda>x. if is_string_lit x then [x] else []) xs) = filter is_string_lit xs" for xs
    by (induction xs) auto
  then show ?thesis by (simp add: stringLitsIn_def visit_all)
qed

section \<open>What repeats\<close>

text \<open>
  One step down the tree as the analysis reads it: the flag says whether the code at the node runs
  repeatedly. Only the body of a loop switches it on; the key and value of a range are no code.
\<close>

inductive scans :: "node \<Rightarrow> bool \<Rightarrow> node \<Rightarrow> bool \<Rightarrow> bool" where
  here: "scans n l n l"
| child: "\<lbrakk>loop_parts n = None; c \<in> set (children n); scans c l m k\<rbrakk> \<Longrightarrow> scans n l m k"
| header: "\<lbrakk>loop_parts n = Some (hs, b); h \<in> set hs; scans h l m k\<rbrakk> \<Longrightarrow> scans n l m k"
| body: "\<lbrakk>loop_parts n = Some (hs, b); scans b True m k\<rbrakk> \<Longrightarrow> scans n l m k"

inductive_cases scansE: "scans n l m k"

lemma scan_loops_sound:
  "x \<in> set (scan_loops m n l) \<Longrightarrow> is_call x \<and> m x \<and> scans n l x True"
proof (induction m n l rule: scan_loops.induct)
  case (1 m n l)
  show ?case
  proof (cases "loop_parts n")
    case None
    with "1.prems" consider "is_call n" "l" "m n" "x = n"
      | c where "c \<in> set (children n)" "x \<in> set (scan_loops m c l)"
      by (subst (asm) scan_loops.simps) (auto split: if_splits)
    then show ?thesis
    proof cases
      case 1
      then show ?thesis by (simp add: scans.here)
    next
      case 2
      then show ?thesis using "1.IH"(1) [OF None 2] scans.child [OF None] by blast
    qed
  next
    case (Some p)
    obtain hs b where p: "p = (hs, b)" by force
    with Some "1.prems" consider h where "h \<in> set hs" "x \<in> set (scan_loops m h l)"
      | "x \<in> set (scan_loops m b True)"
      by (subst (asm) scan_loops.simps) auto
    then show ?thesis
    proof cases
      case 1
      then show ?thesis using "1.IH"(2) [OF Some p [symmetric] 1] scans.header [OF Some [unfolded p]] by blast
    next
      case 2
      then show ?thesis using "1.IH"(3) [OF Some p [symmetric] 2] scans.body [OF Some [unfolded p]] by blast
    qed
  qed
qed

lemma call_no_loop: "is_call n \<Longrightarrow> loop_parts n = None"
  by (cases n) auto

lemma scan_loops_complete:
  "scans n l x k \<Longrightarrow> k \<Longrightarrow> is_call x \<Longrightarrow> m x \<Longrightarrow> x \<in> set (scan_loops m n l)"
proof (induction rule: scans.induct)
  case (here n l)
  then show ?case using call_no_loop by (subst scan_loops.simps) simp
next
  case child
  then show ?case by (subst scan_loops.simps) auto
next
  case header
  then show ?case by (subst scan_loops.simps) auto
next
  case body
  then show ?case by (subst scan_loops.simps) auto
qed

lemma callsInLoops_iff: "x \<in> set (callsInLoops m n) \<longleftrightarrow> is_call x \<and> m x \<and> scans n False x True"
  unfolding callsInLoops_def
  using scan_loops_sound [of x m n False] scan_loops_complete [of n False x True m] by blast

lemma scans_subnodes: "scans n l m k \<Longrightarrow> m \<in> set (subnodes n)"
proof (induction rule: scans.induct)
  case (child n c l m k)
  then show ?case by (metis subnodes_children)
next
  case (header n hs b h l m k)
  then show ?case using loop_parts_children by (metis subnodes_children subset_iff)
next
  case (body n hs b m k l)
  then show ?case using loop_parts_children by (metis subnodes_children)
qed simp

text \<open>Repeating needs a loop: the flag comes on only below the body of one.\<close>

lemma scans_loop:
  "scans n l m k \<Longrightarrow> k \<Longrightarrow> \<not> l \<Longrightarrow>
     \<exists>loop hs b. loop \<in> set (subnodes n) \<and> loop_parts loop = Some (hs, b) \<and> m \<in> set (subnodes b)"
proof (induction rule: scans.induct)
  case (child n c l m k)
  then show ?case by (metis subnodes_children)
next
  case (header n hs b h l m k)
  then show ?case using loop_parts_children by (metis subnodes_children subset_iff)
next
  case (body n hs b m k l)
  then show ?case using scans_subnodes by (metis subnodes_self)
qed simp

lemma callsInLoops_subset:
  assumes "x \<in> set (callsInLoops m n)"
  shows "is_call x \<and> m x \<and> (\<exists>loop hs b. loop \<in> set (subnodes n) \<and> loop_parts loop = Some (hs, b)
           \<and> x \<in> set (subnodes b))"
  using assms scans_loop [of n False x True] by (simp add: callsInLoops_iff)

end
