(* ===== verification/ConfigRules.thy ===== *)
theory ConfigRules
  imports AstUtil
begin

text \<open>
  Model of gotools/internal/rules/config_rules.go: committed credentials, configuration keys that
  the code reads, and the key that switches API documentation on; and the shared proof that a check
  reports only through its pass.
\<close>

section \<open>Proving the contract of a check\<close>

definition rep :: "Pass \<Rightarrow> Violation list \<Rightarrow> bool" where
  "rep p vs \<longleftrightarrow> (\<forall>v \<in> set vs. \<exists>fd msg. v = Report p fd msg)"

lemma reports_onlyI: "(\<And>p. rep p (c p)) \<Longrightarrow> reports_only c"
  by (auto simp: reports_only_def rep_def)

lemma rep_intros [reported]:
  "rep p []"
  "rep p [Report p fd msg]"
  "rep p xs \<Longrightarrow> rep p ys \<Longrightarrow> rep p (xs @ ys)"
  "rep p zs \<Longrightarrow> rep p (Report p fd msg # zs)"
  "(\<And>x. rep p (f x)) \<Longrightarrow> rep p (concat (map f us))"
  "(\<And>m. rep p (fst (g m))) \<Longrightarrow> rep p (visit g n)"
  "rep p xs \<Longrightarrow> rep p ys \<Longrightarrow> rep p (if b then xs else ys)"
  "rep p xs \<Longrightarrow> (\<And>x. rep p (h x)) \<Longrightarrow> rep p (case opt of None \<Rightarrow> xs | Some x \<Rightarrow> h x)"
  "rep p xs \<Longrightarrow> (\<And>x l. rep p (k x l)) \<Longrightarrow> rep p (case lst of [] \<Rightarrow> xs | x # l \<Rightarrow> k x l)"
  "(\<And>x y. rep p (q x y)) \<Longrightarrow> rep p (case pr of (x, y) \<Rightarrow> q x y)"
  "(\<And>x. rep p (h x)) \<Longrightarrow> rep p (Let e h)"
  by (fastforce simp: rep_def Let_def split: option.splits list.splits prod.splits dest: set_visit)+

lemma rep_fst_intros [reported]:
  "rep p xs \<Longrightarrow> rep p (fst (xs, d))"
  "rep p (fst u) \<Longrightarrow> rep p (fst w) \<Longrightarrow> rep p (fst (if b then u else w))"
  "rep p (fst u) \<Longrightarrow> (\<And>x. rep p (fst (h2 x))) \<Longrightarrow> rep p (fst (case opt of None \<Rightarrow> u | Some x \<Rightarrow> h2 x))"
  "rep p (fst u) \<Longrightarrow> (\<And>x l. rep p (fst (k2 x l))) \<Longrightarrow> rep p (fst (case lst of [] \<Rightarrow> u | x # l \<Rightarrow> k2 x l))"
  "(\<And>x y. rep p (fst (q2 x y))) \<Longrightarrow> rep p (fst (case pr of (x, y) \<Rightarrow> q2 x y))"
  "(\<And>x. rep p (fst (h2 x))) \<Longrightarrow> rep p (fst (Let e h2))"
  by (auto simp: Let_def split: option.splits list.splits prod.splits)

lemma rep_inspect_state [reported]:
  "rep p (fst s) \<Longrightarrow> (\<And>m t. rep p (fst t) \<Longrightarrow> rep p (fst (fst (v m t)))) \<Longrightarrow> rep p (fst (inspect v n s))"
  by (rule inspect_invariant [where I = "\<lambda>t. rep p (fst t)"]) auto

section \<open>secrets-in-config\<close>

definition credentialKeys :: "string list" where
  "credentialKeys =
     [''password'', ''passwd'', ''pwd'',
      ''secret'', ''secretkey'', ''clientsecret'',
      ''token'', ''accesstoken'', ''refreshtoken'', ''bearertoken'',
      ''apikey'', ''accesskey'', ''privatekey'', ''credential'', ''credentials'',
      ''passphrase'', ''salt'', ''signingkey'', ''encryptionkey'']"

definition isCredentialKey :: "string \<Rightarrow> bool" where
  "isCredentialKey path =
     (let last = (case last_index_char path (CHR ''.'') of None \<Rightarrow> path | Some i \<Rightarrow> drop (i + 1) path);
          norm = to_lower (filter (\<lambda>c. c \<noteq> CHR ''_'' \<and> c \<noteq> CHR ''-'' \<and> c \<noteq> CHR '' '') last)
      in list_ex (\<lambda>k. norm = k \<or> has_suffix norm k) credentialKeys)"

definition sortedKeys :: "key_table \<Rightarrow> string list" where
  "sortedKeys m = sort_strings (map fst m)"

definition secrets_entry :: "Pass \<Rightarrow> ConfigFile \<Rightarrow> ConfigKey \<Rightarrow> Violation list" where
  "secrets_entry p cf entry =
     (if \<not> isCredentialKey (ckPath entry) \<or> \<not> HasRealValue entry then []
      else let f = Fix ''blank it and supply the value from your deployment's secret store at run time''
                     (AtPath (cfRel cf) (ckLine entry))
        in if Touched p (cfRel cf)
           then [Report p f (ckPath entry @ '' sets a literal credential; it must not be committed'')]
           else [Report p (Sev SeverityWarning f)
                  (ckPath entry @ '' carries a committed credential (pre-existing '' @ emdash
                   @ '' rotate it and blank the file; the agent will not echo the value)'')])"

definition secrets_check :: "Pass \<Rightarrow> Violation list" where
  "secrets_check p =
     concat (map (\<lambda>cf.
       if cfParseErr cf \<noteq> None then []
       else concat (map (\<lambda>key.
              case map_of (cfKeys cf) key of
                None \<Rightarrow> []
              | Some entry \<Rightarrow> secrets_entry p cf entry) (sortedKeys (cfKeys cf))))
       (wsConfigs (pWS p)))"

definition SecretsInConfig :: Rule where
  "SecretsInConfig = mk_rule ''secrets-in-config'' SeverityError
     ''no literal credentials in configs/*.yaml''
     (''plan.md '' @ sect @ ''6, '' @ sect @ ''17; new-template/configs/*.yaml'') False secrets_check"

lemma secrets_reports: "reports_only secrets_check"
  unfolding secrets_check_def secrets_entry_def by (intro reports_onlyI reported)

section \<open>config-key-exists\<close>

definition configGetters :: "string list" where
  "configGetters =
     [''GetString'', ''GetInt'', ''GetInt32'', ''GetInt64'',
      ''GetUint'', ''GetUint32'', ''GetUint64'',
      ''GetBool'', ''GetFloat64'', ''GetDuration'', ''GetTime'',
      ''GetStringSlice'', ''GetIntSlice'', ''GetStringMap'',
      ''GetStringMapString'', ''GetSizeInBytes'', ''Get'']"

definition stringLit :: "node \<Rightarrow> string option" where
  "stringLit e =
     (case e of
        BasicLit _ k v \<Rightarrow>
          if k \<noteq> STRING then None
          else if 2 \<le> length v \<and> (hd v = CHR 0x22 \<or> hd v = CHR 0x60)
               then Some (take (length v - 2) (drop 1 v)) else None
      | _ \<Rightarrow> None)"

text \<open>The key a call reads, when the call is a getter and its key is a literal.\<close>

definition read_key :: "node \<Rightarrow> (node \<times> string) option" where
  "read_key call =
     (if \<not> is_call call then None
      else (case call_args call of
              [] \<Rightarrow> None
            | a # _ \<Rightarrow>
                (case sel_name (call_fun call) of
                   None \<Rightarrow> None
                 | Some s \<Rightarrow>
                     if s \<notin> set configGetters then None
                     else (case stringLit a of
                             None \<Rightarrow> None
                           | Some key \<Rightarrow> if key = [] then None else Some (a, key)))))"

definition missing_in :: "ConfigFile list \<Rightarrow> string \<Rightarrow> string list" where
  "missing_in configs key = map cfRel (filter (\<lambda>cf. cfParseErr cf = None \<and> \<not> cf_has cf key) configs)"

definition config_call :: "Pass \<Rightarrow> gofile \<Rightarrow> node \<Rightarrow> Violation list" where
  "config_call p f n =
     (case read_key n of
        None \<Rightarrow> []
      | Some (a, key) \<Rightarrow>
          (let configs = wsConfigs (pWS p); missing = missing_in configs key in
           if length missing = 0 then []
           else if length missing = length configs then
             [Report p
               (Fix (''add '' @ go_quote key @ '' to configs/config.yaml, or correct the path (casing is not significant, but the segments are)'')
                 (At f a))
               (''config key '' @ go_quote key @ '' is not declared in any config file; the lookup returns the zero value'')]
           else
             [Report p
               (Fix (''add '' @ go_quote key @ '' to '' @ str_join '', '' missing) (At f a))
               (''config key '' @ go_quote key @ '' is missing from '' @ itoa (length missing) @ '' of ''
                @ itoa (length configs) @ '' config files ('' @ str_join '', '' missing
                @ ''); the lookup returns the zero value in those environments'')]))"

definition config_key_check :: "Pass \<Rightarrow> Violation list" where
  "config_key_check p =
     (if wsConfigs (pWS p) = [] then []
      else concat (map (\<lambda>f.
             if fLayer f = LayerTest then [] else visit (\<lambda>n. (config_call p f n, True)) (fAST f))
             (wsFiles (pWS p))))"

definition ConfigKeyExists :: Rule where
  "ConfigKeyExists = mk_rule ''config-key-exists'' SeverityError
     ''every cfg.Get*(\"key\") is declared in configs/*.yaml''
     (''skill.md '' @ sect @ ''Configuration Files; plan.md '' @ sect @ ''13.2'') False config_key_check"

lemma config_key_reports: "reports_only config_key_check"
  unfolding config_key_check_def config_call_def by (intro reports_onlyI reported)

section \<open>swagger-visible\<close>

definition swaggerModeKey :: string where
  "swaggerModeKey = ''swagger.generation.mode''"

definition keyLine :: "ConfigFile \<Rightarrow> string \<Rightarrow> nat \<Rightarrow> nat" where
  "keyLine cf path fallback = (case cf_key cf path of None \<Rightarrow> fallback | Some k \<Rightarrow> ckLine k)"

definition mode_set :: "ConfigFile \<Rightarrow> bool" where
  "mode_set cf = (case cf_key cf swaggerModeKey of None \<Rightarrow> False | Some k \<Rightarrow> HasRealValue k)"

definition swagger_check :: "Pass \<Rightarrow> Violation list" where
  "swagger_check p =
     (let configs = wsConfigs (pWS p) in
      if configs = [] then []
      else (case BaseConfig (pWS p) of
              None \<Rightarrow>
                [Report p
                  (Fix ''add configs/config.yaml declaring swagger.generation.mode: \"build\"''
                    (AtPath ''configs/config.yaml'' 1))
                  ''no base configs/config.yaml; the framework has no default configuration to read'']
            | Some base \<Rightarrow>
                (if \<not> mode_set base then
                   [Report p
                     (Fix (''add swagger: {generation: {mode: \"build\"}} '' @ emdash
                           @ '' the framework generates the document, there is no CLI'')
                       (AtPath (cfRel base) (keyLine base ''swagger'' 1)))
                     (swaggerModeKey @ '' is not set; no OpenAPI document is generated and every route is missing from /docs/v3Doc.json'')]
                 else [])
                @ (let missing = map cfEnv (filter (\<lambda>cf. cfEnv cf \<noteq> [] \<and> cfParseErr cf = None \<and> \<not> mode_set cf) configs)
                   in if missing \<noteq> [] then
                        [Report p
                          (Fix ''declare swagger.generation.mode in each environment file, or confirm with the template owner that documentation is base-config only''
                            (Sev SeverityWarning (AtPath (cfRel base) 1)))
                          (swaggerModeKey @ '' is declared in the base config but not in ''
                           @ str_join '', '' missing @ ''; those environments generate no OpenAPI document'')]
                      else [])))"

definition SwaggerVisible :: Rule where
  "SwaggerVisible = mk_rule ''swagger-visible'' SeverityError
     ''swagger.generation.mode is set, so routes reach /docs/v3Doc.json''
     (''SOP.md '' @ sect @ ''Running the application and Swagger Docs; configs/config.yaml'') False swagger_check"

lemma swagger_reports: "reports_only swagger_check"
  unfolding swagger_check_def by (intro reports_onlyI reported)

section \<open>Credentials stay out of the reports\<close>

text \<open>Erasing every value of a configuration, but for the bit whether it is a real one.\<close>

definition redact :: "ConfigKey \<Rightarrow> ConfigKey" where
  "redact e = e\<lparr>ckValue := (if HasRealValue e then ''redacted'' else [])\<rparr>"

definition redact_file :: "ConfigFile \<Rightarrow> ConfigFile" where
  "redact_file cf = cf\<lparr>cfKeys := map (\<lambda>(k, e). (k, redact e)) (cfKeys cf)\<rparr>"

definition redact_pass :: "Pass \<Rightarrow> Pass" where
  "redact_pass p = p\<lparr>pWS := (pWS p)\<lparr>wsConfigs := map redact_file (wsConfigs (pWS p))\<rparr>\<rparr>"

lemma HasRealValue_redact: "HasRealValue (redact e) = HasRealValue e"
proof -
  have real: "trim_space ''redacted'' = ''redacted''" "to_lower ''redacted'' \<notin> set placeholderValues"
    "trim_space [] = []" "to_lower [] \<in> set placeholderValues"
    "\<not> has_prefix ''redacted'' ''${''" "\<not> has_prefix ''redacted'' ''<''"
    by code_simp+
  show ?thesis
  proof (cases "HasRealValue e")
    case True
    then have "ckScalar e" "\<not> ckEmpty e" by (auto simp: HasRealValue_def split: if_splits)
    then show ?thesis using True real by (simp add: redact_def HasRealValue_def [of "ckValue_update _ e"] Let_def)
  next
    case False
    then show ?thesis using real by (simp add: redact_def HasRealValue_def [of "ckValue_update _ e"] Let_def)
  qed
qed

lemma Report_redact [simp]: "Report (redact_pass p) = Report p"
  by (intro ext) (simp add: Report_def redact_pass_def)

lemma Touched_redact [simp]: "Touched (redact_pass p) = Touched p"
  by (intro ext) (simp add: Touched_def redact_pass_def)

lemma secrets_entry_redact: "secrets_entry (redact_pass p) (redact_file cf) (redact e) = secrets_entry p cf e"
proof -
  have "ckPath (redact e) = ckPath e" "ckLine (redact e) = ckLine e" "cfRel (redact_file cf) = cfRel cf"
    by (simp_all add: redact_def redact_file_def)
  then show ?thesis by (simp add: secrets_entry_def HasRealValue_redact Let_def)
qed

lemma map_of_redact: "map_of (cfKeys (redact_file cf)) k = map_option redact (map_of (cfKeys cf) k)"
  by (simp add: redact_file_def map_of_map)

lemma sortedKeys_redact: "sortedKeys (cfKeys (redact_file cf)) = sortedKeys (cfKeys cf)"
  by (simp add: sortedKeys_def redact_file_def comp_def case_prod_beta)


section \<open>What the checks report\<close>

definition committed_credential :: "ConfigFile \<Rightarrow> ConfigKey \<Rightarrow> bool" where
  "committed_credential cf e \<longleftrightarrow>
     cfParseErr cf = None \<and> e \<in> ran (map_of (cfKeys cf)) \<and> isCredentialKey (ckPath e) \<and> HasRealValue e"

lemma in_sortedKeys: "k \<in> set (sortedKeys m) \<longleftrightarrow> map_of m k \<noteq> None"
  by (simp add: sortedKeys_def map_of_eq_None_iff)

lemma in_concat_map: "v \<in> set (concat (map f xs)) \<longleftrightarrow> (\<exists>x \<in> set xs. v \<in> set (f x))"
  by simp

lemma concat_map_ne: "concat (map f xs) \<noteq> [] \<longleftrightarrow> (\<exists>x. x \<in> set xs \<and> f x \<noteq> [])"
  by (induction xs) auto

lemma if_nil_ne: "(if b then [] else xs) \<noteq> [] \<longleftrightarrow> \<not> b \<and> xs \<noteq> []"
  by simp

lemma secrets_entry_real:
  "v \<in> set (secrets_entry p cf e) \<Longrightarrow> isCredentialKey (ckPath e) \<and> HasRealValue e"
  by (simp add: secrets_entry_def split: if_splits)

lemma secrets_check_iff:
  "v \<in> set (secrets_check p) \<longleftrightarrow>
     (\<exists>cf \<in> set (wsConfigs (pWS p)). \<exists>e. committed_credential cf e \<and> v \<in> set (secrets_entry p cf e))"
proof -
  have one: "v \<in> set (if cfParseErr cf \<noteq> None then []
       else concat (map (\<lambda>key. case map_of (cfKeys cf) key of None \<Rightarrow> [] | Some entry \<Rightarrow> secrets_entry p cf entry)
              (sortedKeys (cfKeys cf))))
     \<longleftrightarrow> (\<exists>e. committed_credential cf e \<and> v \<in> set (secrets_entry p cf e))" (is "?l \<longleftrightarrow> ?r") for cf
  proof
    assume ?l
    then obtain key where pe: "cfParseErr cf = None" and key: "key \<in> set (sortedKeys (cfKeys cf))"
      and v: "v \<in> set (case map_of (cfKeys cf) key of None \<Rightarrow> [] | Some entry \<Rightarrow> secrets_entry p cf entry)"
      by (auto split: if_splits)
    from key obtain e where e: "map_of (cfKeys cf) key = Some e" by (auto simp: in_sortedKeys)
    with v have ve: "v \<in> set (secrets_entry p cf e)" by simp
    then show ?r using pe e secrets_entry_real [OF ve] by (auto simp: committed_credential_def ran_def)
  next
    assume ?r
    then obtain e key where pe: "cfParseErr cf = None" and e: "map_of (cfKeys cf) key = Some e"
      and v: "v \<in> set (secrets_entry p cf e)"
      by (auto simp: committed_credential_def ran_def)
    then have "key \<in> set (sortedKeys (cfKeys cf))" by (simp add: in_sortedKeys)
    with pe e v show ?l by (auto intro!: bexI [of _ key])
  qed
  show ?thesis unfolding secrets_check_def in_concat_map using one by blast
qed

lemma secrets_entry_at:
  "v \<in> set (secrets_entry p cf e) \<Longrightarrow> vPath v = cfRel cf \<and> vLine v = ckLine e"
  by (auto simp: secrets_entry_def Let_def split: if_splits)

lemma secrets_entry_severity:
  assumes "v \<in> set (secrets_entry p cf e)" "\<not> HasSeverityOverride (pCfg p) (rID (pRule p))"
  shows "vSeverity v = (if Touched p (cfRel cf) then rSeverity (pRule p) else SeverityWarning)"
  using assms
  by (auto simp: secrets_entry_def Let_def Report_severity SeverityFor_def HasSeverityOverride_def
      SeverityWarning_def split: if_splits option.splits)

lemma secrets_entry_ne: "committed_credential cf e \<Longrightarrow> secrets_entry p cf e \<noteq> []"
  by (simp add: committed_credential_def secrets_entry_def Let_def)

text \<open>
  Config-key-exists is silent exactly when nothing is missing: it reports something if and only
  if some non-test file has a getter call with a literal key that some readable configuration file
  does not declare.
\<close>

theorem config_key_check_complete:
  "config_key_check p \<noteq> [] \<longleftrightarrow>
     (\<exists>f call a key cf.
        f \<in> set (wsFiles (pWS p)) \<and> fLayer f \<noteq> LayerTest \<and> call \<in> set (subnodes (fAST f))
        \<and> read_key call = Some (a, key)
        \<and> cf \<in> set (wsConfigs (pWS p)) \<and> cfParseErr cf = None \<and> \<not> cf_has cf key)"
proof -
  have call: "config_call p f n \<noteq> [] \<longleftrightarrow>
      (\<exists>a key cf. read_key n = Some (a, key) \<and> cf \<in> set (wsConfigs (pWS p)) \<and> cfParseErr cf = None
        \<and> \<not> cf_has cf key)" for f n
    by (auto simp: config_call_def missing_in_def Let_def filter_empty_conv split: option.splits)
  have "config_key_check p \<noteq> [] \<longleftrightarrow>
      wsConfigs (pWS p) \<noteq> []
      \<and> (\<exists>f. f \<in> set (wsFiles (pWS p)) \<and> fLayer f \<noteq> LayerTest
            \<and> (\<exists>n. n \<in> set (subnodes (fAST f)) \<and> config_call p f n \<noteq> []))"
    by (simp add: config_key_check_def visit_all concat_map_ne if_nil_ne del: concat_eq_Nil_conv)
  moreover have "wsConfigs (pWS p) \<noteq> []" if "cf \<in> set (wsConfigs (pWS p))" for cf
    using that by auto
  ultimately show ?thesis unfolding call by blast
qed

end
