(* ===== verification/FxRules.thy ===== *)
theory FxRules
  imports ConfigRules
begin

text \<open>
  Model of gotools/internal/rules/layer.go (the two layer boundaries) and fx.go (the composition
  root: which constructors exist, how bootstrap/ registers them, and the fx-registration rule).

  Go iterates the map of layer.go's importSpecs in random order; the model takes the order in which
  its paths were first inserted, and Run sorts what is reported anyway.
\<close>

section \<open>Layer boundaries\<close>

definition dataAccessPkgs :: "string list" where
  "dataAccessPkgs =
     [''github.com/Masterminds/squirrel'',
      ''github.com/jackc/pgx'',
      ''gitlab.cept.gov.in/it-2.0-common/n-api-db'',
      ''gitlab.cept.gov.in/it-2.0-common/api-db'',
      ''database/sql'']"

definition sql_boundary_check :: "Pass \<Rightarrow> Violation list" where
  "sql_boundary_check p =
     concat (map (\<lambda>f.
       if fLayer f = LayerRepo \<or> fLayer f = LayerTest then []
       else (case ImportsAny f dataAccessPkgs of
               None \<Rightarrow> []
             | Some (path, spec) \<Rightarrow>
                 [Report p (Fix ''move the query into a repo/postgres method and call it from here'' (At f spec))
                   (''data-access package '' @ go_quote path @ '' imported in the ''
                    @ layer_string (fLayer f) @ '' layer; SQL belongs in repo/'')]))
       (wsFiles (pWS p)))"

definition LayerSQLBoundary :: Rule where
  "LayerSQLBoundary = mk_rule ''layer-sql-boundary'' SeverityError
     ''SQL, Squirrel and pgx may only be used inside repo/''
     (''skill.md '' @ sect @ ''Repository Pattern; SOP.md '' @ sect @ ''[handler].go (step 5, no gin.Context)'')
     False sql_boundary_check"

definition importSpecs :: "gofile \<Rightarrow> (string \<times> node) list" where
  "importSpecs f = fold (\<lambda>im m. AList.update (import_path im) im m) (ast_imports (fAST f)) []"

definition dto_boundary_check :: "Pass \<Rightarrow> Violation list" where
  "dto_boundary_check p =
     (let md = wsModulePath (pWS p) in
      concat (map (\<lambda>f.
        if fLayer f = LayerRepo then
          (if md = [] then []
           else concat (map (\<lambda>(path, spec).
                  if has_prefix path (md @ ''/handler'') then
                    [Report p
                      (Fix ''return domain.* from the repository; convert in handler/response via New*Response''
                        (At f spec))
                      (''repo imports '' @ go_quote path @ ''; the repository layer must not know about DTOs'')]
                  else []) (importSpecs f)))
        else if fLayer f = LayerDomain then
          concat (map (\<lambda>bad.
            case ImportsAny f [bad] of
              None \<Rightarrow> []
            | Some (path, spec) \<Rightarrow>
                [Report p (Fix ''keep transport types in handler/; the domain model stays plain Go'' (At f spec))
                  (''domain model imports '' @ go_quote path @ ''; domain types must not carry HTTP concerns'')])
            [''net/http'', ''github.com/gin-gonic/gin'', ''mime/multipart''])
        else [])
        (wsFiles (pWS p))))"

definition LayerDTOBoundary :: Rule where
  "LayerDTOBoundary = mk_rule ''layer-dto-boundary'' SeverityError
     ''repo/ must not import handler/; domain must not carry HTTP or DTO types''
     (''skill.md '' @ sect @ ''Domain Model Pattern, '' @ sect @ ''Response DTO Pattern'') False dto_boundary_check"

lemma sql_boundary_reports: "reports_only sql_boundary_check"
  unfolding sql_boundary_check_def by (intro reports_onlyI reported)

lemma dto_boundary_reports: "reports_only dto_boundary_check"
  unfolding dto_boundary_check_def by (intro reports_onlyI reported)

section \<open>The composition root\<close>

definition fxModuleRepo :: string where "fxModuleRepo = ''FxRepo''"

definition fxModuleHandler :: string where "fxModuleHandler = ''FxHandler''"

definition handlerIface :: string where "handlerIface = ''serverHandler.Handler''"

definition groupTag :: string where "groupTag = ''serverHandler.ServerControllersGroupTag''"

datatype FXKind = FXRepo | FXHandler

datatype FXState = FXUnregistered | FXPlain | FXAnnotated

record FXCtor =
  fcName :: string
  fcKind :: FXKind
  fcFile :: string
  fcLine :: nat
  fcState :: FXState
  fcHasAs :: bool
  fcHasResultTags :: bool
  fcRegPath :: string
  fcRegLine :: nat
  fcDecl :: "node option"
  fcSource :: gofile

definition FXCtor_OK :: "FXCtor \<Rightarrow> bool" where
  "FXCtor_OK c =
     (if fcKind c = FXRepo then fcState c \<noteq> FXUnregistered
      else fcState c = FXAnnotated \<and> fcHasAs c \<and> fcHasResultTags c)"

record FXScan =
  fsPresent :: bool
  fsCtors :: "FXCtor list"

definition FXNames :: "FXScan \<Rightarrow> FXKind \<Rightarrow> (FXCtor \<Rightarrow> bool) option \<Rightarrow> string list" where
  "FXNames s kind keep =
     map fcName (filter (\<lambda>c. fcKind c = kind \<and> (case keep of None \<Rightarrow> True | Some k \<Rightarrow> k c)) (fsCtors s))"

definition Unwired :: "FXScan \<Rightarrow> string list" where
  "Unwired s = map fcName (filter (\<lambda>c. fcState c = FXUnregistered) (fsCtors s))"

definition Misregistered :: "FXScan \<Rightarrow> string list" where
  "Misregistered s =
     map fcName (filter (\<lambda>c. fcKind c = FXHandler \<and> fcState c \<noteq> FXUnregistered \<and> \<not> FXCtor_OK c) (fsCtors s))"

record FXAnnotation =
  faHasAs :: bool
  faHasResultTags :: bool
  faPath :: string
  faLine :: nat

definition is_exported :: "string \<Rightarrow> bool" where
  "is_exported n = (case n of [] \<Rightarrow> False | c # _ \<Rightarrow> is_upper c)"

definition ctor_decl :: "gofile \<Rightarrow> string \<Rightarrow> node option" where
  "ctor_decl f name = List.find (\<lambda>fd. fd_name fd = name) (rev (funcsIn f))"

definition returns_ctor :: "string \<Rightarrow> node \<Rightarrow> bool" where
  "returns_ctor suf fd \<longleftrightarrow>
     receiverType fd = None \<and> has_prefix (fd_name fd) ''New'' \<and> is_exported (fd_name fd)
     \<and> (case results fd of [] \<Rightarrow> False | r # _ \<Rightarrow> has_suffix (trim_prefix r ''*'') suf)"

definition constructorsReturning :: "gofile \<Rightarrow> string \<Rightarrow> (string \<times> string \<times> nat) list" where
  "constructorsReturning f suf =
     map (\<lambda>fd. (fd_name fd, fRel f, fst (Position fd))) (filter (returns_ctor suf) (funcsIn f))"

definition bareName :: "node \<Rightarrow> string" where
  "bareName e = (case e of Ident _ n \<Rightarrow> n | SelectorExpr _ _ s \<Rightarrow> s | _ \<Rightarrow> [])"

definition annotation_arg :: "node \<Rightarrow> FXAnnotation \<Rightarrow> FXAnnotation" where
  "annotation_arg arg a =
     (if \<not> is_call arg then a
      else if callName arg = ''fx.As'' then
        (case call_args arg of
           [] \<Rightarrow> a
         | i # _ \<Rightarrow>
             (case newArgType i of
                None \<Rightarrow> a
              | Some t \<Rightarrow> if has_suffix t ''Handler'' then a\<lparr>faHasAs := True\<rparr> else a))
      else if callName arg = ''fx.ResultTags'' then a\<lparr>faHasResultTags := True\<rparr>
      else a)"

type_synonym fx_maps = "(string \<times> FXAnnotation) list \<times> string list"

definition provide_arg :: "node \<Rightarrow> fx_maps \<Rightarrow> fx_maps" where
  "provide_arg arg st =
     (if is_call arg \<or> bareName arg = [] then st else (fst st, bareName arg # snd st))"

definition fx_visitor :: "gofile \<Rightarrow> node \<Rightarrow> fx_maps \<Rightarrow> fx_maps \<times> bool" where
  "fx_visitor f n st =
     (if \<not> is_call n then (st, True)
      else if callName n = ''fx.Annotate'' then
        (case call_args n of
           [] \<Rightarrow> (st, True)
         | a0 # as \<Rightarrow>
             if bareName a0 = [] then (st, True)
             else
               (let a = fold annotation_arg as
                          \<lparr>faHasAs = False, faHasResultTags = False, faPath = fRel f, faLine = fst (Position n)\<rparr>
                in ((AList.update (bareName a0) a (fst st), snd st), False)))
      else if callName n = ''fx.Provide'' then (fold provide_arg (call_args n) st, True)
      else (st, True))"

definition collectFxProvides :: "gofile \<Rightarrow> fx_maps \<Rightarrow> fx_maps" where
  "collectFxProvides f st = inspect (fx_visitor f) (fAST f) st"

definition scan_ctor :: "fx_maps \<Rightarrow> gofile \<Rightarrow> FXKind \<Rightarrow> string \<times> string \<times> nat \<Rightarrow> FXCtor" where
  "scan_ctor maps f kind ref =
     (case ref of
        (name, file, line) \<Rightarrow>
          (let c = \<lparr>fcName = name, fcKind = kind, fcFile = file, fcLine = line, fcState = FXUnregistered,
                     fcHasAs = False, fcHasResultTags = False, fcRegPath = [], fcRegLine = 0,
                     fcDecl = ctor_decl f name, fcSource = f\<rparr>
           in (case map_of (fst maps) name of
                 Some ann \<Rightarrow>
                   c\<lparr>fcState := FXAnnotated, fcHasAs := faHasAs ann, fcHasResultTags := faHasResultTags ann,
                     fcRegPath := faPath ann, fcRegLine := faLine ann\<rparr>
               | None \<Rightarrow> if name \<in> set (snd maps) then c\<lparr>fcState := FXPlain\<rparr> else c)))"

definition bootstrap_maps :: "workspace \<Rightarrow> fx_maps" where
  "bootstrap_maps w = fold collectFxProvides (FilesIn w [LayerBootstrap]) ([], [])"

definition ScanFX :: "workspace \<Rightarrow> FXScan" where
  "ScanFX w =
     (let maps = bootstrap_maps w;
          add = (\<lambda>kind suf f. map (scan_ctor maps f kind) (constructorsReturning f suf));
          ctors = concat (map (add FXHandler ''Handler'') (FilesIn w [LayerHandler]))
            @ concat (map (add FXRepo ''Repository'') (FilesIn w [LayerRepo]))
      in \<lparr>fsPresent = (0 < length (FilesIn w [LayerBootstrap])), fsCtors = sort_key fcName ctors\<rparr>)"

text \<open>At with a declaration that may be nil: the position is then left at zero.\<close>

definition At_opt :: "gofile \<Rightarrow> node option \<Rightarrow> Finding" where
  "At_opt f n = (case n of Some x \<Rightarrow> At f x | None \<Rightarrow> AtLine f 0)"

definition fx_ctor_check :: "Pass \<Rightarrow> FXCtor \<Rightarrow> Violation list" where
  "fx_ctor_check p c =
     (if fcKind c = FXRepo then
        (if fcState c = FXUnregistered then
           [Report p
             (Fix (''add repo.'' @ fcName c @ '' to the fx.Provide list in '' @ fxModuleRepo)
               (At_opt (fcSource c) (fcDecl c)))
             (''repository constructor '' @ fcName c @ '' is not registered in bootstrap/; injection will fail at startup'')]
         else [])
      else if fcState c = FXUnregistered then
        [Report p
          (Fix (''add fx.Annotate(handler.'' @ fcName c @ '', fx.As(new('' @ handlerIface @ '')), fx.ResultTags(''
                @ groupTag @ '')) to '' @ fxModuleHandler)
            (At_opt (fcSource c) (fcDecl c)))
          (''handler constructor '' @ fcName c @ '' is not registered in bootstrap/; Uber-FX will fail at startup'')]
      else if fcState c = FXPlain then
        [Report p
          (Fix (''wrap it: fx.Annotate(handler.'' @ fcName c @ '', fx.As(new('' @ handlerIface
                @ '')), fx.ResultTags('' @ groupTag @ ''))'')
            (AtPath ''bootstrap/bootstrapper.go'' 0))
          (''handler '' @ fcName c @ '' is registered with plain fx.Provide; without the group tag the server never collects it and its routes silently do not serve'')]
      else
        (if \<not> fcHasAs c then
           [Report p (Fix (''add fx.As(new('' @ handlerIface @ ''))'') (AtPath (fcRegPath c) (fcRegLine c)))
             (fcName c @ '' is annotated without fx.As(new('' @ handlerIface @ ''))'')]
         else [])
        @ (if \<not> fcHasResultTags c then
             [Report p (Fix (''add fx.ResultTags('' @ groupTag @ '')'') (AtPath (fcRegPath c) (fcRegLine c)))
               (fcName c @ '' is annotated without fx.ResultTags('' @ groupTag @ ''); its routes will not be served'')]
           else []))"

definition fx_check :: "Pass \<Rightarrow> Violation list" where
  "fx_check p =
     (let scan = ScanFX (pWS p) in
      if \<not> fsPresent scan then [] else concat (map (fx_ctor_check p) (fsCtors scan)))"

definition FXRegistration :: Rule where
  "FXRegistration = mk_rule ''fx-registration'' SeverityError
     ''every repository is in FxRepo; every handler is in FxHandler with fx.Annotate + fx.As + fx.ResultTags''
     (''SOP.md '' @ sect @ ''bootstrap/bootstrapper.go; skill.md '' @ sect @ ''Bootstrap Configuration'') False fx_check"

lemma fx_reports: "reports_only fx_check"
  unfolding fx_check_def fx_ctor_check_def by (intro reports_onlyI reported)

section \<open>What fx-registration reports\<close>

lemma fx_ctor_check_ne: "fx_ctor_check p c \<noteq> [] \<longleftrightarrow> \<not> FXCtor_OK c"
  by (cases "fcState c"; cases "fcKind c") (auto simp: fx_ctor_check_def FXCtor_OK_def)

lemma not_OK_iff:
  "\<not> FXCtor_OK c \<longleftrightarrow>
     fcState c = FXUnregistered \<or> (fcKind c = FXHandler \<and> fcState c \<noteq> FXUnregistered \<and> \<not> FXCtor_OK c)"
  by (cases "fcKind c") (auto simp: FXCtor_OK_def)

text \<open>
  The rule and the repository map cannot disagree about wiring: fx-registration reports
  something exactly when there is a bootstrap package and the scan that the map summarises lists a
  constructor as unwired or misregistered.
\<close>

theorem fx_rule_agrees_with_scan:
  "fx_check p \<noteq> [] \<longleftrightarrow>
     fsPresent (ScanFX (pWS p)) \<and> Unwired (ScanFX (pWS p)) @ Misregistered (ScanFX (pWS p)) \<noteq> []"
proof -
  have "fx_check p \<noteq> [] \<longleftrightarrow>
      fsPresent (ScanFX (pWS p)) \<and> (\<exists>c. c \<in> set (fsCtors (ScanFX (pWS p))) \<and> \<not> FXCtor_OK c)"
    by (simp add: fx_check_def Let_def concat_map_ne fx_ctor_check_ne if_nil_ne del: concat_eq_Nil_conv)
  also have "(\<exists>c. c \<in> set (fsCtors (ScanFX (pWS p))) \<and> \<not> FXCtor_OK c)
      \<longleftrightarrow> Unwired (ScanFX (pWS p)) @ Misregistered (ScanFX (pWS p)) \<noteq> []"
    using not_OK_iff by (simp add: Unwired_def Misregistered_def filter_empty_conv) blast
  finally show ?thesis .
qed

text \<open>The names the bootstrap files mention, in an annotation or in a plain fx.Provide.\<close>

definition wires :: "node \<Rightarrow> string \<Rightarrow> bool" where
  "wires n name \<longleftrightarrow>
     is_call n
     \<and> (callName n = ''fx.Annotate'' \<and> call_args n \<noteq> [] \<and> bareName (hd (call_args n)) = name
        \<or> callName n = ''fx.Provide'' \<and> (\<exists>a \<in> set (call_args n). \<not> is_call a \<and> bareName a = name))"

definition maps_in :: "(string \<Rightarrow> bool) \<Rightarrow> fx_maps \<Rightarrow> bool" where
  "maps_in P st \<longleftrightarrow> (\<forall>k \<in> fst ` set (fst st) \<union> set (snd st). P k)"

lemma fx_visitor_maps:
  assumes "maps_in P st" "\<And>name. wires n name \<Longrightarrow> P name"
  shows "maps_in P (fst (fx_visitor f n st))"
proof -
  have prov: "maps_in P (fold provide_arg as st)"
    if "maps_in P st" "\<And>a. \<lbrakk>a \<in> set as; \<not> is_call a\<rbrakk> \<Longrightarrow> P (bareName a)" for as st
    using that
  proof (induction as arbitrary: st)
    case (Cons a as)
    then have "maps_in P (provide_arg a st)" by (auto simp: provide_arg_def maps_in_def)
    with Cons show ?case by simp
  qed simp
  show ?thesis
  proof (cases "is_call n \<and> callName n = ''fx.Provide''")
    case True
    then show ?thesis using prov [OF assms(1)] assms(2) by (auto simp: fx_visitor_def wires_def)
  next
    case False
    then show ?thesis using assms
      by (auto simp: fx_visitor_def wires_def maps_in_def Let_def dom_update split: list.splits)
  qed
qed

lemma bootstrap_maps_in:
  "maps_in (\<lambda>name. \<exists>f n. f \<in> set (FilesIn w [LayerBootstrap]) \<and> n \<in> set (subnodes (fAST f)) \<and> wires n name)
     (bootstrap_maps w)"
proof -
  let ?P = "\<lambda>name. \<exists>f n. f \<in> set (FilesIn w [LayerBootstrap]) \<and> n \<in> set (subnodes (fAST f)) \<and> wires n name"
  have step: "maps_in ?P (fold collectFxProvides fs st)"
    if "set fs \<subseteq> set (FilesIn w [LayerBootstrap])" "maps_in ?P st" for fs st
    using that
  proof (induction fs arbitrary: st)
    case (Cons f fs)
    have "maps_in ?P (collectFxProvides f st)"
      unfolding collectFxProvides_def
    proof (rule inspect_invariant)
      show "maps_in ?P st" by (rule Cons.prems)
      fix m s assume m: "m \<in> set (subnodes (fAST f))" and s: "maps_in ?P s"
      show "maps_in ?P (fst (fx_visitor f m s))"
        by (rule fx_visitor_maps [OF s]) (use m Cons.prems in auto)
    qed
    with Cons show ?case by simp
  qed simp
  show ?thesis unfolding bootstrap_maps_def by (rule step) (simp_all add: maps_in_def)
qed

lemma scan_ctor_state:
  "fcState (scan_ctor maps f kind ref) \<noteq> FXUnregistered \<longleftrightarrow>
     fst ref \<in> fst ` set (fst maps) \<union> set (snd maps)"
  by (cases ref) (auto simp: scan_ctor_def Let_def map_of_eq_None_iff weak_map_of_SomeI
      split: option.splits dest: map_of_SomeD intro: rev_image_eqI)

lemma scan_ctor_name [simp]: "fcName (scan_ctor maps f kind ref) = fst ref"
  by (cases ref) (simp add: scan_ctor_def Let_def split: option.splits)

text \<open>
  No phantom wiring: a constructor that the scan calls registered is named by a call in a
  bootstrap file, as the first argument of fx.Annotate or as an argument of fx.Provide.
\<close>

theorem fx_no_phantom_wiring:
  "{c. c \<in> set (fsCtors (ScanFX w)) \<and> fcState c \<noteq> FXUnregistered}
   \<subseteq> {c. \<exists>f n. f \<in> set (FilesIn w [LayerBootstrap]) \<and> n \<in> set (subnodes (fAST f)) \<and> wires n (fcName c)}"
proof
  fix c assume c: "c \<in> {c. c \<in> set (fsCtors (ScanFX w)) \<and> fcState c \<noteq> FXUnregistered}"
  then obtain f kind ref where "c = scan_ctor (bootstrap_maps w) f kind ref"
    by (auto simp: ScanFX_def Let_def)
  with c have "fcName c \<in> fst ` set (fst (bootstrap_maps w)) \<union> set (snd (bootstrap_maps w))"
    by (simp add: scan_ctor_state)
  with bootstrap_maps_in [of w]
  show "c \<in> {c. \<exists>f n. f \<in> set (FilesIn w [LayerBootstrap]) \<and> n \<in> set (subnodes (fAST f)) \<and> wires n (fcName c)}"
    unfolding maps_in_def by blast
qed

end
