(* ===== verification/RepoRules.thy ===== *)
theory RepoRules
  imports FxRules
begin

text \<open>
  Model of gotools/internal/rules/repo.go (the repository contract) and dbperf.go (round trips,
  transactions, raw rows and SQL texts), with the context helpers of clients.go they call. Query
  calls are recognised by name, so everything here is about the syntax tree alone.
\<close>

section \<open>repo-contract\<close>

definition dblibExec :: "string list" where
  "dblibExec =
     [''dblib.Insert'', ''dblib.SelectOne'', ''dblib.SelectRows'',
      ''dblib.Update'', ''dblib.Delete'', ''dblib.Exec'',
      ''dblib.SelectOneOK'', ''dblib.SelectRowsOK'', ''dblib.SelectRowsTag'',
      ''dblib.InsertReturning'', ''dblib.UpdateReturning'',
      ''dblib.InsertReturningrows'', ''dblib.ExecRow'',
      ''dblib.DBQueryMultipleRows'']"

definition detachedContexts :: "string list" where
  "detachedContexts = [''context.Background'', ''context.TODO'']"

definition detached_call :: "node \<Rightarrow> bool" where
  "detached_call x \<longleftrightarrow>
     is_call x
     \<and> callName x \<in> set [''context.WithTimeout'', ''context.WithDeadline'', ''context.WithCancel'']
     \<and> (case call_args x of
           [] \<Rightarrow> False
         | parent # _ \<Rightarrow> is_call parent \<and> callName parent \<in> set detachedContexts)"

definition detachedTimeouts :: "node \<Rightarrow> node list" where
  "detachedTimeouts n = visit (\<lambda>x. (if detached_call x then [x] else [], True)) n"

definition bool_string :: "bool \<Rightarrow> string" where
  "bool_string b = (if b then ''true'' else ''false'')"

text \<open>The switch over parameter types: a parameter that ends in dblib.DB is not looked at further.\<close>

definition has_db :: "string list \<Rightarrow> bool" where
  "has_db ps = list_ex (\<lambda>t. has_suffix t ''dblib.DB'') ps"

definition has_cfg :: "string list \<Rightarrow> bool" where
  "has_cfg ps = list_ex (\<lambda>t. \<not> has_suffix t ''dblib.DB'' \<and> has_suffix t ''config.Config'') ps"

definition contract_ctor :: "Pass \<Rightarrow> gofile \<Rightarrow> node \<Rightarrow> Violation list" where
  "contract_ctor p f fd =
     (if receiverType fd \<noteq> None \<or> \<not> has_prefix (fd_name fd) ''New'' then []
      else (case results fd of
              [] \<Rightarrow> []
            | r # _ \<Rightarrow>
                if \<not> has_suffix r ''Repository'' then []
                else (let ps = params fd; hasDB = has_db ps; hasCfg = has_cfg ps;
                          stem = trim_prefix (fd_name fd) ''New''
                      in if \<not> hasDB \<or> \<not> hasCfg then
                           [Report p
                             (Fix (''func New'' @ stem @ ''(db *dblib.DB, cfg *config.Config) *'' @ stem) (At f fd))
                             (fd_name fd @ '' must inject *dblib.DB and *config.Config (has db=''
                              @ bool_string hasDB @ '' cfg='' @ bool_string hasCfg @ '')'')]
                         else [])))"

definition contract_sq :: "Pass \<Rightarrow> gofile \<Rightarrow> node \<Rightarrow> Violation list" where
  "contract_sq p f n =
     (case n of
        SelectorExpr _ x s \<Rightarrow>
          if ident_name x = Some ''sq''
             \<and> s \<in> set [''Insert'', ''Select'', ''Update'', ''Delete'', ''StatementBuilder'']
          then [Report p
                 (Fix (''use dblib.Psql.'' @ s @ '' '' @ emdash @ '' it is pre-configured with $N placeholders'') (At f n))
                 (''query built with raw sq.'' @ s @ ''; Squirrel defaults to ? placeholders, which Postgres rejects'')]
          else []
      | _ \<Rightarrow> [])"

definition executes :: "node \<Rightarrow> bool" where
  "executes body = inspect_any (\<lambda>x. is_call x \<and> callName x \<in> set dblibExec) body"

definition contract_method :: "Pass \<Rightarrow> gofile \<Rightarrow> node \<Rightarrow> Violation list" where
  "contract_method p f fd =
     (case fd_body fd of
        None \<Rightarrow> []
      | Some body \<Rightarrow>
          if receiverType fd = None \<or> \<not> executes body then []
          else if \<not> anyCall body [''context.WithTimeout''] then
            [Report p
              (Fix ''ctx, cancel := context.WithTimeout(ctx, r.cfg.GetDuration(\"db.QueryTimeoutLow\")); defer cancel()''
                (At f fd))
              (fd_name fd @ '' executes a query without context.WithTimeout; a slow query would hang the request'')]
          else
            concat (map (\<lambda>call.
              [Report p
                (Fix ''derive the deadline from the incoming context: context.WithTimeout(ctx, ...)'' (At f call))
                (fd_name fd @ '' starts its timeout from '' @ typeString (hd (call_args call))
                 @ '' rather than the request context; cancellation and tracing are lost'')])
              (detachedTimeouts body))
            @ (if \<not> callsMatching body ''GetDuration'' then
                 [Report p
                   (Fix ''take the deadline from r.cfg.GetDuration(\"db.QueryTimeoutLow\"|\"...Med\")'' (At f fd))
                   (fd_name fd @ '' hard-codes its query timeout; it must come from config'')]
               else []))"

definition contract_check :: "Pass \<Rightarrow> Violation list" where
  "contract_check p =
     concat (map (\<lambda>f.
       concat (map (contract_ctor p f) (funcsIn f))
       @ visit (\<lambda>n. (contract_sq p f n, True)) (fAST f)
       @ concat (map (contract_method p f) (funcsIn f)))
       (FilesIn (pWS p) [LayerRepo]))"

definition RepoContract :: Rule where
  "RepoContract = mk_rule ''repo-contract'' SeverityError
     ''repositories use dblib.Psql, wrap queries in a config-driven timeout, and inject *dblib.DB + *config.Config''
     (''skill.md '' @ sect @ ''Repository Pattern'') False contract_check"

section \<open>repo-rowmapper and repo-norows\<close>

definition dblibMappedCalls :: "string list" where
  "dblibMappedCalls =
     [''dblib.SelectOne'', ''dblib.SelectRows'',
      ''dblib.SelectOneOK'', ''dblib.SelectRowsOK'',
      ''dblib.InsertReturning'', ''dblib.UpdateReturning'',
      ''dblib.InsertReturningrows'']"

definition safeRowMappers :: "string list" where
  "safeRowMappers =
     [''RowToStructByName'', ''RowToAddrOfStructByName'', ''RowToStructByNameLax'', ''RowTo'']"

definition isSafeRowMapper :: "string \<Rightarrow> bool" where
  "isSafeRowMapper mapper = list_ex (\<lambda>safe.
     mapper = safe \<or> has_suffix mapper (''.'' @ safe)
     \<or> has_prefix mapper (safe @ ''['') \<or> str_contains mapper (''.'' @ safe @ ''['')) safeRowMappers"

definition rowmapper_call :: "Pass \<Rightarrow> gofile \<Rightarrow> node \<Rightarrow> Violation list \<times> bool" where
  "rowmapper_call p f n =
     (if \<not> is_call n then ([], True)
      else (let name = callName n in
        if name \<notin> set dblibMappedCalls then ([], True)
        else if length (call_args n) < 4 then
          ([Report p (Fix ''pass pgx.RowToStructByName[domain.X] as the final argument'' (At f n))
             (name @ '' called with '' @ itoa (length (call_args n)) @ '' argument(s); a row mapper is required'')], False)
        else (let mapper = typeString (call_args n ! 3) in
          if \<not> isSafeRowMapper mapper then
            ([Report p
               (Fix ''use pgx.RowToStructByName[domain.X] so db tags drive the mapping (or pgx.RowTo[T] for a scalar)''
                 (At f n))
               (name @ '' uses row mapper '' @ go_quote mapper @ ''; want a by-name mapper'')], False)
          else ([], False))))"

definition rowmapper_check :: "Pass \<Rightarrow> Violation list" where
  "rowmapper_check p = concat (map (\<lambda>f. visit (rowmapper_call p f) (fAST f)) (FilesIn (pWS p) [LayerRepo]))"

definition RepoRowMapper :: Rule where
  "RepoRowMapper = mk_rule ''repo-rowmapper'' SeverityError
     ''dblib calls that collect rows map them by name, not by position''
     (''skill.md '' @ sect @ ''Repository Pattern'') False rowmapper_check"

definition writes :: "node \<Rightarrow> bool" where
  "writes body = inspect_any (\<lambda>x. is_call x \<and> (callName x = ''dblib.Update'' \<or> callName x = ''dblib.Delete'')) body"

definition norows_method :: "Pass \<Rightarrow> gofile \<Rightarrow> node \<Rightarrow> Violation list" where
  "norows_method p f fd =
     (case fd_body fd of
        None \<Rightarrow> []
      | Some body \<Rightarrow>
          if \<not> writes body then []
          else if \<not> callsMatching body ''RowsAffected'' \<or> \<not> str_contains (Text f body) ''pgx.ErrNoRows'' then
            [Report p (Fix ''if commandTag.RowsAffected() == 0 { return pgx.ErrNoRows }'' (At f fd))
              (fd_name fd @ '' does not surface a zero-row write as pgx.ErrNoRows; the caller would see success'')]
          else [])"

definition norows_check :: "Pass \<Rightarrow> Violation list" where
  "norows_check p = concat (map (\<lambda>f. concat (map (norows_method p f) (funcsIn f))) (FilesIn (pWS p) [LayerRepo]))"

definition RepoNoRows :: Rule where
  "RepoNoRows = mk_rule ''repo-norows'' SeverityError
     ''Update/Delete map RowsAffected()==0 to pgx.ErrNoRows''
     (''skill.md '' @ sect @ ''Repository Pattern, '' @ sect @ ''Error Handling; SOP.md '' @ sect
      @ ''[handler].go (step 8, error response order)'') False norows_check"

lemma contract_reports: "reports_only contract_check"
proof (intro reports_onlyI)
  fix p
  have "rep p (contract_sq p f n)" for f n
    by (cases n) (auto simp: contract_sq_def intro!: reported)
  then show "rep p (contract_check p)"
    unfolding contract_check_def contract_ctor_def contract_method_def by (intro reported)
qed

lemma rowmapper_reports: "reports_only rowmapper_check"
  unfolding rowmapper_check_def rowmapper_call_def by (intro reports_onlyI reported)

lemma norows_reports: "reports_only norows_check"
  unfolding norows_check_def norows_method_def by (intro reports_onlyI reported)

end
