(* ===== verification/DbPerf.thy ===== *)
theory DbPerf
  imports RepoRules
begin

text \<open>
  Model of gotools/internal/rules/dbperf.go: N+1 queries, round trips, transactions, hand-scanned
  rows and SQL texts. The guard map of repo-batch-in-loop is keyed by node identity; the walk meets
  every node once, so it never fires and has no counterpart here.
\<close>

section \<open>Recognisers\<close>

definition batchFix :: string where
  "batchFix = ''queue with dblib.QueueExecRow(batch, b), then send once: ''
     @ ''results := r.db.SendBatch(ctx, batch); defer results.Close(); drain with results.Exec()''"

definition dbPerfCitation :: string where
  "dbPerfCitation = ''docs/CODE-REVIEW-FINDINGS.md; references/db-performance.md''"

definition isDBExec :: "node \<Rightarrow> bool" where
  "isDBExec c \<longleftrightarrow> callName c \<in> set dblibExec"

fun lit_type_string :: "node \<Rightarrow> string option" where
  "lit_type_string (CompositeLit _ None _) = Some []"
| "lit_type_string (CompositeLit _ (Some t) _) = Some (typeString t)"
| "lit_type_string _ = None"

definition batch_node :: "node \<Rightarrow> bool" where
  "batch_node x \<longleftrightarrow>
     (case lit_type_string x of
        Some t \<Rightarrow> t = ''pgx.Batch''
      | None \<Rightarrow>
          is_call x
          \<and> (let name = callName x in
               methodNamed name [''SendBatch''] \<or> has_prefix name ''dblib.Queue''
               \<or> has_prefix name ''dblib.TimedQueue'' \<or> name = ''dblib.NewTimedBatch''))"

definition usesBatch :: "node \<Rightarrow> bool" where
  "usesBatch n = inspect_found batch_node n"

definition usesTransaction :: "node \<Rightarrow> bool" where
  "usesTransaction n = inspect_found
     (\<lambda>x. is_call x \<and> (methodNamed (callName x) [''Begin'', ''BeginTx''] \<or> callName x = ''dblib.Tx'')) n"

text \<open>repoMethods, with the action on a file, a declaration and its body.\<close>

definition repoMethods :: "Pass \<Rightarrow> (gofile \<Rightarrow> node \<Rightarrow> node \<Rightarrow> Violation list) \<Rightarrow> Violation list" where
  "repoMethods p fn =
     concat (map (\<lambda>f. concat (map (\<lambda>fd. case fd_body fd of None \<Rightarrow> [] | Some b \<Rightarrow> fn f fd b) (funcsIn f)))
       (FilesIn (pWS p) [LayerRepo]))"

section \<open>Round trips\<close>

definition batch_in_loop_check :: "Pass \<Rightarrow> Violation list" where
  "batch_in_loop_check p = repoMethods p (\<lambda>f fd body.
     concat (map (\<lambda>c.
       [Report p (Fix batchFix (At f c))
         (fd_name fd @ '' executes '' @ callName c
          @ '' inside a loop; this is one database round trip per iteration'')])
       (callsInLoops isDBExec body)))"

definition RepoBatchInLoop :: Rule where
  "RepoBatchInLoop = mk_rule ''repo-batch-in-loop'' SeverityError
     ''no database call inside a loop; queue the statements into a pgx.Batch and send once''
     dbPerfCitation False batch_in_loop_check"

definition roundtrip_method :: "Pass \<Rightarrow> gofile \<Rightarrow> node \<Rightarrow> node \<Rightarrow> Violation list" where
  "roundtrip_method p f fd body =
     (let notice = (if cRoundTripNotice (pCfg p) \<le> 0 then 2 else cRoundTripNotice (pCfg p));
          recommend = (if cRoundTripRecommend (pCfg p) \<le> 0 then 3 else cRoundTripRecommend (pCfg p))
      in if usesBatch body \<or> usesTransaction body then []
         else (let n = countCalls isDBExec body in
           if recommend \<le> int n then
             [Report p (Fix batchFix (At f fd))
               (fd_name fd @ '' makes '' @ itoa n @ '' separate database calls; batch them where feasible'')]
           else if notice \<le> int n then
             [Report p
               (Fix ''if neither query depends on the other's result, a single batch would do'' (At f fd))
               (fd_name fd @ '' makes '' @ itoa n @ '' separate database calls; a batch may be possible'')]
           else []))"

definition multi_roundtrip_check :: "Pass \<Rightarrow> Violation list" where
  "multi_roundtrip_check p = repoMethods p (roundtrip_method p)"

definition RepoMultiRoundTrip :: Rule where
  "RepoMultiRoundTrip = mk_rule ''repo-multi-roundtrip'' SeverityWarning
     ''repository methods making several database calls are candidates for a batch''
     dbPerfCitation False multi_roundtrip_check"

definition transaction_method :: "Pass \<Rightarrow> gofile \<Rightarrow> node \<Rightarrow> node \<Rightarrow> Violation list" where
  "transaction_method p f fd body =
     (if \<not> usesTransaction body then []
      else (let n = countCalls isDBExec body in
        if n \<le> 1 then
          [Report p
            (Fix (''drop the transaction '' @ emdash @ '' a single statement is already atomic in Postgres'') (At f fd))
            (fd_name fd @ '' opens a transaction for '' @ itoa n @ '' statement(s); the transaction buys nothing'')]
        else if \<not> usesBatch body then
          [Report p
            (Fix ''if these need not roll back together, a batch is cheaper; if they do, queue the batch inside the transaction''
              (At f fd))
            (fd_name fd @ '' runs '' @ itoa n @ '' statements in a transaction without batching them; ''
             @ itoa n @ '' round trips remain'')]
        else []))"

definition transaction_check :: "Pass \<Rightarrow> Violation list" where
  "transaction_check p = repoMethods p (transaction_method p)"

definition RepoTransactionScope :: Rule where
  "RepoTransactionScope = mk_rule ''repo-transaction-scope'' SeverityWarning
     ''transactions wrap statements that must commit together; a single statement is already atomic''
     dbPerfCitation False transaction_check"

section \<open>Raw rows\<close>

definition rawRowMethods :: "string list" where
  "rawRowMethods = [''Query'', ''QueryRow'']"

definition isDBReceiver :: "string \<Rightarrow> bool" where
  "isDBReceiver name =
     (case last_index_char name (CHR ''.'') of
        None \<Rightarrow> False
      | Some i \<Rightarrow>
          (let recv = take i name;
               recv' = (case last_index_char recv (CHR ''.'') of None \<Rightarrow> recv | Some j \<Rightarrow> drop (j + 1) recv)
           in to_lower recv' \<in> set [''db'', ''conn'', ''pool'', ''dbpool'', ''tx'', ''database'']))"

definition raw_rows_message :: "string \<Rightarrow> string option" where
  "raw_rows_message name =
     (if methodNamed name [''Next'', ''Scan''] \<and> str_contains (to_lower name) ''row'' then
        Some (name @ '' scans rows by hand; column order silently drives the mapping'')
      else if methodNamed name rawRowMethods \<and> \<not> has_prefix name ''dblib.'' then
        (if isDBReceiver name then
           Some (name @ '' bypasses dblib; the result must then be scanned by hand'')
         else None)
      else None)"

text \<open>The visitor's state: what was reported, and the lines that already have a finding.\<close>

definition raw_rows_visitor :: "Pass \<Rightarrow> gofile \<Rightarrow> node \<Rightarrow> Violation list \<times> nat list \<Rightarrow> (Violation list \<times> nat list) \<times> bool" where
  "raw_rows_visitor p f n st =
     (if \<not> is_call n then (st, True)
      else (case raw_rows_message (callName n) of
              None \<Rightarrow> (st, True)
            | Some msg \<Rightarrow>
                let line = fst (Position n) in
                if line \<in> set (snd st) then (st, True)
                else ((fst st @ [Report p
                         (Fix (''use dblib.SelectRows(ctx, db, q, pgx.RowToStructByName[domain.X]) '' @ emdash
                               @ '' db tags drive the mapping'') (At f n)) msg],
                       line # snd st), True)))"

definition raw_rows_check :: "Pass \<Rightarrow> Violation list" where
  "raw_rows_check p =
     concat (map (\<lambda>f. fst (inspect (raw_rows_visitor p f) (fAST f) ([], []))) (FilesIn (pWS p) [LayerRepo]))"

definition RepoRawRows :: Rule where
  "RepoRawRows = mk_rule ''repo-raw-rows'' SeverityError
     ''rows are collected through dblib with a by-name mapper, never scanned by hand''
     (''skill.md '' @ sect @ ''Repository Pattern; '' @ dbPerfCitation) False raw_rows_check"

section \<open>SQL texts\<close>

definition select_star_arg :: "Pass \<Rightarrow> gofile \<Rightarrow> node \<Rightarrow> Violation list" where
  "select_star_arg p f arg =
     (let v = trim_space (litValue arg) in
      if v = ''*'' \<or> to_lower v = ''count(*)'' then
        [Report p (Fix ''list the columns, or use dblib.GenerateColumnsFromStruct(domain.X{})'' (At f arg))
          (''query selects '' @ go_quote v @ ''; a new column would silently change every result'')]
      else [])"

definition select_star_call :: "Pass \<Rightarrow> gofile \<Rightarrow> node \<Rightarrow> Violation list" where
  "select_star_call p f n =
     (if \<not> is_call n \<or> \<not> methodNamed (callName n) [''Select''] then []
      else concat (map (\<lambda>arg. case arg of BasicLit _ _ _ \<Rightarrow> select_star_arg p f arg | _ \<Rightarrow> []) (call_args n)))"

definition select_star_lit :: "Pass \<Rightarrow> gofile \<Rightarrow> node \<Rightarrow> Violation list" where
  "select_star_lit p f bl =
     (let v = litValue bl in
      if length v < 8 then []
      else (let up = to_upper v in
        if str_contains up ''SELECT *'' \<or> str_contains up (''SELECT'' @ [CHR 0x09] @ ''*'') then
          [Report p (Fix ''name the columns explicitly'' (At f bl)) ''raw SQL selects every column with SELECT *'']
        else []))"

definition select_star_check :: "Pass \<Rightarrow> Violation list" where
  "select_star_check p =
     concat (map (\<lambda>f.
       visit (\<lambda>n. (select_star_call p f n, True)) (fAST f)
       @ concat (map (select_star_lit p f) (stringLitsIn (fAST f))))
       (FilesIn (pWS p) [LayerRepo]))"

definition RepoSelectStar :: Rule where
  "RepoSelectStar = mk_rule ''repo-select-star'' SeverityError
     ''queries name their columns; no SELECT * and no COUNT(*) over a wildcard''
     dbPerfCitation False select_star_check"

definition stored_procedure_check :: "Pass \<Rightarrow> Violation list" where
  "stored_procedure_check p =
     concat (map (\<lambda>f. concat (map (\<lambda>bl.
       let v = trim_space (litValue bl) in
       if v = [] then []
       else (let up = to_upper v in
         if has_prefix up ''CALL '' \<or> has_prefix up ''SELECT * FROM CALL'' then
           [Report p (Fix ''move the logic into Go and build the query with dblib.Psql'' (At f bl))
             ''stored procedure invoked from Go; its behaviour is invisible to review and to the compiler'']
         else [])) (stringLitsIn (fAST f))))
       (FilesIn (pWS p) [LayerRepo]))"

definition NoStoredProcedure :: Rule where
  "NoStoredProcedure = mk_rule ''no-stored-procedure'' SeverityError
     ''no stored procedure calls; business logic lives in Go'' dbPerfCitation False stored_procedure_check"

definition sql_now :: "string \<Rightarrow> string option" where
  "sql_now v =
     (let up = to_upper v in
      if str_contains up ''NOW()'' then Some ''NOW()''
      else if str_contains up ''CURRENT_TIMESTAMP'' then Some ''CURRENT_TIMESTAMP''
      else None)"

definition sql_now_check :: "Pass \<Rightarrow> Violation list" where
  "sql_now_check p =
     concat (map (\<lambda>f. concat (map (\<lambda>bl.
       case sql_now (litValue bl) of
         None \<Rightarrow> []
       | Some found \<Rightarrow>
           [Report p (Fix ''take now := time.Now() once at the top of the func and pass it as a parameter'' (At f bl))
             (''query uses SQL '' @ found @ ''; the database clock and the request clock will disagree'')])
       (stringLitsIn (fAST f))))
       (FilesIn (pWS p) [LayerRepo]))"

definition RepoSQLNow :: Rule where
  "RepoSQLNow = mk_rule ''repo-sql-now'' SeverityWarning
     ''timestamps come from time.Now() in Go, not NOW() in SQL'' dbPerfCitation False sql_now_check"

section \<open>The contract of the checks\<close>

lemma rep_repoMethods [reported]: "(\<And>f fd b. rep p (fn f fd b)) \<Longrightarrow> rep p (repoMethods p fn)"
  unfolding repoMethods_def by (intro reported)

lemma batch_in_loop_reports: "reports_only batch_in_loop_check"
  unfolding batch_in_loop_check_def by (intro reports_onlyI reported)

lemma multi_roundtrip_reports: "reports_only multi_roundtrip_check"
  unfolding multi_roundtrip_check_def roundtrip_method_def by (intro reports_onlyI reported)

lemma transaction_reports: "reports_only transaction_check"
  unfolding transaction_check_def transaction_method_def by (intro reports_onlyI reported)

lemma raw_rows_reports: "reports_only raw_rows_check"
proof (intro reports_onlyI)
  fix p
  have "rep p (fst (fst (raw_rows_visitor p f n st)))" if "rep p (fst st)" for f n st
    using that by (auto simp: raw_rows_visitor_def Let_def split: option.splits intro!: reported)
  then show "rep p (raw_rows_check p)"
    unfolding raw_rows_check_def by (intro reported) simp_all
qed

lemma select_star_reports: "reports_only select_star_check"
proof (intro reports_onlyI)
  fix p
  have "rep p (case arg of BasicLit _ _ _ \<Rightarrow> select_star_arg p f arg | _ \<Rightarrow> [])" for f arg
    by (cases arg) (auto simp: select_star_arg_def Let_def intro!: reported)
  then show "rep p (select_star_check p)"
    unfolding select_star_check_def select_star_call_def select_star_lit_def by (intro reported)
qed

lemma stored_procedure_reports: "reports_only stored_procedure_check"
  unfolding stored_procedure_check_def by (intro reports_onlyI reported)

lemma sql_now_reports: "reports_only sql_now_check"
  unfolding sql_now_check_def by (intro reports_onlyI reported)

section \<open>What the checks report\<close>

lemma repoMethods_ne:
  "repoMethods p fn \<noteq> [] \<longleftrightarrow>
     (\<exists>f fd b. f \<in> set (wsFiles (pWS p)) \<and> fLayer f = LayerRepo \<and> fd \<in> set (funcsIn f)
        \<and> fd_body fd = Some b \<and> fn f fd b \<noteq> [])"
proof -
  have opt: "(case fd_body fd of None \<Rightarrow> [] | Some b \<Rightarrow> fn f fd b) \<noteq> []
      \<longleftrightarrow> (\<exists>b. fd_body fd = Some b \<and> fn f fd b \<noteq> [])" for f fd
    by (cases "fd_body fd") auto
  have "f \<in> set (FilesIn w [LayerRepo]) \<longleftrightarrow> f \<in> set (wsFiles w) \<and> fLayer f = LayerRepo" for f w
    by (auto simp: FilesIn_def)
  then show ?thesis unfolding repoMethods_def concat_map_ne opt by blast
qed

lemma list_ne_ex: "xs \<noteq> [] \<longleftrightarrow> (\<exists>x. x \<in> set xs)"
  by (cases xs) auto

text \<open>
  Repo-batch-in-loop finds exactly the N+1 queries: it reports something if and only if some
  repository method contains a database call that sits in the body of a loop, however deep, and the
  headers of loops do not count.
\<close>

theorem batch_in_loop_exact:
  "batch_in_loop_check p \<noteq> [] \<longleftrightarrow>
     (\<exists>f fd b c. f \<in> set (wsFiles (pWS p)) \<and> fLayer f = LayerRepo \<and> fd \<in> set (funcsIn f)
        \<and> fd_body fd = Some b \<and> is_call c \<and> isDBExec c \<and> scans b False c True)"
proof -
  have one: "concat (map (\<lambda>c. [r c]) (callsInLoops isDBExec b)) \<noteq> []
      \<longleftrightarrow> (\<exists>c. is_call c \<and> isDBExec c \<and> scans b False c True)" for b and r :: "node \<Rightarrow> Violation"
    unfolding concat_map_ne using callsInLoops_iff [of _ isDBExec b] by simp
  show ?thesis unfolding batch_in_loop_check_def repoMethods_ne one by blast
qed

lemma countCalls_in_loops: "callsInLoops m b \<noteq> [] \<Longrightarrow> 1 \<le> countCalls m b"
proof -
  assume "callsInLoops m b \<noteq> []"
  then obtain c where c: "c \<in> set (callsInLoops m b)" by (meson last_in_set)
  then have "is_call c" "m c" "c \<in> set (subnodes b)"
    using scans_subnodes by (auto simp: callsInLoops_iff)
  then have "filter (\<lambda>x. is_call x \<and> m x) (subnodes b) \<noteq> []" by (auto simp: filter_empty_conv)
  then show ?thesis by (simp add: countCalls_spec Suc_le_eq)
qed

text \<open>A method body that opens a transaction and inserts one row per element of a list.\<close>

definition loop_insert :: node where
  "loop_insert =
     BlockStmt no_span
       [OtherNode no_span ''ExprStmt''
          [CallExpr no_span (SelectorExpr no_span (SelectorExpr no_span (Ident no_span ''r'') ''db'') ''Begin'')
             [Ident no_span ''ctx''] no_span no_span],
        RangeStmt no_span (Some (Ident no_span ''_'')) (Some (Ident no_span ''u'')) (Ident no_span ''users'')
          (BlockStmt no_span
             [OtherNode no_span ''ExprStmt''
                [CallExpr no_span (SelectorExpr no_span (Ident no_span ''dblib'') ''Insert'')
                   [Ident no_span ''ctx'', Ident no_span ''tx'', Ident no_span ''u''] no_span no_span]])]"

text \<open>
  Repo-transaction-scope counts call sites and not executions, so a transaction around a loop
  with one insert, which runs one statement per element, is reported as one that buys nothing.
\<close>

theorem transaction_scope_ignores_loops:
  "callsInLoops isDBExec loop_insert \<noteq> []
   \<and> map vMessage (transaction_method p f (FuncDecl no_span None ''Save'' t (Some loop_insert)) loop_insert)
     = [''Save opens a transaction for 1 statement(s); the transaction buys nothing'']"
proof -
  have "callsInLoops isDBExec loop_insert \<noteq> []" by code_simp
  moreover have "usesTransaction loop_insert" by code_simp
  moreover have "countCalls isDBExec loop_insert = 1" by code_simp
  moreover have "itoa 1 = ''1''" by code_simp
  ultimately show ?thesis by (simp add: transaction_method_def Let_def)
qed

end
