(* ===== verification/HandlerRules.thy ===== *)
theory HandlerRules
  imports DbPerf
begin

text \<open>
  Model of gotools/internal/rules/handler.go (signatures, the Base embed, routes), dto.go (request
  and response structs) and validation.go (bounds and hard-coded endpoints). Where dto.go ranges
  over a map of declarations in random order, the model keeps declaration order.
\<close>

section \<open>handler-signature\<close>

definition serverCtxType :: string where "serverCtxType = ''*serverRoute.Context''"

definition baseEmbed :: string where "baseEmbed = ''*serverHandler.Base''"

definition bindMethods :: "string list" where
  "bindMethods =
     [''ShouldBindBodyWith'', ''ShouldBindJSON'', ''ShouldBindQuery'', ''ShouldBindUri'',
      ''ShouldBindWith'', ''ShouldBind'', ''BindJSON'', ''BindQuery'', ''BindUri'', ''MustBindWith'']"

definition bind_func :: "Pass \<Rightarrow> gofile \<Rightarrow> node \<Rightarrow> Violation list" where
  "bind_func p f fd =
     (case fd_body fd of
        None \<Rightarrow> []
      | Some body \<Rightarrow>
          (case List.find (\<lambda>bad. callsMatching body (''.'' @ bad)) bindMethods of
             None \<Rightarrow> []
           | Some bad \<Rightarrow>
               [Report p
                 (Fix ''delete the manual bind; declare the fields on the request DTO and let govalid validate them''
                   (At f fd))
                 (fd_name fd @ '' calls '' @ bad @ ''; the framework binds and validates from the request struct'')]))"

definition is_route_method :: "node \<Rightarrow> bool" where
  "is_route_method fd \<longleftrightarrow>
     (case receiverType fd of None \<Rightarrow> False | Some recv \<Rightarrow> has_suffix recv ''Handler'')
     \<and> fd_name fd \<noteq> ''Routes'' \<and> is_exported (fd_name fd)"

definition signature_func :: "Pass \<Rightarrow> gofile \<Rightarrow> node \<Rightarrow> Violation list" where
  "signature_func p f fd =
     (if \<not> is_route_method fd then []
      else (let ps = params fd; rs = results fd in
        case List.find (\<lambda>t. str_contains t ''gin.Context'') ps of
          Some t \<Rightarrow>
            [Report p (Fix ''replace *gin.Context with sctx *serverRoute.Context and a typed request DTO'' (At f fd))
              (fd_name fd @ '' takes '' @ t @ ''; handlers must not depend on gin'')]
        | None \<Rightarrow>
            if length ps \<noteq> 2 \<or> length rs \<noteq> 2 then
              [Report p (Fix ''use (sctx *serverRoute.Context, req T) (*resp.R, error)'' (At f fd))
                (fd_name fd @ '' has '' @ itoa (length ps) @ '' parameter(s) and '' @ itoa (length rs)
                 @ '' result(s); want 2 and 2'')]
            else
              (if ps ! 0 \<noteq> serverCtxType then
                 [Report p (Fix ''first parameter must be sctx *serverRoute.Context'' (At f fd))
                   (fd_name fd @ '' first parameter is '' @ (ps ! 0) @ '', want '' @ serverCtxType)]
               else [])
              @ (if rs ! 1 \<noteq> ''error'' then
                   [Report p (Fix ''second result must be error'' (At f fd))
                     (fd_name fd @ '' second result is '' @ (rs ! 1) @ '', want error'')]
                 else [])
              @ (if \<not> has_prefix (rs ! 0) ''*'' then
                   [Report p (Fix ''return a pointer to a response struct from handler/response'' (At f fd))
                     (fd_name fd @ '' first result is '' @ (rs ! 0) @ '', want a *response struct'')]
                 else [])))"

definition signature_check :: "Pass \<Rightarrow> Violation list" where
  "signature_check p =
     concat (map (\<lambda>f.
       concat (map (bind_func p f) (funcsIn f)) @ concat (map (signature_func p f) (funcsIn f)))
       (FilesIn (pWS p) [LayerHandler]))"

definition HandlerSignature :: Rule where
  "HandlerSignature = mk_rule ''handler-signature'' SeverityError
     ''handler methods take (sctx *serverRoute.Context, req T) and return (*resp.R, error)''
     (''SOP.md '' @ sect @ ''[handler].go (step 5, no gin.Context); skill.md '' @ sect @ ''Handler Pattern'')
     False signature_check"

section \<open>handler-base\<close>

definition base_struct :: "Pass \<Rightarrow> gofile \<Rightarrow> string \<times> node \<times> node list \<Rightarrow> Violation list" where
  "base_struct p f s =
     (case s of
        (name, ts, fs) \<Rightarrow>
          if \<not> has_suffix name ''Handler'' then []
          else if \<not> list_ex (\<lambda>fld. isEmbedded fld \<and> typeString (field_type fld) = baseEmbed) fs then
            [Report p (Fix (''add '' @ baseEmbed @ '' as the first embedded field'') (At f ts))
              (name @ '' does not embed '' @ baseEmbed)]
          else [])"

definition base_visitor :: "node \<Rightarrow> string list \<Rightarrow> string list \<times> bool" where
  "base_visitor n chain =
     (if \<not> is_call n then (chain, True)
      else (case selectorChain n of
              [] \<Rightarrow> (chain, True)
            | c0 # cs \<Rightarrow> if has_suffix c0 ''serverHandler.New'' then (c0 # cs, False) else (chain, True)))"

definition base_ctor :: "Pass \<Rightarrow> gofile \<Rightarrow> node \<Rightarrow> Violation list" where
  "base_ctor p f fd =
     (case fd_body fd of
        None \<Rightarrow> []
      | Some body \<Rightarrow>
          if receiverType fd \<noteq> None \<or> \<not> has_prefix (fd_name fd) ''New'' then []
          else (case results fd of
                  [r] \<Rightarrow>
                    if \<not> has_suffix r ''Handler'' then []
                    else (let chain = inspect base_visitor body [] in
                      if chain = [] then
                        [Report p (Fix ''base := serverHandler.New(\"Xs\").SetPrefix(\"/v1\").AddPrefix(\"\")'' (At f fd))
                          (fd_name fd @ '' does not build a base with serverHandler.New(...)'')]
                      else
                        (if ''SetPrefix'' \<notin> set chain then
                           [Report p (Fix ''add .SetPrefix(\"/v1\") to the constructor chain'' (At f fd))
                             (fd_name fd @ '' is missing SetPrefix; the API version prefix would be lost'')]
                         else [])
                        @ (if ''AddPrefix'' \<notin> set chain then
                             [Report p (Fix ''add .AddPrefix(\"\") (or a resource prefix) to the constructor chain'' (At f fd))
                               (fd_name fd @ '' is missing AddPrefix'')]
                           else []))
                | _ \<Rightarrow> []))"

definition base_check :: "Pass \<Rightarrow> Violation list" where
  "base_check p =
     concat (map (\<lambda>f.
       concat (map (base_struct p f) (structsIn f)) @ concat (map (base_ctor p f) (funcsIn f)))
       (FilesIn (pWS p) [LayerHandler]))"

definition HandlerBase :: Rule where
  "HandlerBase = mk_rule ''handler-base'' SeverityError
     ''handlers embed *serverHandler.Base and construct with New(...).SetPrefix(...).AddPrefix(...)''
     (''SOP.md '' @ sect @ ''[handler].go steps 2'' @ [CHR 0xE2, CHR 0x80, CHR 0x93] @ ''3; skill.md '' @ sect
      @ ''Handler Pattern'') False base_check"

section \<open>routes-in-handler\<close>

definition routeVerbs :: "string list" where
  "routeVerbs = [''GET'', ''POST'', ''PUT'', ''DELETE'', ''PATCH'', ''HEAD'', ''OPTIONS'']"

definition route_call :: "Pass \<Rightarrow> gofile \<Rightarrow> node \<Rightarrow> Violation list \<times> bool" where
  "route_call p f n =
     (if \<not> is_call n then ([], True)
      else (case selectorChain n of
              [] \<Rightarrow> ([], True)
            | c0 # cs \<Rightarrow>
                if \<not> has_prefix c0 ''serverRoute.'' then ([], True)
                else if trim_prefix c0 ''serverRoute.'' \<notin> set routeVerbs then ([], True)
                else if ''Name'' \<in> set cs then ([], False)
                else
                  ([Report p
                     (Fix (''append .Name(\"Describe The Operation\") '' @ emdash
                           @ '' swagger takes operation names from it'') (At f n))
                     (''route '' @ c0 @ ''(...) has no .Name(...); it will be missing from docs/v3Doc.json'')], False)))"

definition routes_file :: "Pass \<Rightarrow> gofile \<Rightarrow> Violation list" where
  "routes_file p f =
     (if \<not> list_ex (\<lambda>(name, _, _). has_suffix name ''Handler'') (structsIn f) then []
      else (case List.find (\<lambda>fd. fd_name fd = ''Routes'' \<and> receiverType fd \<noteq> None) (rev (funcsIn f)) of
              None \<Rightarrow>
                [Report p (Fix ''add func (h *XHandler) Routes() []serverRoute.Route { ... }'' (AtFile f))
                  ''handler declared here has no Routes() method; its routes will never be registered'']
            | Some routesFn \<Rightarrow> visit (route_call p f) routesFn))"

definition routes_check :: "Pass \<Rightarrow> Violation list" where
  "routes_check p = concat (map (routes_file p) (FilesIn (pWS p) [LayerHandler]))"

definition RoutesInHandler :: Rule where
  "RoutesInHandler = mk_rule ''routes-in-handler'' SeverityError
     ''each handler declares Routes() and every route carries .Name(...)''
     (''SOP.md '' @ sect @ ''Define the Routes; skill.md '' @ sect @ ''Routing Pattern'') False routes_check"

section \<open>Request structs\<close>

definition requestFile :: string where "requestFile = ''handler/request/request.go''"

definition isRequestStruct :: "string \<Rightarrow> bool" where
  "isRequestStruct name \<longleftrightarrow>
     has_suffix name ''Request'' \<or> has_suffix name ''Uri'' \<or> has_suffix name ''Params'' \<or> has_suffix name ''Req''"

definition hasAnyTag :: "string \<Rightarrow> string list \<Rightarrow> bool" where
  "hasAnyTag tag keys = list_ex (\<lambda>k. tag_lookup k tag \<noteq> None) keys"

definition request_field :: "Pass \<Rightarrow> gofile \<Rightarrow> string \<Rightarrow> node \<Rightarrow> Violation list" where
  "request_field p f name fld =
     (if isEmbedded fld then []
      else (let tag = tagOf fld in
        (if tag_lookup ''validate'' tag = None then
           [Report p
             (Fix (''add validate:\"required\" (or \"omitempty\") to '' @ name @ ''.'' @ fieldName fld) (At f fld))
             (name @ ''.'' @ fieldName fld @ '' has no validate tag; it will not be validated'')]
         else [])
        @ (if \<not> hasAnyTag tag [''json'', ''uri'', ''form''] then
             [Report p (Fix (''add a json:, uri: or form: tag to '' @ name @ ''.'' @ fieldName fld) (At f fld))
               (name @ ''.'' @ fieldName fld @ '' has no json/uri/form tag; it can never be populated'')]
           else [])))"

definition request_struct :: "Pass \<Rightarrow> gofile \<Rightarrow> string \<times> node \<times> node list \<Rightarrow> Violation list" where
  "request_struct p f s =
     (case s of
        (name, ts, fs) \<Rightarrow>
          if \<not> isRequestStruct name then []
          else if fRel f \<noteq> requestFile then
            [Report p
              (Fix (''move '' @ name @ '' into '' @ requestFile @ '' '' @ emdash
                    @ '' govalid only generates validators for structs in that file'') (At f ts))
              (''request struct '' @ name @ '' is declared in '' @ fRel f @ ''; it will have no generated validator'')]
          else concat (map (request_field p f name) fs))"

definition request_check :: "Pass \<Rightarrow> Violation list" where
  "request_check p =
     concat (map (\<lambda>f. concat (map (request_struct p f) (structsIn f))) (FilesIn (pWS p) [LayerHandler]))"

definition RequestDTO :: Rule where
  "RequestDTO = mk_rule ''request-dto'' SeverityError
     ''request structs live in handler/request/request.go and carry validate tags''
     (''SOP.md '' @ sect @ ''Validation; skill.md '' @ sect @ ''Request DTO Pattern'') False request_check"

section \<open>Response structs\<close>

definition responseKinds :: "string list" where
  "responseKinds = [''Create'', ''Fetch'', ''List'', ''Update'', ''Delete'']"

definition envelopeKind :: "string \<Rightarrow> string option" where
  "envelopeKind name =
     (if \<not> has_suffix name ''Response'' then None
      else List.find (has_suffix (trim_suffix name ''Response'')) responseKinds)"

text \<open>The loop over embedded fields: whether the type is embedded, and the inline bit of the last one.\<close>

definition embed_inline :: "string \<Rightarrow> node list \<Rightarrow> bool option" where
  "embed_inline ty fs =
     fold (\<lambda>fld st.
       if isEmbedded fld \<and> typeString (field_type fld) = ty then
         Some (case tag_lookup ''json'' (tagOf fld) of None \<Rightarrow> False | Some v \<Rightarrow> str_contains v ''inline'')
       else st) fs None"

definition envelope_struct :: "Pass \<Rightarrow> gofile \<Rightarrow> string \<times> node \<times> node list \<Rightarrow> Violation list" where
  "envelope_struct p f s =
     (case s of
        (name, ts, fs) \<Rightarrow>
          (case envelopeKind name of
             None \<Rightarrow> []
           | Some kind \<Rightarrow>
               (if embed_inline ''port.StatusCodeAndMessage'' fs = None then
                  [Report p
                    (Fix ''embed port.StatusCodeAndMessage `json:\",inline\"` as the first field'' (At f ts))
                    (name @ '' does not embed port.StatusCodeAndMessage'')]
                else if embed_inline ''port.StatusCodeAndMessage'' fs = Some False then
                  [Report p (Fix ''tag the embed as `json:\",inline\"`'' (At f ts))
                    (name @ '' embeds port.StatusCodeAndMessage without json:\",inline\"; status_code and message would be nested'')]
                else [])
               @ (if kind \<noteq> ''List'' then []
                  else if embed_inline ''port.MetaDataResponse'' fs = None then
                    [Report p (Fix ''embed port.MetaDataResponse `json:\",inline\"` for pagination metadata'' (At f ts))
                      (''list response '' @ name @ '' does not embed port.MetaDataResponse'')]
                  else if embed_inline ''port.MetaDataResponse'' fs = Some False then
                    [Report p (Fix ''tag the embed as `json:\",inline\"`'' (At f ts))
                      (name @ '' embeds port.MetaDataResponse without json:\",inline\"'')]
                  else [])))"

definition converter_structs :: "gofile \<Rightarrow> (string \<times> node) list" where
  "converter_structs f =
     fold (\<lambda>(name, ts, _) m.
       if envelopeKind name = None \<and> has_suffix name ''Response'' then AList.update name ts m else m)
       (structsIn f) []"

definition ctor_names :: "gofile \<Rightarrow> string list" where
  "ctor_names f =
     map fd_name (filter (\<lambda>fd. receiverType fd = None \<and> has_prefix (fd_name fd) ''New'') (funcsIn f))"

definition response_check :: "Pass \<Rightarrow> Violation list" where
  "response_check p =
     concat (map (\<lambda>f.
       concat (map (envelope_struct p f) (structsIn f))
       @ concat (map (\<lambda>(name, ts).
           if ''New'' @ name \<notin> set (ctor_names f) then
             [Report p
               (Fix (''add func New'' @ name @ ''(d domain.X) '' @ name @ '' to convert from the domain model'') (At f ts))
               (name @ '' has no New'' @ name @ '' converter; conversion would leak into the handler'')]
           else []) (converter_structs f)))
       (FilesIn (pWS p) [LayerResponse]))"

definition ResponseDTO :: Rule where
  "ResponseDTO = mk_rule ''response-dto'' SeverityError
     ''response envelopes embed port.StatusCodeAndMessage with json:\",inline\"; lists also embed port.MetaDataResponse''
     (''skill.md '' @ sect @ ''Response DTO Pattern'') False response_check"

definition validStatus :: "string list" where
  "validStatus =
     [''port.CreateSuccess'', ''port.ListSuccess'', ''port.FetchSuccess'',
      ''port.UpdateSuccess'', ''port.DeleteSuccess'', ''port.OTPSuccess'',
      ''port.OTPAuthSuccess'', ''port.CustomEnv'']"

definition status_node :: "Pass \<Rightarrow> gofile \<Rightarrow> node \<Rightarrow> Violation list" where
  "status_node p f n =
     (case n of
        KeyValueExpr _ k v \<Rightarrow>
          if ident_name k \<noteq> Some ''StatusCodeAndMessage'' then []
          else (let val = typeString v in
            if val \<in> set validStatus then []
            else if lit_type_string v \<noteq> None \<or> \<not> has_prefix val ''port.'' then
              [Report p (Fix ''use port.CreateSuccess / ListSuccess / FetchSuccess / UpdateSuccess / DeleteSuccess'' (At f n))
                ''StatusCodeAndMessage set to a non-standard value; use the predefined port constants'']
            else [])
      | _ \<Rightarrow> [])"

definition status_check :: "Pass \<Rightarrow> Violation list" where
  "status_check p =
     concat (map (\<lambda>f. visit (\<lambda>n. (status_node p f n, True)) (fAST f)) (FilesIn (pWS p) [LayerHandler]))"

definition ResponseStatus :: Rule where
  "ResponseStatus = mk_rule ''response-status'' SeverityWarning
     ''handlers set status from the predefined port.*Success constants''
     (''core/port/response.go; skill.md '' @ sect @ ''Response DTO Pattern'') False status_check"

section \<open>Bounds\<close>

definition validateRules :: "string \<Rightarrow> string list" where
  "validateRules tag =
     dedup [] (map (\<lambda>part. trim_space (fst (cut_char part (CHR ''=''))))
       (filter (\<lambda>part. part \<noteq> []) (map trim_space (split_char (CHR '','') tag))))"

definition hasAny :: "string list \<Rightarrow> string list \<Rightarrow> bool" where
  "hasAny rules keys = list_ex (\<lambda>k. k \<in> set rules) keys"

definition stringBounds :: "string list" where
  "stringBounds =
     [''max'', ''len'', ''oneof'', ''eq'', ''email'', ''url'', ''uuid'', ''uuid4'', ''e164'',
      ''alpha'', ''alphanum'', ''numeric'', ''datetime'', ''iso3166_1_alpha2'', ''contains'', ''startswith'']"

definition numericBounds :: "string list" where
  "numericBounds = [''min'', ''max'', ''gte'', ''lte'', ''gt'', ''lt'', ''eq'', ''oneof'', ''len'']"

definition boundFor :: "node \<Rightarrow> string \<times> string list" where
  "boundFor e =
     (let t = trim_prefix (typeString e) ''*'' in
      if t = ''string'' then (''string'', stringBounds)
      else if has_prefix t ''int'' \<or> has_prefix t ''uint'' \<or> has_prefix t ''float'' then (''number'', numericBounds)
      else if has_prefix t ''[]'' then (''slice'', [''max'', ''len'', ''dive''])
      else ([], []))"

definition suggestedTag :: "string \<Rightarrow> string \<Rightarrow> string" where
  "suggestedTag tag kind =
     (if kind = ''string'' then tag @ '',max=255''
      else if kind = ''number'' then tag @ '',min=0,max=999999''
      else tag @ '',max=100'')"

text \<open>Whether a validate tag leaves a field unbounded, and of which kind it then is.\<close>

definition unbounded_kind :: "node \<Rightarrow> string \<Rightarrow> string option" where
  "unbounded_kind fld tag =
     (let rules = validateRules tag in
      if ''omitempty'' \<in> set rules \<and> length rules = 1 then None
      else (case boundFor (field_type fld) of
              (kind, want) \<Rightarrow> if kind = [] \<or> hasAny rules want then None else Some kind))"

definition depth_field :: "Pass \<Rightarrow> gofile \<Rightarrow> string \<Rightarrow> node \<Rightarrow> Violation list" where
  "depth_field p f name fld =
     (if isEmbedded fld then []
      else (case tag_lookup ''validate'' (tagOf fld) of
              None \<Rightarrow> []
            | Some tag \<Rightarrow>
                (case unbounded_kind fld tag of
                   None \<Rightarrow> []
                 | Some kind \<Rightarrow>
                     [Report p (Fix (''add a bound, e.g. validate:'' @ go_quote (suggestedTag tag kind)) (At f fld))
                       (name @ ''.'' @ fieldName fld @ '' is a '' @ kind @ '' validated only as '' @ go_quote tag
                        @ ''; nothing bounds its size'')])))"

definition depth_check :: "Pass \<Rightarrow> Violation list" where
  "depth_check p =
     concat (map (\<lambda>f.
       if fRel f \<noteq> requestFile then []
       else concat (map (\<lambda>(name, _, fs). if \<not> isRequestStruct name then [] else concat (map (depth_field p f name) fs))
              (structsIn f)))
       (FilesIn (pWS p) [LayerHandler]))"

definition RequestValidateDepth :: Rule where
  "RequestValidateDepth = mk_rule ''request-validate-depth'' SeverityWarning
     ''validate tags bound their fields: max/len on strings, min/max on numbers''
     ''docs/CODE-REVIEW-FINDINGS.md; references/request-dto.md'' False depth_check"

section \<open>Hard-coded endpoints\<close>

definition looksLikeHostPort :: "string \<Rightarrow> bool" where
  "looksLikeHostPort v =
     (case cut_char v (CHR '':'') of
        (host, port, ok) \<Rightarrow>
          if \<not> ok \<or> host = [] \<or> port = [] \<or> 5 < length port then False
          else if CHR ''.'' \<notin> set host \<or> CHR '' '' \<in> set host then False
          else list_all is_digit port)"

definition hardcodedKind :: "string \<Rightarrow> string" where
  "hardcodedKind v =
     (if has_prefix v ''http://'' \<or> has_prefix v ''https://'' then
        (if str_contains v ''localhost'' \<or> str_contains v ''127.0.0.1'' then [] else ''endpoint'')
      else if looksLikeHostPort v then ''host:port''
      else [])"

definition hardcode_check :: "Pass \<Rightarrow> Violation list" where
  "hardcode_check p =
     concat (map (\<lambda>f.
       if fLayer f \<in> {LayerBootstrap, LayerMain, LayerTest} then []
       else concat (map (\<lambda>bl.
         let v = litValue bl; what = hardcodedKind v in
         if what = [] then []
         else [Report p
                (Fix (''declare it in configs/*.yaml with a default and read it via cfg.GetString(\"''
                      @ [CHR 0xE2, CHR 0x80, CHR 0xA6] @ ''\")'') (At f bl))
                (what @ '' '' @ go_quote v @ '' is hard-coded; it cannot differ between environments without a rebuild'')])
         (stringLitsIn (fAST f))))
       (wsFiles (pWS p)))"

definition ConfigNoHardcode :: Rule where
  "ConfigNoHardcode = mk_rule ''config-no-hardcode'' SeverityWarning
     ''hosts, URLs and ports come from configs/*.yaml, not from string literals''
     ''docs/CODE-REVIEW-FINDINGS.md'' False hardcode_check"

section \<open>The contract of the checks\<close>

lemma signature_reports: "reports_only signature_check"
  unfolding signature_check_def bind_func_def signature_func_def by (intro reports_onlyI reported)

lemma base_reports: "reports_only base_check"
  unfolding base_check_def base_struct_def base_ctor_def by (intro reports_onlyI reported)

lemma routes_reports: "reports_only routes_check"
  unfolding routes_check_def routes_file_def route_call_def by (intro reports_onlyI reported)

lemma request_reports: "reports_only request_check"
  unfolding request_check_def request_struct_def request_field_def by (intro reports_onlyI reported)

lemma response_reports: "reports_only response_check"
  unfolding response_check_def envelope_struct_def by (intro reports_onlyI reported)

lemma status_reports: "reports_only status_check"
proof (intro reports_onlyI)
  fix p
  have "rep p (status_node p f n)" for f n
    by (cases n) (auto simp: status_node_def Let_def intro!: reported)
  then show "rep p (status_check p)" unfolding status_check_def by (intro reported)
qed

lemma depth_reports: "reports_only depth_check"
  unfolding depth_check_def depth_field_def by (intro reports_onlyI reported)

lemma hardcode_reports: "reports_only hardcode_check"
  unfolding hardcode_check_def by (intro reports_onlyI reported)

section \<open>What the checks report\<close>

text \<open>The signature SOP.md prescribes: (sctx *serverRoute.Context, req T) ( *R, error), T free of gin.\<close>

definition signature_ok :: "node \<Rightarrow> bool" where
  "signature_ok fd \<longleftrightarrow>
     (\<exists>t r. params fd = [serverCtxType, t] \<and> results fd = [''*'' @ r, ''error'']
        \<and> \<not> str_contains t ''gin.Context'')"

lemma length2: "length xs = 2 \<longleftrightarrow> (\<exists>a b. xs = [a, b])"
  by (auto simp: numeral_2_eq_2 length_Suc_conv)

text \<open>
  The handler contract is checked exactly: an exported method of a handler type other than
  Routes passes if and only if it takes the request context and one request value that is not a gin
  context, and returns a pointer and an error.
\<close>

theorem handler_signature_exact:
  "signature_func p f fd \<noteq> [] \<longleftrightarrow> is_route_method fd \<and> \<not> signature_ok fd"
proof (cases "is_route_method fd")
  case True
  let ?gin = "\<lambda>t. str_contains t ''gin.Context''"
  have ctx: "\<not> ?gin serverCtxType" unfolding serverCtxType_def by code_simp
  show ?thesis
  proof (cases "List.find ?gin (params fd)")
    case (Some t)
    then have "\<exists>t \<in> set (params fd). ?gin t" by (auto simp: find_Some_iff)
    then have "\<not> signature_ok fd" using ctx by (auto simp: signature_ok_def)
    then show ?thesis using True Some by (simp add: signature_func_def Let_def)
  next
    case None
    then have free: "\<forall>t \<in> set (params fd). \<not> ?gin t" by (auto simp: find_None_iff)
    show ?thesis
    proof (cases "length (params fd) = 2 \<and> length (results fd) = 2")
      case False
      then have "\<not> signature_ok fd" by (auto simp: signature_ok_def)
      then show ?thesis using True None False by (auto simp: signature_func_def Let_def)
    next
      case len: True
      then obtain a b x y where ab: "params fd = [a, b]" "results fd = [x, y]" by (auto simp: length2)
      have "signature_ok fd \<longleftrightarrow> a = serverCtxType \<and> y = ''error'' \<and> has_prefix x ''*''"
        using free ab by (auto simp: signature_ok_def prefix_def)
      then show ?thesis using True None ab by (auto simp: signature_func_def Let_def)
    qed
  qed
qed (simp add: signature_func_def)

text \<open>
  A field whose type is a non-empty interface is taken for a number: the test for integer types
  is the prefix int, and the rendering of such a type starts with it.
\<close>

theorem interface_bounded_as_number:
  "boundFor (InterfaceType sp (Some [m])) = (''number'', numericBounds)"
proof -
  have "typeString (InterfaceType sp (Some [m])) = ''interface{...}''" by simp
  moreover have "trim_prefix ''interface{...}'' ''*'' = ''interface{...}''" by code_simp
  moreover have "has_prefix ''interface{...}'' ''int''" by simp
  ultimately show ?thesis by (simp add: boundFor_def Let_def)
qed

text \<open>A route call without a name, as the walk of routes-in-handler sees it.\<close>

definition unnamed_route :: "node \<Rightarrow> bool" where
  "unnamed_route n \<longleftrightarrow>
     is_call n
     \<and> (\<exists>verb cs. selectorChain n = (''serverRoute.'' @ verb) # cs \<and> verb \<in> set routeVerbs \<and> ''Name'' \<notin> set cs)"

lemma prefix_trim_iff: "has_prefix c q \<and> P (trim_prefix c q) \<longleftrightarrow> (\<exists>v. c = q @ v \<and> P v)"
  by (auto simp: prefix_def)

lemma route_call_ne: "fst (route_call p f n) \<noteq> [] \<longleftrightarrow> unnamed_route n"
proof (cases "is_call n")
  case call: True
  show ?thesis
  proof (cases "selectorChain n")
    case (Cons c0 cs)
    have "fst (route_call p f n) \<noteq> [] \<longleftrightarrow>
        (has_prefix c0 ''serverRoute.'' \<and> trim_prefix c0 ''serverRoute.'' \<in> set routeVerbs) \<and> ''Name'' \<notin> set cs"
      using call Cons by (auto simp: route_call_def)
    then show ?thesis
      unfolding prefix_trim_iff [where P = "\<lambda>v. v \<in> set routeVerbs"] unnamed_route_def Cons list.inject
      using call by blast
  qed (simp add: route_call_def unnamed_route_def)
qed (simp add: route_call_def unnamed_route_def)

end
