(* ===== verification/CodeRules.thy ===== *)
theory CodeRules
  imports HandlerRules
begin

text \<open>
  Model of the rules about how code is written: gotools/internal/rules/clients.go, logging.go,
  misc.go, hygiene.go and idiom.go. unicode.IsUpper and IsLetter are those of ASCII. The literals
  of magic-literal, ranged over as a map in Go, keep the order of their first occurrence.
\<close>

section \<open>Clients, contexts and deadlines\<close>

definition clientCitation :: string where
  "clientCitation = ''docs/CODE-REVIEW-FINDINGS.md; references/clients-and-context.md''"

definition clientConstructors :: "(string \<times> string) list" where
  "clientConstructors =
     [(''resty.New'', ''a Resty client''),
      (''minio.New'', ''a MinIO client''),
      (''minio.NewWithRegion'', ''a MinIO client''),
      (''kafka.NewWriter'', ''a Kafka writer''),
      (''kafka.NewReader'', ''a Kafka reader''),
      (''redis.NewClient'', ''a Redis client''),
      (''mongo.Connect'', ''a Mongo client''),
      (''grpc.NewClient'', ''a gRPC client''),
      (''grpc.Dial'', ''a gRPC client'')]"

definition isProviderFunc :: "node \<Rightarrow> bool" where
  "isProviderFunc fd \<longleftrightarrow>
     receiverType fd = None \<and> (has_prefix (fd_name fd) ''New'' \<or> has_prefix (fd_name fd) ''Provide'')"

definition receiverOrFunc :: "node \<Rightarrow> string" where
  "receiverOrFunc fd = (case receiverType fd of Some recv \<Rightarrow> trim_prefix recv ''*'' | None \<Rightarrow> fd_name fd)"

text \<open>The shape most rules share: an action on the body of each function of the files in some layers.\<close>

definition bodies :: "(gofile \<Rightarrow> bool) \<Rightarrow> Pass \<Rightarrow> (gofile \<Rightarrow> node \<Rightarrow> node \<Rightarrow> Violation list) \<Rightarrow> Violation list" where
  "bodies keep p fn =
     concat (map (\<lambda>f.
       if \<not> keep f then []
       else concat (map (\<lambda>fd. case fd_body fd of None \<Rightarrow> [] | Some b \<Rightarrow> fn f fd b) (funcsIn f)))
       (wsFiles (pWS p)))"

definition serving :: "gofile \<Rightarrow> bool" where
  "serving f \<longleftrightarrow> fLayer f \<notin> {LayerBootstrap, LayerMain, LayerTest}"

definition client_call :: "Pass \<Rightarrow> gofile \<Rightarrow> node \<Rightarrow> node \<Rightarrow> Violation list \<times> bool" where
  "client_call p f fd n =
     (if \<not> is_call n then ([], True)
      else (case map_of clientConstructors (callName n) of
              None \<Rightarrow> ([], True)
            | Some what \<Rightarrow>
                ([Report p
                   (Fix (''provide it once in bootstrap/ via fx.Provide and inject the pointer into '' @ receiverOrFunc fd)
                     (At f n))
                   (fd_name fd @ '' builds '' @ what @ '' per call; the connection pool is rebuilt every request'')], False)))"

definition client_check :: "Pass \<Rightarrow> Violation list" where
  "client_check p =
     bodies serving p (\<lambda>f fd b. if isProviderFunc fd then [] else visit (client_call p f fd) b)"

definition ClientSingleton :: Rule where
  "ClientSingleton = mk_rule ''client-singleton'' SeverityError
     ''long-lived clients are constructed once in bootstrap/ and injected, not built per request''
     clientCitation False client_check"

definition takesContext :: "node \<Rightarrow> bool" where
  "takesContext fd = list_ex (\<lambda>t. t \<in> set [''context.Context'', ''*context.Context'', serverCtxType, ''*gin.Context'']) (params fd)"

definition ctx_call :: "Pass \<Rightarrow> gofile \<Rightarrow> node \<Rightarrow> node \<Rightarrow> Violation list \<times> bool" where
  "ctx_call p f fd n =
     (if \<not> is_call n \<or> callName n \<notin> set detachedContexts then ([], True)
      else ([Report p (Fix ''pass the incoming ctx down instead of starting a new context tree'' (At f n))
              (fd_name fd @ '' calls '' @ callName n
               @ '' while holding a request context; cancellation, deadline and trace id are dropped'')], False))"

definition ctx_check :: "Pass \<Rightarrow> Violation list" where
  "ctx_check p = bodies serving p (\<lambda>f fd b. if \<not> takesContext fd then [] else visit (ctx_call p f fd) b)"

definition CtxPropagation :: Rule where
  "CtxPropagation = mk_rule ''ctx-propagation'' SeverityError
     ''request-scoped work derives its context from the request, never from context.Background()''
     clientCitation False ctx_check"

definition timeoutSetters :: "string list" where
  "timeoutSetters = [''SetTimeout'', ''WithTimeout'', ''SetDeadline'', ''Timeout'']"

definition outboundVerbs :: "string list" where
  "outboundVerbs = [''Get'', ''Post'', ''Put'', ''Patch'', ''Delete'', ''Head'', ''Do'', ''Send'']"

definition isOutboundCall :: "string \<Rightarrow> bool" where
  "isOutboundCall name =
     (if has_prefix name ''http.'' then methodNamed name outboundVerbs
      else (case cut_char name (CHR ''.'') of
              (recv, _, ok) \<Rightarrow>
                if \<not> ok then False
                else (let recv' = (case last_index_char recv (CHR ''.'') of None \<Rightarrow> recv | Some i \<Rightarrow> drop (i + 1) recv)
                      in to_lower recv' \<in> set [''client'', ''httpclient'', ''restclient'', ''resty'', ''r'', ''req'', ''request'']
                         \<and> methodNamed name outboundVerbs)))"

definition bounded_body :: "node \<Rightarrow> bool" where
  "bounded_body b = inspect_any (\<lambda>c. is_call c \<and>
     (let name = callName c in
      methodNamed name timeoutSetters \<or> name = ''context.WithTimeout'' \<or> name = ''context.WithDeadline'')) b"

definition external_call :: "Pass \<Rightarrow> gofile \<Rightarrow> node \<Rightarrow> node \<Rightarrow> Violation list \<times> bool" where
  "external_call p f fd n =
     (if \<not> is_call n \<or> \<not> isOutboundCall (callName n) then ([], True)
      else ([Report p
              (Fix ''set the timeout on the injected client, or pass a context that already carries a deadline'' (At f n))
              (fd_name fd @ '' makes an outbound call ('' @ callName n
               @ '') with no timeout in sight; a slow upstream would block indefinitely'')], False))"

definition external_check :: "Pass \<Rightarrow> Violation list" where
  "external_check p =
     bodies (\<lambda>f. fLayer f \<noteq> LayerTest) p (\<lambda>f fd b. if bounded_body b then [] else visit (external_call p f fd) b)"

definition ExternalCallTimeout :: Rule where
  "ExternalCallTimeout = mk_rule ''external-call-timeout'' SeverityWarning
     ''outbound calls carry a timeout, a deadline, or a context that has one'' clientCitation False external_check"

section \<open>Logging\<close>

definition logCitation :: string where
  "logCitation = ''docs/CODE-REVIEW-FINDINGS.md; references/logging.md''"

definition logLevels :: "string list" where
  "logLevels = [''Debug'', ''Info'', ''Warn'', ''Error'', ''Fatal'', ''Panic'']"

definition isLogCall :: "node \<Rightarrow> string option" where
  "isLogCall c =
     (case cut_char (callName c) (CHR ''.'') of
        (pkg, method, ok) \<Rightarrow>
          if \<not> ok then None
          else if to_lower pkg \<noteq> ''log'' \<and> \<not> has_suffix (to_lower pkg) ''logger'' then None
          else List.find (\<lambda>lvl. method = lvl \<or> method = lvl @ ''f'') logLevels)"

definition repo_log_call :: "Pass \<Rightarrow> gofile \<Rightarrow> node \<Rightarrow> node \<Rightarrow> Violation list \<times> bool" where
  "repo_log_call p f fd n =
     (if \<not> is_call n then ([], True)
      else (case isLogCall n of
              None \<Rightarrow> ([], True)
            | Some lvl \<Rightarrow>
                ([Report p (Fix ''return the error and let the handler log it once, where the request id is'' (At f n))
                   (fd_name fd @ '' logs at '' @ lvl
                    @ '' inside the repository layer; the line carries no request context'')], False)))"

definition repo_logging_check :: "Pass \<Rightarrow> Violation list" where
  "repo_logging_check p = bodies (\<lambda>f. fLayer f = LayerRepo) p (\<lambda>f fd b. visit (repo_log_call p f fd) b)"

definition RepoNoLogging :: Rule where
  "RepoNoLogging = mk_rule ''repo-no-logging'' SeverityWarning
     ''repositories return errors rather than logging them; the handler logs once, with request context''
     logCitation False repo_logging_check"

fun sensitiveOperand :: "Config \<Rightarrow> node \<Rightarrow> string option" where
  "sensitiveOperand cfg (Ident _ n) = (if IsSensitive cfg n then Some n else None)"
| "sensitiveOperand cfg (SelectorExpr q x s) =
     (if IsSensitive cfg s then Some (typeString (SelectorExpr q x s)) else None)"
| "sensitiveOperand cfg (UnaryExpr _ _ x) = sensitiveOperand cfg x"
| "sensitiveOperand cfg _ = None"

definition sensitive_call :: "Pass \<Rightarrow> gofile \<Rightarrow> node \<Rightarrow> Violation list" where
  "sensitive_call p f n =
     (if \<not> is_call n \<or> isLogCall n = None then []
      else concat (map (\<lambda>arg.
             case sensitiveOperand (pCfg p) arg of
               None \<Rightarrow> []
             | Some name \<Rightarrow>
                 [Report p (Fix (''log an identifier instead '' @ emdash @ '' the record id, not the value'') (At f arg))
                   (''log line includes '' @ name @ '', which holds sensitive data'')]) (call_args n)))"

definition sensitive_check :: "Pass \<Rightarrow> Violation list" where
  "sensitive_check p =
     bodies (\<lambda>f. fLayer f \<noteq> LayerTest) p (\<lambda>f fd b. visit (\<lambda>n. (sensitive_call p f n, True)) b)"

definition NoSensitiveLogging :: Rule where
  "NoSensitiveLogging = mk_rule ''no-sensitive-logging'' SeverityWarning
     ''passwords, tokens, identity numbers and contact details never reach a log line''
     logCitation False sensitive_check"

definition payloadSuffixes :: "string list" where
  "payloadSuffixes = [''request'', ''response'', ''req'', ''resp'', ''payload'', ''body'', ''dto'']"

definition payload_name :: "string \<Rightarrow> string option" where
  "payload_name name = (if list_ex (has_suffix (to_lower name)) payloadSuffixes then Some name else None)"

fun payloadOperand :: "node \<Rightarrow> string option" where
  "payloadOperand (Ident _ n) = payload_name n"
| "payloadOperand (SelectorExpr _ _ s) = payload_name s"
| "payloadOperand (UnaryExpr _ _ x) = payloadOperand x"
| "payloadOperand _ = None"

definition log_level_call :: "Pass \<Rightarrow> gofile \<Rightarrow> node \<Rightarrow> Violation list \<times> bool" where
  "log_level_call p f n =
     (if \<not> is_call n \<or> isLogCall n \<noteq> Some ''Info'' then ([], True)
      else (case List.find (\<lambda>a. payloadOperand a \<noteq> None) (call_args n) of
              None \<Rightarrow> ([], True)
            | Some a \<Rightarrow>
                ([Report p (Fix ''log at Debug, and log identifying fields rather than the whole value'' (At f n))
                   ((case payloadOperand a of Some name \<Rightarrow> name | None \<Rightarrow> [])
                    @ '' is logged whole at Info level; payloads belong at Debug'')], False)))"

definition log_level_check :: "Pass \<Rightarrow> Violation list" where
  "log_level_check p =
     bodies (\<lambda>f. fLayer f \<noteq> LayerTest) p (\<lambda>f fd b. visit (log_level_call p f) b)"

definition LogLevelHygiene :: Rule where
  "LogLevelHygiene = mk_rule ''log-level-hygiene'' SeverityWarning
     ''whole requests and responses are logged at Debug, not Info'' logCitation False log_level_check"

section \<open>Domain, dependencies, errors, files\<close>

definition isSnake :: "string \<Rightarrow> bool" where
  "isSnake s \<longleftrightarrow>
     s = [] \<or> s = ''-'' \<or> list_all (\<lambda>r. is_lower r \<or> is_digit r \<or> r = CHR ''_'') s"

definition tag_head :: "string \<Rightarrow> string" where
  "tag_head v = hd (split_char (CHR '','') v)"

definition domain_field :: "Pass \<Rightarrow> gofile \<Rightarrow> string \<Rightarrow> node \<Rightarrow> Violation list" where
  "domain_field p f name fld =
     (if isEmbedded fld then []
      else (let tag = tagOf fld; sn = Snake (fieldName fld); at = name @ ''.'' @ fieldName fld in
        (case tag_lookup ''json'' tag of
           None \<Rightarrow> [Report p (Fix (''add json:\"'' @ sn @ ''\"'') (At f fld)) (at @ '' has no json tag'')]
         | Some j \<Rightarrow>
             if \<not> isSnake (tag_head j) then
               [Report p (Fix (''use json:\"'' @ sn @ ''\"'') (At f fld))
                 (at @ '' json tag '' @ go_quote j @ '' is not snake_case'')]
             else [])
        @ (case tag_lookup ''db'' tag of
             None \<Rightarrow>
               [Report p
                 (Fix (''add db:\"'' @ sn @ ''\" '' @ emdash @ '' pgx.RowToStructByName matches columns through it'') (At f fld))
                 (at @ '' has no db tag; row scanning will fail at runtime'')]
           | Some d \<Rightarrow>
               if \<not> isSnake (tag_head d) then
                 [Report p (Fix (''use db:\"'' @ sn @ ''\"'') (At f fld))
                   (at @ '' db tag '' @ go_quote d @ '' is not snake_case'')]
               else [])))"

definition domain_struct :: "Pass \<Rightarrow> gofile \<Rightarrow> string \<times> node \<times> node list \<Rightarrow> Violation list" where
  "domain_struct p f s =
     (case s of
        (name, ts, fs) \<Rightarrow>
          concat (map (domain_field p f name) fs)
          @ concat (map (\<lambda>req.
              if req \<notin> set (concat (map field_names fs)) then
                [Report p (Fix (''add '' @ req @ '' to '' @ name) (At f ts))
                  (name @ '' is missing the standard field '' @ req)]
              else []) (olist (cRequiredDomainFields (pCfg p)))))"

definition domain_check :: "Pass \<Rightarrow> Violation list" where
  "domain_check p =
     concat (map (\<lambda>f. concat (map (domain_struct p f) (structsIn f))) (FilesIn (pWS p) [LayerDomain]))"

definition DomainTags :: Rule where
  "DomainTags = mk_rule ''domain-tags'' SeverityError
     ''domain fields carry json and db tags; every model has ID, CreatedAt, UpdatedAt''
     (''skill.md '' @ sect @ ''Domain Model Pattern, '' @ sect @ ''Naming Conventions'') False domain_check"

definition dep_check :: "Pass \<Rightarrow> Violation list" where
  "dep_check p =
     concat (map (\<lambda>f. concat (map (\<lambda>im.
       let path = import_path im in
       if DepAllowed (pCfg p) path (wsModulePath (pWS p)) (fLayer f = LayerTest) then []
       else [Report p (Fix (''use an approved equivalent, or request approval to add '' @ go_quote path) (At f im))
              (''dependency '' @ go_quote path @ '' is not on the approved list'')])
       (ast_imports (fAST f)))) (wsFiles (pWS p)))"

definition DepAllowlist :: Rule where
  "DepAllowlist = mk_rule ''dep-allowlist'' SeverityError
     ''new direct dependencies must be on the approved list''
     (''go.mod; plan.md '' @ sect @ ''4 dependency allow-list'') False dep_check"

fun block_stmts :: "node \<Rightarrow> node list option" where
  "block_stmts (BlockStmt _ ss) = Some ss"
| "block_stmts _ = None"

fun returns_err :: "node \<Rightarrow> bool" where
  "returns_err (ReturnStmt _ rs) = (case rs of [a, b] \<Rightarrow> ident_name b = Some ''err'' | _ \<Rightarrow> False)"
| "returns_err _ = False"

definition logs :: "node \<Rightarrow> bool" where
  "logs st \<longleftrightarrow> callsMatching st ''log.Error'' \<or> callsMatching st ''log.Fatal''"

text \<open>The statements of a block with the ones before them.\<close>

fun unlogged_returns :: "node list \<Rightarrow> node list \<Rightarrow> node list" where
  "unlogged_returns before [] = []"
| "unlogged_returns before (st # sts) =
     (if returns_err st \<and> \<not> list_ex logs before then [st] else []) @ unlogged_returns (before @ [st]) sts"

definition error_block :: "Pass \<Rightarrow> gofile \<Rightarrow> node \<Rightarrow> node \<Rightarrow> Violation list" where
  "error_block p f fd n =
     (case block_stmts n of
        None \<Rightarrow> []
      | Some ss \<Rightarrow>
          concat (map (\<lambda>ret.
            [Report p
              (Fix (''log.Error(sctx.Ctx, \"'' @ [CHR 0xE2, CHR 0x80, CHR 0xA6] @ '': %v\", err) before returning'') (At f ret))
              (fd_name fd @ '' returns err without logging it first; the failure would be untraceable'')])
            (unlogged_returns [] ss)))"

definition error_check :: "Pass \<Rightarrow> Violation list" where
  "error_check p =
     bodies (\<lambda>f. fLayer f = LayerHandler) p
       (\<lambda>f fd b. if \<not> is_route_method fd then [] else visit (\<lambda>n. (error_block p f fd n, True)) b)"

definition ErrorHandling :: Rule where
  "ErrorHandling = mk_rule ''error-handling'' SeverityError
     ''log.Error(sctx.Ctx, ...) precedes returning an error from a handler''
     (''SOP.md '' @ sect @ ''[handler].go (step 8, error response order); skill.md '' @ sect @ ''Error Handling'')
     False error_check"

definition line_count :: "string \<Rightarrow> nat" where
  "line_count src = count_list src (CHR 0x0A) + 1"

definition file_size_check :: "Pass \<Rightarrow> Violation list" where
  "file_size_check p =
     (if cMaxFileLines (pCfg p) \<le> 0 then []
      else concat (map (\<lambda>f.
             if fGenerated f \<or> fLayer f = LayerTest then []
             else (let ls = line_count (fSrc f) in
               if cMaxFileLines (pCfg p) < int ls then
                 [Report p (Fix (''split by responsibility '' @ emdash @ '' one resource or concern per file'') (AtFile f))
                   (''file is '' @ itoa ls @ '' lines, over the '' @ itoa (nat (cMaxFileLines (pCfg p))) @ ''-line cap'')]
               else []))
             (wsFiles (pWS p))))"

definition FileSize :: Rule where
  "FileSize = mk_rule ''file-size'' SeverityWarning ''Go files stay under the configured line cap''
     (''plan.md '' @ sect @ ''9.2 (the Go analogue of the frontend check-lines rule)'') False file_size_check"

definition validator_check :: "Pass \<Rightarrow> Violation list" where
  "validator_check p =
     concat (map (\<lambda>f.
       if \<not> str_contains (fRel f) ''_validator.go'' \<or> fGenerated f then []
       else [Report p (Fix ''restore the generated header and re-run `govalid ./request.go` from handler/'' (AtFile f))
              ''validator file has no 'Code generated ... DO NOT EDIT.' header; it looks hand-written''])
       (wsFiles (pWS p)))"

definition ValidatorStale :: Rule where
  "ValidatorStale = mk_rule ''validator-generated'' SeverityError
     ''govalid validators are generated, never hand-edited'' (''SOP.md '' @ sect @ ''Validation'') False validator_check"

section \<open>The contract of the checks\<close>

lemma rep_bodies [reported]: "(\<And>f fd b. rep p (fn f fd b)) \<Longrightarrow> rep p (bodies keep p fn)"
  unfolding bodies_def by (intro reported)

lemma client_reports: "reports_only client_check"
  unfolding client_check_def client_call_def by (intro reports_onlyI reported)

lemma ctx_reports: "reports_only ctx_check"
  unfolding ctx_check_def ctx_call_def by (intro reports_onlyI reported)

lemma external_reports: "reports_only external_check"
  unfolding external_check_def external_call_def by (intro reports_onlyI reported)

lemma repo_logging_reports: "reports_only repo_logging_check"
  unfolding repo_logging_check_def repo_log_call_def by (intro reports_onlyI reported)

lemma sensitive_reports: "reports_only sensitive_check"
  unfolding sensitive_check_def sensitive_call_def by (intro reports_onlyI reported)

lemma log_level_reports: "reports_only log_level_check"
  unfolding log_level_check_def log_level_call_def by (intro reports_onlyI reported)

lemma domain_reports: "reports_only domain_check"
  unfolding domain_check_def domain_struct_def domain_field_def by (intro reports_onlyI reported)

lemma dep_reports: "reports_only dep_check"
  unfolding dep_check_def by (intro reports_onlyI reported)

lemma error_reports: "reports_only error_check"
  unfolding error_check_def error_block_def by (intro reports_onlyI reported)

lemma file_size_reports: "reports_only file_size_check"
  unfolding file_size_check_def by (intro reports_onlyI reported)

lemma validator_reports: "reports_only validator_check"
  unfolding validator_check_def by (intro reports_onlyI reported)

section \<open>The fix of domain-tags satisfies domain-tags\<close>

definition ident_char :: "char \<Rightarrow> bool" where
  "ident_char c \<longleftrightarrow> is_letter c \<or> is_digit c \<or> c = CHR ''_''"

definition snake_char :: "char \<Rightarrow> bool" where
  "snake_char c \<longleftrightarrow> is_lower c \<or> is_digit c \<or> c = CHR ''_''"

lemma Snake_chars:
  assumes "list_all ident_char s"
  shows "list_all snake_char (Snake s)"
proof -
  have "snake_char (lower_char d)" if "ident_char d" for d
    using that by (auto simp: ident_char_def snake_char_def lower_char_id is_upper_def)
  moreover have "snake_char (CHR ''_'')" by (simp add: snake_char_def)
  ultimately show ?thesis using assms Snake_char_origin by (fastforce simp: list_all_iff)
qed

lemma isSnake_chars: "list_all snake_char s \<Longrightarrow> isSnake s"
  by (simp add: isSnake_def snake_char_def [abs_def])

lemma snake_char_plain:
  "snake_char c \<Longrightarrow> c \<noteq> CHR 0x22 \<and> c \<noteq> CHR 0x5C \<and> c \<noteq> CHR 0x0A \<and> c \<noteq> CHR 0x0D \<and> c \<noteq> CHR 0x60 \<and> c \<noteq> CHR '',''"
  by (auto simp: snake_char_def is_lower_def is_digit_def)

lemma scan_quoted_snake: "list_all snake_char v \<Longrightarrow> scan_quoted (v @ CHR 0x22 # r) = Some (v, r)"
  by (induction v) (auto dest: snake_char_plain)

lemma unescape_snake: "list_all snake_char v \<Longrightarrow> unescape v = Some v"
  by (induction v) (auto dest: snake_char_plain)

lemma unquote_snake: "list_all snake_char v \<Longrightarrow> go_unquote (CHR 0x22 # v @ [CHR 0x22]) = Some v"
  by (simp add: go_unquote_def butlast_append unescape_snake)

lemma tag_head_snake: "list_all snake_char v \<Longrightarrow> tag_head v = v"
  by (subst tag_head_def, subst split_char_single) (auto simp: list_all_iff dest: snake_char_plain)

text \<open>The tag that the fix texts of domain-tags spell out for a field.\<close>

definition suggested_domain_tag :: "string \<Rightarrow> string" where
  "suggested_domain_tag n = ''`json:\"'' @ Snake n @ ''\" db:\"'' @ Snake n @ ''\"`''"

lemma tag_lookup_here:
  assumes "list_all tag_name_char k" "k \<noteq> []" "list_all snake_char v"
  shows "tag_lookup k (k @ '':\"'' @ v @ CHR 0x22 # r) = Some v"
    and "key \<noteq> k \<Longrightarrow> tag_lookup key (k @ '':\"'' @ v @ CHR 0x22 # r) = tag_lookup key r"
proof -
  have nsp: "dropWhile (\<lambda>c. c = CHR '' '') (k @ s) = k @ s" for s
    using assms(1,2) by (cases k) (auto simp: tag_name_char_def)
  have all: "\<forall>x \<in> set k. tag_name_char x" using assms(1) by (simp add: list_all_iff)
  have colon: "\<not> tag_name_char (CHR '':'')" by (simp add: tag_name_char_def)
  have tw: "takeWhile tag_name_char (k @ CHR '':'' # s) = k" "dropWhile tag_name_char (k @ CHR '':'' # s) = CHR '':'' # s" for s
    using all colon by (simp_all add: takeWhile_append2 dropWhile_append2)
  show "tag_lookup k (k @ '':\"'' @ v @ CHR 0x22 # r) = Some v"
    by (subst tag_lookup.simps) (simp add: nsp tw assms(2) scan_quoted_snake [OF assms(3)] unquote_snake [OF assms(3)])
  show "key \<noteq> k \<Longrightarrow> tag_lookup key (k @ '':\"'' @ v @ CHR 0x22 # r) = tag_lookup key r"
    by (subst tag_lookup.simps) (simp add: nsp tw assms(2) scan_quoted_snake [OF assms(3)])
qed

lemma tag_lookup_space: "tag_lookup key (CHR '' '' # r) = tag_lookup key r"
  by (subst (1 2) tag_lookup.simps) simp

lemma suggested_domain_tag_lookup:
  assumes "list_all ident_char n"
  shows "tag_lookup ''json'' (tagOf (Field sp [n] t (Some (suggested_domain_tag n)))) = Some (Snake n)"
    and "tag_lookup ''db'' (tagOf (Field sp [n] t (Some (suggested_domain_tag n)))) = Some (Snake n)"
proof -
  let ?v = "Snake n"
  have v: "list_all snake_char ?v" by (rule Snake_chars [OF assms])
  define body where "body = ''json'' @ '':\"'' @ ?v @ CHR 0x22 # CHR '' '' # ''db'' @ '':\"'' @ ?v @ [CHR 0x22]"
  have "CHR 0x60 \<notin> set body" "CHR 0x0D \<notin> set body"
    using v unfolding body_def by (auto simp: list_all_iff dest: snake_char_plain)
  moreover have "suggested_domain_tag n = CHR 0x60 # body @ [CHR 0x60]"
    by (simp add: suggested_domain_tag_def body_def)
  moreover have "filter (\<lambda>c. c \<noteq> CHR 0x0D) body = body"
    using calculation(2) by (auto simp: filter_id_conv)
  ultimately have "go_unquote (suggested_domain_tag n) = Some body"
    by (simp add: go_unquote_def butlast_append)
  then have tag: "tagOf (Field sp [n] t (Some (suggested_domain_tag n))) = body" by (simp add: tagOf_def)
  have names: "list_all tag_name_char ''json''" "list_all tag_name_char ''db''"
    by (simp_all add: tag_name_char_def)
  show "tag_lookup ''json'' (tagOf (Field sp [n] t (Some (suggested_domain_tag n)))) = Some (Snake n)"
    unfolding tag body_def by (rule tag_lookup_here(1) [OF names(1) _ v]) simp
  show "tag_lookup ''db'' (tagOf (Field sp [n] t (Some (suggested_domain_tag n)))) = Some (Snake n)"
    unfolding tag body_def
    by (subst tag_lookup_here(2) [OF names(1) _ v]) (simp_all add: tag_lookup_space tag_lookup_here(1) [OF names(2) _ v, simplified])
qed

text \<open>
  The rule accepts its own fix: a field of a domain struct that carries the json and db tags that
  the fix texts of domain-tags suggest for its name is not reported, whatever the name.
\<close>

theorem domain_fix_is_accepted:
  assumes "list_all ident_char n"
  shows "domain_field p f name (Field sp [n] t (Some (suggested_domain_tag n))) = []"
  using suggested_domain_tag_lookup [OF assms] Snake_chars [OF assms]
  by (simp add: domain_field_def isEmbedded_def Let_def tag_head_snake isSnake_chars)

theorem domain_fix_is_accepted_witness:
  "\<forall>p f. domain_field p f ''Pension'' (Field no_span [''PPONumber''] (Ident no_span ''string'')
     (Some (suggested_domain_tag ''PPONumber''))) = []"
  by (intro allI domain_fix_is_accepted) (simp add: ident_char_def is_letter_def is_upper_def is_lower_def)

section \<open>Where the recognisers fall short\<close>

definition outboundReceivers :: "string list" where
  "outboundReceivers = [''client'', ''httpclient'', ''restclient'', ''resty'', ''r'', ''req'', ''request'']"

text \<open>
  External-call-timeout does not see a client held in a struct field: the receiver of a call is
  cut at the first dot of its name, so a call through a field of a variable is outbound only when
  the variable, not the field, is named like a client.
\<close>

theorem outbound_ignores_fields:
  assumes "CHR ''.'' \<notin> set v" "to_lower v \<notin> set outboundReceivers" "v \<noteq> ''http''"
  shows "\<not> isOutboundCall (v @ ''.client.'' @ m)"
proof -
  have np: "\<not> has_prefix (v @ ''.client.'' @ m) ''http.''"
  proof
    assume "has_prefix (v @ ''.client.'' @ m) ''http.''"
    then obtain zs where "v @ ''.client.'' @ m = ''http.'' @ zs" by (auto simp only: prefix_def)
    then have "cut_char (v @ ''.client.'' @ m) (CHR ''.'') = (''http'', zs, True)"
      using cut_char_found [of "CHR ''.''" "''http''" zs] by simp
    moreover have "cut_char (v @ ''.client.'' @ m) (CHR ''.'') = (v, ''client.'' @ m, True)"
      using cut_char_found [OF assms(1), of "''client.'' @ m"] by simp
    ultimately show False using assms(3) by simp
  qed
  have "cut_char (v @ ''.client.'' @ m) (CHR ''.'') = (v, ''client.'' @ m, True)"
    using cut_char_found [OF assms(1), of "''client.'' @ m"] by simp
  moreover have li: "last_index_char v (CHR ''.'') = None" using assms(1) by simp
  ultimately show ?thesis using np assms(2) by (simp add: isOutboundCall_def outboundReceivers_def li Let_def)
qed

theorem outbound_ignores_fields_witness:
  "isOutboundCall ''client.Get'' \<and> \<not> isOutboundCall ''h.client.Get'' \<and> isOutboundCall ''r.cache.Get''"
proof -
  have "isOutboundCall ''client.Get''" "isOutboundCall ''r.cache.Get''" by code_simp+
  moreover have "to_lower ''h'' \<notin> set outboundReceivers" by code_simp
  ultimately show ?thesis using outbound_ignores_fields [of "''h''" "''Get''"] by simp
qed

text \<open>
  File-size counts one line too many: a file of n lines, each ended by its newline as gofmt
  writes them, has line count n + 1, so the file at exactly the cap is reported.
\<close>

theorem file_size_counts_one_more:
  "line_count (concat (map (\<lambda>l. filter (\<lambda>c. c \<noteq> CHR 0x0A) l @ [CHR 0x0A]) ls)) = length ls + 1"
proof -
  have none: "count_list (filter (\<lambda>c. c \<noteq> CHR 0x0A) l) (CHR 0x0A) = 0" for l :: string
    by (simp add: count_list_0_iff)
  show ?thesis unfolding line_count_def by (induction ls) (simp_all add: none)
qed

end
