(* ===== verification/StyleRules.thy ===== *)
theory StyleRules
  imports CodeRules
begin

text \<open>
  Model of gotools/internal/rules/hygiene.go (the reviewers' checklist) and idiom.go (Go idioms and
  package declarations). A name of a field or parameter has no position of its own in the trees of
  GoAst: a finding on it is placed at its field. path.Dir is the part before the last slash, as
  workspace paths are clean.
\<close>

section \<open>Prints, context names, switches\<close>

definition checklistCitation :: string where
  "checklistCitation = ''docs/CODE-REVIEW-FINDINGS.md''"

definition fmt_call :: "Pass \<Rightarrow> gofile \<Rightarrow> node \<Rightarrow> Violation list" where
  "fmt_call p f n =
     (if \<not> is_call n \<or> callName n \<notin> set [''fmt.Print'', ''fmt.Printf'', ''fmt.Println''] then []
      else [Report p
             (Fix (''use log.Debug(ctx, \"'' @ [CHR 0xE2, CHR 0x80, CHR 0xA6] @ ''\") '' @ emdash
                   @ '' it carries the level, the service name and the request id'') (At f n))
             (callName n @ '' writes to stdout; it is unlevelled and untraceable in production'')])"

definition fmt_check :: "Pass \<Rightarrow> Violation list" where
  "fmt_check p =
     concat (map (\<lambda>f.
       if fLayer f = LayerTest \<or> fLayer f = LayerMain then []
       else visit (\<lambda>n. (fmt_call p f n, True)) (fAST f)) (wsFiles (pWS p)))"

definition NoFmtPrint :: Rule where
  "NoFmtPrint = mk_rule ''no-fmt-print'' SeverityError
     ''no fmt.Print/Printf/Println in service code; use the structured logger'' checklistCitation False fmt_check"

definition ctx_param :: "Pass \<Rightarrow> gofile \<Rightarrow> node \<Rightarrow> Violation list" where
  "ctx_param p f param =
     (let t = typeString (field_type param) in
      if t \<noteq> ''context.Context'' \<and> t \<noteq> ''*context.Context'' then []
      else concat (map (\<lambda>n.
             if n = ''ctx'' \<or> n = ''_'' then []
             else [Report p
                    (Fix (if t = ''*context.Context''
                          then ''take ctx context.Context by value '' @ emdash @ '' Context is an interface''
                          else ''rename it to ctx'') (At f (Ident (node_span param) n)))
                    (''context parameter is named '' @ go_quote n
                     @ ''; the convention every reader scans for is ctx'')]) (field_names param)))"

definition ctx_naming_check :: "Pass \<Rightarrow> Violation list" where
  "ctx_naming_check p =
     concat (map (\<lambda>f.
       if fLayer f = LayerTest then []
       else concat (map (\<lambda>fd. concat (map (ctx_param p f) (fd_params fd))) (funcsIn f))) (wsFiles (pWS p)))"

definition CtxNaming :: Rule where
  "CtxNaming = mk_rule ''ctx-naming'' SeverityWarning ''context.Context parameters are named ctx''
     checklistCitation False ctx_naming_check"

text \<open>The conditions of an if / else-if chain.\<close>

fun chain_conds :: "node \<Rightarrow> node list" where
  "chain_conds (IfStmt _ _ c _ None) = [c]"
| "chain_conds (IfStmt _ _ c _ (Some e)) = c # chain_conds e"
| "chain_conds _ = []"

fun equality_operand :: "node \<Rightarrow> string option" where
  "equality_operand (BinaryExpr _ x op _) = (if op = ''=='' \<and> typeString x \<noteq> ''?'' then Some (typeString x) else None)"
| "equality_operand _ = None"

fun chain_walk :: "string \<Rightarrow> nat \<Rightarrow> node list \<Rightarrow> string \<times> nat" where
  "chain_walk operand k [] = (operand, k)"
| "chain_walk operand k (c # cs) =
     (case equality_operand c of
        None \<Rightarrow> ([], 0)
      | Some lhs \<Rightarrow>
          if operand = [] then chain_walk lhs (k + 1) cs
          else if operand \<noteq> lhs then ([], 0)
          else chain_walk operand (k + 1) cs)"

definition chainOperand :: "node \<Rightarrow> string \<times> nat" where
  "chainOperand ifs = chain_walk [] 0 (chain_conds ifs)"

definition switch_node :: "Pass \<Rightarrow> gofile \<Rightarrow> node \<Rightarrow> Violation list \<times> bool" where
  "switch_node p f n =
     (if chain_conds n = [] then ([], True)
      else (case chainOperand n of
              (operand, branches) \<Rightarrow>
                if branches < 3 \<or> operand = [] then ([], True)
                else ([Report p
                        (Fix (''rewrite as `switch '' @ operand @ '' { case ... }` so a missing case is visible'') (At f n))
                        (itoa branches @ ''-branch if/else-if chain all testing '' @ operand)], False)))"

definition switch_check :: "Pass \<Rightarrow> Violation list" where
  "switch_check p =
     concat (map (\<lambda>f. if fLayer f = LayerTest then [] else visit (switch_node p f) (fAST f)) (wsFiles (pWS p)))"

definition PreferSwitch :: Rule where
  "PreferSwitch = mk_rule ''prefer-switch'' SeverityWarning
     ''if/else-if chains over one value read better as a switch'' checklistCitation False switch_check"

section \<open>Repeated literals\<close>

definition isStructTagLike :: "string \<Rightarrow> bool" where
  "isStructTagLike v \<longleftrightarrow>
     str_contains v '':\"'' \<or> has_prefix v ''json:'' \<or> has_prefix v ''db:'' \<or> has_prefix v ''validate:''"

definition goTimeLayouts :: "string list" where
  "goTimeLayouts = [''2006'', ''01-02'', ''15:04'', ''Jan'', ''Mon'']"

definition isSchemaOrFormat :: "string \<Rightarrow> bool" where
  "isSchemaOrFormat v =
     (if list_ex (str_contains v) goTimeLayouts then True
      else if CHR ''.'' \<in> set v \<and> CHR '' '' \<notin> set v then True
      else CHR ''%'' \<in> set v)"

definition structTagLits :: "gofile \<Rightarrow> node list" where
  "structTagLits f =
     concat (map (\<lambda>(_, _, fs). concat (map (\<lambda>fld.
       case field_tag fld of None \<Rightarrow> [] | Some t \<Rightarrow> [BasicLit (node_span fld) STRING t]) fs)) (structsIn f))"

definition counted_lits :: "gofile \<Rightarrow> node list" where
  "counted_lits f = filter (\<lambda>bl.
     let v = litValue bl in 4 \<le> length v \<and> \<not> isStructTagLike v \<and> \<not> isSchemaOrFormat v) (stringLitsIn (fAST f))"

definition magic_value :: "Pass \<Rightarrow> gofile \<Rightarrow> string \<Rightarrow> Violation list" where
  "magic_value p f v =
     (let n = count_list (map litValue (counted_lits f)) v in
      if n < 3 then []
      else (case List.find (\<lambda>bl. litValue bl = v) (counted_lits f) of
              None \<Rightarrow> []
            | Some bl \<Rightarrow>
                [Report p
                  (Fix (''declare `const '' @ [CHR 0xE2, CHR 0x80, CHR 0xA6] @ '' = '' @ go_quote v
                        @ ''` and use it at all '' @ itoa n @ '' sites'') (At f bl))
                  (''literal '' @ go_quote v @ '' appears '' @ itoa n
                   @ '' times; one of them will eventually be edited alone'')]))"

definition magic_check :: "Pass \<Rightarrow> Violation list" where
  "magic_check p =
     concat (map (\<lambda>f.
       if fLayer f = LayerTest \<or> fLayer f = LayerRepo then []
       else concat (map (magic_value p f)
              (filter (\<lambda>v. v \<notin> set (map litValue (structTagLits f)))
                (dedup [] (map litValue (counted_lits f)))))) (wsFiles (pWS p)))"

definition MagicLiteral :: Rule where
  "MagicLiteral = mk_rule ''magic-literal'' SeverityWarning
     ''business strings repeated three or more times in a file become constants'' checklistCitation False magic_check"

section \<open>Repository calls of a handler\<close>

definition repo_field :: "node \<Rightarrow> bool" where
  "repo_field fld \<longleftrightarrow>
     \<not> isEmbedded fld
     \<and> (let t = typeString (field_type fld) in has_suffix t ''Repository'' \<or> has_prefix t ''*repo.'')"

definition repoFields :: "gofile \<Rightarrow> string list" where
  "repoFields f =
     concat (map (\<lambda>(name, _, fs).
       if \<not> has_suffix name ''Handler'' then [] else concat (map field_names (filter repo_field fs))) (structsIn f))"

definition isRepoCall :: "string list \<Rightarrow> node \<Rightarrow> bool" where
  "isRepoCall flds c =
     (case call_fun c of
        SelectorExpr _ x _ \<Rightarrow> (case sel_name x of None \<Rightarrow> False | Some s \<Rightarrow> s \<in> set flds)
      | _ \<Rightarrow> False)"

definition single_repo_check :: "Pass \<Rightarrow> Violation list" where
  "single_repo_check p =
     bodies (\<lambda>f. fLayer f = LayerHandler \<and> repoFields f \<noteq> []) p (\<lambda>f fd b.
       if \<not> is_route_method fd then []
       else (let n = countCalls (isRepoCall (repoFields f)) b in
         if n < 2 then []
         else [Report p (Fix ''move the sequence into one repository method and batch the statements there'' (At f fd))
                (fd_name fd @ '' makes '' @ itoa n @ '' repository calls; that is '' @ itoa n
                 @ '' round trips with no transaction across them'')]))"

definition HandlerSingleRepoCall :: Rule where
  "HandlerSingleRepoCall = mk_rule ''handler-single-repo-call'' SeverityWarning
     ''handlers delegate to one repository call; several suggest work that belongs in the repository''
     dbPerfCitation False single_repo_check"

section \<open>go-idiom\<close>

definition path_dir :: "string \<Rightarrow> string" where
  "path_dir rel =
     (case last_index_char rel (CHR ''/'') of
        None \<Rightarrow> ''.''
      | Some i \<Rightarrow> if i = 0 then ''/'' else take i rel)"

definition package_files :: "workspace \<Rightarrow> gofile list" where
  "package_files w = filter (\<lambda>f. fLayer f \<noteq> LayerTest) (wsFiles w)"

definition dir_files :: "workspace \<Rightarrow> string \<Rightarrow> gofile list" where
  "dir_files w dir = filter (\<lambda>f. path_dir (fRel f) = dir) (package_files w)"

text \<open>One step of the majority vote over the package names of a directory.\<close>

definition majority_step :: "(string \<Rightarrow> nat) \<Rightarrow> string \<Rightarrow> string \<times> nat \<Rightarrow> string \<times> nat" where
  "majority_step votes name st =
     (if snd st < votes name \<or> (votes name = snd st \<and> name < fst st) then (name, votes name) else st)"

definition majority :: "(string \<Rightarrow> nat) \<Rightarrow> string list \<Rightarrow> string \<times> nat" where
  "majority votes names = fold (majority_step votes) names ([], 0)"

definition dir_packages :: "Pass \<Rightarrow> string \<Rightarrow> Violation list" where
  "dir_packages p dir =
     (let fs = dir_files (pWS p) dir;
          names = sort_strings (dedup [] (map fPackage fs));
          best = fst (majority (\<lambda>n. length (filter (\<lambda>f. fPackage f = n) fs)) names)
      in if length names < 2 then []
         else concat (map (\<lambda>name.
                if name = best then []
                else concat (map (\<lambda>f.
                       [Report p
                         (Fix (''change it to `package '' @ best @ ''` to match the other files in '' @ dir @ ''/'')
                           (Sev SeverityError (AtLine f 1)))
                         (''declares `package '' @ name @ ''` while '' @ dir @ ''/ is `package '' @ best
                          @ ''`; a directory cannot hold two packages'')])
                       (filter (\<lambda>f. fPackage f = name) fs))) names))"

definition checkPackageConsistency :: "Pass \<Rightarrow> Violation list" where
  "checkPackageConsistency p =
     concat (map (dir_packages p) (sort_strings (dedup [] (map (\<lambda>f. path_dir (fRel f)) (package_files (pWS p))))))"

fun empty_interface :: "node \<Rightarrow> bool" where
  "empty_interface (InterfaceType _ ms) = (ms = Some [])"
| "empty_interface _ = False"

definition checkAnyOverInterface :: "Pass \<Rightarrow> gofile \<Rightarrow> Violation list" where
  "checkAnyOverInterface p f =
     visit (\<lambda>n. (if empty_interface n then
         [Report p (Fix (''use `any` '' @ emdash @ '' the predeclared alias, available since Go 1.18'') (At f n))
           ''interface{} written out; the template targets Go 1.25'']
       else [], True)) (fAST f)"

definition startsWithInitialism :: "string \<Rightarrow> bool" where
  "startsWithInitialism msg =
     (let first = (case index_char msg (CHR '' '') of None \<Rightarrow> msg | Some i \<Rightarrow> if 0 < i then take i msg else msg)
      in 2 \<le> length first \<and> first = to_upper first \<and> list_ex is_letter first)"

definition error_message :: "node \<Rightarrow> (node \<times> string) option" where
  "error_message n =
     (if \<not> is_call n \<or> (callName n \<noteq> ''errors.New'' \<and> callName n \<noteq> ''fmt.Errorf'') then None
      else (case call_args n of
              [] \<Rightarrow> None
            | a # _ \<Rightarrow> (case stringLit a of None \<Rightarrow> None | Some msg \<Rightarrow> if msg = [] then None else Some (a, msg))))"

definition error_string_call :: "Pass \<Rightarrow> gofile \<Rightarrow> node \<Rightarrow> Violation list" where
  "error_string_call p f n =
     (case error_message n of
        None \<Rightarrow> []
      | Some (a, msg) \<Rightarrow>
          (if is_upper (hd msg) \<and> \<not> startsWithInitialism msg then
             [Report p (Fix ''start it lower-case: error strings are clauses, not sentences'' (At f a))
               ''error string is capitalised; it reads badly once wrapped'']
           else [])
          @ (if last msg \<in> set ''.!?'' then
               [Report p (Fix ''drop the trailing punctuation'' (At f a))
                 ''error string ends in punctuation; it reads badly once wrapped'']
             else []))"

definition looksLikeError :: "node \<Rightarrow> bool" where
  "looksLikeError e =
     (case e of
        Ident _ n \<Rightarrow> n = ''err'' \<or> has_suffix n ''Err'' \<or> has_suffix n ''Error''
      | SelectorExpr _ _ s \<Rightarrow> s = ''err'' \<or> has_suffix s ''Err''
      | _ \<Rightarrow> False)"

definition wrapping_call :: "Pass \<Rightarrow> gofile \<Rightarrow> node \<Rightarrow> Violation list \<times> bool" where
  "wrapping_call p f n =
     (if \<not> is_call n \<or> callName n \<noteq> ''fmt.Errorf'' \<or> length (call_args n) < 2 then ([], True)
      else (case stringLit (hd (call_args n)) of
              None \<Rightarrow> ([], True)
            | Some format \<Rightarrow>
                if str_contains format ''%w'' then ([], True)
                else if list_ex looksLikeError (tl (call_args n)) then
                  ([Report p (Fix ''use %w instead of %v or %s so errors.Is and errors.As still work'' (At f n))
                     ''fmt.Errorf interpolates an error without %w; the wrapped error becomes unreachable''], False)
                else ([], True)))"

definition package_name_file :: "Pass \<Rightarrow> gofile \<Rightarrow> Violation list" where
  "package_name_file p f =
     (let name = fPackage f in
      if CHR ''_'' \<in> set name then
        [Report p (Fix (''use a single lower-case word: '' @ replace_char (CHR ''_'') [] name) (AtLine f 1))
          (''package name '' @ go_quote name @ '' contains an underscore'')]
      else if name \<noteq> to_lower name then
        [Report p (Fix (''use a single lower-case word: '' @ to_lower name) (AtLine f 1))
          (''package name '' @ go_quote name @ '' is not lower-case'')]
      else [])"

text \<open>The first file of every package name.\<close>

fun first_files :: "string list \<Rightarrow> gofile list \<Rightarrow> gofile list" where
  "first_files seen [] = []"
| "first_files seen (f # fs) =
     (if fLayer f = LayerTest \<or> fPackage f \<in> set seen then first_files seen fs
      else f # first_files (fPackage f # seen) fs)"

definition checkPackageNames :: "Pass \<Rightarrow> Violation list" where
  "checkPackageNames p = concat (map (package_name_file p) (first_files [] (wsFiles (pWS p))))"

definition idiom_check :: "Pass \<Rightarrow> Violation list" where
  "idiom_check p =
     checkPackageConsistency p
     @ concat (map (\<lambda>f.
         if fLayer f = LayerTest then []
         else checkAnyOverInterface p f
              @ visit (\<lambda>n. (error_string_call p f n, True)) (fAST f)
              @ visit (wrapping_call p f) (fAST f)) (wsFiles (pWS p)))
     @ checkPackageNames p"

definition GoIdiom :: Rule where
  "GoIdiom = mk_rule ''go-idiom'' SeverityWarning
     ''idiomatic Go: any over interface{}, lower-case unpunctuated error strings, one package per directory''
     (''go.instructions.md '' @ sect @ ''Naming Conventions, '' @ sect @ ''Error Handling, '' @ sect
      @ ''Type Definitions'') False idiom_check"

section \<open>The contract of the checks\<close>

lemma fmt_reports: "reports_only fmt_check"
  unfolding fmt_check_def fmt_call_def by (intro reports_onlyI reported)

lemma ctx_naming_reports: "reports_only ctx_naming_check"
  unfolding ctx_naming_check_def ctx_param_def by (intro reports_onlyI reported)

lemma switch_reports: "reports_only switch_check"
  unfolding switch_check_def switch_node_def by (intro reports_onlyI reported)

lemma magic_reports: "reports_only magic_check"
  unfolding magic_check_def magic_value_def by (intro reports_onlyI reported)

lemma single_repo_reports: "reports_only single_repo_check"
  unfolding single_repo_check_def by (intro reports_onlyI reported)

lemma idiom_reports: "reports_only idiom_check"
  unfolding idiom_check_def checkPackageConsistency_def dir_packages_def checkAnyOverInterface_def
    error_string_call_def wrapping_call_def checkPackageNames_def package_name_file_def
  by (intro reports_onlyI reported)

section \<open>The majority vote\<close>

definition wins :: "(string \<Rightarrow> nat) \<Rightarrow> string list \<Rightarrow> string \<Rightarrow> bool" where
  "wins votes names m \<longleftrightarrow>
     m \<in> set names \<and> (\<forall>n \<in> set names. votes n < votes m \<or> (votes n = votes m \<and> m \<le> n))"

lemma wins_unique: "\<lbrakk>wins votes xs m; wins votes ys k; set xs = set ys\<rbrakk> \<Longrightarrow> m = k"
  unfolding wins_def by (metis less_asym' antisym nless_le)

lemma majority_wins:
  assumes "names \<noteq> []" "\<And>n. n \<in> set names \<Longrightarrow> 0 < votes n"
  shows "wins votes names (fst (majority votes names)) \<and> snd (majority votes names) = votes (fst (majority votes names))"
  using assms
proof (induction names rule: rev_induct)
  case (snoc x xs)
  have maj: "majority votes (xs @ [x]) = majority_step votes x (majority votes xs)" by (simp add: majority_def)
  show ?case
  proof (cases "xs = []")
    case True
    then show ?thesis using snoc.prems by (simp add: majority_def majority_step_def wins_def)
  next
    case False
    with snoc have IH: "wins votes xs (fst (majority votes xs))" "snd (majority votes xs) = votes (fst (majority votes xs))"
      by auto
    let ?m = "fst (majority votes xs)"
    show ?thesis
    proof (cases "votes ?m < votes x \<or> (votes x = votes ?m \<and> x < ?m)")
      case True
      then have "majority votes (xs @ [x]) = (x, votes x)" using maj IH(2) by (auto simp: majority_step_def)
      moreover have "votes n < votes x \<or> (votes n = votes x \<and> x \<le> n)" if "n \<in> set xs" for n
      proof -
        from that IH(1) have "votes n < votes ?m \<or> (votes n = votes ?m \<and> ?m \<le> n)" by (auto simp: wins_def)
        with True show ?thesis by (elim disjE conjE) (auto dest: less_le_trans)
      qed
      then have "wins votes (xs @ [x]) x" by (auto simp: wins_def)
      ultimately show ?thesis by simp
    next
      case no: False
      then have "majority votes (xs @ [x]) = majority votes xs" using maj IH(2) by (auto simp: majority_step_def)
      moreover have "wins votes (xs @ [x]) ?m"
        using no IH(1) unfolding wins_def by auto
      ultimately show ?thesis using IH(2) by simp
    qed
  qed
qed simp

text \<open>
  Which package declaration go-idiom takes for the right one does not depend on the order in
  which Go ranges over its map of packages: every order of the same names elects the one with the
  most files and, among those, the first in the alphabet.
\<close>

theorem majority_order_irrelevant:
  assumes "set names = set names'" "names \<noteq> []" "list_all (\<lambda>n. 0 < votes n) names"
  shows "majority votes names = majority votes names' \<and> wins votes names (fst (majority votes names'))"
proof -
  have ne: "names' \<noteq> []" using assms by auto
  have pos: "\<And>n. n \<in> set names \<Longrightarrow> 0 < votes n" "\<And>n. n \<in> set names' \<Longrightarrow> 0 < votes n"
    using assms by (auto simp: list_all_iff)
  note w = majority_wins [of names votes, OF assms(2) pos(1)] and w' = majority_wins [of names' votes, OF ne pos(2)]
  have f: "fst (majority votes names) = fst (majority votes names')"
    using wins_unique [OF conjunct1 [OF w] conjunct1 [OF w'] assms(1)] .
  have "snd (majority votes names) = snd (majority votes names')"
    using conjunct2 [OF w] conjunct2 [OF w'] by (simp only: f)
  with f have "majority votes names = majority votes names'" by (rule prod_eqI)
  with conjunct1 [OF w] show ?thesis by simp
qed

theorem majority_order_irrelevant_witness:
  "fst (majority (\<lambda>n. if n = ''handler'' then 2 else 1) [''repo'', ''handler'', ''port'']) = ''handler''
   \<and> majority (\<lambda>n. if n = ''handler'' then 2 else 1) [''repo'', ''handler'', ''port'']
     = majority (\<lambda>n. if n = ''handler'' then 2 else 1) [''port'', ''handler'', ''repo'']"
proof -
  have "majority (\<lambda>n. if n = ''handler'' then 2 else 1) [''repo'', ''handler'', ''port'']
     = majority (\<lambda>n. if n = ''handler'' then 2 else 1) [''port'', ''handler'', ''repo'']"
    by (rule majority_order_irrelevant [THEN conjunct1]) auto
  moreover have "fst (majority (\<lambda>n. if n = ''handler'' then 2 else 1) [''repo'', ''handler'', ''port'']) = ''handler''"
    by (simp add: majority_def majority_step_def)
  ultimately show ?thesis by blast
qed

end
