(* ===== verification/LegacyRules.thy ===== *)
theory LegacyRules
  imports StyleRules
begin

text \<open>
  Model of gotools/internal/rules/legacy.go (the legacy_audit rules) and audit.go (the reports on
  round trips, validation and temporal work). The rules that look for files in the workspace root
  take the answers of os.Stat as the argument \<open>exists\<close>, from the root-relative path. The map of library
  generations is in source order; no import path matches two of its entries.
\<close>

section \<open>Library generations\<close>

definition legacyGeneration :: "(string \<times> string) list" where
  "legacyGeneration =
     [(''gitlab.cept.gov.in/it-2.0-common/api-server'', ''n-api-server''),
      (''gitlab.cept.gov.in/it-2.0-common/api-db'', ''n-api-db''),
      (''gitlab.cept.gov.in/it-2.0-common/api-log'', ''n-api-log''),
      (''gitlab.cept.gov.in/it-2.0-common/api-bootstrapper'', ''n-api-bootstrapper''),
      (''gitlab.cept.gov.in/it-2.0-common/api-validation'', ''n-api-validation'')]"

definition legacy_match :: "string \<Rightarrow> string \<times> string \<Rightarrow> bool" where
  "legacy_match path e \<longleftrightarrow> path = fst e \<or> has_prefix path (fst e @ ''/'')"

definition SupersededBy :: "string \<Rightarrow> string option" where
  "SupersededBy path =
     map_option (\<lambda>e. ''gitlab.cept.gov.in/it-2.0-common/'' @ snd e) (List.find (legacy_match path) legacyGeneration)"

definition legacy_lib_check :: "Pass \<Rightarrow> Violation list" where
  "legacy_lib_check p =
     concat (map (\<lambda>f. concat (map (\<lambda>(path, spec). concat (map (\<lambda>e.
       if legacy_match path e then
         [Report p (Fix (''migrate to gitlab.cept.gov.in/it-2.0-common/'' @ snd e) (At f spec))
           (''legacy library '' @ go_quote path @ ''; the template uses '' @ snd e)]
       else []) legacyGeneration)) (importSpecs f))) (wsFiles (pWS p)))"

definition LegacyLibGeneration :: Rule where
  "LegacyLibGeneration = mk_rule ''legacy-lib-generation'' SeverityError
     ''service uses the api-* library generation instead of n-api-*'' ''new-template/go.mod'' True legacy_lib_check"

section \<open>Routes, gin, validation\<close>

definition invoke_call :: "Pass \<Rightarrow> gofile \<Rightarrow> node \<Rightarrow> Violation list" where
  "invoke_call p f n =
     (if \<not> is_call n \<or> callName n \<noteq> ''fx.Invoke'' then []
      else concat (map (\<lambda>a.
             if str_contains (typeString a) ''routes.'' then
               [Report p (Fix ''delete fx.Invoke(routes.Routes); handlers self-register through FxHandler'' (At f n))
                 ''main.go invokes the legacy central route registration'']
             else []) (call_args n)))"

definition legacy_routes_check :: "Pass \<Rightarrow> Violation list" where
  "legacy_routes_check p =
     concat (map (\<lambda>f.
       [Report p (Fix ''move each route group into the owning handler's Routes() method, then delete this file'' (AtFile f))
         ''central routes file; the template registers routes per handler'']) (FilesIn (pWS p) [LayerRoutes]))
     @ (case ws_file (pWS p) ''main.go'' of
          None \<Rightarrow> []
        | Some main \<Rightarrow> visit (\<lambda>n. (invoke_call p main n, True)) (fAST main))"

definition LegacyRoutesFile :: Rule where
  "LegacyRoutesFile = mk_rule ''legacy-routes-file'' SeverityError
     ''a routes/ package exists; routes belong in each handler's Routes()''
     (''SOP.md '' @ sect @ ''Define the Routes; '' @ sect @ ''main.go'') True legacy_routes_check"

definition legacy_gin_check :: "Pass \<Rightarrow> Violation list" where
  "legacy_gin_check p =
     concat (map (\<lambda>f.
       if fLayer f \<notin> {LayerHandler, LayerRepo, LayerResponse, LayerDomain} then []
       else (case ImportsAny f [''github.com/gin-gonic/gin''] of
               None \<Rightarrow> []
             | Some (path, spec) \<Rightarrow>
                 [Report p (Fix ''replace *gin.Context with sctx *serverRoute.Context and return typed responses'' (At f spec))
                   (layer_string (fLayer f) @ '' imports '' @ go_quote path
                    @ ''; the template keeps gin out of every service layer'')])) (wsFiles (pWS p)))"

definition LegacyGinHandler :: Rule where
  "LegacyGinHandler = mk_rule ''legacy-gin-handler'' SeverityError ''gin appears in handler or repo code''
     (''SOP.md '' @ sect @ ''[handler].go (step 5, no gin.Context)'') True legacy_gin_check"

definition binding_field :: "Pass \<Rightarrow> gofile \<Rightarrow> string \<Rightarrow> node \<Rightarrow> Violation list" where
  "binding_field p f name fld =
     (let tag = tagOf fld in
      if tag_lookup ''binding'' tag = None then []
      else if tag_lookup ''validate'' tag \<noteq> None then []
      else [Report p (Fix ''replace binding:\"...\" with validate:\"...\"'' (At f fld))
             (name @ ''.'' @ fieldName fld @ '' uses gin's binding tag; govalid reads validate'')])"

definition legacy_validation_check :: "Pass \<Rightarrow> Violation list" where
  "legacy_validation_check p =
     concat (map (\<lambda>f.
       (case ImportsAny f [''github.com/go-playground/validator''] of
          None \<Rightarrow> []
        | Some (path, spec) \<Rightarrow>
            [Report p (Fix ''declare validate:\"...\" tags on the request struct and run govalid ./request.go'' (At f spec))
              (''direct use of '' @ go_quote path @ ''; validation is generated by govalid'')])
       @ concat (map (\<lambda>fd.
           if fd_name fd = ''NewValidatorService'' then
             [Report p (Fix ''delete the validator service; the framework validates from generated validators'' (At f fd))
               ''legacy validator service; govalid replaces it'']
           else []) (funcsIn f))
       @ concat (map (\<lambda>(name, _, fs). concat (map (binding_field p f name) fs)) (structsIn f)))
       (wsFiles (pWS p)))"

definition LegacyManualValidation :: Rule where
  "LegacyManualValidation = mk_rule ''legacy-manual-validation'' SeverityError
     ''hand-written validator service instead of generated govalid validators''
     (''SOP.md '' @ sect @ ''Validation'') True legacy_validation_check"

definition legacy_swaggo_check :: "(string \<Rightarrow> bool) \<Rightarrow> Pass \<Rightarrow> Violation list" where
  "legacy_swaggo_check exists p =
     concat (map (\<lambda>f.
       case ImportsAny f [''github.com/swaggo/''] of
         None \<Rightarrow> []
       | Some (path, spec) \<Rightarrow>
           [Report p (Fix ''set swagger.generation.mode in configs/config.yaml and read /docs/v3Doc.json'' (At f spec))
             (''swaggo import '' @ go_quote path @ ''; the framework generates the OpenAPI document'')]) (wsFiles (pWS p)))
     @ concat (map (\<lambda>rel.
         if exists rel then
           [Report p (Fix ''delete it; the running service serves /docs/v3Doc.json'' (AtPath rel 1)) ''swaggo artefact present'']
         else []) [''docs/docs.go'', ''docs/swagger.json'', ''docs/swagger.yaml''])"

definition LegacySwaggo :: "(string \<Rightarrow> bool) \<Rightarrow> Rule" where
  "LegacySwaggo exists = mk_rule ''legacy-swaggo'' SeverityWarning
     ''swaggo generates the API docs instead of the framework''
     (''SOP.md '' @ sect @ ''Running the application and Swagger Docs'') True (legacy_swaggo_check exists)"

definition legacy_response_check :: "Pass \<Rightarrow> Violation list" where
  "legacy_response_check p =
     bodies (\<lambda>f. fLayer f = LayerHandler) p (\<lambda>f fd b.
       case List.find (\<lambda>helper. anyCall b [helper]) [''handleSuccess'', ''handleError'', ''handleAbort''] of
         None \<Rightarrow> []
       | Some helper \<Rightarrow>
           [Report p (Fix ''return a typed response embedding port.StatusCodeAndMessage'' (At f fd))
             (fd_name fd @ '' calls '' @ helper @ ''(); the template returns typed response structs'')])"

definition LegacyResponseHelper :: Rule where
  "LegacyResponseHelper = mk_rule ''legacy-response-helper'' SeverityError
     ''handleSuccess()-style helper instead of port.StatusCodeAndMessage envelopes''
     (''skill.md '' @ sect @ ''Response DTO Pattern'') True legacy_response_check"

section \<open>Health handlers and committed artefacts\<close>

definition httpParamTypes :: "string list" where
  "httpParamTypes = [''gin.Context'', ''http.ResponseWriter'', ''http.Request'', ''serverRoute.Context'']"

definition isTestFunc :: "string \<Rightarrow> bool" where
  "isTestFunc name = list_ex (has_prefix name) [''Test'', ''Benchmark'', ''Fuzz'', ''Example'']"

definition hasHTTPParam :: "node \<Rightarrow> bool" where
  "hasHTTPParam fd = list_ex (\<lambda>t. list_ex (str_contains t) httpParamTypes) (params fd)"

definition legacy_health_check :: "Pass \<Rightarrow> Violation list" where
  "legacy_health_check p =
     concat (map (\<lambda>f.
       if fLayer f = LayerTest then []
       else concat (map (\<lambda>fd.
         let n = fd_name fd in
         if isTestFunc n then []
         else if \<not> str_contains (to_lower n) ''healthcheck'' \<and> \<not> hasSuffixFold n ''healthz'' then []
         else if \<not> hasHTTPParam fd then []
         else [Report p (Fix ''enable server.healthcheck.expose and set server.healthcheck.path in configs/'' (At f fd))
                (''hand-written health handler '' @ n @ ''; the framework exposes one from config'')])
         (funcsIn f))) (wsFiles (pWS p)))"

definition LegacyHandmadeHealth :: Rule where
  "LegacyHandmadeHealth = mk_rule ''legacy-handmade-health'' SeverityWarning
     ''hand-written health handler instead of server.healthcheck config''
     (''configs/config.yaml '' @ sect @ ''server.healthcheck'') True legacy_health_check"

definition go_work_check :: "(string \<Rightarrow> bool) \<Rightarrow> Pass \<Rightarrow> Violation list" where
  "go_work_check exists p =
     concat (map (\<lambda>rel.
       if exists rel then
         [Report p (Fix ''remove it and gitignore it; it is a local workspace artefact'' (AtPath rel 1)) (rel @ '' is committed'')]
       else []) [''go.work'', ''go.work.sum''])"

definition LegacyGoWork :: "(string \<Rightarrow> bool) \<Rightarrow> Rule" where
  "LegacyGoWork exists = mk_rule ''legacy-go-work'' SeverityWarning
     ''go.work is committed; template services are single-module'' ''new-template layout'' True (go_work_check exists)"

definition legacyArtifacts :: "string list" where
  "legacyArtifacts = [''gin.log'', ''cover.html'', ''coverage'', ''test_results.txt'', ''preprod.yaml.txt'']"

definition artifacts_check :: "(string \<Rightarrow> bool) \<Rightarrow> Pass \<Rightarrow> Violation list" where
  "artifacts_check exists p =
     concat (map (\<lambda>rel.
       if exists rel then
         [Report p (Fix ''delete it and add it to .gitignore'' (AtPath rel 1)) (''committed build/test artefact '' @ rel)]
       else []) legacyArtifacts)"

definition LegacyCommittedArtifacts :: "(string \<Rightarrow> bool) \<Rightarrow> Rule" where
  "LegacyCommittedArtifacts exists = mk_rule ''legacy-committed-artifacts'' SeverityWarning
     ''build, log or coverage output is committed'' ''new-template layout'' True (artifacts_check exists)"

section \<open>The contract of the checks\<close>

lemma legacy_lib_reports: "reports_only legacy_lib_check"
  unfolding legacy_lib_check_def by (intro reports_onlyI reported)

lemma legacy_routes_reports: "reports_only legacy_routes_check"
  unfolding legacy_routes_check_def invoke_call_def by (intro reports_onlyI reported)

lemma legacy_gin_reports: "reports_only legacy_gin_check"
  unfolding legacy_gin_check_def by (intro reports_onlyI reported)

lemma legacy_validation_reports: "reports_only legacy_validation_check"
  unfolding legacy_validation_check_def binding_field_def by (intro reports_onlyI reported)

lemma legacy_swaggo_reports: "reports_only (legacy_swaggo_check exists)"
  unfolding legacy_swaggo_check_def by (intro reports_onlyI reported)

lemma legacy_response_reports: "reports_only legacy_response_check"
  unfolding legacy_response_check_def by (intro reports_onlyI reported)

lemma legacy_health_reports: "reports_only legacy_health_check"
  unfolding legacy_health_check_def by (intro reports_onlyI reported)

lemma go_work_reports: "reports_only (go_work_check exists)"
  unfolding go_work_check_def by (intro reports_onlyI reported)

lemma artifacts_reports: "reports_only (artifacts_check exists)"
  unfolding artifacts_check_def by (intro reports_onlyI reported)

section \<open>The round-trip report\<close>

record RoundTripReport =
  rtPath :: string
  rtLine :: nat
  rtMethod :: string
  rtStatements :: nat
  rtInLoop :: bool
  rtBatched :: bool
  rtTransaction :: bool
  rtVerdict :: string
  rtScore :: nat

definition roundTripVerdict :: "RoundTripReport \<Rightarrow> string" where
  "roundTripVerdict r =
     (if rtInLoop r \<and> \<not> rtBatched r then ''N+1: query inside a loop '' @ emdash @ '' queue into a batch''
      else if rtTransaction r \<and> rtStatements r \<le> 1 then ''drop the transaction: a single statement is already atomic''
      else if rtBatched r then ''ok''
      else if rtTransaction r \<and> 2 \<le> rtStatements r then ''transaction without a batch: still one round trip per statement''
      else if 3 \<le> rtStatements r then ''batch these where feasible''
      else if rtStatements r = 2 then ''a batch may be possible''
      else ''ok'')"

definition roundtrip_profile :: "gofile \<Rightarrow> node \<Rightarrow> RoundTripReport list" where
  "roundtrip_profile f fd =
     (case fd_body fd of
        None \<Rightarrow> []
      | Some body \<Rightarrow>
          (let n = countCalls isDBExec body; looped = (0 < length (callsInLoops isDBExec body)) in
           if n = 0 \<and> \<not> looped then []
           else (let r = \<lparr>rtPath = fRel f, rtLine = fst (Position fd), rtMethod = fd_name fd, rtStatements = n,
                          rtInLoop = looped, rtBatched = usesBatch body, rtTransaction = usesTransaction body,
                          rtVerdict = [], rtScore = (if looped then n * 10 else n)\<rparr>
                 in [r\<lparr>rtVerdict := roundTripVerdict r\<rparr>])))"

definition roundtrip_key :: "RoundTripReport \<Rightarrow> int \<times> string \<times> nat" where
  "roundtrip_key r = (- int (rtScore r), rtPath r, rtLine r)"

definition RoundTripAudit :: "workspace \<Rightarrow> RoundTripReport list" where
  "RoundTripAudit w =
     sort_key roundtrip_key
       (concat (map (\<lambda>f. concat (map (roundtrip_profile f) (funcsIn f))) (FilesIn w [LayerRepo])))"

section \<open>The validation report\<close>

record ValidationReport =
  vrPath :: string
  vrLine :: nat
  vrStruct :: string
  vrField :: string
  vrType :: string
  vrTag :: string
  vrMissing :: string

definition missingValidation :: "node \<Rightarrow> string \<Rightarrow> string" where
  "missingValidation fld tag =
     (if tag = [] then ''no validate tag''
      else (let rules = validateRules tag in
        if ''omitempty'' \<in> set rules \<and> length rules = 1 then []
        else (case boundFor (field_type fld) of
                (kind, want) \<Rightarrow>
                  if kind = [] \<or> hasAny rules want then []
                  else if kind = ''string'' then ''max/len''
                  else if kind = ''number'' then ''min/max''
                  else ''max'')))"

definition ValidationAudit :: "workspace \<Rightarrow> ValidationReport list" where
  "ValidationAudit w =
     concat (map (\<lambda>f. concat (map (\<lambda>(name, _, fs).
       if \<not> isRequestStruct name then []
       else concat (map (\<lambda>fld.
         if isEmbedded fld then []
         else (let tag = tag_get (tagOf fld) ''validate'' in
           [\<lparr>vrPath = fRel f, vrLine = fst (Position fld), vrStruct = name, vrField = fieldName fld,
             vrType = typeString (field_type fld), vrTag = tag, vrMissing = missingValidation fld tag\<rparr>])) fs))
       (structsIn f))) (FilesIn w [LayerHandler]))"

section \<open>The temporal report\<close>

record TemporalCandidate =
  tcPath :: string
  tcLine :: nat
  tcFunc :: string
  tcKind :: string
  tcCall :: string

definition temporalKinds :: "(string \<times> string) list" where
  "temporalKinds =
     [(''minio'', ''file storage''), (''putobject'', ''file storage''), (''getobject'', ''file storage''),
      (''uploadfile'', ''file storage''), (''sendsms'', ''notification''), (''sendmail'', ''notification''),
      (''sendemail'', ''notification''), (''notify'', ''notification''), (''notification'', ''notification''),
      (''generatereport'', ''report generation''), (''generatepdf'', ''report generation''),
      (''generateexcel'', ''report generation''), (''writecsv'', ''report generation''),
      (''kafka'', ''event publication''), (''publish'', ''event publication'')]"

definition notWork :: "string list" where
  "notWork = [''ToSql'', ''ToErrorResponse'', ''String'', ''Error'', ''Bytes'']"

definition temporalKind :: "string \<Rightarrow> string" where
  "temporalKind name =
     (if methodNamed name notWork then []
      else (case List.find (\<lambda>(needle, _). str_contains (to_lower name) needle) temporalKinds of
              None \<Rightarrow> []
            | Some (_, kind) \<Rightarrow> kind))"

definition temporal_visitor ::
  "gofile \<Rightarrow> node \<Rightarrow> node \<Rightarrow> TemporalCandidate list \<times> string list \<Rightarrow> (TemporalCandidate list \<times> string list) \<times> bool" where
  "temporal_visitor f fd n st =
     (if \<not> is_call n then (st, True)
      else (let name = callName n; kind = temporalKind name in
        if kind = [] \<or> kind @ name \<in> set (snd st) then (st, True)
        else ((fst st @ [\<lparr>tcPath = fRel f, tcLine = fst (Position n), tcFunc = fd_name fd, tcKind = kind, tcCall = name\<rparr>],
               (kind @ name) # snd st), True)))"

definition outbound_visitor :: "gofile \<Rightarrow> node \<Rightarrow> node \<Rightarrow> TemporalCandidate list \<times> bool" where
  "outbound_visitor f fd n =
     (if \<not> is_call n \<or> \<not> isOutboundCall (callName n) then ([], True)
      else ([\<lparr>tcPath = fRel f, tcLine = fst (Position n), tcFunc = fd_name fd, tcKind = ''outbound service call'',
              tcCall = callName n\<rparr>], False))"

definition TemporalAudit :: "workspace \<Rightarrow> TemporalCandidate list" where
  "TemporalAudit w =
     sort_key (\<lambda>c. (tcPath c, tcLine c))
       (concat (map (\<lambda>f.
         if fLayer f \<in> {LayerTest, LayerMain, LayerBootstrap} then []
         else concat (map (\<lambda>fd.
           case fd_body fd of
             None \<Rightarrow> []
           | Some body \<Rightarrow>
               fst (inspect (temporal_visitor f fd) body ([], [])) @ visit (outbound_visitor f fd) body)
           (funcsIn f))) (wsFiles w)))"

section \<open>The reports agree with the rules\<close>

text \<open>
  The round-trip report and the linter agree on N+1 queries: some row of the report is marked as
  querying in a loop exactly when repo-batch-in-loop reports something; the rows come in the order
  of their score, highest first.
\<close>

theorem roundtrip_audit_agrees:
  "(batch_in_loop_check p \<noteq> [] \<longleftrightarrow> list_ex rtInLoop (RoundTripAudit (pWS p)))
   \<and> sorted (map (\<lambda>r. - int (rtScore r)) (RoundTripAudit (pWS p)))"
proof
  have prof: "list_ex rtInLoop (roundtrip_profile f fd) \<longleftrightarrow> (\<exists>b. fd_body fd = Some b \<and> callsInLoops isDBExec b \<noteq> [])"
    for f fd
    by (auto simp: roundtrip_profile_def Let_def split: option.splits)
  have "list_ex rtInLoop (RoundTripAudit (pWS p)) \<longleftrightarrow>
      (\<exists>f fd b. f \<in> set (wsFiles (pWS p)) \<and> fLayer f = LayerRepo \<and> fd \<in> set (funcsIn f)
        \<and> fd_body fd = Some b \<and> callsInLoops isDBExec b \<noteq> [])"
  proof -
    have "list_ex rtInLoop (RoundTripAudit (pWS p)) \<longleftrightarrow>
        (\<exists>f \<in> set (FilesIn (pWS p) [LayerRepo]). \<exists>fd \<in> set (funcsIn f). list_ex rtInLoop (roundtrip_profile f fd))"
      by (auto simp: RoundTripAudit_def list_ex_iff)
    then show ?thesis unfolding prof FilesIn_def by auto
  qed
  moreover have "batch_in_loop_check p \<noteq> [] \<longleftrightarrow>
      (\<exists>f fd b. f \<in> set (wsFiles (pWS p)) \<and> fLayer f = LayerRepo \<and> fd \<in> set (funcsIn f)
        \<and> fd_body fd = Some b \<and> callsInLoops isDBExec b \<noteq> [])"
    unfolding batch_in_loop_check_def repoMethods_ne concat_map_ne list_ne_ex [of "callsInLoops _ _"] by blast
  ultimately show "batch_in_loop_check p \<noteq> [] \<longleftrightarrow> list_ex rtInLoop (RoundTripAudit (pWS p))" by blast
next
  have "sorted (map roundtrip_key (RoundTripAudit (pWS p)))" by (simp add: RoundTripAudit_def)
  then show "sorted (map (\<lambda>r. - int (rtScore r)) (RoundTripAudit (pWS p)))"
    unfolding sorted_map
    by (rule sorted_wrt_mono_rel [rotated]) (auto simp: roundtrip_key_def less_eq_prod_def)
qed

text \<open>
  The validation report and request-validate-depth judge a tagged field alike: a field with a
  non-empty validate tag is reported by the rule exactly when the report says something is missing.
\<close>

theorem validation_audit_agrees:
  "(case tag_lookup ''validate'' (tagOf fld) of
      None \<Rightarrow> depth_field p f name fld = [] \<and> missingValidation fld (tag_get (tagOf fld) ''validate'') = ''no validate tag''
    | Some tag \<Rightarrow>
        (if isEmbedded fld then depth_field p f name fld = []
         else if tag = [] then missingValidation fld tag = ''no validate tag''
         else depth_field p f name fld \<noteq> [] \<longleftrightarrow> missingValidation fld tag \<noteq> []))"
  by (cases "tag_lookup ''validate'' (tagOf fld)"; cases "boundFor (field_type fld)")
    (auto simp: depth_field_def unbounded_kind_def missingValidation_def tag_get_def Let_def)

text \<open>A method that queries in a loop and also queues a batch.\<close>

definition batched_loop :: node where
  "batched_loop =
     BlockStmt no_span
       [RangeStmt no_span (Some (Ident no_span ''_'')) (Some (Ident no_span ''u'')) (Ident no_span ''users'')
          (BlockStmt no_span
             [OtherNode no_span ''ExprStmt''
                [CallExpr no_span (SelectorExpr no_span (Ident no_span ''dblib'') ''Insert'')
                   [Ident no_span ''ctx'', Ident no_span ''u''] no_span no_span]]),
        OtherNode no_span ''ExprStmt''
          [CallExpr no_span (SelectorExpr no_span (Ident no_span ''dblib'') ''QueueExecRow'')
             [Ident no_span ''batch''] no_span no_span]]"

text \<open>
  The verdict of the round-trip report can contradict the linter: a method that runs an insert in
  a loop and also queues something into a batch gets the verdict ok, while repo-batch-in-loop,
  which gates, still reports the insert.
\<close>

theorem roundtrip_verdict_ok_on_loop:
  "map rtVerdict (roundtrip_profile f (FuncDecl no_span None ''Save'' t (Some batched_loop))) = [''ok'']
   \<and> callsInLoops isDBExec batched_loop \<noteq> []"
proof -
  have "callsInLoops isDBExec batched_loop \<noteq> []" by code_simp
  moreover have "usesBatch batched_loop" "\<not> usesTransaction batched_loop" by code_simp+
  ultimately show ?thesis
    using countCalls_in_loops [of isDBExec batched_loop]
    by (simp add: roundtrip_profile_def Let_def roundTripVerdict_def)
qed

end
