(* ===== verification/RuleSet.thy ===== *)
theory RuleSet
  imports LegacyRules
begin

text \<open>
  Model of gotools/internal/rules/registry.go (the shipped rule set) and run.go (Analyze, the entry
  point of the CLI and the MCP server), and the engine's contract discharged for the shipped rules:
  the locale of RuleEngine is interpreted on them, and the properties of whole runs rest on it.
\<close>

definition default_rules :: "(string \<Rightarrow> bool) \<Rightarrow> Rule list" where
  "default_rules exists =
     [LayerSQLBoundary, LayerDTOBoundary,
      HandlerSignature, HandlerBase, RoutesInHandler,
      RepoContract, RepoRowMapper, RepoNoRows,
      RepoBatchInLoop, RepoRawRows, RepoSelectStar, NoStoredProcedure, RepoMultiRoundTrip,
      RepoTransactionScope, RepoSQLNow,
      ClientSingleton, CtxPropagation, ExternalCallTimeout,
      RepoNoLogging, NoSensitiveLogging, LogLevelHygiene,
      RequestDTO, RequestValidateDepth, ResponseDTO, ResponseStatus,
      DomainTags,
      FXRegistration, ErrorHandling, DepAllowlist, FileSize, ValidatorStale,
      SecretsInConfig, ConfigKeyExists, ConfigNoHardcode, SwaggerVisible,
      GoIdiom,
      NoFmtPrint, CtxNaming, PreferSwitch, MagicLiteral, HandlerSingleRepoCall,
      LegacyLibGeneration, LegacyRoutesFile, LegacyGinHandler, LegacyManualValidation,
      LegacySwaggo exists, LegacyResponseHelper, LegacyHandmadeHealth, LegacyGoWork exists,
      LegacyCommittedArtifacts exists]"

definition Default :: "(string \<Rightarrow> bool) \<Rightarrow> string + Registry" where
  "Default exists = NewRegistry (default_rules exists)"

definition needsGenerated :: "RunOptions \<Rightarrow> bool" where
  "needsGenerated opts = (if oOnly opts = [] then True else rID ValidatorStale \<in> set (oOnly opts))"

definition needsTests :: "RunOptions \<Rightarrow> bool" where
  "needsTests opts = (if oOnly opts = [] then True else rID DepAllowlist \<in> set (oOnly opts))"

text \<open>
  What Analyze reads from outside: the outcome of reading the configuration file, the three parsers
  and the root directory. A registry that panics is an error too.
\<close>

record outside =
  outConfig :: read_result
  outUnmarshal :: "string \<Rightarrow> string + Config"
  outParse :: "string \<Rightarrow> string \<Rightarrow> parsed option"
  outYaml :: "string \<Rightarrow> string + ynode option"
  outRoot :: root_dir
  outExists :: "string \<Rightarrow> bool"

definition Analyze :: "outside \<Rightarrow> RunOptions \<Rightarrow> string + Result" where
  "Analyze out opts =
     (case (if isZero (oConfig opts) then LoadConfig (outUnmarshal out) (outConfig out) else Inr (oConfig opts)) of
        Inl e \<Rightarrow> Inl e
      | Inr cfg \<Rightarrow>
          (let opts' = opts\<lparr>oConfig := cfg\<rparr>;
               lo = \<lparr>includeTests = needsTests opts', includeGen = needsGenerated opts', extraPrune = []\<rparr>
           in case Load (outParse out) (outYaml out) lo (outRoot out) of
                Inl e \<Rightarrow> Inl (''load workspace: '' @ e)
              | Inr ws \<Rightarrow>
                  (case Default (outExists out) of
                     Inl e \<Rightarrow> Inl e
                   | Inr reg \<Rightarrow>
                       (case Run reg ws opts' of
                          Inl u \<Rightarrow> Inl (unknown_rule_string u)
                        | Inr res \<Rightarrow> Inr res))))"

section \<open>The shipped rules meet the contract\<close>

lemmas rule_defs =
  LayerSQLBoundary_def LayerDTOBoundary_def HandlerSignature_def HandlerBase_def RoutesInHandler_def
  RepoContract_def RepoRowMapper_def RepoNoRows_def RepoBatchInLoop_def RepoRawRows_def
  RepoSelectStar_def NoStoredProcedure_def RepoMultiRoundTrip_def RepoTransactionScope_def
  RepoSQLNow_def ClientSingleton_def CtxPropagation_def ExternalCallTimeout_def RepoNoLogging_def
  NoSensitiveLogging_def LogLevelHygiene_def RequestDTO_def RequestValidateDepth_def ResponseDTO_def
  ResponseStatus_def DomainTags_def FXRegistration_def ErrorHandling_def DepAllowlist_def FileSize_def
  ValidatorStale_def SecretsInConfig_def ConfigKeyExists_def ConfigNoHardcode_def SwaggerVisible_def
  GoIdiom_def NoFmtPrint_def CtxNaming_def PreferSwitch_def MagicLiteral_def HandlerSingleRepoCall_def
  LegacyLibGeneration_def LegacyRoutesFile_def LegacyGinHandler_def LegacyManualValidation_def
  LegacySwaggo_def LegacyResponseHelper_def LegacyHandmadeHealth_def LegacyGoWork_def
  LegacyCommittedArtifacts_def

lemmas check_contracts =
  sql_boundary_reports dto_boundary_reports signature_reports base_reports routes_reports
  contract_reports rowmapper_reports norows_reports batch_in_loop_reports raw_rows_reports
  select_star_reports stored_procedure_reports multi_roundtrip_reports transaction_reports
  sql_now_reports client_reports ctx_reports external_reports repo_logging_reports sensitive_reports
  log_level_reports request_reports depth_reports response_reports status_reports domain_reports
  fx_reports error_reports dep_reports file_size_reports validator_reports secrets_reports
  config_key_reports hardcode_reports swagger_reports idiom_reports fmt_reports ctx_naming_reports
  switch_reports magic_reports single_repo_reports legacy_lib_reports legacy_routes_reports
  legacy_gin_reports legacy_validation_reports legacy_swaggo_reports legacy_response_reports
  legacy_health_reports go_work_reports artifacts_reports

definition default_ids :: "string list" where
  "default_ids =
     [''layer-sql-boundary'', ''layer-dto-boundary'', ''handler-signature'', ''handler-base'',
      ''routes-in-handler'', ''repo-contract'', ''repo-rowmapper'', ''repo-norows'', ''repo-batch-in-loop'',
      ''repo-raw-rows'', ''repo-select-star'', ''no-stored-procedure'', ''repo-multi-roundtrip'',
      ''repo-transaction-scope'', ''repo-sql-now'', ''client-singleton'', ''ctx-propagation'',
      ''external-call-timeout'', ''repo-no-logging'', ''no-sensitive-logging'', ''log-level-hygiene'',
      ''request-dto'', ''request-validate-depth'', ''response-dto'', ''response-status'', ''domain-tags'',
      ''fx-registration'', ''error-handling'', ''dep-allowlist'', ''file-size'', ''validator-generated'',
      ''secrets-in-config'', ''config-key-exists'', ''config-no-hardcode'', ''swagger-visible'', ''go-idiom'',
      ''no-fmt-print'', ''ctx-naming'', ''prefer-switch'', ''magic-literal'', ''handler-single-repo-call'',
      ''legacy-lib-generation'', ''legacy-routes-file'', ''legacy-gin-handler'', ''legacy-manual-validation'',
      ''legacy-swaggo'', ''legacy-response-helper'', ''legacy-handmade-health'', ''legacy-go-work'',
      ''legacy-committed-artifacts'']"

lemma default_rules_ids: "map rID (default_rules exists) = default_ids"
  by (simp add: default_rules_def default_ids_def rule_defs)

lemma distinct_default_ids: "distinct default_ids"
  by code_simp

lemma default_rules_checks:
  "list_all (\<lambda>r. rID r \<noteq> [] \<and> (\<exists>c. rCheck r = Some c \<and> reports_only c)) (default_rules exists)"
  by (simp add: default_rules_def rule_defs check_contracts)

lemma default_rules_ok: "rules_ok (default_rules exists)"
  using default_rules_checks [of exists] distinct_default_ids
  by (auto simp: rules_ok_def default_rules_ids list_all_iff)

definition default_registry :: "(string \<Rightarrow> bool) \<Rightarrow> Registry" where
  "default_registry exists =
     \<lparr>rgRules = sort_key rID (default_rules exists),
      rgByID = map (\<lambda>r. (rID r, r)) (sort_key rID (default_rules exists))\<rparr>"

lemma default_registered: "NewRegistry (default_rules exists) = Inr (default_registry exists)"
  unfolding NewRegistry_Inr using default_rules_ok by (simp add: default_registry_def)

interpretation shipped: rule_contract "default_rules exists" "default_registry exists" for exists
proof
  show "NewRegistry (default_rules exists) = Inr (default_registry exists)" by (rule default_registered)
next
  fix r c assume "r \<in> set (default_rules exists)" "rCheck r = Some c"
  then show "reports_only c" using default_rules_checks [of exists] by (auto simp: list_all_iff)
qed

section \<open>Properties of whole runs\<close>

text \<open>
  C1: every run of the shipped rules is attributable and obeys the operator: the registry never
  panics, a run fails only for ids that do not exist, every violation carries the id and citation of
  a shipped rule; a pinned severity is the severity reported; and, when no ids are given, a
  disabled rule and a rule of the other family report nothing.
\<close>

theorem shipped_run_contract:
  "Default exists = Inr (default_registry exists)
   \<and> (case Run (default_registry exists) ws opts of
        Inl (UnknownRuleError ids) \<Rightarrow> ids \<noteq> [] \<and> ids = filter (\<lambda>i. i \<notin> set default_ids) (oOnly opts)
      | Inr res \<Rightarrow>
          list_all (\<lambda>v.
            (\<exists>r. r \<in> set (default_rules exists) \<and> vRule v = rID r \<and> vCitation v = rCitation r
               \<and> (if oOnly opts = [] then rLegacy r = oLegacy opts else rID r \<in> set (oOnly opts)))
            \<and> (if HasSeverityOverride (effective_config (oConfig opts)) (vRule v)
               then map_of (cSeverityOverride (effective_config (oConfig opts))) (vRule v) = Some (vSeverity v)
               else True)
            \<and> (if oOnly opts = [] then \<not> Disabled (effective_config (oConfig opts)) (vRule v) else True))
          (result_all res))"
proof (intro conjI)
  show "Default exists = Inr (default_registry exists)" by (simp add: Default_def default_registered)
  have ids: "rID ` set (default_rules exists) = set default_ids"
    by (metis default_rules_ids image_set)
  show "case Run (default_registry exists) ws opts of
        Inl (UnknownRuleError ids) \<Rightarrow> ids \<noteq> [] \<and> ids = filter (\<lambda>i. i \<notin> set default_ids) (oOnly opts)
      | Inr res \<Rightarrow>
          list_all (\<lambda>v.
            (\<exists>r. r \<in> set (default_rules exists) \<and> vRule v = rID r \<and> vCitation v = rCitation r
               \<and> (if oOnly opts = [] then rLegacy r = oLegacy opts else rID r \<in> set (oOnly opts)))
            \<and> (if HasSeverityOverride (effective_config (oConfig opts)) (vRule v)
               then map_of (cSeverityOverride (effective_config (oConfig opts))) (vRule v) = Some (vSeverity v)
               else True)
            \<and> (if oOnly opts = [] then \<not> Disabled (effective_config (oConfig opts)) (vRule v) else True))
          (result_all res)"
  proof (cases "Run (default_registry exists) ws opts")
    case (Inl e)
    then have sel: "selectRules (default_registry exists) opts = Inl e"
      by (auto simp: Run_def Let_def split: sum.splits)
    then have only: "oOnly opts \<noteq> []" by (auto simp: selectRules_def Let_def)
    show ?thesis
      using sel selectRules_only [OF default_registered only, of exists] Inl
      by (auto simp: ids filter_empty_conv split: if_splits)
  next
    case (Inr res)
    have "(\<exists>r. r \<in> set (default_rules exists) \<and> vRule v = rID r \<and> vCitation v = rCitation r
               \<and> (if oOnly opts = [] then rLegacy r = oLegacy opts else rID r \<in> set (oOnly opts)))
            \<and> (if HasSeverityOverride (effective_config (oConfig opts)) (vRule v)
               then map_of (cSeverityOverride (effective_config (oConfig opts))) (vRule v) = Some (vSeverity v)
               else True)
            \<and> (if oOnly opts = [] then \<not> Disabled (effective_config (oConfig opts)) (vRule v) else True)"
      if v: "v \<in> set (result_all res)" for v
    proof -
      obtain r fd msg selected where sel: "selectRules (default_registry exists) opts = Inr selected"
        and r: "r \<in> set selected" "r \<in> set (default_rules exists)"
        and veq: "vRule v = rID r" "vCitation v = rCitation r"
        using shipped.run_attributed [OF Inr v] by (metis Report_sel(1,2) Pass.select_convs(3) truncate_sel(1,3))
      have fam: "if oOnly opts = [] then rLegacy r = oLegacy opts else rID r \<in> set (oOnly opts)"
      proof (cases "oOnly opts = []")
        case True
        then show ?thesis using sel r by (auto simp: selectRules_def Let_def)
      next
        case False
        then have "selected = map (\<lambda>i. the (Get (default_registry exists) i)) (oOnly opts)"
          "set (oOnly opts) \<subseteq> rID ` set (default_rules exists)"
          using sel selectRules_only [OF default_registered False, of exists] by (auto split: if_splits)
        then obtain i where i: "i \<in> set (oOnly opts)" "r = the (Get (default_registry exists) i)"
          "Get (default_registry exists) i \<noteq> None"
          using r Get_None_iff [OF default_registered, of exists] by auto
        then have "rID r = i" using Get_iff [OF default_registered, of exists i r] by auto
        then show ?thesis using i False by simp
      qed
      show ?thesis
        using r veq fam shipped.run_pinned [OF Inr v] shipped.run_disabled_silent [OF Inr _ v] by auto
    qed
    then show ?thesis using Inr by (simp add: list_all_iff)
  qed
qed


end
