(* ===== verification/Gopatch.thy ===== *)
theory Gopatch
  imports Workspace
begin

text \<open>
  Model of gotools/internal/gopatch: surgical edits of Go files at byte offsets. go/parser and
  go/format are the parameters \<open>parse\<close> and \<open>fmt\<close> (an error or a tree, an error or the formatted
  text); offsets are those of the tree the parser returned for the text being edited.
\<close>

section \<open>Line endings\<close>

datatype EOL = LF | CRLF

abbreviation (input) nl :: char where "nl \<equiv> CHR 0x0A"

abbreviation (input) cr :: char where "cr \<equiv> CHR 0x0D"

text \<open>bytes.Count of CR LF, and of LF.\<close>

fun count_crlf :: "string \<Rightarrow> nat" where
  "count_crlf (c # d # s) = (if c = CHR 0x0D \<and> d = CHR 0x0A then Suc (count_crlf s) else count_crlf (d # s))"
| "count_crlf _ = 0"

definition DetectEOL :: "string \<Rightarrow> EOL" where
  "DetectEOL src =
     (let crlf = count_crlf src; lf = count_list src (CHR 0x0A) - crlf in if lf < crlf then CRLF else LF)"

fun ToLF :: "string \<Rightarrow> string" where
  "ToLF (c # d # s) = (if c = CHR 0x0D \<and> d = CHR 0x0A then CHR 0x0A # ToLF s else c # ToLF (d # s))"
| "ToLF s = s"

definition ApplyEOL :: "string \<Rightarrow> EOL \<Rightarrow> string" where
  "ApplyEOL src eol = (if eol = LF then src else replace_char (CHR 0x0A) [CHR 0x0D, CHR 0x0A] src)"

section \<open>Formatting and checking\<close>

type_synonym parser = "string \<Rightarrow> string + node"

type_synonym formatter = "string \<Rightarrow> string + string"

text \<open>The verb %4d.\<close>

definition pad4 :: "string \<Rightarrow> string" where
  "pad4 s = replicate (4 - length s) (CHR '' '') @ s"

definition numbered :: "string \<Rightarrow> string" where
  "numbered src =
     concat (map (\<lambda>(i, line). pad4 (itoa (i + 1)) @ '' | '' @ line @ [CHR 0x0A])
       (enumerate 0 (split_char (CHR 0x0A) src)))"

definition Format :: "formatter \<Rightarrow> string \<Rightarrow> string + string" where
  "Format fmt src =
     (case fmt src of
        Inl e \<Rightarrow> Inl (''generated source does not parse: '' @ e @ [CHR 0x0A] @ numbered src)
      | Inr out \<Rightarrow> Inr out)"

definition wrapper :: string where
  "wrapper = ''package p'' @ [CHR 0x0A, CHR 0x0A]"

abbreviation (input) is_nl :: "char \<Rightarrow> bool" where "is_nl \<equiv> (\<lambda>c. c = CHR 0x0A)"

definition FormatFragment :: "formatter \<Rightarrow> string \<Rightarrow> string + string" where
  "FormatFragment fmt decls =
     (case Format fmt (wrapper @ decls) of
        Inl e \<Rightarrow> Inl e
      | Inr out \<Rightarrow> Inr (trim_left_by is_nl (trim_prefix out wrapper)))"

definition check_source :: "parser \<Rightarrow> string \<Rightarrow> string option" where
  "check_source parse src =
     (case parse src of Inl e \<Rightarrow> Some (''patched file does not parse: '' @ e) | Inr _ \<Rightarrow> None)"

definition AppendDecls :: "parser \<Rightarrow> formatter \<Rightarrow> string \<Rightarrow> string \<Rightarrow> string + string" where
  "AppendDecls parse fmt src decls =
     (let eol = DetectEOL src; body = ToLF src in
      case FormatFragment fmt decls of
        Inl e \<Rightarrow> Inl e
      | Inr frag \<Rightarrow>
          (let out = trim_right_by is_nl body @ [CHR 0x0A, CHR 0x0A] @ trim_right_by is_nl frag @ [CHR 0x0A] in
           case check_source parse out of
             Some e \<Rightarrow> Inl e
           | None \<Rightarrow> Inr (ApplyEOL out eol)))"

section \<open>Declarations\<close>

definition declares :: "string \<Rightarrow> node \<Rightarrow> bool" where
  "declares name d =
     (case d of
        FuncDecl _ recv n _ _ \<Rightarrow> recv = None \<and> n = name
      | GenDecl _ _ specs _ _ \<Rightarrow> list_ex (\<lambda>s. case s of TypeSpec _ n _ \<Rightarrow> n = name | _ \<Rightarrow> False) specs
      | _ \<Rightarrow> False)"

definition HasDecl :: "parser \<Rightarrow> string \<Rightarrow> string \<Rightarrow> string + bool" where
  "HasDecl parse src name =
     (case parse (ToLF src) of
        Inl e \<Rightarrow> Inl (''parse: '' @ e)
      | Inr f \<Rightarrow> Inr (list_ex (declares name) (file_decls f)))"

section \<open>Import groups\<close>

datatype ImportGroup = GroupStd | GroupModule | GroupExternal

fun group_rank :: "ImportGroup \<Rightarrow> nat" where
  "group_rank GroupStd = 0"
| "group_rank GroupModule = 1"
| "group_rank GroupExternal = 2"

lemma group_rank_eq: "group_rank a = group_rank b \<longleftrightarrow> a = b"
  by (cases a; cases b) auto

instantiation ImportGroup :: linorder
begin

definition less_eq_ImportGroup :: "ImportGroup \<Rightarrow> ImportGroup \<Rightarrow> bool" where
  "less_eq_ImportGroup a b \<longleftrightarrow> group_rank a \<le> group_rank b"

definition less_ImportGroup :: "ImportGroup \<Rightarrow> ImportGroup \<Rightarrow> bool" where
  "less_ImportGroup a b \<longleftrightarrow> group_rank a < group_rank b"

instance
  by standard (auto simp: less_eq_ImportGroup_def less_ImportGroup_def group_rank_eq)

end

definition ClassifyImport :: "string \<Rightarrow> string \<Rightarrow> ImportGroup" where
  "ClassifyImport path modulePath =
     (if modulePath \<noteq> [] \<and> (path = modulePath \<or> has_prefix path (modulePath @ ''/'')) then GroupModule
      else if CHR ''.'' \<notin> set (fst (cut_char path (CHR ''/''))) then GroupStd
      else GroupExternal)"

section \<open>Offsets\<close>

definition lineStart :: "string \<Rightarrow> nat \<Rightarrow> nat" where
  "lineStart body off = (case last_index_char (take off body) (CHR 0x0A) of Some i \<Rightarrow> i + 1 | None \<Rightarrow> 0)"

definition lineEnd :: "string \<Rightarrow> nat \<Rightarrow> nat" where
  "lineEnd body off = (case index_char (drop off body) (CHR 0x0A) of Some i \<Rightarrow> off + i + 1 | None \<Rightarrow> length body)"

definition splice :: "string \<Rightarrow> nat \<Rightarrow> nat \<Rightarrow> string \<Rightarrow> string" where
  "splice body lo hi with = take lo body @ with @ drop hi body"

definition is_import_decl :: "node \<Rightarrow> bool" where
  "is_import_decl d = (case d of GenDecl _ tok _ _ _ \<Rightarrow> tok = IMPORT | _ \<Rightarrow> False)"

definition findImportDecl :: "node \<Rightarrow> node option" where
  "findImportDecl f = List.find is_import_decl (file_decls f)"

definition importSpecText :: "string \<Rightarrow> string \<Rightarrow> string" where
  "importSpecText alias path = (if alias = [] then go_quote path else alias @ '' '' @ go_quote path)"

fun decl_lparen :: "node \<Rightarrow> span option" where
  "decl_lparen (GenDecl _ _ _ l _) = l"
| "decl_lparen _ = None"

fun decl_rparen :: "node \<Rightarrow> nat" where
  "decl_rparen (GenDecl _ _ _ _ r) = slo r"
| "decl_rparen _ = 0"

fun file_name :: "node \<Rightarrow> node" where
  "file_name (FileNode _ n _) = n"
| "file_name n = n"

section \<open>Where an import goes\<close>

record import_entry =
  ieGroup :: ImportGroup
  iePath :: string
  ieStart :: nat
  ieEnd :: nat

definition import_entries :: "string \<Rightarrow> string \<Rightarrow> node \<Rightarrow> import_entry list" where
  "import_entries body modulePath decl =
     map (\<lambda>im. \<lparr>ieGroup = ClassifyImport (import_path im) modulePath, iePath = import_path im,
                 ieStart = lineStart body (slo (node_span im)), ieEnd = lineEnd body (shi (node_span im))\<rparr>)
       (filter is_import_spec (gen_specs decl))"

text \<open>
  A place for the new line: above or below the entry with an index, in its group or, with a blank
  line, as a group of its own.
\<close>

datatype slot = Above nat | Below nat | GroupAbove nat | GroupBelow nat

fun slot_in_group :: "ImportGroup \<Rightarrow> string \<Rightarrow> nat \<Rightarrow> import_entry list \<Rightarrow> slot option" where
  "slot_in_group want path i [] = None"
| "slot_in_group want path i (e # es) =
     (if ieGroup e \<noteq> want then slot_in_group want path (i + 1) es
      else if path < iePath e then Some (Above i)
      else if es = [] \<or> ieGroup (hd es) \<noteq> want then Some (Below i)
      else slot_in_group want path (i + 1) es)"

fun slot_later_group :: "ImportGroup \<Rightarrow> nat \<Rightarrow> import_entry list \<Rightarrow> slot option" where
  "slot_later_group want i [] = None"
| "slot_later_group want i (e # es) =
     (if want < ieGroup e then Some (GroupAbove i) else slot_later_group want (i + 1) es)"

definition import_slot :: "ImportGroup \<Rightarrow> string \<Rightarrow> import_entry list \<Rightarrow> slot" where
  "import_slot want path es =
     (case slot_in_group want path 0 es of
        Some s \<Rightarrow> s
      | None \<Rightarrow>
          (case slot_later_group want 0 es of
             Some s \<Rightarrow> s
           | None \<Rightarrow> GroupBelow (length es - 1)))"

fun slot_text :: "import_entry list \<Rightarrow> string \<Rightarrow> slot \<Rightarrow> nat \<times> string" where
  "slot_text es line (Above i) = (ieStart (es ! i), line @ [CHR 0x0A])"
| "slot_text es line (Below i) = (ieEnd (es ! i), line @ [CHR 0x0A])"
| "slot_text es line (GroupAbove i) = (ieStart (es ! i), line @ [CHR 0x0A, CHR 0x0A])"
| "slot_text es line (GroupBelow i) = (ieEnd (es ! i), [CHR 0x0A] @ line @ [CHR 0x0A])"

definition insertPoint :: "string \<Rightarrow> node \<Rightarrow> string \<Rightarrow> string \<Rightarrow> string \<Rightarrow> nat \<times> string" where
  "insertPoint body decl line path modulePath =
     (let want = ClassifyImport path modulePath; entries = import_entries body modulePath decl in
      if entries = [] then (lineStart body (decl_rparen decl), line @ [CHR 0x0A])
      else slot_text entries line (import_slot want path entries))"

section \<open>EnsureImport\<close>

definition EnsureImport ::
  "parser \<Rightarrow> formatter \<Rightarrow> string \<Rightarrow> string \<Rightarrow> string \<Rightarrow> string \<Rightarrow> string + string \<times> bool" where
  "EnsureImport parse fmt src alias path modulePath =
     (let eol = DetectEOL src; body = ToLF src in
      case parse body of
        Inl e \<Rightarrow> Inl (''parse: '' @ e)
      | Inr file \<Rightarrow>
          if list_ex (\<lambda>im. import_path im = path) (ast_imports file) then Inr (src, False)
          else (let line = CHR 0x09 # importSpecText alias path in
            case findImportDecl file of
              None \<Rightarrow>
                (let offset = shi (node_span (file_name file));
                     block = [CHR 0x0A, CHR 0x0A] @ ''import ('' @ [CHR 0x0A] @ line @ [CHR 0x0A] @ '')'';
                     out = splice body offset offset block
                 in (case check_source parse out of
                       Some e \<Rightarrow> Inl e
                     | None \<Rightarrow> Inr (ApplyEOL out eol, True)))
            | Some decl \<Rightarrow>
                if decl_lparen decl = None then
                  (let existing = hd (gen_specs decl);
                       existingLine = CHR 0x09 # importSpecText (import_alias existing) (import_path existing);
                       lines = sort_strings [existingLine, line];
                       out = splice body (slo (node_span decl)) (shi (node_span decl))
                               (''import ('' @ [CHR 0x0A] @ str_join [CHR 0x0A] lines @ [CHR 0x0A] @ '')'')
                   in (case Format fmt out of
                         Inl e \<Rightarrow> Inl e
                       | Inr formatted \<Rightarrow> Inr (ApplyEOL formatted eol, True)))
                else
                  (case insertPoint body decl line path modulePath of
                     (pos, txt) \<Rightarrow>
                       (let out = splice body pos pos txt in
                        case check_source parse out of
                          Some e \<Rightarrow> Inl e
                        | None \<Rightarrow> Inr (ApplyEOL out eol, True)))))"

section \<open>Facts about line endings\<close>

abbreviation (input) to_crlf :: "string \<Rightarrow> string" where
  "to_crlf \<equiv> replace_char (CHR 0x0A) [CHR 0x0D, CHR 0x0A]"

lemma ToLF_to_crlf: "ToLF (to_crlf t) = t"
proof (induction t)
  case (Cons c t)
  show ?case
  proof (cases "c = CHR 0x0A")
    case False
    then show ?thesis using Cons by (cases t) (auto split: if_splits)
  qed (use Cons in simp)
qed simp

lemma count_crlf_le: "count_crlf s \<le> count_list s (CHR 0x0A)"
  by (induction s rule: count_crlf.induct) auto

lemma length_ToLF: "length (ToLF s) + count_crlf s = length s"
  by (induction s rule: ToLF.induct) auto

lemma ToLF_id: "ToLF s = s \<longleftrightarrow> count_crlf s = 0"
proof
  assume "ToLF s = s"
  then show "count_crlf s = 0" using length_ToLF [of s] by simp
next
  assume "count_crlf s = 0"
  then show "ToLF s = s" by (induction s rule: ToLF.induct) (auto split: if_splits)
qed

lemma count_crlf_to_crlf: "count_crlf (to_crlf t) = count_list t (CHR 0x0A)"
proof (induction t)
  case (Cons c t)
  show ?case
  proof (cases "c = CHR 0x0A")
    case False
    then show ?thesis using Cons by (cases t) (auto split: if_splits)
  qed (use Cons in simp)
qed simp

lemma count_nl_to_crlf: "count_list (to_crlf t) (CHR 0x0A) = count_list t (CHR 0x0A)"
  by (induction t) auto

lemma to_crlf_ToLF: "count_crlf s = count_list s (CHR 0x0A) \<Longrightarrow> to_crlf (ToLF s) = s"
proof (induction s rule: ToLF.induct)
  case (1 c d s)
  show ?case
  proof (cases "c = CHR 0x0D \<and> d = CHR 0x0A")
    case True
    then show ?thesis using 1 by simp
  next
    case no: False
    have "c \<noteq> CHR 0x0A"
      using "1.prems" no count_crlf_le [of "d # s"] by (auto split: if_splits)
    then show ?thesis using 1 no by auto
  qed
next
  case "2_2"
  then show ?case by (auto split: if_splits)
qed auto

lemma ApplyEOL_append: "ApplyEOL (s @ t) eol = ApplyEOL s eol @ ApplyEOL t eol"
  by (simp add: ApplyEOL_def)

text \<open>
  Detecting, normalising and restoring line endings gives a file back exactly when its line
  endings are uniform: no line or every line ends in CR LF. A mixed file is rewritten.
\<close>

theorem eol_preserved_iff_uniform:
  "ApplyEOL (ToLF src) (DetectEOL src) = src \<longleftrightarrow>
     count_crlf src = 0 \<or> count_crlf src = count_list src (CHR 0x0A)"
proof (cases "DetectEOL src")
  case LF
  then have le: "count_crlf src \<le> count_list src (CHR 0x0A) - count_crlf src"
    by (simp add: DetectEOL_def Let_def split: if_splits)
  have "ApplyEOL (ToLF src) (DetectEOL src) = src \<longleftrightarrow> count_crlf src = 0"
    using LF ToLF_id by (simp add: ApplyEOL_def)
  moreover have "count_crlf src = count_list src (CHR 0x0A) \<Longrightarrow> count_crlf src = 0" using le by simp
  ultimately show ?thesis by auto
next
  case CRLF
  then have gt: "0 < count_crlf src" by (auto simp: DetectEOL_def Let_def split: if_splits)
  have ap: "ApplyEOL (ToLF src) (DetectEOL src) = to_crlf (ToLF src)" using CRLF by (simp add: ApplyEOL_def)
  have "to_crlf (ToLF src) = src \<longleftrightarrow> count_crlf src = count_list src (CHR 0x0A)"
  proof
    assume eq: "to_crlf (ToLF src) = src"
    have "count_crlf (to_crlf (ToLF src)) = count_list (to_crlf (ToLF src)) (CHR 0x0A)"
      by (simp only: count_crlf_to_crlf count_nl_to_crlf)
    then show "count_crlf src = count_list src (CHR 0x0A)" by (simp only: eq)
  qed (rule to_crlf_ToLF)
  then show ?thesis using ap gt by simp
qed

section \<open>Facts about insertion\<close>

text \<open>The index at which a slot puts the new entry.\<close>

fun slot_index :: "slot \<Rightarrow> nat" where
  "slot_index (Above i) = i"
| "slot_index (Below i) = i + 1"
| "slot_index (GroupAbove i) = i"
| "slot_index (GroupBelow i) = i + 1"

definition import_key :: "import_entry \<Rightarrow> ImportGroup \<times> string" where
  "import_key e = (ieGroup e, iePath e)"

definition inserted :: "nat \<Rightarrow> 'a \<Rightarrow> 'a list \<Rightarrow> 'a list" where
  "inserted k x xs = take k xs @ x # drop k xs"

lemma inserted_Suc [simp]: "inserted (Suc k) x (y # ys) = y # inserted k x ys"
  by (simp add: inserted_def)

lemma inserted_0 [simp]: "inserted 0 x xs = x # xs"
  by (simp add: inserted_def)

text \<open>Inserting into a sorted list before the first larger element, with nothing larger before it.\<close>

lemma sorted_inserted:
  assumes "sorted xs" "k \<le> length xs" "\<And>y. y \<in> set (take k xs) \<Longrightarrow> y \<le> x" "\<And>y. y \<in> set (drop k xs) \<Longrightarrow> x \<le> y"
  shows "sorted (inserted k x xs)"
proof -
  have "sorted (take k xs @ drop k xs)" using assms(1) by simp
  then show ?thesis using assms(3,4) unfolding inserted_def sorted_append by auto
qed

lemma slot_in_group_Some: "slot_in_group want path i es = Some s \<Longrightarrow> \<exists>e \<in> set es. ieGroup e = want"
  by (induction es arbitrary: i) (auto split: if_splits)

lemma slot_in_group_None: "slot_in_group want path i es = None \<Longrightarrow> list_all (\<lambda>e. ieGroup e \<noteq> want) es"
proof (induction es arbitrary: i)
  case (Cons e es)
  then show ?case by (cases es) (auto split: if_splits)
qed simp

lemma import_key_le: "import_key e \<le> import_key f \<longleftrightarrow> ieGroup e < ieGroup f \<or> (ieGroup e = ieGroup f \<and> iePath e \<le> iePath f)"
  by (auto simp: import_key_def less_eq_prod_def)

lemma sorted_slot_in_group:
  assumes "sorted (map import_key es)" "slot_in_group want path i es = Some s"
  shows "\<exists>k. slot_index s = i + k \<and> k \<le> length es \<and> sorted (inserted k (want, path) (map import_key es))"
  using assms
proof (induction es arbitrary: i)
  case (Cons e es)
  have tail: "sorted (map import_key es)" and head: "\<And>f. f \<in> set es \<Longrightarrow> import_key e \<le> import_key f"
    using Cons.prems(1) by auto
  show ?case
  proof (cases "ieGroup e = want \<and> path < iePath e")
    case True
    then have "s = Above i" using Cons.prems(2) by simp
    moreover have "(want, path) \<le> import_key e" using True by (auto simp: import_key_def less_eq_prod_def less_imp_le)
    then have "sorted ((want, path) # map import_key (e # es))" using Cons.prems(1) by (auto intro: order.trans)
    ultimately show ?thesis by (intro exI [of _ 0]) simp
  next
    case noAbove: False
    show ?thesis
    proof (cases "ieGroup e = want \<and> (es = [] \<or> ieGroup (hd es) \<noteq> want)")
      case True
      then have s: "s = Below i" using Cons.prems(2) noAbove by (auto split: if_splits)
      have ex: "import_key e \<le> (want, path)" using True noAbove by (auto simp: import_key_def less_eq_prod_def)
      have "(want, path) \<le> import_key f" if f: "f \<in> set es" for f
      proof -
        from f obtain h t where es: "es = h # t" by (cases es) auto
        have "import_key e \<le> import_key h" using head es by simp
        then have "want < ieGroup h" using True es by (auto simp: import_key_le)
        moreover have "import_key h \<le> import_key f" using tail f es by auto
        ultimately show ?thesis by (auto simp: import_key_le) (auto simp: import_key_def less_eq_prod_def)
      qed
      then have "sorted (inserted 1 (want, path) (map import_key (e # es)))" using ex tail head by auto
      then show ?thesis using s by (intro exI [of _ 1]) simp
    next
      case deeper: False
      then have rec: "slot_in_group want path (i + 1) es = Some s"
        using Cons.prems(2) noAbove by (auto split: if_splits)
      from Cons.IH [OF tail rec] obtain k where k: "slot_index s = i + 1 + k" "k \<le> length es"
        "sorted (inserted k (want, path) (map import_key es))" by auto
      have ex: "import_key e \<le> (want, path)"
      proof (cases "ieGroup e = want")
        case True
        then show ?thesis using noAbove by (auto simp: import_key_def less_eq_prod_def)
      next
        case False
        obtain f where "f \<in> set es" "ieGroup f = want" using slot_in_group_Some [OF rec] by blast
        with head [of f] False have "ieGroup e < want" by (auto simp: import_key_le)
        then show ?thesis by (simp add: import_key_def less_eq_prod_def)
      qed
      have "set (inserted k (want, path) (map import_key es)) \<subseteq> insert (want, path) (import_key ` set es)"
        unfolding inserted_def by (auto dest: in_set_takeD in_set_dropD)
      then have "sorted (inserted (Suc k) (want, path) (map import_key (e # es)))"
        using k(3) ex head by auto
      then show ?thesis using k by (intro exI [of _ "Suc k"]) simp
    qed
  qed
qed simp

lemma sorted_slot_later_group:
  assumes "sorted (map import_key es)" "list_all (\<lambda>e. ieGroup e \<noteq> want) es" "slot_later_group want i es = Some s"
  shows "\<exists>k. slot_index s = i + k \<and> k \<le> length es \<and> sorted (inserted k (want, path) (map import_key es))"
  using assms
proof (induction es arbitrary: i)
  case (Cons e es)
  show ?case
  proof (cases "want < ieGroup e")
    case True
    then have "s = GroupAbove i" using Cons.prems(3) by simp
    moreover have "(want, path) \<le> import_key e" using True by (simp add: import_key_def less_eq_prod_def)
    then have "sorted ((want, path) # map import_key (e # es))" using Cons.prems(1) by (auto intro: order.trans)
    ultimately show ?thesis by (intro exI [of _ 0]) simp
  next
    case False
    then have rec: "slot_later_group want (i + 1) es = Some s" using Cons.prems(3) by simp
    have tail: "sorted (map import_key es)" "list_all (\<lambda>e. ieGroup e \<noteq> want) es" using Cons.prems by auto
    from Cons.IH [OF tail rec] obtain k where k: "slot_index s = i + 1 + k" "k \<le> length es"
      "sorted (inserted k (want, path) (map import_key es))" by auto
    have ex: "import_key e \<le> (want, path)" using False Cons.prems(2) by (auto simp: import_key_def less_eq_prod_def)
    have "set (inserted k (want, path) (map import_key es)) \<subseteq> insert (want, path) (import_key ` set es)"
      unfolding inserted_def by (auto dest: in_set_takeD in_set_dropD)
    then have "sorted (inserted (Suc k) (want, path) (map import_key (e # es)))"
      using k(3) ex Cons.prems(1) by auto
    then show ?thesis using k by (intro exI [of _ "Suc k"]) simp
  qed
qed simp

lemma slot_later_group_None: "slot_later_group want i es = None \<Longrightarrow> list_all (\<lambda>e. ieGroup e \<le> want) es"
  by (induction es arbitrary: i) (auto split: if_splits)

text \<open>
  An import block in order stays in order: when the imports of a block are sorted by group
  (standard library, own module, external) and path, the place that insertPoint picks for a new
  import keeps them sorted.
\<close>

theorem import_slot_keeps_order:
  assumes "sorted (map import_key es)" "es \<noteq> []"
  shows "slot_index (import_slot want path es) \<le> length es
    \<and> sorted (inserted (slot_index (import_slot want path es)) (want, path) (map import_key es))"
proof (cases "slot_in_group want path 0 es")
  case (Some s)
  then show ?thesis using sorted_slot_in_group [OF assms(1) Some] by (auto simp: import_slot_def)
next
  case None
  note no = slot_in_group_None [OF None]
  show ?thesis
  proof (cases "slot_later_group want 0 es")
    case (Some s)
    then show ?thesis using None sorted_slot_later_group [OF assms(1) no Some] by (auto simp: import_slot_def)
  next
    case last: None
    have "import_key e \<le> (want, path)" if "e \<in> set es" for e
    proof -
      have "ieGroup e \<le> want" "ieGroup e \<noteq> want"
        using slot_later_group_None [OF last] no that by (auto simp: list_all_iff)
      then have "ieGroup e < want" by (rule order.not_eq_order_implies_strict [rotated])
      then show ?thesis by (simp add: import_key_def less_eq_prod_def)
    qed
    then have "sorted (inserted (length es) (want, path) (map import_key es))"
      using assms(1) by (auto simp: inserted_def sorted_append)
    then show ?thesis using None last assms(2) by (simp add: import_slot_def)
  qed
qed

definition demo_entries :: "import_entry list" where
  "demo_entries =
     [\<lparr>ieGroup = GroupStd, iePath = ''context'', ieStart = 10, ieEnd = 20\<rparr>,
      \<lparr>ieGroup = GroupModule, iePath = ''pisapi/handler'', ieStart = 21, ieEnd = 40\<rparr>,
      \<lparr>ieGroup = GroupExternal, iePath = ''go.uber.org/fx'', ieStart = 41, ieEnd = 60\<rparr>]"

theorem import_slot_keeps_order_witness:
  "import_slot GroupModule ''pisapi/repo/postgres'' demo_entries = Below 1
   \<and> sorted (inserted 2 (GroupModule, ''pisapi/repo/postgres'') (map import_key demo_entries))"
proof -
  have "sorted (map import_key demo_entries)" "demo_entries \<noteq> []"
    by (simp_all add: demo_entries_def import_key_def less_eq_prod_def less_ImportGroup_def)
  moreover have slot: "import_slot GroupModule ''pisapi/repo/postgres'' demo_entries = Below 1" by code_simp
  ultimately show ?thesis
    using import_slot_keeps_order [of demo_entries GroupModule "''pisapi/repo/postgres''"] by (simp add: numeral_2_eq_2)
qed

section \<open>What the patches change\<close>

lemma splice_insert: "lo \<le> length body \<Longrightarrow> \<exists>a b. body = a @ b \<and> splice body lo lo txt = a @ txt @ b"
  by (metis append_take_drop_id splice_def)

text \<open>
  EnsureImport only adds. It reports no change exactly when the path is imported already, and
  then returns the source untouched; when the imports are a block, or there are none, the result is
  the source with one text inserted, in the source's line ending.
\<close>

theorem ensure_import_adds_only:
  "(case EnsureImport parse fmt src alias path modulePath of
      Inl _ \<Rightarrow> True
    | Inr (out, changed) \<Rightarrow>
        (case parse (ToLF src) of Inl _ \<Rightarrow> False | Inr root \<Rightarrow>
          (changed \<longleftrightarrow> \<not> list_ex (\<lambda>im. import_path im = path) (ast_imports root))
          \<and> (if \<not> changed then out = src
             else if findImportDecl root \<noteq> None \<and> decl_lparen (the (findImportDecl root)) = None then True
             else (\<exists>a b t. ToLF src = a @ b \<and> out = ApplyEOL (a @ t @ b) (DetectEOL src)
                     \<and> sublist (importSpecText alias path) t))))"
proof (cases "parse (ToLF src)")
  case (Inl e)
  then show ?thesis by (simp add: EnsureImport_def Let_def)
next
  case parsed: (Inr root)
  let ?line = "CHR 0x09 # importSpecText alias path"
  have sub: "sublist (importSpecText alias path) (x @ ?line @ y)" for x y
    unfolding sublist_def by (metis append.assoc append_Cons append_Nil)
  have ins: "\<exists>a b. body = a @ b \<and> splice body lo lo ins_t = a @ ins_t @ b" for body ins_t :: string and lo :: nat
    by (metis append_take_drop_id splice_def)
  show ?thesis
  proof (cases "list_ex (\<lambda>im. import_path im = path) (ast_imports root)")
    case True
    then show ?thesis using parsed by (simp add: EnsureImport_def Let_def)
  next
    case absent: False
    show ?thesis
    proof (cases "findImportDecl root")
      case None
      let ?block = "[CHR 0x0A, CHR 0x0A] @ ''import ('' @ [CHR 0x0A] @ ?line @ [CHR 0x0A] @ '')''"
      let ?off = "shi (node_span (file_name root))"
      have blk: "sublist (importSpecText alias path) ?block"
        using sub [of "[CHR 0x0A, CHR 0x0A] @ ''import ('' @ [CHR 0x0A]" "[CHR 0x0A] @ '')''"] by simp
      have "\<exists>a b t. ToLF src = a @ b
          \<and> ApplyEOL (splice (ToLF src) ?off ?off ?block) (DetectEOL src) = ApplyEOL (a @ t @ b) (DetectEOL src)
          \<and> sublist (importSpecText alias path) t"
        using ins [of "ToLF src" ?off ?block] blk by metis
      then show ?thesis using parsed absent None
        by (simp add: EnsureImport_def Let_def split: option.split del: append.simps append_Cons)
    next
      case (Some decl)
      obtain pos ptxt where pt: "insertPoint (ToLF src) decl ?line path modulePath = (pos, ptxt)" by force
      have "\<exists>x y. ptxt = x @ ?line @ y"
      proof (cases "import_entries (ToLF src) modulePath decl = []")
        case True
        then show ?thesis using pt by (auto simp: insertPoint_def Let_def)
      next
        case False
        then have "ptxt = snd (slot_text (import_entries (ToLF src) modulePath decl) ?line
            (import_slot (ClassifyImport path modulePath) path (import_entries (ToLF src) modulePath decl)))"
          using pt by (simp add: insertPoint_def Let_def)
        then show ?thesis
          by (cases "import_slot (ClassifyImport path modulePath) path (import_entries (ToLF src) modulePath decl)")
            (simp_all, (metis append_Nil append_Cons)+)
      qed
      then have "sublist (importSpecText alias path) ptxt" using sub by auto
      then have "\<exists>a b t. ToLF src = a @ b
          \<and> ApplyEOL (splice (ToLF src) pos pos ptxt) (DetectEOL src) = ApplyEOL (a @ t @ b) (DetectEOL src)
          \<and> sublist (importSpecText alias path) t"
        using ins [of "ToLF src" pos ptxt] by metis
      then show ?thesis using parsed absent Some pt
        by (simp add: EnsureImport_def Let_def split: option.split sum.split)
    qed
  qed
qed

text \<open>
  AppendDecls keeps what was there: the result starts with the source up to its trailing line
  ends, in the source's dominant line ending, and the rest is the formatted declarations.
\<close>

theorem append_decls_keeps_source:
  "(case AppendDecls parse fmt src decls of
      Inl _ \<Rightarrow> True
    | Inr out \<Rightarrow>
        (\<exists>frag. FormatFragment fmt decls = Inr frag
          \<and> out = ApplyEOL (trim_right_by is_nl (ToLF src)) (DetectEOL src)
                  @ ApplyEOL ([CHR 0x0A, CHR 0x0A] @ trim_right_by is_nl frag @ [CHR 0x0A]) (DetectEOL src)))"
  by (simp add: AppendDecls_def Let_def ApplyEOL_append split: sum.split option.split)

end
