(* ===== verification/Fxwire.thy ===== *)
theory Fxwire
  imports Gopatch
begin

text \<open>
  Model of gotools/internal/fxwire: registering constructors in the fx modules of the bootstrap
  file. The parser and the formatter are parameters as in Gopatch; the bootstrap directory is the
  record \<open>bootdir\<close>: its listing (name and whether it is a directory; none if there is no such
  directory) and what reading each of its files gives.
\<close>

section \<open>Registrations\<close>

datatype wire_kind = KindRepo | KindHandler | OtherKind string

fun kind_text :: "wire_kind \<Rightarrow> string" where
  "kind_text KindRepo = ''repo''"
| "kind_text KindHandler = ''handler''"
| "kind_text (OtherKind s) = s"

record Registration =
  regKind :: wire_kind
  regCtor :: string

record wire_result =
  wrPath :: string
  wrContent :: string
  wrAdded :: "string list"
  wrAlready :: "string list"
  wrChanged :: bool

definition repoModuleVar :: string where "repoModuleVar = ''FxRepo''"

definition handlerModuleVar :: string where "handlerModuleVar = ''FxHandler''"

definition handlerInterface :: string where "handlerInterface = ''Handler''"

definition groupTagConst :: string where "groupTagConst = ''ServerControllersGroupTag''"

definition pathHandlerPkgSuffix :: string where "pathHandlerPkgSuffix = ''/handler''"

definition pathRepoPkgSuffix :: string where "pathRepoPkgSuffix = ''/repo/postgres''"

definition serverHandlerPaths :: "string list" where
  "serverHandlerPaths =
     [''gitlab.cept.gov.in/it-2.0-common/n-api-server/handler'',
      ''gitlab.cept.gov.in/it-2.0-common/api-server/handler'']"

definition ctor_char :: "nat \<Rightarrow> char \<Rightarrow> bool" where
  "ctor_char i c \<longleftrightarrow> is_lower c \<or> is_upper c \<or> c = CHR ''_'' \<or> is_digit c \<and> 0 < i"

definition validCtor :: "string \<Rightarrow> bool" where
  "validCtor name \<longleftrightarrow>
     name \<noteq> [] \<and> has_prefix name ''New'' \<and> list_all (\<lambda>(i, c). ctor_char i c) (enumerate 0 name)"

text \<open>The two checks Plan makes on every registration before it reads anything.\<close>

definition reg_error :: "Registration \<Rightarrow> string option" where
  "reg_error r =
     (case regKind r of
        OtherKind k \<Rightarrow>
          Some (''unknown kind '' @ go_quote k @ '': use '' @ go_quote (kind_text KindRepo) @ '' or ''
            @ go_quote (kind_text KindHandler))
      | _ \<Rightarrow>
          if \<not> validCtor (regCtor r)
          then Some (''constructor '' @ go_quote (regCtor r) @ '' is not a valid New* identifier'')
          else None)"

fun first_error :: "Registration list \<Rightarrow> string option" where
  "first_error [] = None"
| "first_error (r # rs) = (case reg_error r of Some e \<Rightarrow> Some e | None \<Rightarrow> first_error rs)"

section \<open>The bootstrap file\<close>

record bootdir =
  bdEntries :: "(string \<times> bool) list option"
  bdRead :: "string \<Rightarrow> string + string"

definition bootstrapper :: string where "bootstrapper = ''bootstrapper.go''"

definition bootstrap_candidates :: "(string \<times> bool) list \<Rightarrow> string list" where
  "bootstrap_candidates es =
     sort_strings (map fst
       (filter (\<lambda>(n, d). \<not> d \<and> has_suffix n ''.go'' \<and> \<not> has_suffix n ''_test.go'') es))"

definition declares_module :: "string \<Rightarrow> bool" where
  "declares_module b \<longleftrightarrow> str_contains b repoModuleVar \<or> str_contains b handlerModuleVar"

definition findBootstrapFile :: "string \<Rightarrow> bootdir \<Rightarrow> string + string" where
  "findBootstrapFile root bd =
     (case bdEntries bd of
        None \<Rightarrow>
          Inl (''no bootstrap/ directory under '' @ root @ ''; fx_wire needs bootstrap/bootstrapper.go to edit'')
      | Some es \<Rightarrow>
          if bootstrapper \<in> set (map fst es) then Inr bootstrapper
          else (case List.find (\<lambda>n. case bdRead bd n of Inl _ \<Rightarrow> False | Inr b \<Rightarrow> declares_module b)
                       (bootstrap_candidates es) of
                  Some n \<Rightarrow> Inr n
                | None \<Rightarrow>
                    Inl (''no file under bootstrap/ declares '' @ repoModuleVar @ '' or '' @ handlerModuleVar
                      @ ''; fx_wire has nothing to edit'')))"

section \<open>Finding the provide list\<close>

text \<open>callName of this package: a bare name or a name with one qualifier.\<close>

definition wire_callName :: "node \<Rightarrow> string" where
  "wire_callName c =
     (case c of
        CallExpr _ (Ident _ n) _ _ _ \<Rightarrow> n
      | CallExpr _ (SelectorExpr _ (Ident _ x) s) _ _ _ \<Rightarrow> x @ ''.'' @ s
      | _ \<Rightarrow> [])"

definition is_call_node :: "node \<Rightarrow> bool" where
  "is_call_node n = (case n of CallExpr _ _ _ _ _ \<Rightarrow> True | _ \<Rightarrow> False)"

fun var_specs :: "node \<Rightarrow> node list" where
  "var_specs (GenDecl _ VAR ss _ _) = ss"
| "var_specs _ = []"

fun spec_values :: "node \<Rightarrow> (string \<times> node) list" where
  "spec_values (ValueSpec _ ns _ vs) = zip ns vs"
| "spec_values _ = []"

text \<open>The last variable of the name that is initialised with a call; later ones overwrite.\<close>

definition module_call :: "node \<Rightarrow> string \<Rightarrow> node option" where
  "module_call f moduleVar =
     fold (\<lambda>(n, v) m. if n = moduleVar \<and> is_call_node v then Some v else m)
       (concat (map spec_values (concat (map var_specs (file_decls f))))) None"

definition is_provide :: "node \<Rightarrow> bool" where
  "is_provide n \<longleftrightarrow> is_call_node n \<and> wire_callName n = ''fx.Provide''"

definition wire_findProvide :: "node \<Rightarrow> string \<Rightarrow> string + node" where
  "wire_findProvide f moduleVar =
     (case module_call f moduleVar of
        None \<Rightarrow>
          Inl (''no `var '' @ moduleVar @ '' = fx.Module(...)` declaration found; add one before wiring into it'')
      | Some call \<Rightarrow>
          (case inspect (find_visitor is_provide) call None of
             None \<Rightarrow> Inl (moduleVar @ '' contains no fx.Provide(...) to add to'')
           | Some p \<Rightarrow> Inr p))"

definition names_ctor :: "string \<Rightarrow> node \<Rightarrow> bool" where
  "names_ctor ctor n =
     (case n of SelectorExpr _ _ s \<Rightarrow> s = ctor | Ident _ s \<Rightarrow> s = ctor | _ \<Rightarrow> False)"

definition registered_visitor :: "string \<Rightarrow> node \<Rightarrow> bool \<Rightarrow> bool \<times> bool" where
  "registered_visitor ctor n found =
     (if found then (found, False) else (names_ctor ctor n, True))"

definition registered :: "node \<Rightarrow> string \<Rightarrow> bool" where
  "registered provide ctor = inspect (registered_visitor ctor) provide False"

section \<open>What is inserted\<close>

definition qualify :: "string \<Rightarrow> string \<Rightarrow> string" where
  "qualify alias name = (if alias = [] then name else alias @ ''.'' @ name)"

definition handlerEntry :: "string \<Rightarrow> string \<Rightarrow> string \<Rightarrow> string" where
  "handlerEntry pkgAlias serverAlias ctor =
     ''fx.Annotate('' @ [CHR 0x0A]
     @ [CHR 0x09] @ qualify pkgAlias ctor @ '','' @ [CHR 0x0A]
     @ [CHR 0x09] @ ''fx.As(new('' @ qualify serverAlias handlerInterface @ '')),'' @ [CHR 0x0A]
     @ [CHR 0x09] @ ''fx.ResultTags('' @ qualify serverAlias groupTagConst @ ''),'' @ [CHR 0x0A]
     @ '')''"

definition indentBlock :: "string \<Rightarrow> string \<Rightarrow> string" where
  "indentBlock entry indent = str_join [CHR 0x0A] (map (\<lambda>l. indent @ l) (split_char (CHR 0x0A) entry))"

definition import_ident :: "node \<Rightarrow> string option" where
  "import_ident im = (case im of ImportSpec _ a _ \<Rightarrow> a | _ \<Rightarrow> None)"

definition packageAlias :: "node \<Rightarrow> string \<Rightarrow> wire_kind \<Rightarrow> string" where
  "packageAlias f modulePath kind =
     (let (suf, fallback) =
            (if kind = KindRepo then (pathRepoPkgSuffix, ''repo'') else (pathHandlerPkgSuffix, ''handler''));
          want = modulePath @ suf
      in case List.find (\<lambda>im. import_path im = want \<or> modulePath = [] \<and> has_suffix (import_path im) suf)
                (ast_imports f) of
           Some im \<Rightarrow> (case import_ident im of Some a \<Rightarrow> a | None \<Rightarrow> fallback)
         | None \<Rightarrow> fallback)"

definition serverHandlerAlias :: "node \<Rightarrow> string" where
  "serverHandlerAlias f =
     (case List.find (\<lambda>im. import_path im \<in> set serverHandlerPaths) (ast_imports f) of
        Some im \<Rightarrow> (case import_ident im of Some a \<Rightarrow> a | None \<Rightarrow> ''handler'')
      | None \<Rightarrow> ''serverHandler'')"

definition import_needs :: "string \<Rightarrow> wire_kind \<Rightarrow> (string \<times> string) list" where
  "import_needs modulePath kind =
     (if modulePath = [] then []
      else if kind = KindHandler then
        [(''handler'', modulePath @ pathHandlerPkgSuffix), ([], ''go.uber.org/fx''),
         (''serverHandler'', hd serverHandlerPaths)]
      else [(''repo'', modulePath @ pathRepoPkgSuffix), ([], ''go.uber.org/fx'')])"

fun ensure_needs ::
  "parser \<Rightarrow> formatter \<Rightarrow> string \<Rightarrow> (string \<times> string) list \<Rightarrow> string \<Rightarrow> string + string" where
  "ensure_needs parse fmt modulePath [] out = Inr out"
| "ensure_needs parse fmt modulePath ((alias, path) # ns) out =
     (case EnsureImport parse fmt out alias path modulePath of
        Inl e \<Rightarrow> Inl e
      | Inr (patched, _) \<Rightarrow> ensure_needs parse fmt modulePath ns patched)"

definition ensureImports :: "parser \<Rightarrow> formatter \<Rightarrow> string \<Rightarrow> string \<Rightarrow> wire_kind \<Rightarrow> string + string" where
  "ensureImports parse fmt body modulePath kind =
     ensure_needs parse fmt modulePath (import_needs modulePath kind) body"

section \<open>Inserting an argument\<close>

definition indentOf :: "string \<Rightarrow> nat \<Rightarrow> string" where
  "indentOf body off = takeWhile (\<lambda>c. c = CHR 0x09 \<or> c = CHR '' '') (drop (lineStart body off) body)"

fun call_args :: "node \<Rightarrow> node list" where
  "call_args (CallExpr _ _ as _ _) = as"
| "call_args _ = []"

fun call_lparen :: "node \<Rightarrow> span" where
  "call_lparen (CallExpr _ _ _ l _) = l"
| "call_lparen _ = no_span"

fun call_rparen :: "node \<Rightarrow> span" where
  "call_rparen (CallExpr _ _ _ _ r) = r"
| "call_rparen _ = no_span"

definition multi_line :: "node \<Rightarrow> bool" where
  "multi_line call \<longleftrightarrow>
     call_args call \<noteq> [] \<and> sline (call_lparen call) < sendline (node_span (last (call_args call)))"

text \<open>Where the multi-line form puts its new line.\<close>

definition arg_line_at :: "string \<Rightarrow> node \<Rightarrow> nat" where
  "arg_line_at body call = lineEnd body (shi (node_span (last (call_args call))))"

definition insertArg :: "parser \<Rightarrow> formatter \<Rightarrow> string \<Rightarrow> node \<Rightarrow> string \<Rightarrow> string + string" where
  "insertArg parse fmt body call entry =
     (let callIndent = indentOf body (slo (node_span call));
          argIndent = callIndent @ [CHR 0x09];
          out = (if multi_line call then
                   (let at = arg_line_at body call
                    in Inr (splice body at at (indentBlock entry argIndent @ '','' @ [CHR 0x0A])))
                 else
                   (let at = slo (call_rparen call);
                        lead = (if call_args call \<noteq> [] then '','' @ [CHR 0x0A] else [CHR 0x0A])
                    in Format fmt (splice body at at
                         (lead @ indentBlock entry argIndent @ '','' @ [CHR 0x0A] @ callIndent))))
      in case out of
           Inl e \<Rightarrow> Inl e
         | Inr o' \<Rightarrow>
             (case parse o' of
                Inl e \<Rightarrow> Inl (''patched bootstrap file does not parse: '' @ e)
              | Inr _ \<Rightarrow> Inr o'))"

section \<open>One registration, and a plan of them\<close>

definition module_var :: "wire_kind \<Rightarrow> string" where
  "module_var kind = (if kind = KindHandler then handlerModuleVar else repoModuleVar)"

definition wire_entry :: "node \<Rightarrow> string \<Rightarrow> Registration \<Rightarrow> string" where
  "wire_entry f modulePath reg =
     (let pkgAlias = packageAlias f modulePath (regKind reg) in
      if regKind reg = KindHandler then handlerEntry pkgAlias (serverHandlerAlias f) (regCtor reg)
      else qualify pkgAlias (regCtor reg))"

definition wireOne ::
  "parser \<Rightarrow> formatter \<Rightarrow> string \<Rightarrow> string \<Rightarrow> Registration \<Rightarrow> string + string \<times> bool" where
  "wireOne parse fmt src modulePath reg =
     (let eol = DetectEOL src; body = ToLF src; mvar = module_var (regKind reg) in
      case parse body of
        Inl e \<Rightarrow> Inl (''parse: '' @ e)
      | Inr f \<Rightarrow>
          (case wire_findProvide f mvar of
             Inl e \<Rightarrow> Inl e
           | Inr provide \<Rightarrow>
               if registered provide (regCtor reg) then Inr (src, False)
               else
                 (case ensureImports parse fmt body modulePath (regKind reg) of
                    Inl e \<Rightarrow> Inl e
                  | Inr patched \<Rightarrow>
                      (case (if patched = body then Inr (f, provide)
                             else (case parse patched of
                                     Inl e \<Rightarrow> Inl (''parse after import insertion: '' @ e)
                                   | Inr f' \<Rightarrow>
                                       (case wire_findProvide f' mvar of
                                          Inl e \<Rightarrow> Inl e
                                        | Inr provide' \<Rightarrow> Inr (f', provide')))) of
                         Inl e \<Rightarrow> Inl e
                       | Inr (f', provide') \<Rightarrow>
                           (case insertArg parse fmt patched provide' (wire_entry f' modulePath reg) of
                              Inl e \<Rightarrow> Inl e
                            | Inr out \<Rightarrow> Inr (ApplyEOL out eol, True))))))"

text \<open>Plan's loop: the source so far, what was added and what was there.\<close>

fun wire_all ::
  "parser \<Rightarrow> formatter \<Rightarrow> string \<Rightarrow> Registration list \<Rightarrow> string \<times> string list \<times> string list
    \<Rightarrow> string + string \<times> string list \<times> string list" where
  "wire_all parse fmt modulePath [] st = Inr st"
| "wire_all parse fmt modulePath (reg # regs) (src, added, already) =
     (case wireOne parse fmt src modulePath reg of
        Inl e \<Rightarrow> Inl e
      | Inr (patched, new) \<Rightarrow>
          if new then wire_all parse fmt modulePath regs (patched, added @ [regCtor reg], already)
          else wire_all parse fmt modulePath regs (src, added, already @ [regCtor reg]))"

definition Plan ::
  "parser \<Rightarrow> formatter \<Rightarrow> string \<Rightarrow> bootdir \<Rightarrow> string \<Rightarrow> Registration list \<Rightarrow> string + wire_result" where
  "Plan parse fmt root bd modulePath regs =
     (case first_error regs of
        Some e \<Rightarrow> Inl e
      | None \<Rightarrow>
          (case findBootstrapFile root bd of
             Inl e \<Rightarrow> Inl e
           | Inr name \<Rightarrow>
               (let rel = ''bootstrap/'' @ name in
                case bdRead bd name of
                  Inl e \<Rightarrow> Inl (''read '' @ rel @ '': '' @ e)
                | Inr original \<Rightarrow>
                    (case wire_all parse fmt modulePath regs (original, [], []) of
                       Inl e \<Rightarrow> Inl (rel @ '': '' @ e)
                     | Inr (src, added, already) \<Rightarrow>
                         (let changed = (src \<noteq> original) in
                          Inr \<lparr>wrPath = rel, wrContent = (if changed then src else []), wrAdded = added,
                               wrAlready = already, wrChanged = changed\<rparr>)))))"

text \<open>Apply: the outcome and the writes it makes; \<open>write\<close> is what os.WriteFile returns.\<close>

definition Apply_wire ::
  "parser \<Rightarrow> formatter \<Rightarrow> (string \<Rightarrow> string \<Rightarrow> string option) \<Rightarrow> string \<Rightarrow> bootdir \<Rightarrow> string
    \<Rightarrow> Registration list \<Rightarrow> (string + wire_result) \<times> (string \<times> string) list" where
  "Apply_wire parse fmt write root bd modulePath regs =
     (case Plan parse fmt root bd modulePath regs of
        Inl e \<Rightarrow> (Inl e, [])
      | Inr res \<Rightarrow>
          if \<not> wrChanged res then (Inr res, [])
          else (case write (wrPath res) (wrContent res) of
                  Some e \<Rightarrow> (Inl (''write '' @ wrPath res @ '': '' @ e), [])
                | None \<Rightarrow> (Inr res, [(wrPath res, wrContent res)])))"

section \<open>Facts\<close>

lemma inspect_registered:
  "inspect (registered_visitor ctor) n b \<longleftrightarrow> b \<or> list_ex (names_ctor ctor) (subnodes n)"
proof (induction n arbitrary: b rule: subnodes.induct)
  case (1 n)
  have "fold (inspect (registered_visitor ctor)) cs b \<longleftrightarrow> b \<or> list_ex (names_ctor ctor) (concat (map subnodes cs))"
    if "set cs \<subseteq> set (children n)" for cs b
    using that by (induction cs arbitrary: b) (auto simp: "1.IH")
  then show ?case
    by (subst inspect.simps, subst subnodes.simps) (simp add: registered_visitor_def)
qed

lemma registered_iff: "registered provide ctor \<longleftrightarrow> list_ex (names_ctor ctor) (subnodes provide)"
  by (simp add: registered_def inspect_registered)

lemma insertArg_parses: "insertArg parse fmt body call entry = Inr out \<Longrightarrow> \<exists>t. parse out = Inr t"
  unfolding insertArg_def Let_def by (auto split: sum.splits if_splits)

lemma wireOne_added:
  assumes "wireOne parse fmt src modulePath reg = Inr (out, True)"
  shows "\<exists>t o'. out = ApplyEOL o' (DetectEOL src) \<and> parse o' = Inr t"
  using assms unfolding wireOne_def Let_def
  by (auto split: sum.splits if_splits prod.splits dest!: insertArg_parses)

lemma wireOne_same: "wireOne parse fmt src modulePath reg = Inr (out, False) \<Longrightarrow> out = src"
  unfolding wireOne_def Let_def by (auto split: sum.splits if_splits prod.splits)

definition wired :: "parser \<Rightarrow> string \<Rightarrow> string \<Rightarrow> bool" where
  "wired parse original src \<longleftrightarrow> src = original \<or> (\<exists>o' eol t. src = ApplyEOL o' eol \<and> parse o' = Inr t)"

lemma wire_all_invariant:
  assumes "wire_all parse fmt modulePath regs (src, added, already) = Inr (out, added', already')"
    and "wired parse original src"
  shows "wired parse original out
    \<and> mset added' + mset already' = mset added + mset already + mset (map regCtor regs)
    \<and> (added' = added \<longrightarrow> out = src) \<and> prefix added added'"
  using assms
proof (induction regs arbitrary: src added already)
  case (Cons reg regs)
  then obtain patched new where one: "wireOne parse fmt src modulePath reg = Inr (patched, new)"
    by (auto split: sum.splits)
  show ?case
  proof (cases new)
    case True
    then have "wired parse original patched"
      using wireOne_added [of parse fmt src modulePath reg patched] one by (auto simp: wired_def)
    then show ?thesis
      using Cons.IH [of patched "added @ [regCtor reg]" already] Cons.prems(1) one True
      by (auto simp: prefix_def)
  next
    case False
    then show ?thesis using Cons.IH [of src added "already @ [regCtor reg]"] Cons.prems one by auto
  qed
qed simp

lemma first_error_None: "first_error regs = None \<longleftrightarrow> list_all (\<lambda>r. reg_error r = None) regs"
  by (induction regs) (auto split: option.splits)

lemma reg_error_None: "reg_error r = None \<Longrightarrow> validCtor (regCtor r)"
  by (auto simp: reg_error_def split: wire_kind.splits if_splits)

definition ident_text :: "string \<Rightarrow> bool" where
  "ident_text s \<longleftrightarrow> has_prefix s ''New'' \<and> list_all (\<lambda>c. is_letter c \<or> is_digit c \<or> c = CHR ''_'') s"

lemma validCtor_ident: "validCtor s \<Longrightarrow> ident_text s"
  by (fastforce simp: validCtor_def ident_text_def ctor_char_def list_all_length is_letter_def nth_enumerate_eq)

text \<open>
  Plan accounts for every registration: what it added and what was there already are together
  the constructors asked for, each as often as it was asked for; every one of them is a plain
  identifier starting with New, so that no other text reaches the file; and if nothing was added the file
  is unchanged and no content is returned.
\<close>

theorem plan_accounts_for_all:
  "(case Plan parse fmt root bd modulePath regs of
      Inl _ \<Rightarrow> True
    | Inr res \<Rightarrow>
        mset (wrAdded res) + mset (wrAlready res) = mset (map regCtor regs)
        \<and> list_all ident_text (wrAdded res @ wrAlready res)
        \<and> (if wrAdded res = [] then \<not> wrChanged res \<and> wrContent res = [] else True))"
proof (cases "Plan parse fmt root bd modulePath regs")
  case (Inr res)
  then obtain name original src added already where
    ok: "first_error regs = None" and
    all: "wire_all parse fmt modulePath regs (original, [], []) = Inr (src, added, already)" and
    res: "wrAdded res = added" "wrAlready res = already" "wrChanged res \<longleftrightarrow> src \<noteq> original"
      "wrContent res = (if src \<noteq> original then src else [])"
    unfolding Plan_def Let_def by (auto split: option.splits sum.splits prod.splits)
  have inv: "mset added + mset already = mset (map regCtor regs)" "added = [] \<longrightarrow> src = original"
    using wire_all_invariant [OF all, of original] by (simp_all add: wired_def)
  have "set (added @ already) = regCtor ` set regs"
    using arg_cong [OF inv(1), of set_mset] by simp
  moreover have "\<forall>r \<in> set regs. ident_text (regCtor r)"
    using ok by (auto simp: first_error_None list_all_iff intro: validCtor_ident reg_error_None)
  ultimately have "list_all ident_text (added @ already)"
    unfolding list_all_iff by auto
  then show ?thesis using Inr res inv by simp
qed simp

text \<open>
  Apply writes at most one file, under bootstrap/, and only text that is a source the parser
  accepts in some line ending; whenever it reports an error it has written nothing.
\<close>

theorem apply_writes_parsed:
  "(case Apply_wire parse fmt write root bd modulePath regs of
      (outcome, writes) \<Rightarrow>
        length writes \<le> 1
        \<and> list_all (\<lambda>(p, content). has_prefix p ''bootstrap/''
             \<and> (\<exists>body eol tree. content = ApplyEOL body eol \<and> parse body = Inr tree)) writes
        \<and> (case outcome of Inl _ \<Rightarrow> writes = []
           | Inr res \<Rightarrow> writes = (if wrChanged res then [(wrPath res, wrContent res)] else [])))"
proof (cases "Plan parse fmt root bd modulePath regs")
  case (Inr res)
  then obtain name original src added already where
    all: "wire_all parse fmt modulePath regs (original, [], []) = Inr (src, added, already)" and
    res: "wrPath res = ''bootstrap/'' @ name" "wrChanged res \<longleftrightarrow> src \<noteq> original"
      "wrContent res = (if src \<noteq> original then src else [])"
    unfolding Plan_def Let_def by (auto split: option.splits sum.splits prod.splits)
  have "wired parse original src"
    using wire_all_invariant [OF all, of original] by (simp add: wired_def)
  then have "wrChanged res \<Longrightarrow> \<exists>body eol tree. wrContent res = ApplyEOL body eol \<and> parse body = Inr tree"
    using res by (auto simp: wired_def)
  then show ?thesis using Inr res by (auto simp: Apply_wire_def split: option.splits)
qed (simp add: Apply_wire_def)

text \<open>
  A registration is skipped as already present exactly when the constructor's name occurs
  anywhere in the provide call of the module, under any package and in any form. So a handler that is
  provided without the annotation counts as registered and is left as it is.
\<close>

theorem wire_skips_exactly_named:
  "wireOne parse fmt src modulePath reg = Inr (src, False) \<longleftrightarrow>
     (case parse (ToLF src) of
        Inl _ \<Rightarrow> False
      | Inr f \<Rightarrow>
          (case wire_findProvide f (module_var (regKind reg)) of
             Inl _ \<Rightarrow> False
           | Inr provide \<Rightarrow> list_ex (names_ctor (regCtor reg)) (subnodes provide)))"
  unfolding wireOne_def Let_def registered_iff
  by (auto split: sum.splits prod.splits if_splits)

lemma lineEnd_le_iff:
  assumes "lo \<le> hi" "hi < length body"
  shows "lineEnd body lo \<le> hi \<longleftrightarrow> CHR 0x0A \<in> set (drop lo (take hi body))"
proof (cases "index_char (drop lo body) (CHR 0x0A)")
  case None
  then have "CHR 0x0A \<notin> set (drop lo body)" by simp
  then have "CHR 0x0A \<notin> set (drop lo (take hi body))"
    by (metis drop_take in_set_takeD)
  then show ?thesis using assms None unfolding lineEnd_def by (simp only: option.case) simp
next
  case (Some i)
  note i = index_char_Some [OF this]
  have "CHR 0x0A \<in> set (drop lo (take hi body)) \<longleftrightarrow> lo + i + 1 \<le> hi"
  proof
    assume "CHR 0x0A \<in> set (drop lo (take hi body))"
    then have "CHR 0x0A \<in> set (take (hi - lo) (drop lo body))" by (simp add: drop_take)
    then obtain j where j: "j < hi - lo" "j < length (drop lo body)" "drop lo body ! j = CHR 0x0A"
      by (auto simp: in_set_conv_nth)
    have "\<not> j < i"
    proof
      assume "j < i"
      then have "drop lo body ! j \<in> set (take i (drop lo body))"
        using j by (auto simp: in_set_conv_nth intro!: exI [of _ j])
      then show False using i j by simp
    qed
    then show "lo + i + 1 \<le> hi" using j by linarith
  next
    assume "lo + i + 1 \<le> hi"
    then have "i < length (take (hi - lo) (drop lo body))" "take (hi - lo) (drop lo body) ! i = CHR 0x0A"
      using i assms by auto
    then show "CHR 0x0A \<in> set (drop lo (take hi body))" by (metis drop_take nth_mem)
  qed
  moreover have "lo + i < length body" using i by (simp add: less_diff_conv add.commute)
  ultimately show ?thesis using Some assms by (auto simp: lineEnd_def)
qed

text \<open>
  The new line of the multi-line form lands inside the provide call exactly when a line ends
  between the last argument and the closing parenthesis. When the parenthesis follows the last
  argument on its line, the constructor is inserted after the call instead of into it.
\<close>

theorem insert_inside_iff_line_break:
  assumes "shi (node_span (last (call_args call))) \<le> slo (call_rparen call)"
    and "slo (call_rparen call) < length body"
  shows "arg_line_at body call \<le> slo (call_rparen call) \<longleftrightarrow>
    CHR 0x0A \<in> set (drop (shi (node_span (last (call_args call)))) (take (slo (call_rparen call)) body))"
  using assms lineEnd_le_iff [of "shi (node_span (last (call_args call)))" "slo (call_rparen call)" body]
  by (auto simp: arg_line_at_def)

definition tight_body :: string where
  "tight_body = ''fx.Provide(f('' @ [CHR 0x0A] @ ''a))'' @ [CHR 0x0A]"

definition tight_call :: node where
  "tight_call =
     CallExpr (Span 1 1 0 17 2)
       (SelectorExpr (Span 1 1 0 10 1) (Ident (Span 1 1 0 2 1) ''fx'') ''Provide'')
       [CallExpr (Span 1 12 11 16 2) (Ident (Span 1 12 11 12 1) ''f'') [Ident (Span 2 1 14 15 2) ''a'']
          (Span 1 13 12 13 1) (Span 2 2 15 16 2)]
       (Span 1 11 10 11 1) (Span 2 3 16 17 2)"

theorem insert_inside_iff_line_break_witness:
  "multi_line tight_call \<and> \<not> arg_line_at tight_body tight_call \<le> slo (call_rparen tight_call)
   \<and> tight_body ! slo (call_rparen tight_call) = CHR '')''"
proof -
  have "shi (node_span (last (call_args tight_call))) = slo (call_rparen tight_call)"
    "slo (call_rparen tight_call) < length tight_body" "multi_line tight_call"
    "tight_body ! slo (call_rparen tight_call) = CHR '')''"
    by (simp_all add: tight_call_def tight_body_def multi_line_def)
  moreover from this(1) have
    "CHR 0x0A \<notin> set (drop (shi (node_span (last (call_args tight_call))))
       (take (slo (call_rparen tight_call)) tight_body))" by simp
  ultimately show ?thesis using insert_inside_iff_line_break [of tight_call tight_body] by simp
qed

end
