(* ===== verification/Routes.thy ===== *)
theory Routes
  imports AstUtil "HOL-Library.AList" "HOL-Library.While_Combinator"
begin

text \<open>
  Model of gotools/internal/routes: the inventory of the HTTP routes a service declares, in the
  legacy (Gin) shape and in the template's, and the comparison of two inventories. A closure over
  the inventory is a visitor whose state is the inventory; the map of group prefixes is an
  association list.
\<close>

section \<open>Routes and inventories\<close>

definition http_methods :: "string list" where
  "http_methods = [''GET'', ''POST'', ''PUT'', ''DELETE'', ''PATCH'', ''HEAD'']"

record Route =
  rtMethod :: string
  rtPath :: string
  rtHandler :: string
  rtName :: string
  rtStyle :: string
  rtFile :: string
  rtLine :: nat

record Inventory =
  invRoutes :: "Route list"
  invUnresolved :: "string list"
  invFiles :: "string list"

definition key_part :: "string \<Rightarrow> string" where
  "key_part p = (if has_prefix p '':'' then '':p'' else if has_prefix p ''*'' then ''*p'' else p)"

definition route_Key :: "Route \<Rightarrow> string" where
  "route_Key r =
     to_upper (rtMethod r) @ '' ''
     @ to_lower (str_join ''/'' (map key_part (split_char (CHR ''/'') (rtPath r))))"

definition Counts :: "Inventory \<Rightarrow> nat \<times> nat" where
  "Counts iv =
     (length (filter (\<lambda>r. rtStyle r \<noteq> ''template'') (invRoutes iv)),
      length (filter (\<lambda>r. rtStyle r = ''template'') (invRoutes iv)))"

section \<open>Small helpers\<close>

definition isRoutePkg :: "string \<Rightarrow> bool" where
  "isRoutePkg name \<longleftrightarrow> has_suffix (to_lower name) ''route'' \<or> has_suffix (to_lower name) ''routes''"

fun identName :: "node \<Rightarrow> string option" where
  "identName (Ident _ n) = Some n"
| "identName _ = None"

fun route_lit :: "node \<Rightarrow> string option" where
  "route_lit (BasicLit _ k v) = (if k \<noteq> STRING then None else go_unquote v)"
| "route_lit _ = None"

fun exprName :: "node \<Rightarrow> string" where
  "exprName (Ident _ n) = n"
| "exprName (SelectorExpr _ x s) = (case identName x of Some b \<Rightarrow> b @ ''.'' @ s | None \<Rightarrow> s)"
| "exprName _ = []"

fun unstar :: "node \<Rightarrow> node" where
  "unstar (StarExpr _ x) = x"
| "unstar n = n"

definition route_receiver :: "node \<Rightarrow> string option" where
  "route_receiver fd = (case fd_recv fd of [] \<Rightarrow> None | r # _ \<Rightarrow> identName (unstar (field_type r)))"

definition returnedType :: "node \<Rightarrow> string" where
  "returnedType fd =
     (case fd_results fd of
        [] \<Rightarrow> []
      | r # _ \<Rightarrow> (case identName (unstar (field_type r)) of Some n \<Rightarrow> n | None \<Rightarrow> []))"

definition join_path :: "string \<Rightarrow> string \<Rightarrow> string" where
  "join_path pre suf =
     (let a = trim_set ''/'' pre; b = trim_set ''/'' suf in
      if a = [] \<and> b = [] then ''/''
      else if a = [] then ''/'' @ b
      else if b = [] then ''/'' @ a
      else ''/'' @ a @ ''/'' @ b)"

section \<open>The legacy shape\<close>

type_synonym prefixes = "(string \<times> string) list"

definition prefix_of :: "prefixes \<Rightarrow> node \<Rightarrow> string" where
  "prefix_of ps x =
     (case identName x of
        None \<Rightarrow> []
      | Some b \<Rightarrow> (case map_of ps b of Some p \<Rightarrow> p | None \<Rightarrow> []))"

definition recordGroup :: "node \<Rightarrow> prefixes \<Rightarrow> prefixes" where
  "recordGroup as ps =
     (case as of
        AssignStmt _ [l] _ [CallExpr _ (SelectorExpr _ x s) (a # _) _ _] \<Rightarrow>
          (case identName l of
             None \<Rightarrow> ps
           | Some name \<Rightarrow>
               if s \<noteq> ''Group'' then ps
               else (case route_lit a of
                       None \<Rightarrow> ps
                     | Some literal \<Rightarrow> AList.update name (join_path (prefix_of ps x) literal) ps))
      | _ \<Rightarrow> ps)"

definition ginRoute :: "gofile \<Rightarrow> node \<Rightarrow> prefixes \<Rightarrow> Route option" where
  "ginRoute f call ps =
     (case call of
        CallExpr _ (SelectorExpr _ x s) args _ _ \<Rightarrow>
          if s \<notin> set http_methods \<or> length args < 2 then None
          else if (case identName x of Some b \<Rightarrow> isRoutePkg b | None \<Rightarrow> False) then None
          else (case route_lit (hd args) of
                  None \<Rightarrow> None
                | Some literal \<Rightarrow>
                    Some \<lparr>rtMethod = s, rtPath = join_path (prefix_of ps x) literal,
                          rtHandler = exprName (last args), rtName = [], rtStyle = ''gin'',
                          rtFile = fRel f, rtLine = fst (Position call)\<rparr>)
      | _ \<Rightarrow> None)"

definition unresolved_line :: "gofile \<Rightarrow> node \<Rightarrow> string \<Rightarrow> string" where
  "unresolved_line f call s =
     fRel f @ '':'' @ itoa (fst (Position call)) @ '': '' @ s @ '' with a non-literal path''"

definition ginUnresolved :: "gofile \<Rightarrow> node \<Rightarrow> string option" where
  "ginUnresolved f call =
     (case call of
        CallExpr _ (SelectorExpr _ x s) args _ _ \<Rightarrow>
          if s \<notin> set http_methods \<or> length args < 2 then None
          else if route_lit (hd args) \<noteq> None then None
          else Some (unresolved_line f call s)
      | _ \<Rightarrow> None)"

definition add_route :: "Route \<Rightarrow> Inventory \<Rightarrow> Inventory" where
  "add_route r iv = iv\<lparr>invRoutes := invRoutes iv @ [r]\<rparr>"

definition add_unresolved :: "string \<Rightarrow> Inventory \<Rightarrow> Inventory" where
  "add_unresolved u iv = iv\<lparr>invUnresolved := invUnresolved iv @ [u]\<rparr>"

definition gin_node :: "gofile \<Rightarrow> node \<Rightarrow> prefixes \<times> Inventory \<Rightarrow> prefixes \<times> Inventory" where
  "gin_node f n st =
     (case st of
        (ps, iv) \<Rightarrow>
          (case n of
             AssignStmt _ _ _ _ \<Rightarrow> (recordGroup n ps, iv)
           | CallExpr _ _ _ _ _ \<Rightarrow>
               (case ginRoute f n ps of
                  Some r \<Rightarrow> (ps, add_route r iv)
                | None \<Rightarrow>
                    (case ginUnresolved f n of Some u \<Rightarrow> (ps, add_unresolved u iv) | None \<Rightarrow> (ps, iv)))
           | _ \<Rightarrow> (ps, iv)))"

definition gin_func :: "gofile \<Rightarrow> node \<Rightarrow> Inventory \<Rightarrow> Inventory" where
  "gin_func f n iv =
     (case fd_body n of
        None \<Rightarrow> iv
      | Some body \<Rightarrow> snd (inspect (\<lambda>m st. (gin_node f m st, True)) body ([], iv)))"

definition collectGin :: "gofile \<Rightarrow> Inventory \<Rightarrow> Inventory" where
  "collectGin f iv = inspect (\<lambda>n s. (gin_func f n s, True)) (fAST f) iv"

section \<open>The template's shape\<close>

text \<open>The end of prefixChain's loop.\<close>

definition chain_end :: "string list \<Rightarrow> string \<Rightarrow> bool \<Rightarrow> string option" where
  "chain_end segments st saw = (if saw then Some (join_path st (str_join ''/'' segments)) else None)"

definition chain_lit :: "node list \<Rightarrow> string option" where
  "chain_lit args = (case args of [] \<Rightarrow> None | a # _ \<Rightarrow> route_lit a)"

fun chain_loop :: "node \<Rightarrow> string list \<Rightarrow> string \<Rightarrow> bool \<Rightarrow> string option" where
  "chain_loop (CallExpr _ (SelectorExpr _ x s) args _ _) segments st saw =
     (let segments' = (if s = ''AddPrefix'' then opt_list (chain_lit args) @ segments else segments);
          st' = (if s = ''SetPrefix'' then (case chain_lit args of Some l \<Rightarrow> l | None \<Rightarrow> st) else st);
          saw' = (saw \<or> s = ''AddPrefix'' \<or> s = ''SetPrefix'')
      in if is_call x then chain_loop x segments' st' saw' else chain_end segments' st' saw')"
| "chain_loop _ segments st saw = chain_end segments st saw"

definition prefixChain :: "node \<Rightarrow> string option" where
  "prefixChain call = chain_loop call [] [] False"

text \<open>The chain of the last call expression that has one; below it the walk stops.\<close>

definition chain_visitor :: "node \<Rightarrow> string option \<Rightarrow> string option \<times> bool" where
  "chain_visitor n chain =
     (if is_call n then (case prefixChain n of Some p \<Rightarrow> (Some p, False) | None \<Rightarrow> (chain, True))
      else (chain, True))"

definition ctor_prefix :: "node \<Rightarrow> prefixes \<Rightarrow> prefixes" where
  "ctor_prefix n out =
     (case n of
        FuncDecl _ None _ _ (Some body) \<Rightarrow>
          (case inspect chain_visitor body None of
             None \<Rightarrow> out
           | Some chain \<Rightarrow> if returnedType n = [] then out else AList.update (returnedType n) chain out)
      | _ \<Rightarrow> out)"

definition constructorPrefixes :: "gofile \<Rightarrow> prefixes" where
  "constructorPrefixes f = inspect (\<lambda>n out. (ctor_prefix n out, True)) (fAST f) []"

text \<open>The route call under a \<open>.Name(...)\<close> wrapper, and the name it gives.\<close>

definition unwrap_name :: "node \<Rightarrow> string \<times> node" where
  "unwrap_name call =
     (case call of
        CallExpr _ (SelectorExpr _ x s) args _ _ \<Rightarrow>
          if s = ''Name'' then
            (case chain_lit args of Some l \<Rightarrow> l | None \<Rightarrow> [], if is_call x then x else call)
          else ([], call)
      | _ \<Rightarrow> ([], call))"

definition template_visitor ::
  "gofile \<Rightarrow> string \<Rightarrow> node \<Rightarrow> Inventory \<Rightarrow> Inventory \<times> bool" where
  "template_visitor f pre n iv =
     (if \<not> is_call n then (iv, True)
      else (case unwrap_name n of
        (name, call) \<Rightarrow>
          (case call of
             CallExpr _ (SelectorExpr _ x s) args _ _ \<Rightarrow>
               if s \<notin> set http_methods then (iv, True)
               else if \<not> (case identName x of Some b \<Rightarrow> isRoutePkg b | None \<Rightarrow> False) then (iv, True)
               else if length args < 2 then (iv, True)
               else (case route_lit (hd args) of
                       None \<Rightarrow> (add_unresolved (unresolved_line f call s) iv, False)
                     | Some literal \<Rightarrow>
                         (add_route \<lparr>rtMethod = s, rtPath = join_path pre literal,
                            rtHandler = exprName (last args), rtName = name, rtStyle = ''template'',
                            rtFile = fRel f, rtLine = fst (Position call)\<rparr> iv, False))
           | _ \<Rightarrow> (iv, True))))"

definition template_func :: "gofile \<Rightarrow> prefixes \<Rightarrow> node \<Rightarrow> Inventory \<Rightarrow> Inventory" where
  "template_func f ps n iv =
     (case fd_body n of
        None \<Rightarrow> iv
      | Some body \<Rightarrow>
          if fd_name n \<noteq> ''Routes'' then iv
          else (case route_receiver n of
                  None \<Rightarrow> iv
                | Some recv \<Rightarrow>
                    inspect (template_visitor f
                      (case map_of ps (trim_prefix recv ''*'') of Some p \<Rightarrow> p | None \<Rightarrow> [])) body iv))"

definition collectTemplate :: "gofile \<Rightarrow> Inventory \<Rightarrow> Inventory" where
  "collectTemplate f iv =
     inspect (\<lambda>n s. (template_func f (constructorPrefixes f) n s, True)) (fAST f) iv"

section \<open>Taking and comparing\<close>

definition take_file :: "gofile \<Rightarrow> Inventory \<Rightarrow> Inventory" where
  "take_file f iv =
     (if fLayer f = LayerTest then iv
      else (let iv' = collectTemplate f (collectGin f iv) in
            if length (invRoutes iv) < length (invRoutes iv') \<and> fRel f \<notin> set (invFiles iv)
            then iv'\<lparr>invFiles := invFiles iv' @ [fRel f]\<rparr> else iv'))"

definition empty_inventory :: Inventory where
  "empty_inventory = \<lparr>invRoutes = [], invUnresolved = [], invFiles = []\<rparr>"

definition Take :: "workspace \<Rightarrow> Inventory" where
  "Take ws =
     (let iv = fold take_file (wsFiles ws) empty_inventory in
      \<lparr>invRoutes = sort_key (\<lambda>r. (rtPath r, rtMethod r)) (invRoutes iv),
       invUnresolved = sort_strings (invUnresolved iv), invFiles = sort_strings (invFiles iv)\<rparr>)"

definition handler_method :: "string \<Rightarrow> string" where
  "handler_method h =
     (case last_index_char h (CHR ''.'') of Some i \<Rightarrow> to_lower (drop (i + 1) h) | None \<Rightarrow> to_lower h)"

definition came_across :: "Inventory \<Rightarrow> Route \<Rightarrow> bool" where
  "came_across after r \<longleftrightarrow>
     route_Key r \<in> set (map route_Key (invRoutes after))
     \<or> rtHandler r \<noteq> []
       \<and> handler_method (rtHandler r)
           \<in> set (map (\<lambda>a. handler_method (rtHandler a)) (filter (\<lambda>a. rtHandler a \<noteq> []) (invRoutes after)))"

definition Compare :: "Inventory \<Rightarrow> Inventory \<Rightarrow> Route list" where
  "Compare before after = sort_key route_Key (filter (\<lambda>r. \<not> came_across after r) (invRoutes before))"

section \<open>Joining paths\<close>

definition unslash :: "string \<Rightarrow> string" where
  "unslash s = trim_set ''/'' s"

definition glue :: "string \<Rightarrow> string \<Rightarrow> string" where
  "glue a b = (if a = [] then b else if b = [] then a else a @ ''/'' @ b)"

lemma join_path_glue: "join_path a b = CHR ''/'' # glue (unslash a) (unslash b)"
  by (simp add: join_path_def glue_def unslash_def Let_def)

definition bare :: "string \<Rightarrow> bool" where
  "bare s \<longleftrightarrow> s = [] \<or> hd s \<noteq> CHR ''/'' \<and> last s \<noteq> CHR ''/''"

lemma bare_unslash [simp]: "bare (unslash s)"
  using trim_by_hd [of "\<lambda>c. c \<in> set ''/''" s] trim_by_last [of "\<lambda>c. c \<in> set ''/''" s]
  by (auto simp: bare_def unslash_def)

lemma unslash_bare: "bare s \<Longrightarrow> unslash s = s"
  unfolding unslash_def by (rule trim_by_id) (auto simp: bare_def)

lemma bare_glue: "\<lbrakk>bare a; bare b\<rbrakk> \<Longrightarrow> bare (glue a b)"
  by (auto simp: bare_def glue_def)

lemma unslash_slash: "unslash (CHR ''/'' # s) = unslash s"
  by (simp add: unslash_def trim_by_def trim_left_by_def)

lemma unslash_Nil [simp]: "unslash [] = []"
  by (simp add: unslash_def)

lemma unslash_join [simp]: "unslash (join_path a b) = glue (unslash a) (unslash b)"
  by (simp only: join_path_glue unslash_slash unslash_bare bare_glue bare_unslash)

lemma glue_assoc: "glue (glue a b) c = glue a (glue b c)"
  by (simp add: glue_def)

text \<open>The segments of a nested group, without slashes around them and without the empty ones.\<close>

definition clean_segments :: "string list \<Rightarrow> string list" where
  "clean_segments segs = filter (\<lambda>s. s \<noteq> []) (map unslash segs)"

lemma glue_Nil [simp]: "glue a [] = a"
  by (simp add: glue_def)

lemma glue_segments:
  "glue (unslash a) (str_join ''/'' (clean_segments segs)) = str_join ''/'' (clean_segments (a # segs))"
proof (cases "clean_segments segs")
  case Nil
  then show ?thesis by (simp add: clean_segments_def glue_def)
next
  case (Cons s ss)
  have "s \<in> set (clean_segments segs)" by (simp add: Cons)
  then have "s \<noteq> []" by (simp add: clean_segments_def)
  then have ne: "str_join ''/'' (s # ss) \<noteq> []" by (cases ss) simp_all
  have "clean_segments (a # segs) = (if unslash a = [] then s # ss else unslash a # s # ss)"
    using Cons by (simp add: clean_segments_def)
  then show ?thesis unfolding Cons using ne by (simp add: glue_def)
qed

lemma unslash_foldl: "unslash (foldl join_path p segs) = glue (unslash p) (str_join ''/'' (clean_segments segs))"
proof (induction segs arbitrary: p)
  case (Cons a segs)
  have "unslash (foldl join_path p (a # segs))
      = glue (glue (unslash p) (unslash a)) (str_join ''/'' (clean_segments segs))"
    by (simp add: Cons.IH)
  then show ?case by (simp only: glue_assoc glue_segments)
qed (simp add: clean_segments_def)

text \<open>
  A route inside nested groups gets the path of all the groups and its own: a slash, then the
  segments joined with single slashes, empty ones left out, however each was written.
\<close>

theorem nested_path:
  "join_path (foldl join_path [] groups) own
     = CHR ''/'' # str_join ''/'' (clean_segments (groups @ [own]))"
proof -
  have "join_path (foldl join_path [] groups) own = CHR ''/'' # unslash (foldl join_path [] (groups @ [own]))"
    using unslash_join [of "foldl join_path [] groups" own]
    by (simp add: join_path_glue)
  also have "unslash (foldl join_path [] (groups @ [own])) = str_join ''/'' (clean_segments (groups @ [own]))"
    using unslash_foldl [of "[]" "groups @ [own]"] by (simp add: glue_def)
  finally show ?thesis .
qed

section \<open>What the legacy pass counts\<close>

text \<open>The receiver and the path argument of a registration.\<close>

fun registration :: "node \<Rightarrow> (node \<times> node) option" where
  "registration (CallExpr _ (SelectorExpr _ x s) args _ _) =
     (if s \<in> set http_methods \<and> 2 \<le> length args then Some (x, hd args) else None)"
| "registration _ = None"

definition route_named :: "node \<Rightarrow> bool" where
  "route_named x \<longleftrightarrow> (case identName x of Some b \<Rightarrow> isRoutePkg b | None \<Rightarrow> False)"

definition gin_counted :: "node \<Rightarrow> bool" where
  "gin_counted n \<longleftrightarrow>
     (case registration n of
        None \<Rightarrow> False
      | Some (x, a) \<Rightarrow> \<not> (route_named x \<and> route_lit a \<noteq> None))"

definition inventory_size :: "Inventory \<Rightarrow> nat" where
  "inventory_size iv = length (invRoutes iv) + length (invUnresolved iv)"

lemma size_gin_node:
  "inventory_size (snd (gin_node f n st)) = inventory_size (snd st) + (if gin_counted n then 1 else 0)"
  by (cases st; cases n)
    (auto simp: gin_node_def gin_counted_def ginRoute_def ginUnresolved_def route_named_def
      inventory_size_def add_route_def add_unresolved_def Let_def
      split: node.splits option.splits if_splits)

lemma size_gin_nodes:
  "inventory_size (snd (fold (gin_node f) ns st)) = inventory_size (snd st) + length (filter gin_counted ns)"
  by (induction ns arbitrary: st) (simp_all add: size_gin_node)

definition func_nodes :: "node \<Rightarrow> node list" where
  "func_nodes n = (case fd_body n of None \<Rightarrow> [] | Some b \<Rightarrow> subnodes b)"

lemma size_gin_func:
  "inventory_size (gin_func f n iv) = inventory_size iv + length (filter gin_counted (func_nodes n))"
  by (auto simp: gin_func_def func_nodes_def inspect_all size_gin_nodes split: option.splits)

lemma gin_counts:
  "inventory_size (collectGin f iv)
     = inventory_size iv + length (filter gin_counted (concat (map func_nodes (subnodes (fAST f)))))"
proof -
  have "inventory_size (fold (gin_func f) ns iv)
      = inventory_size iv + length (filter gin_counted (concat (map func_nodes ns)))" for ns
    by (induction ns arbitrary: iv) (simp_all add: size_gin_func)
  then show ?thesis by (simp add: collectGin_def inspect_all)
qed

text \<open>
  The legacy pass under-counts by exactly one kind of registration. Every call of a route method
  with a path and a handler in a function body adds one entry, a route or an unresolved line,
  except those with a literal path on a receiver whose name ends in route or routes.
\<close>

theorem gin_counts_registrations:
  "inventory_size (collectGin f iv)
     = inventory_size iv + length (filter gin_counted (concat (map func_nodes (subnodes (fAST f)))))"
  by (rule gin_counts)

definition route_variable_call :: "string \<Rightarrow> string \<Rightarrow> string \<Rightarrow> node" where
  "route_variable_call recv path h =
     CallExpr no_span (SelectorExpr no_span (Ident no_span recv) ''GET'')
       [BasicLit no_span STRING (go_quote path), SelectorExpr no_span (Ident no_span ''h'') h]
       no_span no_span"

definition setup_file :: "string \<Rightarrow> gofile" where
  "setup_file recv =
     \<lparr>fRel = ''main.go'', fSrc = [],
      fAST = FileNode no_span (Ident no_span ''main'')
        [FuncDecl no_span None ''setup'' (FuncType no_span (Some []) None)
           (Some (BlockStmt no_span
              [OtherNode no_span ''ExprStmt'' [route_variable_call recv ''/awards'' ''Fetch'']]))],
      fPackage = ''main'', fLayer = LayerMain, fGenerated = False, fParseErr = None\<rparr>"

lemma setup_counted:
  "length (filter gin_counted (concat (map func_nodes (subnodes (fAST (setup_file recv))))))
     = (if isRoutePkg recv then 0 else 1)"
  by (simp add: setup_file_def route_variable_call_def subnodes.simps func_nodes_def gin_counted_def
      route_named_def http_methods_def)

text \<open>
  The registration of GET /awards on a Gin group held in a variable called v1Routes leaves no
  trace in the inventory, neither as a route nor as unresolved, while on a variable called v1 it is recorded.
\<close>

theorem route_variable_dropped:
  "inventory_size (collectTemplate (setup_file ''v1Routes'') (collectGin (setup_file ''v1Routes'') empty_inventory)) = 0
   \<and> inventory_size (collectTemplate (setup_file ''v1'') (collectGin (setup_file ''v1'') empty_inventory)) = 1"
proof -
  have tmpl: "collectTemplate (setup_file recv) iv = iv" for recv iv
    by (simp add: collectTemplate_def setup_file_def inspect_all subnodes.simps route_variable_call_def template_func_def)
  have count: "inventory_size (collectGin (setup_file recv) empty_inventory) = (if isRoutePkg recv then 0 else 1)" for recv
    using gin_counts [of "setup_file recv" empty_inventory] setup_counted [of recv]
    by (simp add: inventory_size_def empty_inventory_def)
  have "isRoutePkg ''v1Routes''" "\<not> isRoutePkg ''v1''" by code_simp+
  then show ?thesis
    by (simp add: tmpl count)
qed

section \<open>Keys and comparison\<close>

lemma lower_slash: "lower_char c = CHR ''/'' \<longleftrightarrow> c = CHR ''/''"
proof
  assume "lower_char c = CHR ''/''"
  then have "code (lower_char c) = 47" by simp
  then show "c = CHR ''/''" by (auto simp: code_lower_char is_upper_def split: if_splits intro: char_eqI)
qed (simp add: lower_char_def is_upper_def)

lemma lower_char_slash [simp]: "lower_char (CHR ''/'') = CHR ''/''"
  by (simp add: lower_slash)

lemma to_lower_join: "to_lower (str_join sep ws) = str_join (to_lower sep) (map to_lower ws)"
  by (induction sep ws rule: str_join.induct) auto

lemma slash_free_part: "CHR ''/'' \<notin> set p \<Longrightarrow> CHR ''/'' \<notin> set (to_lower (key_part p))"
  by (auto simp: key_part_def to_lower_def lower_slash eq_commute [of "CHR ''/''"])

definition path_shape :: "string \<Rightarrow> string list" where
  "path_shape path = map (\<lambda>p. to_lower (key_part p)) (split_char (CHR ''/'') path)"

lemma key_path_split:
  "split_char (CHR ''/'') (to_lower (str_join ''/'' (map key_part (split_char (CHR ''/'') path)))) = path_shape path"
proof -
  have l: "lower_char (CHR ''/'') = CHR ''/''" by code_simp
  have "to_lower (str_join ''/'' (map key_part (split_char (CHR ''/'') path))) = str_join [CHR ''/''] (path_shape path)"
    by (simp add: to_lower_join path_shape_def l comp_def)
  moreover have "path_shape path \<noteq> []" by (simp add: path_shape_def)
  moreover have "\<forall>w \<in> set (path_shape path). CHR ''/'' \<notin> set w"
    by (auto simp: path_shape_def dest!: slash_free_part split_char_free)
  ultimately show ?thesis by (simp add: split_join_char)
qed

lemma upper_space: "upper_char c = CHR '' '' \<longleftrightarrow> c = CHR '' ''"
proof
  assume "upper_char c = CHR '' ''"
  then have "code (upper_char c) = 32" by simp
  then show "c = CHR '' ''" by (auto simp: code_upper_char is_lower_def split: if_splits intro: char_eqI)
qed (simp add: upper_char_def is_lower_def)

lemma upper_char_space [simp]: "upper_char (CHR '' '') = CHR '' ''"
  by (simp add: upper_space)

lemma space_append_inject:
  fixes x :: char
  assumes "a @ x # b = c @ x # d" "x \<notin> set a" "x \<notin> set c"
  shows "a = c \<and> b = d"
  using arg_cong [OF assms(1), of "\<lambda>s. cut_char s x"] by (simp add: cut_char_found assms(2,3))

text \<open>
  Two routes have the same key exactly when their methods agree up to case and their paths have
  the same shape: as many segments, equal up to case, where any parameter matches any parameter and
  any catch-all any catch-all.
\<close>

theorem same_key_iff:
  assumes "CHR '' '' \<notin> set (rtMethod r)" "CHR '' '' \<notin> set (rtMethod s)"
  shows "route_Key r = route_Key s \<longleftrightarrow>
    to_upper (rtMethod r) = to_upper (rtMethod s) \<and> path_shape (rtPath r) = path_shape (rtPath s)"
proof
  assume eq: "route_Key r = route_Key s"
  have "CHR '' '' \<notin> set (to_upper (rtMethod r))" "CHR '' '' \<notin> set (to_upper (rtMethod s))"
    using assms by (auto simp: to_upper_def upper_space eq_commute [of "CHR '' ''"])
  then have "to_upper (rtMethod r) = to_upper (rtMethod s)
      \<and> to_lower (str_join ''/'' (map key_part (split_char (CHR ''/'') (rtPath r))))
        = to_lower (str_join ''/'' (map key_part (split_char (CHR ''/'') (rtPath s))))"
    using eq by (intro space_append_inject [of _ "CHR '' ''"]) (simp_all add: route_Key_def)
  then show "to_upper (rtMethod r) = to_upper (rtMethod s) \<and> path_shape (rtPath r) = path_shape (rtPath s)"
    using key_path_split [of "rtPath r"] key_path_split [of "rtPath s"] by simp
next
  have l: "lower_char (CHR ''/'') = CHR ''/''" by code_simp
  have "route_Key x = to_upper (rtMethod x) @ '' '' @ str_join ''/'' (path_shape (rtPath x))" for x
    by (simp add: route_Key_def path_shape_def to_lower_join l comp_def)
  moreover assume "to_upper (rtMethod r) = to_upper (rtMethod s) \<and> path_shape (rtPath r) = path_shape (rtPath s)"
  ultimately show "route_Key r = route_Key s" by simp
qed

definition demo_route :: "string \<Rightarrow> string \<Rightarrow> string \<Rightarrow> Route" where
  "demo_route m path h =
     \<lparr>rtMethod = m, rtPath = path, rtHandler = h, rtName = [], rtStyle = ''gin'', rtFile = ''routes.go'', rtLine = 1\<rparr>"

theorem same_key_iff_witness:
  "route_Key (demo_route ''GET'' ''/awards/:id'' ''h.A'') = route_Key (demo_route ''get'' ''/Awards/:award-id'' ''c.A'')
   \<and> route_Key (demo_route ''GET'' ''/awards/:id'' ''h.A'') \<noteq> route_Key (demo_route ''GET'' ''/awards/:id/lines'' ''h.A'')"
proof -
  have shape: "path_shape ''/awards/:id'' = path_shape ''/Awards/:award-id''"
    "path_shape ''/awards/:id'' \<noteq> path_shape ''/awards/:id/lines''"
    "to_upper ''GET'' = to_upper ''get''" by code_simp+
  show ?thesis
    using same_key_iff [of "demo_route ''GET'' ''/awards/:id'' ''h.A''" "demo_route ''get'' ''/Awards/:award-id'' ''c.A''"]
      same_key_iff [of "demo_route ''GET'' ''/awards/:id'' ''h.A''" "demo_route ''GET'' ''/awards/:id/lines'' ''h.A''"]
      shape by (simp add: demo_route_def)
qed

lemma came_across_self: "r \<in> set (invRoutes iv) \<Longrightarrow> came_across iv r"
  by (simp add: came_across_def)

text \<open>
  C5: the comparison reports a route exactly when the second inventory has neither its key nor, if it
  has a handler, any route whose handler has that method name; nothing is reported as missing
  from itself, reports are ordered by key, and each occurrence of a lost route is reported.
\<close>

theorem compare_exact:
  "mset (Compare before after)
     = filter_mset (\<lambda>r. \<not> list_ex (\<lambda>a. route_Key a = route_Key r
         \<or> rtHandler r \<noteq> [] \<and> rtHandler a \<noteq> []
           \<and> handler_method (rtHandler a) = handler_method (rtHandler r)) (invRoutes after)) (mset (invRoutes before))
   \<and> sorted (map route_Key (Compare before after))
   \<and> Compare before before = []"
proof (intro conjI)
  have "came_across after r \<longleftrightarrow> list_ex (\<lambda>a. route_Key a = route_Key r
         \<or> rtHandler r \<noteq> [] \<and> rtHandler a \<noteq> []
           \<and> handler_method (rtHandler a) = handler_method (rtHandler r)) (invRoutes after)" for r
    unfolding came_across_def by (auto simp: list_ex_iff image_iff) (metis+)
  then show "mset (Compare before after)
     = filter_mset (\<lambda>r. \<not> list_ex (\<lambda>a. route_Key a = route_Key r
         \<or> rtHandler r \<noteq> [] \<and> rtHandler a \<noteq> []
           \<and> handler_method (rtHandler a) = handler_method (rtHandler r)) (invRoutes after)) (mset (invRoutes before))"
    by (simp add: Compare_def flip: mset_filter)
  show "Compare before before = []"
    by (simp add: Compare_def came_across_self cong: filter_cong)
qed (simp add: Compare_def)

text \<open>
  A lost route can be masked. When one handler method served two paths, or two handlers of
  different types share a method name, and only one of the routes survives, the comparison is
  clean although an endpoint is gone.
\<close>

theorem compare_masks_lost_route:
  "Compare
     \<lparr>invRoutes = [demo_route ''GET'' ''/v1/awards'' ''ah.List'', demo_route ''GET'' ''/v1/leaves'' ''lh.List''],
      invUnresolved = [], invFiles = []\<rparr>
     \<lparr>invRoutes = [demo_route ''GET'' ''/v1/awards'' ''ah.List''], invUnresolved = [], invFiles = []\<rparr> = []
   \<and> route_Key (demo_route ''GET'' ''/v1/leaves'' ''lh.List'') \<noteq> route_Key (demo_route ''GET'' ''/v1/awards'' ''ah.List'')"
proof
  have "handler_method ''lh.List'' = handler_method ''ah.List''" by code_simp
  then show "Compare
     \<lparr>invRoutes = [demo_route ''GET'' ''/v1/awards'' ''ah.List'', demo_route ''GET'' ''/v1/leaves'' ''lh.List''],
      invUnresolved = [], invFiles = []\<rparr>
     \<lparr>invRoutes = [demo_route ''GET'' ''/v1/awards'' ''ah.List''], invUnresolved = [], invFiles = []\<rparr> = []"
    by (simp add: Compare_def came_across_def demo_route_def)
  show "route_Key (demo_route ''GET'' ''/v1/leaves'' ''lh.List'') \<noteq> route_Key (demo_route ''GET'' ''/v1/awards'' ''ah.List'')"
    by code_simp
qed

section \<open>The template's prefix chain\<close>

datatype chain_op = SetP string | AddP string

text \<open>The expression a chain of calls on \<open>serverHandler.New(name)\<close> is, innermost call first.\<close>

fun chain_expr :: "chain_op list \<Rightarrow> node \<Rightarrow> node" where
  "chain_expr [] x = x"
| "chain_expr (SetP l # ops) x =
     chain_expr ops (CallExpr no_span (SelectorExpr no_span x ''SetPrefix'')
       [BasicLit no_span STRING (go_quote l)] no_span no_span)"
| "chain_expr (AddP l # ops) x =
     chain_expr ops (CallExpr no_span (SelectorExpr no_span x ''AddPrefix'')
       [BasicLit no_span STRING (go_quote l)] no_span no_span)"

definition new_call :: node where
  "new_call =
     CallExpr no_span (SelectorExpr no_span (Ident no_span ''serverHandler'') ''New'')
       [BasicLit no_span STRING (go_quote ''Awards'')] no_span no_span"

text \<open>What the template's methods mean: SetPrefix replaces the base path, AddPrefix appends to it.\<close>

fun chain_meaning :: "chain_op list \<Rightarrow> string \<Rightarrow> string" where
  "chain_meaning [] p = p"
| "chain_meaning (SetP l # ops) p = chain_meaning ops (join_path [] l)"
| "chain_meaning (AddP l # ops) p = chain_meaning ops (join_path p l)"

text \<open>What the loop gathers: every appended segment, and the first prefix set.\<close>

fun chain_adds :: "chain_op list \<Rightarrow> string list" where
  "chain_adds [] = []"
| "chain_adds (SetP l # ops) = chain_adds ops"
| "chain_adds (AddP l # ops) = l # chain_adds ops"

fun chain_set :: "chain_op list \<Rightarrow> string option" where
  "chain_set [] = None"
| "chain_set (SetP l # ops) = Some l"
| "chain_set (AddP l # ops) = chain_set ops"

lemma is_call_chain [simp]: "is_call x \<Longrightarrow> is_call (chain_expr ops x)"
  by (induction ops x rule: chain_expr.induct) auto

lemma chain_loop_expr:
  assumes "is_call x"
  shows "chain_loop (chain_expr ops x) segs st saw
    = chain_loop x (chain_adds ops @ segs) (case chain_set ops of Some l \<Rightarrow> l | None \<Rightarrow> st) (saw \<or> ops \<noteq> [])"
  using assms
proof (induction ops x arbitrary: segs st saw rule: chain_expr.induct)
  case (2 l ops x)
  then show ?case by (simp add: chain_lit_def split: option.split)
next
  case (3 l ops x)
  then show ?case by (simp add: chain_lit_def split: option.split)
qed simp

text \<open>
  PrefixChain gives a chain of calls on New the first prefix set, then all appended segments
  joined with slashes, in the order written; a chain without either call has no prefix.
\<close>

theorem prefix_chain_value:
  "prefixChain (chain_expr ops new_call) =
     (if ops = [] then None
      else Some (join_path (case chain_set ops of Some l \<Rightarrow> l | None \<Rightarrow> []) (str_join ''/'' (chain_adds ops))))"
proof -
  have "is_call new_call" by (simp add: new_call_def)
  then show ?thesis
    by (simp add: prefixChain_def chain_loop_expr) (simp add: new_call_def chain_end_def)
qed

text \<open>
  That is the base path of the template only for short chains: with one prefix set and one
  appended it is, but two appended segments written with a leading slash leave a double slash, and a
  prefix set twice, or after a segment was appended, keeps what it should have replaced.
\<close>

theorem prefix_chain_meaning:
  "prefixChain (chain_expr [SetP v, AddP a] new_call) = Some (chain_meaning [SetP v, AddP a] [])
   \<and> prefixChain (chain_expr [AddP ''/v1'', AddP ''/awards''] new_call) = Some ''/v1//awards''
   \<and> chain_meaning [AddP ''/v1'', AddP ''/awards''] [] = ''/v1/awards''
   \<and> prefixChain (chain_expr [SetP ''/v1'', SetP ''/v2''] new_call) = Some ''/v1''
   \<and> chain_meaning [SetP ''/v1'', SetP ''/v2''] [] = ''/v2''"
proof -
  have val: "prefixChain (chain_expr ops new_call) =
     (if ops = [] then None
      else Some (join_path (case chain_set ops of Some l \<Rightarrow> l | None \<Rightarrow> []) (str_join ''/'' (chain_adds ops))))" for ops
    by (simp add: prefixChain_def chain_loop_expr new_call_def chain_end_def)
  have "join_path (join_path [] v) a = join_path v a"
    by (simp add: join_path_glue glue_def unslash_slash unslash_bare)
  moreover have "join_path [] ''/v1//awards'' = ''/v1//awards''" "join_path ''/v1'' [] = ''/v1''" by code_simp+
  moreover have "chain_meaning [AddP ''/v1'', AddP ''/awards''] [] = ''/v1/awards''"
    "chain_meaning [SetP ''/v1'', SetP ''/v2''] [] = ''/v2''" by code_simp+
  ultimately show ?thesis by (simp add: val del: chain_expr.simps)
qed

section \<open>The loop of prefixChain ends\<close>

text \<open>One pass of its for loop: a state still to walk, or the result.\<close>

fun chain_pass ::
  "(node \<times> string list \<times> string \<times> bool) + string option \<Rightarrow> (node \<times> string list \<times> string \<times> bool) + string option" where
  "chain_pass (Inl (CallExpr p (SelectorExpr q x s) args l r, segments, st, saw)) =
     (let segments' = (if s = ''AddPrefix'' then opt_list (chain_lit args) @ segments else segments);
          st' = (if s = ''SetPrefix'' then (case chain_lit args of Some l \<Rightarrow> l | None \<Rightarrow> st) else st);
          saw' = (saw \<or> s = ''AddPrefix'' \<or> s = ''SetPrefix'')
      in if is_call x then Inl (x, segments', st', saw') else Inr (chain_end segments' st' saw'))"
| "chain_pass (Inl (n, segments, st, saw)) = Inr (chain_end segments st saw)"
| "chain_pass (Inr res) = Inr res"

lemma chain_pass_loop:
  "while_option isl chain_pass (Inl (n, segments, st, saw)) = Some (Inr (chain_loop n segments st saw))"
  by (induction n segments st saw rule: chain_loop.induct)
    (simp_all add: while_option_unfold [of isl chain_pass "Inl _"] while_option_unfold [of isl chain_pass "Inr _"] Let_def)


end
