(* ===== verification/Libversion.thy ===== *)
theory Libversion
  imports LegacyRules
begin

text \<open>
  Model of gotools/internal/libversion: how far the CEPT libraries of a service have drifted from
  their published versions. What the registry answers is the parameter \<open>versions\<close> (an error or the
  published versions, newest last), the Go interface Lister; the locale \<open>version_lister\<close> states what
  the report relies on, and GoListLister, on whatever its command prints, is an interpretation.
\<close>

section \<open>Reports\<close>

definition ModulePrefix :: string where
  "ModulePrefix = ''gitlab.cept.gov.in/it-2.0-common/''"

datatype Status = StatusCurrent | StatusBehind | StatusSuperseded | StatusUnknown

record version_report =
  vrModule :: string
  vrCurrent :: string
  vrLatest :: string
  vrBehind :: nat
  vrStatus :: Status
  vrSupersededBy :: string
  vrSupersededByLatest :: string
  vrNote :: string

record version_result =
  vsModule :: string
  vsReports :: "version_report list"
  vsReachable :: bool
  vsError :: string
  vsUnresolved :: "string list"

type_synonym lister = "string \<Rightarrow> string + string list"

text \<open>GoListLister.Versions; \<open>run\<close> is the outcome of the go command for a module.\<close>

definition GoListVersions :: "(string \<Rightarrow> string + string) \<Rightarrow> lister" where
  "GoListVersions run m =
     (case run m of
        Inl e \<Rightarrow> Inl (''go list -m -versions '' @ m @ '': '' @ e)
      | Inr out \<Rightarrow> (let ws = str_words out in Inr (if length ws < 2 then [] else drop 1 ws)))"

definition note_unresolved :: "string \<Rightarrow> version_result \<Rightarrow> version_result" where
  "note_unresolved m res =
     (if m \<in> set (vsUnresolved res) then res else res\<lparr>vsUnresolved := vsUnresolved res @ [m]\<rparr>)"

definition first_failure :: "string \<Rightarrow> version_result \<Rightarrow> version_result" where
  "first_failure e res = (if vsError res = [] then res\<lparr>vsError := e\<rparr> else res)"

definition behindBy :: "string list \<Rightarrow> string \<Rightarrow> nat" where
  "behindBy vs current =
     (case List.find (\<lambda>(i, v). v = trim_space current) (enumerate 0 vs) of
        Some (i, v) \<Rightarrow> length vs - 1 - i
      | None \<Rightarrow> 0)"

fun rank_of :: "Status \<Rightarrow> nat" where
  "rank_of StatusSuperseded = 0"
| "rank_of StatusBehind = 1"
| "rank_of StatusUnknown = 2"
| "rank_of StatusCurrent = 3"

section \<open>Check\<close>

definition same_api :: string where
  "same_api = ''migrating is a one-line import change; the API is identical''"

text \<open>Newest version of a replacement, looked up once: the value, and the table and result after it.\<close>

definition newest_of ::
  "lister \<Rightarrow> string \<Rightarrow> (string \<times> string) list \<times> version_result
    \<Rightarrow> string \<times> (string \<times> string) list \<times> version_result" where
  "newest_of versions m st =
     (case st of
        (latest, res) \<Rightarrow>
          (case map_of latest m of
             Some v \<Rightarrow> (v, latest, res)
           | None \<Rightarrow>
               (case versions m of
                  Inr (v # vs) \<Rightarrow>
                    (let newest = last (v # vs) in (newest, (m, newest) # latest, res\<lparr>vsReachable := True\<rparr>))
                | Inr [] \<Rightarrow> ([], (m, []) # latest, note_unresolved m res)
                | Inl e \<Rightarrow> ([], (m, []) # latest, note_unresolved m (first_failure e res)))))"

definition migration_note :: "string \<Rightarrow> string \<Rightarrow> string \<Rightarrow> string" where
  "migration_note replacement newest version =
     (if newest \<noteq> [] then
        same_api @ ''. Its version line is separate from this module's '' @ emdash @ '' fetch '' @ newest
        @ '' rather than carrying '' @ version @ '' across.''
      else
        same_api @ ''. Its latest version could not be looked up '' @ emdash @ '' fetch it with `go get '' @ replacement
        @ ''` and no version rather than carrying '' @ version @ '' across.'')"

text \<open>The position of the module itself.\<close>

definition own_versions ::
  "lister \<Rightarrow> Require \<Rightarrow> version_report \<Rightarrow> version_result \<Rightarrow> version_report \<times> version_result" where
  "own_versions versions req r res =
     (case versions (rqPath req) of
        Inl e \<Rightarrow>
          (if vrStatus r \<noteq> StatusSuperseded then r\<lparr>vrStatus := StatusUnknown\<rparr> else r,
           note_unresolved (rqPath req) (first_failure e res))
      | Inr [] \<Rightarrow> (r, res)
      | Inr (v # vs) \<Rightarrow>
          (let n = behindBy (v # vs) (rqVersion req);
               r' = r\<lparr>vrLatest := last (v # vs)\<rparr>
           in (if 0 < n then
                 r'\<lparr>vrBehind := n,
                    vrStatus := (if vrStatus r' \<noteq> StatusSuperseded then StatusBehind else vrStatus r')\<rparr>
               else r',
               res\<lparr>vsReachable := True\<rparr>)))"

definition new_report :: "Require \<Rightarrow> version_report" where
  "new_report req =
     \<lparr>vrModule = rqPath req, vrCurrent = rqVersion req, vrLatest = [], vrBehind = 0,
      vrStatus = StatusCurrent, vrSupersededBy = [], vrSupersededByLatest = [], vrNote = []\<rparr>"

definition superseded_report :: "Require \<Rightarrow> string \<Rightarrow> string \<Rightarrow> version_report" where
  "superseded_report req replacement newest =
     (new_report req)\<lparr>vrStatus := StatusSuperseded, vrSupersededBy := replacement,
        vrSupersededByLatest := newest, vrNote := migration_note replacement newest (rqVersion req)\<rparr>"

definition check_require ::
  "lister \<Rightarrow> Require \<Rightarrow> (string \<times> string) list \<times> version_result
    \<Rightarrow> (string \<times> string) list \<times> version_result" where
  "check_require versions req st =
     (if \<not> has_prefix (rqPath req) ModulePrefix then st
      else (case (case SupersededBy (rqPath req) of
                    None \<Rightarrow> (new_report req, st)
                  | Some replacement \<Rightarrow>
                      (case newest_of versions replacement st of
                         (newest, st') \<Rightarrow> (superseded_report req replacement newest, st'))) of
              (r, latest, res) \<Rightarrow>
                (case own_versions versions req r res of
                   (r', res') \<Rightarrow> (latest, res'\<lparr>vsReports := vsReports res' @ [r']\<rparr>))))"

definition report_key :: "version_report \<Rightarrow> nat \<times> string" where
  "report_key r = (rank_of (vrStatus r), vrModule r)"

definition empty_result :: "workspace \<Rightarrow> version_result" where
  "empty_result ws =
     \<lparr>vsModule = wsModulePath ws, vsReports = [], vsReachable = False, vsError = [], vsUnresolved = []\<rparr>"

definition version_check :: "workspace \<Rightarrow> lister \<Rightarrow> version_result" where
  "version_check ws versions =
     (case fold (check_require versions) (wsRequires ws) ([], empty_result ws) of
        (latest, res) \<Rightarrow> res\<lparr>vsReports := sort_key report_key (vsReports res)\<rparr>)"

definition version_behind :: "version_result \<Rightarrow> bool" where
  "version_behind res \<longleftrightarrow>
     list_ex (\<lambda>r. vrStatus r = StatusBehind \<or> vrStatus r = StatusSuperseded) (vsReports res)"

definition count_status :: "Status \<Rightarrow> version_result \<Rightarrow> nat" where
  "count_status s res = length (filter (\<lambda>r. vrStatus r = s) (vsReports res))"

definition Summary :: "version_result \<Rightarrow> string" where
  "Summary res =
     (let superseded = count_status StatusSuperseded res; behind = count_status StatusBehind res;
          unknown = count_status StatusUnknown res;
          notes = (if 0 < superseded then [itoa superseded @ '' superseded''] else [])
                  @ (if 0 < behind then [itoa behind @ '' behind''] else [])
                  @ (if 0 < unknown then [itoa unknown @ '' not resolved''] else [])
      in str_join '', ''
           ((itoa (length (vsReports res)) @ '' CEPT module(s)'') # (if notes = [] then [''all current''] else notes)))"

section \<open>The lister's contract\<close>

text \<open>What the report reads into an answer: a published version is never the empty string.\<close>

locale version_lister =
  fixes versions :: lister
  assumes published: "versions m = Inr vs \<Longrightarrow> list_all (\<lambda>v. v \<noteq> []) vs"
begin

lemma newest_nonempty: "versions m = Inr (v # vs) \<Longrightarrow> last (v # vs) \<noteq> []"
proof -
  assume "versions m = Inr (v # vs)"
  then have "list_all (\<lambda>v. v \<noteq> []) (v # vs)" by (rule published)
  then show ?thesis using last_in_set [of "v # vs"] unfolding list_all_iff by blast
qed

end

interpretation golist: version_lister "GoListVersions run" for run
proof
  fix m vs
  assume "GoListVersions run m = Inr vs"
  then show "list_all (\<lambda>v. v \<noteq> []) vs"
    unfolding GoListVersions_def str_words_def Let_def list_all_iff
    by (auto split: sum.splits if_splits dest!: in_set_dropD words_of_nonempty)
qed

section \<open>The report as a function of the requirement\<close>

text \<open>The newest version as an uncached lookup gives it.\<close>

definition newest_version :: "lister \<Rightarrow> string \<Rightarrow> string" where
  "newest_version versions m = (case versions m of Inr (v # vs) \<Rightarrow> last (v # vs) | _ \<Rightarrow> [])"

definition report_of :: "lister \<Rightarrow> Require \<Rightarrow> version_report" where
  "report_of versions req =
     fst (own_versions versions req
       (case SupersededBy (rqPath req) of
          None \<Rightarrow> new_report req
        | Some m \<Rightarrow> superseded_report req m (newest_version versions m)) (empty_result undefined))"

definition cept :: "Require \<Rightarrow> bool" where
  "cept req \<longleftrightarrow> has_prefix (rqPath req) ModulePrefix"

text \<open>The modules looked up for a requirement, and which of those lookups count as unresolved.\<close>

definition unresolved_of :: "lister \<Rightarrow> Require \<Rightarrow> string list" where
  "unresolved_of versions req =
     (case SupersededBy (rqPath req) of
        None \<Rightarrow> []
      | Some m \<Rightarrow> (case versions m of Inr (v # vs) \<Rightarrow> [] | _ \<Rightarrow> [m]))
     @ (case versions (rqPath req) of Inl _ \<Rightarrow> [rqPath req] | Inr _ \<Rightarrow> [])"

lemma first_failure_simps [simp]:
  "vsUnresolved (first_failure e res) = vsUnresolved res" "vsReports (first_failure e res) = vsReports res"
  by (simp_all add: first_failure_def)

lemma note_unresolved_simps [simp]:
  "vsReports (note_unresolved m res) = vsReports res"
  "set (vsUnresolved (note_unresolved m res)) = insert m (set (vsUnresolved res))"
  "distinct (vsUnresolved res) \<Longrightarrow> distinct (vsUnresolved (note_unresolved m res))"
  by (auto simp: note_unresolved_def)

lemma own_versions_report: "fst (own_versions versions req r res) = fst (own_versions versions req r res')"
  by (simp add: own_versions_def Let_def split: sum.split list.split)

lemma own_versions_res:
  assumes "own_versions versions req r res = (r', res')"
  shows "vsReports res' = vsReports res
    \<and> set (vsUnresolved res') = set (vsUnresolved res) \<union> (case versions (rqPath req) of Inl _ \<Rightarrow> {rqPath req} | Inr _ \<Rightarrow> {})
    \<and> (distinct (vsUnresolved res) \<longrightarrow> distinct (vsUnresolved res'))"
  using assms
  by (auto simp: own_versions_def Let_def split: sum.splits list.splits if_splits)

definition cached :: "lister \<Rightarrow> (string \<times> string) list \<Rightarrow> version_result \<Rightarrow> bool" where
  "cached versions latest res \<longleftrightarrow>
     list_all (\<lambda>(m, v). v = newest_version versions m
       \<and> ((case versions m of Inr (v # vs) \<Rightarrow> True | _ \<Rightarrow> False) \<or> m \<in> set (vsUnresolved res))) latest"

lemma cached_mono:
  "\<lbrakk>cached versions latest res; set (vsUnresolved res) \<subseteq> set (vsUnresolved res')\<rbrakk> \<Longrightarrow> cached versions latest res'"
  by (auto simp: cached_def list_all_iff)

lemma cached_Cons:
  "cached versions ((m, v) # latest) res \<longleftrightarrow>
     v = newest_version versions m
     \<and> ((case versions m of Inr (v # vs) \<Rightarrow> True | _ \<Rightarrow> False) \<or> m \<in> set (vsUnresolved res))
     \<and> cached versions latest res"
  by (simp add: cached_def)

lemma newest_of_spec:
  assumes "newest_of versions m (latest, res) = (v, latest', res')" "cached versions latest res"
  shows "v = newest_version versions m \<and> cached versions latest' res'
    \<and> vsReports res' = vsReports res
    \<and> set (vsUnresolved res') = set (vsUnresolved res)
        \<union> set (case versions m of Inr (v # vs) \<Rightarrow> [] | _ \<Rightarrow> [m])
    \<and> (distinct (vsUnresolved res) \<longrightarrow> distinct (vsUnresolved res'))"
proof (cases "map_of latest m")
  case (Some w)
  then have "(m, w) \<in> set latest" by (rule map_of_SomeD)
  then have "w = newest_version versions m"
    "(case versions m of Inr (v # vs) \<Rightarrow> True | _ \<Rightarrow> False) \<or> m \<in> set (vsUnresolved res)"
    using assms(2) by (auto simp: cached_def list_all_iff)
  then show ?thesis using assms Some
    by (auto simp: newest_of_def split: sum.splits list.splits)
next
  case None
  have none: "v = [] \<Longrightarrow> latest' = (m, []) # latest \<Longrightarrow> newest_version versions m = []
      \<Longrightarrow> m \<in> set (vsUnresolved res') \<Longrightarrow> set (vsUnresolved res) \<subseteq> set (vsUnresolved res')
      \<Longrightarrow> v = newest_version versions m \<and> cached versions latest' res'"
    using cached_mono [OF assms(2)] by (simp add: cached_Cons)
  show ?thesis
  proof (cases "versions m")
    case (Inl e)
    then have "v = []" "latest' = (m, []) # latest" "res' = note_unresolved m (first_failure e res)"
      using assms(1) None by (simp_all add: newest_of_def)
    moreover have "newest_version versions m = []" by (simp add: newest_version_def Inl)
    ultimately show ?thesis using none by (simp add: Inl subset_insertI)
  next
    case (Inr vs)
    show ?thesis
    proof (cases vs)
      case Nil
      then have "v = []" "latest' = (m, []) # latest" "res' = note_unresolved m res"
        using assms(1) None Inr by (simp_all add: newest_of_def)
      moreover have "newest_version versions m = []" by (simp add: newest_version_def Inr Nil)
      ultimately show ?thesis using none by (simp add: Inr Nil subset_insertI)
    next
      case (Cons w ws)
      have "newest_of versions m (latest, res)
          = (last (w # ws), (m, last (w # ws)) # latest, res\<lparr>vsReachable := True\<rparr>)"
        using None Inr Cons by (simp add: newest_of_def Let_def)
      then have "v = last (w # ws)" "latest' = (m, v) # latest" "res' = res\<lparr>vsReachable := True\<rparr>"
        using assms(1) by simp_all
      moreover have "newest_version versions m = last (w # ws)" by (simp add: newest_version_def Inr Cons)
      moreover have "cached versions latest (res\<lparr>vsReachable := True\<rparr>)"
        by (rule cached_mono [OF assms(2)]) simp
      ultimately show ?thesis by (simp add: cached_Cons Inr Cons)
    qed
  qed
qed

lemma check_require_spec:
  assumes "check_require versions req (latest, res) = (latest', res')" "cached versions latest res"
  shows "cached versions latest' res'
    \<and> vsReports res' = vsReports res @ (if cept req then [report_of versions req] else [])
    \<and> set (vsUnresolved res') = set (vsUnresolved res) \<union> (if cept req then set (unresolved_of versions req) else {})
    \<and> (distinct (vsUnresolved res) \<longrightarrow> distinct (vsUnresolved res'))"
proof (cases "cept req")
  case False
  then show ?thesis using assms by (simp add: check_require_def cept_def)
next
  case True
  obtain r latest1 res1 where
    pre: "(case SupersededBy (rqPath req) of
             None \<Rightarrow> (new_report req, (latest, res))
           | Some replacement \<Rightarrow>
               (case newest_of versions replacement (latest, res) of
                  (newest, st') \<Rightarrow> (superseded_report req replacement newest, st'))) = (r, latest1, res1)"
    by (rule prod_cases3)
  obtain r' res2 where own: "own_versions versions req r res1 = (r', res2)" by force
  have res': "latest' = latest1" "res' = res2\<lparr>vsReports := vsReports res2 @ [r']\<rparr>"
    using assms(1) True unfolding check_require_def cept_def pre by (simp_all add: own)
  have first: "cached versions latest1 res1 \<and> vsReports res1 = vsReports res
      \<and> set (vsUnresolved res1) = set (vsUnresolved res)
          \<union> set (case SupersededBy (rqPath req) of None \<Rightarrow> []
               | Some m \<Rightarrow> (case versions m of Inr (v # vs) \<Rightarrow> [] | _ \<Rightarrow> [m]))
      \<and> (distinct (vsUnresolved res) \<longrightarrow> distinct (vsUnresolved res1))
      \<and> r = (case SupersededBy (rqPath req) of
               None \<Rightarrow> new_report req
             | Some m \<Rightarrow> superseded_report req m (newest_version versions m))"
  proof (cases "SupersededBy (rqPath req)")
    case None
    then show ?thesis using pre assms(2) by auto
  next
    case (Some m)
    obtain v where n: "newest_of versions m (latest, res) = (v, latest1, res1)"
      and r: "r = superseded_report req m v" using pre Some by (auto split: prod.splits)
    show ?thesis using newest_of_spec [OF n assms(2)] Some r by auto
  qed
  note second = own_versions_res [OF own]
  have "r' = report_of versions req"
    using first own own_versions_report [of versions req r res1 "empty_result undefined"]
    by (simp add: report_of_def)
  moreover have "cached versions latest1 res2"
    using first second by (auto intro: cached_mono)
  ultimately show ?thesis using first second True res'
    by (auto simp: unresolved_of_def cached_def split: sum.splits)
qed

lemma check_fold:
  assumes "fold (check_require versions) reqs (latest, res) = (latest', res')" "cached versions latest res"
  shows "vsReports res' = vsReports res @ map (report_of versions) (filter cept reqs)
    \<and> set (vsUnresolved res') = set (vsUnresolved res) \<union> (\<Union>r \<in> set (filter cept reqs). set (unresolved_of versions r))
    \<and> (distinct (vsUnresolved res) \<longrightarrow> distinct (vsUnresolved res'))"
  using assms
proof (induction reqs arbitrary: latest res)
  case (Cons req reqs)
  obtain latest1 res1 where one: "check_require versions req (latest, res) = (latest1, res1)" by force
  have rest: "fold (check_require versions) reqs (latest1, res1) = (latest', res')"
    using Cons.prems(1) one by simp
  note s = check_require_spec [OF one Cons.prems(2)]
  show ?case using Cons.IH [OF rest] s by auto
qed simp

lemma version_check_parts:
  "vsReports (version_check ws versions) = sort_key report_key (map (report_of versions) (filter cept (wsRequires ws)))
   \<and> set (vsUnresolved (version_check ws versions))
       = (\<Union>r \<in> set (filter cept (wsRequires ws)). set (unresolved_of versions r))
   \<and> distinct (vsUnresolved (version_check ws versions))"
proof -
  obtain latest res where f: "fold (check_require versions) (wsRequires ws) ([], empty_result ws) = (latest, res)"
    by force
  have "cached versions [] (empty_result ws)" by (simp add: cached_def)
  note parts = check_fold [OF f this]
  have "version_check ws versions = res\<lparr>vsReports := sort_key report_key (vsReports res)\<rparr>"
    by (simp add: version_check_def f)
  then show ?thesis using parts by (simp add: empty_result_def)
qed


lemma report_of_superseded:
  "vrStatus (report_of versions req) = StatusSuperseded \<longleftrightarrow> SupersededBy (rqPath req) \<noteq> None"
  by (auto simp: report_of_def own_versions_def new_report_def superseded_report_def Let_def
      split: option.splits sum.splits list.splits)

lemma report_of_replacement:
  "SupersededBy (rqPath req) = Some m \<Longrightarrow>
     vrSupersededBy (report_of versions req) = m
     \<and> vrSupersededByLatest (report_of versions req) = newest_version versions m"
  by (auto simp: report_of_def own_versions_def new_report_def superseded_report_def Let_def
      split: sum.splits list.splits)

context version_lister
begin

lemma newest_version_Nil: "newest_version versions m = [] \<longleftrightarrow> (case versions m of Inr (v # vs) \<Rightarrow> False | _ \<Rightarrow> True)"
  using newest_nonempty [of m] by (auto simp: newest_version_def split: sum.split list.split)

lemma unresolved_blank: "m \<in> set (unresolved_of versions req) \<Longrightarrow> newest_version versions m = []"
  unfolding unresolved_of_def newest_version_def
  by (cases "SupersededBy (rqPath req)"; cases "versions (rqPath req)"; cases "versions m")
    (auto split: sum.splits list.splits)

lemma blank_iff_unresolved:
  assumes "r \<in> set (vsReports (version_check ws versions))" "vrStatus r = StatusSuperseded"
  shows "vrSupersededByLatest r = [] \<longleftrightarrow> vrSupersededBy r \<in> set (vsUnresolved (version_check ws versions))"
proof -
  obtain req where req: "req \<in> set (wsRequires ws)" "cept req" "r = report_of versions req"
    using assms(1) version_check_parts [of ws versions] by auto
  then obtain m where m: "SupersededBy (rqPath req) = Some m" using assms(2) report_of_superseded by auto
  have own: "newest_version versions m = [] \<Longrightarrow> m \<in> set (unresolved_of versions req)"
    using m by (auto simp: newest_version_Nil unresolved_of_def split: sum.splits list.splits)
  have "m \<in> set (vsUnresolved (version_check ws versions)) \<longleftrightarrow> newest_version versions m = []"
    using version_check_parts [of ws versions] req own unresolved_blank by auto
  then show ?thesis using report_of_replacement [OF m, of versions] req(3) by simp
qed

end

text \<open>
  With the Go toolchain as the lister, a superseded module is reported without a version of its
  replacement exactly when the replacement is listed as unresolved: a blank column always has its
  explanation beside it.
\<close>

theorem superseded_blank_iff_unresolved:
  "list_all (\<lambda>r. if vrStatus r = StatusSuperseded
      then vrSupersededByLatest r = [] \<longleftrightarrow> vrSupersededBy r \<in> set (vsUnresolved (version_check ws (GoListVersions run)))
      else True)
     (vsReports (version_check ws (GoListVersions run)))"
  using golist.blank_iff_unresolved by (auto simp: list_all_iff)

text \<open>
  The module's own column has no such explanation: a current library for which the registry
  knows no published version is reported as current, is not listed as unresolved, and the summary
  says that all is current.
\<close>

theorem unpublished_looks_current:
  "(let res = version_check \<lparr>wsModulePath = ''pisapi'', wsGoVersion = ''1.25'', wsFiles = [],
        wsRequires = [\<lparr>rqPath = ModulePrefix @ ''n-api-db'', rqVersion = version, rqLine = 5\<rparr>],
        wsConfigs = [], wsReadCount = 0\<rparr> (GoListVersions (\<lambda>m. Inr m))
    in map vrStatus (vsReports res) = [StatusCurrent] \<and> map vrLatest (vsReports res) = [[]]
       \<and> vsUnresolved res = [] \<and> Summary res = ''1 CEPT module(s), all current'')"
proof -
  have sup: "SupersededBy (ModulePrefix @ ''n-api-db'') = None" by code_simp
  have lst: "GoListVersions (\<lambda>m. Inr m) (ModulePrefix @ ''n-api-db'') = Inr []" by code_simp
  have one: "itoa 1 = ''1''" by code_simp
  show ?thesis
    by (simp add: version_check_def check_require_def own_versions_def new_report_def empty_result_def
        sup lst Summary_def count_status_def one [simplified])
qed

end
