(* ===== verification/Spec.thy ===== *)
theory Spec
  imports Naming GoAst
begin

text \<open>
  Model of gotools/internal/spec: the resource specification a language model supplies, its
  normalisation and validation, and the names and lists the templates read from it. A spec is
  untrusted: what Normalise accepts is interpolated into Go and SQL source. A regular expression of
  the source is a predicate on byte strings; a map with constant content is an association list.
\<close>

section \<open>Resources\<close>

record Field =
  sfGo :: string
  sfJSON :: string
  sfDB :: string
  sfType :: string
  sfValidate :: string
  sfSQL :: string

record Filter =
  flGo :: string
  flForm :: string
  flType :: string
  flDB :: string

record Resource =
  srName :: string
  srPlural :: string
  srTable :: string
  srRouteBase :: string
  srFields :: "Field list"
  srOperations :: "string list"
  srListFilters :: "Filter list"
  srPaginate :: bool

definition defaultValidate :: "string \<Rightarrow> string" where
  "defaultValidate goType =
     (if goType = ''string'' then ''required,max=255''
      else if goType = ''int'' \<or> goType = ''int64'' then ''required,min=0,max=2147483647''
      else if goType = ''float64'' then ''required,min=0''
      else ''required'')"

section \<open>The closed type set\<close>

record GoType =
  gtName :: string
  gtImport :: string
  gtSQL :: string
  gtZeroTest :: "(string \<Rightarrow> string) option"
  gtAlwaysSet :: bool

definition goTypes :: "(string \<times> GoType) list" where
  "goTypes =
     [(''string'', \<lparr>gtName = ''string'', gtImport = [], gtSQL = ''varchar(255) NOT NULL'',
         gtZeroTest = Some (\<lambda>s. s @ '' != \"\"''), gtAlwaysSet = False\<rparr>),
      (''int'', \<lparr>gtName = ''int'', gtImport = [], gtSQL = ''int4 NOT NULL'',
         gtZeroTest = Some (\<lambda>s. s @ '' != 0''), gtAlwaysSet = False\<rparr>),
      (''int64'', \<lparr>gtName = ''int64'', gtImport = [], gtSQL = ''int8 NOT NULL'',
         gtZeroTest = Some (\<lambda>s. s @ '' != 0''), gtAlwaysSet = False\<rparr>),
      (''float64'', \<lparr>gtName = ''float64'', gtImport = [], gtSQL = ''numeric(12, 2) NOT NULL'',
         gtZeroTest = Some (\<lambda>s. s @ '' != 0''), gtAlwaysSet = False\<rparr>),
      (''bool'', \<lparr>gtName = ''bool'', gtImport = [], gtSQL = ''bool NOT NULL DEFAULT false'',
         gtZeroTest = None, gtAlwaysSet = True\<rparr>),
      (''time.Time'', \<lparr>gtName = ''time.Time'', gtImport = ''time'', gtSQL = ''timestamp NOT NULL'',
         gtZeroTest = Some (\<lambda>s. ''!'' @ s @ ''.IsZero()''), gtAlwaysSet = False\<rparr>)]"

text \<open>Looking up a type that is not in the map gives the zero value, as in Go.\<close>

definition no_type :: GoType where
  "no_type = \<lparr>gtName = [], gtImport = [], gtSQL = [], gtZeroTest = None, gtAlwaysSet = False\<rparr>"

definition go_type :: "string \<Rightarrow> GoType" where
  "go_type t = (case map_of goTypes t of Some g \<Rightarrow> g | None \<Rightarrow> no_type)"

definition ZeroTest :: "GoType \<Rightarrow> string \<Rightarrow> string" where
  "ZeroTest g sel = (case gtZeroTest g of None \<Rightarrow> [] | Some z \<Rightarrow> z sel)"

definition Types :: "string list" where
  "Types = sort_strings (map fst goTypes)"

definition typeAliases :: "(string \<times> string) list" where
  "typeAliases =
     [(''integer'', ''int''), (''int32'', ''int''), (''uint'', ''int64''), (''uint64'', ''int64''),
      (''float'', ''float64''), (''float32'', ''float64''), (''double'', ''float64''),
      (''number'', ''float64''), (''decimal'', ''float64''),
      (''boolean'', ''bool''), (''text'', ''string''), (''varchar'', ''string''), (''str'', ''string''),
      (''date'', ''time.Time''), (''datetime'', ''time.Time''), (''timestamp'', ''time.Time''),
      (''time'', ''time.Time'')]"

definition rejectedTypes :: "(string \<times> string) list" where
  "rejectedTypes =
     [(''decimal.Decimal'', ''float64 (or string when exact decimal arithmetic is required)''),
      (''shopspring'', ''float64''), (''uuid.UUID'', ''string''), (''json.RawMessage'', ''string''),
      (''map[string]any'', ''string (store JSON as text, or model it as a related resource)''),
      (''any'', ''an explicit type''), (''interface{}'', ''an explicit type''),
      (''[]byte'', ''string (file payloads use *multipart.FileHeader '' @ emdash @ '' see SOP.md '' @ sect
         @ ''Handler with file upload)''),
      (''null.String'', ''string''), (''sql.NullString'', ''string''), (''pgtype.Timestamp'', ''time.Time'')]"

section \<open>Issues and character classes\<close>

record Issue =
  isPath :: string
  isMessage :: string
  isFix :: string

definition Issue_of :: "string \<Rightarrow> string \<Rightarrow> string \<Rightarrow> Issue" where
  "Issue_of p m f = \<lparr>isPath = p, isMessage = m, isFix = f\<rparr>"

definition issue_string :: "Issue \<Rightarrow> string" where
  "issue_string i =
     isPath i @ '': '' @ isMessage i @ (if isFix i \<noteq> [] then '' (fix: '' @ isFix i @ '')'' else [])"

definition invalid_spec_error :: "Issue list \<Rightarrow> string" where
  "invalid_spec_error issues =
     ''invalid resource spec ('' @ itoa (length issues) @ '' problem(s)):'' @ [CHR 0x0A] @ ''  ''
     @ str_join ([CHR 0x0A] @ ''  '') (map issue_string issues)"

definition identRe :: "string \<Rightarrow> bool" where
  "identRe s \<longleftrightarrow> s \<noteq> [] \<and> is_letter (hd s) \<and> list_all (\<lambda>c. is_letter c \<or> is_digit c) s"

definition tagRe :: "string \<Rightarrow> bool" where
  "tagRe s \<longleftrightarrow> list_all (\<lambda>c. is_letter c \<or> is_digit c \<or> c \<in> set (''_,=|.:+ -'' @ [CHR 0x27])) s"

definition snakeRe :: "string \<Rightarrow> bool" where
  "snakeRe s \<longleftrightarrow> s \<noteq> [] \<and> is_lower (hd s) \<and> list_all (\<lambda>c. is_lower c \<or> is_digit c \<or> c = CHR ''_'') s"

definition sqlTypeRe :: "string \<Rightarrow> bool" where
  "sqlTypeRe s \<longleftrightarrow>
     s \<noteq> [] \<and> list_all (\<lambda>c. is_letter c \<or> is_digit c \<or> c \<in> set (''_ ,().-'' @ [CHR 0x27])) s"

definition routeRe :: "string \<Rightarrow> bool" where
  "routeRe s \<longleftrightarrow>
     s \<noteq> [] \<and> hd s = CHR ''/''
     \<and> list_all (\<lambda>w. w \<noteq> [] \<and> list_all (\<lambda>c. is_lower c \<or> is_digit c) w)
         (split_char (CHR ''/'') (map (\<lambda>c. if c = CHR ''-'' then CHR ''/'' else c) (tl s)))"

definition reservedFields :: "string list" where
  "reservedFields = [''ID'', ''CreatedAt'', ''UpdatedAt'']"

definition reservedIdents :: "string list" where
  "reservedIdents =
     [''resp'', ''repo'', ''port'', ''log'', ''domain'', ''dblib'', ''config'', ''sq'', ''pgx'', ''handler'',
      ''response'', ''bootstrap'', ''time'', ''context'', ''serverHandler'', ''serverRoute'', ''fx'',
      ''ctx'', ''sctx'', ''req'', ''err'', ''base'', ''data'', ''md'', ''ins'', ''del'', ''svc'',
      ''commandTag'', ''skip'', ''limit'', ''id'', ''res'']"

definition validOperations :: "string list" where
  "validOperations = [''create'', ''list'', ''get'', ''update'', ''delete'']"

definition indexed :: "string \<Rightarrow> nat \<Rightarrow> string" where
  "indexed s i = s @ ''['' @ itoa i @ '']''"

section \<open>Operations\<close>

definition operation_name :: "string \<Rightarrow> string" where
  "operation_name raw =
     (let op = to_lower (trim_space raw) in
      if op \<in> set [''read'', ''fetch'', ''getbyid'', ''get_by_id''] then ''get''
      else if op \<in> set [''index'', ''listall''] then ''list''
      else if op \<in> set [''add'', ''post'', ''insert''] then ''create''
      else if op \<in> set [''patch'', ''edit''] then ''update''
      else if op \<in> set [''remove'', ''destroy''] then ''delete''
      else op)"

text \<open>One turn of the loop: the operations kept so far and the issues.\<close>

definition operation_step ::
  "nat \<times> string \<Rightarrow> string list \<times> Issue list \<Rightarrow> string list \<times> Issue list" where
  "operation_step e st =
     (case (e, st) of
        ((i, raw), (out, issues)) \<Rightarrow>
          (let op = operation_name raw in
           if op \<notin> set validOperations then
             (out, issues @ [Issue_of (indexed ''operations'' i) (''unknown operation '' @ go_quote op)
                (''use one of '' @ str_join '', '' validOperations)])
           else if op \<in> set out then (out, issues)
           else (out @ [op], issues)))"

definition indexOf :: "string list \<Rightarrow> string \<Rightarrow> nat" where
  "indexOf xs s =
     (case List.find (\<lambda>(i, v). v = s) (enumerate 0 xs) of Some (i, v) \<Rightarrow> i | None \<Rightarrow> length xs)"

definition normaliseOperations :: "string list \<Rightarrow> Issue list \<Rightarrow> string list \<times> Issue list" where
  "normaliseOperations ops issues =
     (if ops = [] then (validOperations, issues)
      else (case fold operation_step (enumerate 0 ops) ([], issues) of
              (out, issues') \<Rightarrow> (sort_key (indexOf validOperations) out, issues')))"

section \<open>Fields\<close>

text \<open>The state of the loop over the fields: kept fields, names seen, issues.\<close>

record field_state =
  fsOut :: "Field list"
  fsGo :: "string list"
  fsJSON :: "string list"
  fsDB :: "string list"
  fsIssues :: "Issue list"

definition add_issue :: "string \<Rightarrow> string \<Rightarrow> string \<Rightarrow> field_state \<Rightarrow> field_state" where
  "add_issue p m f st = st\<lparr>fsIssues := fsIssues st @ [Issue_of p m f]\<rparr>"

definition resolve_alias :: "string \<Rightarrow> string" where
  "resolve_alias raw = (case map_of typeAliases (to_lower raw) of Some a \<Rightarrow> a | None \<Rightarrow> raw)"

definition name_error :: "string \<Rightarrow> string list \<Rightarrow> (string \<times> string) option" where
  "name_error go seen =
     (if go = [] then Some (''field name is empty'', ''supply a PascalCase field name'')
      else if \<not> identRe go then
        Some (''field name '' @ go_quote go @ '' is not a valid Go identifier'',
              ''use letters and digits only, starting with a letter'')
      else if go \<in> set reservedFields then
        Some (go @ '' is added by the scaffolder'',
              ''remove it '' @ emdash @ '' every domain model gets ID, CreatedAt and UpdatedAt'')
      else if go \<in> set seen then Some (''duplicate field '' @ go, ''remove the duplicate'')
      else None)"

definition type_error :: "string \<Rightarrow> string \<Rightarrow> (string \<times> string) option" where
  "type_error go given =
     (let raw = trim_space given; t = resolve_alias raw; one = ''use one of '' @ str_join '', '' Types in
      case map_of rejectedTypes raw of
        Some sub \<Rightarrow>
          Some (''type '' @ go_quote raw @ '' is not available in this template'', ''use '' @ sub)
      | None \<Rightarrow>
          if t = [] then Some (''field '' @ go @ '' has no type'', one)
          else if map_of goTypes t = None then
            Some (''type '' @ go_quote given @ '' is not on the allow-list'', one)
          else None)"

text \<open>The tags and the column of a field whose name and type are accepted.\<close>

definition fill_field :: "Field \<Rightarrow> string \<Rightarrow> Field" where
  "fill_field f go =
     (let t = resolve_alias (trim_space (sfType f)) in
      \<lparr>sfGo = go,
       sfJSON = (if trim_space (sfJSON f) = [] then Snake go else trim_space (sfJSON f)),
       sfDB = (if trim_space (sfDB f) = [] then Snake go else to_lower (trim_space (sfDB f))),
       sfType = t,
       sfValidate = (if trim_space (sfValidate f) = [] then defaultValidate t else trim_space (sfValidate f)),
       sfSQL = (if trim_space (sfSQL f) = [] then gtSQL (go_type t) else trim_space (sfSQL f))\<rparr>)"

definition tag_issues :: "string \<Rightarrow> Field \<Rightarrow> field_state \<Rightarrow> Issue list" where
  "tag_issues path nf st =
     (if \<not> snakeRe (sfJSON nf) then
        [Issue_of (path @ ''.json'') (''json tag '' @ go_quote (sfJSON nf) @ '' is not lower_snake_case'')
           (''use \"'' @ Snake (sfGo nf) @ ''\"'')] else [])
     @ (if \<not> snakeRe (sfDB nf) then
        [Issue_of (path @ ''.db'') (''db column '' @ go_quote (sfDB nf) @ '' is not lower_snake_case'')
           (''use \"'' @ Snake (sfGo nf) @ ''\"'')] else [])
     @ (if sfJSON nf \<in> set (fsJSON st) then
        [Issue_of (path @ ''.json'') (''json tag '' @ go_quote (sfJSON nf) @ '' is already used'')
           ''give the field a distinct json name''] else [])
     @ (if sfDB nf \<in> set (fsDB st) then
        [Issue_of (path @ ''.db'') (''db column '' @ go_quote (sfDB nf) @ '' is already used'')
           ''give the field a distinct column''] else [])
     @ (if \<not> tagRe (sfValidate nf) then
        [Issue_of (path @ ''.validate'')
           (''validate tag '' @ go_quote (sfValidate nf) @ '' contains characters that cannot appear in a struct tag'')
           ''use plain validator syntax, e.g. required or oneof=active closed''] else [])
     @ (if \<not> sqlTypeRe (sfSQL nf) then
        [Issue_of (path @ ''.sql'')
           (''sql type '' @ go_quote (sfSQL nf) @ '' contains characters that are not allowed in a column definition'')
           (''use a plain Postgres type such as '' @ gtSQL (go_type (sfType nf)))]
        else if str_contains (sfSQL nf) ''--'' then
        [Issue_of (path @ ''.sql'') ''sql type contains a comment marker''
           (''use a plain Postgres type such as '' @ gtSQL (go_type (sfType nf)))] else [])"

definition field_step :: "nat \<times> Field \<Rightarrow> field_state \<Rightarrow> field_state" where
  "field_step e st =
     (case e of
        (i, f) \<Rightarrow>
          (let path = indexed ''fields'' i; go = Pascal (trim_space (sfGo f)) in
           case name_error go (fsGo st) of
             Some (m, x) \<Rightarrow> add_issue (path @ ''.go'') m x st
           | None \<Rightarrow>
               (let st' = st\<lparr>fsGo := go # fsGo st\<rparr> in
                case type_error go (sfType f) of
                  Some (m, x) \<Rightarrow> add_issue (path @ ''.type'') m x st'
                | None \<Rightarrow>
                    (let nf = fill_field f go in
                     st'\<lparr>fsOut := fsOut st @ [nf], fsJSON := sfJSON nf # fsJSON st,
                         fsDB := sfDB nf # fsDB st, fsIssues := fsIssues st @ tag_issues path nf st\<rparr>))))"

definition normaliseFields :: "Field list \<Rightarrow> Issue list \<Rightarrow> Field list \<times> Issue list" where
  "normaliseFields fs issues =
     (let st = fold field_step (enumerate 0 fs)
                 \<lparr>fsOut = [], fsGo = [], fsJSON = [], fsDB = [], fsIssues = issues\<rparr>
      in (fsOut st, fsIssues st))"

section \<open>Filters\<close>

text \<open>The loop over the filters: kept filters, names seen, issues. Later fields of a name win in the map.\<close>

definition filter_step ::
  "Field list \<Rightarrow> nat \<times> Filter \<Rightarrow> Filter list \<times> string list \<times> Issue list
    \<Rightarrow> Filter list \<times> string list \<times> Issue list" where
  "filter_step fs e st =
     (case (e, st) of
        ((i, fl), (out, seen, issues)) \<Rightarrow>
          (let path = indexed ''list_filters'' i; go = Pascal (trim_space (flGo fl)) in
           case map_of (rev (map (\<lambda>f. (sfGo f, f)) fs)) go of
             None \<Rightarrow>
               (out, seen, issues @ [Issue_of (path @ ''.go'')
                  (''filter '' @ go_quote (flGo fl) @ '' does not name a declared field'')
                  (''filter on one of: '' @ str_join '', '' (map sfGo fs))])
           | Some field \<Rightarrow>
               if go \<in> set seen then (out, seen, issues)
               else if gtAlwaysSet (go_type (sfType field)) then
                 (out, go # seen, issues @ [Issue_of (path @ ''.go'')
                    (go @ '' is a '' @ sfType field @ '', which cannot be an optional filter: a false value is indistinguishable from an absent one'')
                    ''model the state as a string with oneof=, or add an explicit separate flag field''])
               else
                 (let form = (if trim_space (flForm fl) = [] then sfJSON field else trim_space (flForm fl));
                      nf = \<lparr>flGo = go, flForm = form, flType = sfType field, flDB = sfDB field\<rparr>
                  in (out @ [nf], go # seen,
                      issues @ (if \<not> snakeRe form then
                        [Issue_of (path @ ''.form'')
                           (''form parameter '' @ go_quote form @ '' is not lower_snake_case'')
                           (''use \"'' @ sfJSON field @ ''\"'')] else [])))))"

definition normaliseFilters ::
  "Filter list \<Rightarrow> Field list \<Rightarrow> string list \<Rightarrow> Issue list \<Rightarrow> Filter list \<times> Issue list" where
  "normaliseFilters filters fs ops issues =
     (if filters = [] then ([], issues)
      else (let issues' = issues @ (if ''list'' \<notin> set ops then
                  [Issue_of ''list_filters'' ''list filters were given but the list operation is not selected''
                     ''add \"list\" to operations, or drop the filters''] else [])
            in case fold (filter_step fs) (enumerate 0 filters) ([], [], issues') of
                 (out, seen, issues'') \<Rightarrow> (out, issues'')))"

section \<open>Normalise\<close>

definition name_issues :: "string \<Rightarrow> Issue list" where
  "name_issues name =
     (if name = [] then
        [Issue_of ''name'' ''resource name is empty'' ''supply a singular PascalCase name, e.g. \"Pension\"'']
      else if \<not> identRe name then
        [Issue_of ''name'' (''resource name '' @ go_quote name @ '' is not a valid Go identifier'')
           ''use letters and digits only, starting with a letter'']
      else if IsGoKeyword (to_lower name) then
        [Issue_of ''name'' (''resource name '' @ go_quote name @ '' collides with a Go keyword'')
           ''choose a different noun'']
      else if Camel name \<in> set reservedIdents then
        [Issue_of ''name''
           (''resource name '' @ go_quote name @ '' becomes the local variable '' @ go_quote (Camel name)
            @ '', which shadows an identifier the generated code uses'')
           (''choose a more specific noun, e.g. '' @ name @ ''Record'')]
      else [])"

definition spec_plural :: "Resource \<Rightarrow> string \<Rightarrow> string" where
  "spec_plural r name =
     (if trim_space (srPlural r) = [] then Plural name else Pascal (trim_space (srPlural r)))"

definition spec_table :: "Resource \<Rightarrow> string \<Rightarrow> string" where
  "spec_table r plural =
     (if trim_space (srTable r) = [] then Snake plural else to_lower (trim_space (srTable r)))"

definition spec_route :: "Resource \<Rightarrow> string \<Rightarrow> string" where
  "spec_route r plural =
     (if trim_space (srRouteBase r) = [] then ''/'' @ Kebab plural
      else ''/'' @ trim_set ''/'' (to_lower (trim_space (srRouteBase r))))"

definition header_issues :: "string \<Rightarrow> string \<Rightarrow> string \<Rightarrow> Issue list" where
  "header_issues plural table route =
     (if plural \<noteq> [] \<and> \<not> identRe plural then
        [Issue_of ''plural'' (''plural '' @ go_quote plural @ '' is not a valid Go identifier'')
           ''use letters and digits only''] else [])
     @ (if table \<noteq> [] \<and> \<not> snakeRe table then
        [Issue_of ''table'' (''table '' @ go_quote table @ '' is not lower_snake_case'')
           (''use lower_snake_case, e.g. '' @ Snake plural)] else [])
     @ (if route \<noteq> ''/'' \<and> \<not> routeRe route then
        [Issue_of ''route_base'' (''route base '' @ go_quote route @ '' is not a valid path'')
           (''use a lower-case path such as /'' @ Kebab plural)] else [])"

definition Normalise :: "Resource \<Rightarrow> Issue list + Resource" where
  "Normalise r =
     (let name = Pascal (trim_space (srName r));
          plural = spec_plural r name;
          table = spec_table r plural;
          route = spec_route r plural;
          (ops, i1) = normaliseOperations (srOperations r) (name_issues name @ header_issues plural table route);
          (fs, i2) = normaliseFields (srFields r) i1;
          (fls, i3) = normaliseFilters (srListFilters r) fs ops i2;
          issues = i3 @ (if length fs = 0 \<and> length (srFields r) = 0 then
            [Issue_of ''fields'' ''no fields declared''
               ''a resource needs at least one field besides id/created_at/updated_at''] else [])
      in if 0 < length issues then Inl issues
         else Inr \<lparr>srName = name, srPlural = plural, srTable = table, srRouteBase = route, srFields = fs,
                   srOperations = ops, srListFilters = fls, srPaginate = srPaginate r\<rparr>)"

section \<open>What Normalise accepts\<close>

definition field_ok :: "Field \<Rightarrow> bool" where
  "field_ok f \<longleftrightarrow>
     identRe (sfGo f) \<and> sfGo f \<notin> set reservedFields \<and> snakeRe (sfJSON f) \<and> snakeRe (sfDB f)
     \<and> sfType f \<in> set (map fst goTypes) \<and> tagRe (sfValidate f)
     \<and> sqlTypeRe (sfSQL f) \<and> \<not> str_contains (sfSQL f) ''--''"

definition fields_ok :: "field_state \<Rightarrow> bool" where
  "fields_ok st \<longleftrightarrow>
     list_all field_ok (fsOut st)
     \<and> distinct (map sfGo (fsOut st)) \<and> set (map sfGo (fsOut st)) \<subseteq> set (fsGo st)
     \<and> fsJSON st = rev (map sfJSON (fsOut st)) \<and> distinct (fsJSON st)
     \<and> fsDB st = rev (map sfDB (fsOut st)) \<and> distinct (fsDB st)"

lemma name_error_None: "name_error go seen = None \<Longrightarrow> identRe go \<and> go \<notin> set reservedFields \<and> go \<notin> set seen"
  by (auto simp: name_error_def split: if_splits)

lemma type_error_None: "type_error go t = None \<Longrightarrow> resolve_alias (trim_space t) \<in> set (map fst goTypes)"
  by (auto simp: type_error_def Let_def map_of_eq_None_iff split: option.splits if_splits)

lemma tag_issues_Nil:
  "tag_issues path nf st = [] \<Longrightarrow>
     snakeRe (sfJSON nf) \<and> snakeRe (sfDB nf) \<and> sfJSON nf \<notin> set (fsJSON st) \<and> sfDB nf \<notin> set (fsDB st)
     \<and> tagRe (sfValidate nf) \<and> sqlTypeRe (sfSQL nf) \<and> \<not> str_contains (sfSQL nf) ''--''"
  by (auto simp: tag_issues_def split: if_splits)

lemma fill_field_simps [simp]:
  "sfGo (fill_field f go) = go" "sfType (fill_field f go) = resolve_alias (trim_space (sfType f))"
  by (simp_all add: fill_field_def Let_def)

lemma field_step_ok:
  assumes "fsIssues (field_step (i, f) st) = []"
  shows "fsIssues st = [] \<and> length (fsOut (field_step (i, f) st)) = Suc (length (fsOut st))
    \<and> (fields_ok st \<longrightarrow> fields_ok (field_step (i, f) st))"
proof -
  let ?go = "Pascal (trim_space (sfGo f))" and ?path = "indexed ''fields'' i"
  let ?nf = "fill_field f ?go"
  have name: "name_error ?go (fsGo st) = None"
    using assms by (auto simp: field_step_def add_issue_def Let_def split: option.splits)
  have type: "type_error ?go (sfType f) = None"
    using assms name by (auto simp: field_step_def add_issue_def Let_def split: option.splits)
  have step: "field_step (i, f) st =
      st\<lparr>fsGo := ?go # fsGo st, fsOut := fsOut st @ [?nf], fsJSON := sfJSON ?nf # fsJSON st,
         fsDB := sfDB ?nf # fsDB st, fsIssues := fsIssues st @ tag_issues ?path ?nf st\<rparr>"
    using name type by (simp add: field_step_def Let_def)
  then have tags: "tag_issues ?path ?nf st = []" "fsIssues st = []" using assms by simp_all
  note ok = tag_issues_Nil [OF tags(1)] name_error_None [OF name] type_error_None [OF type]
  have "field_ok ?nf" using ok by (simp add: field_ok_def)
  then show ?thesis using ok step tags(2) by (auto simp: fields_ok_def)
qed

lemma field_fold_ok:
  assumes "fsIssues (fold field_step es st) = []"
  shows "fsIssues st = [] \<and> length (fsOut (fold field_step es st)) = length (fsOut st) + length es
    \<and> (fields_ok st \<longrightarrow> fields_ok (fold field_step es st))"
  using assms
proof (induction es arbitrary: st)
  case (Cons e es)
  obtain i f where e: "e = (i, f)" by force
  have rest: "fsIssues (fold field_step es (field_step (i, f) st)) = []" using Cons.prems e by simp
  from Cons.IH [OF rest] have "fsIssues (field_step (i, f) st) = []" by simp
  from field_step_ok [OF this] show ?case using Cons.IH [OF rest] e by simp
qed simp

lemma normaliseFields_ok:
  assumes "normaliseFields fs issues = (out, [])"
  shows "issues = [] \<and> length out = length fs \<and> list_all field_ok out
    \<and> distinct (map sfGo out) \<and> distinct (map sfJSON out) \<and> distinct (map sfDB out)"
proof -
  let ?st = "\<lparr>fsOut = [], fsGo = [], fsJSON = [], fsDB = [], fsIssues = issues\<rparr>"
  have "fsIssues (fold field_step (enumerate 0 fs) ?st) = []" "out = fsOut (fold field_step (enumerate 0 fs) ?st)"
    using assms by (simp_all add: normaliseFields_def Let_def)
  moreover have "fields_ok ?st" by (simp add: fields_ok_def)
  ultimately show ?thesis using field_fold_ok [of "enumerate 0 fs" ?st] by (auto simp: fields_ok_def)
qed

definition operations_ok :: "string list \<Rightarrow> bool" where
  "operations_ok ops \<longleftrightarrow> ops \<noteq> [] \<and> set ops \<subseteq> set validOperations \<and> distinct ops"

lemma operation_fold_ok:
  assumes "fold operation_step es (out, issues) = (out', [])"
  shows "issues = [] \<and> (set out \<subseteq> set validOperations \<and> distinct out \<longrightarrow>
           set out' \<subseteq> set validOperations \<and> distinct out' \<and> (out \<noteq> [] \<or> es \<noteq> [] \<longrightarrow> out' \<noteq> []))"
  using assms
proof (induction es arbitrary: out issues)
  case (Cons e es)
  obtain i raw where e: "e = (i, raw)" by force
  obtain o1 i1 where step: "operation_step (i, raw) (out, issues) = (o1, i1)" by force
  have "fold operation_step es (o1, i1) = (out', [])" using Cons.prems e step by simp
  note ih = Cons.IH [OF this]
  then have i1: "i1 = []" by simp
  have "issues = []" "o1 = (if operation_name raw \<in> set out then out else out @ [operation_name raw])"
    "operation_name raw \<in> set validOperations"
    using step i1 by (auto simp: operation_step_def Let_def split: if_splits)
  then show ?case using ih by (auto split: if_splits)
qed simp

lemma normaliseOperations_ok:
  assumes "normaliseOperations ops issues = (out, [])"
  shows "issues = [] \<and> operations_ok out"
proof (cases "ops = []")
  case True
  then show ?thesis using assms by (auto simp: normaliseOperations_def operations_ok_def validOperations_def)
next
  case False
  obtain o1 where f: "fold operation_step (enumerate 0 ops) ([], issues) = (o1, [])"
    and out: "out = sort_key (indexOf validOperations) o1"
    using assms False by (auto simp: normaliseOperations_def split: prod.splits)
  have "set out = set o1" "distinct out = distinct o1" using out by simp_all
  moreover from this(1) have "out = [] \<longleftrightarrow> o1 = []" by (metis set_empty)
  moreover have "enumerate 0 ops \<noteq> []" using False by (cases ops) auto
  ultimately show ?thesis using operation_fold_ok [OF f] by (simp add: operations_ok_def)
qed

definition filter_ok :: "Field list \<Rightarrow> Filter \<Rightarrow> bool" where
  "filter_ok fs fl \<longleftrightarrow>
     snakeRe (flForm fl) \<and> list_ex (\<lambda>f. sfGo f = flGo fl \<and> sfType f = flType fl \<and> sfDB f = flDB fl
       \<and> \<not> gtAlwaysSet (go_type (sfType f))) fs"

lemma filter_fold_ok:
  assumes "fold (filter_step fs) es (out, seen, issues) = (out', seen', [])"
  shows "issues = [] \<and> (list_all (filter_ok fs) out \<longrightarrow> list_all (filter_ok fs) out')"
  using assms
proof (induction es arbitrary: out seen issues)
  case (Cons e es)
  obtain i fl where e: "e = (i, fl)" by force
  obtain o1 s1 i1 where step: "filter_step fs (i, fl) (out, seen, issues) = (o1, s1, i1)"
    by (metis prod_cases3)
  have "fold (filter_step fs) es (o1, s1, i1) = (out', seen', [])" using Cons.prems e step by simp
  note ih = Cons.IH [OF this]
  then have i1: "i1 = []" by simp
  let ?go = "Pascal (trim_space (flGo fl))"
  obtain field where look: "map_of (rev (map (\<lambda>f. (sfGo f, f)) fs)) ?go = Some field"
    using step i1 by (auto simp: filter_step_def Let_def split: option.splits)
  then have "(?go, field) \<in> set (rev (map (\<lambda>f. (sfGo f, f)) fs))" by (rule map_of_SomeD)
  then have mem: "field \<in> set fs" "sfGo field = ?go" by auto
  have "issues = [] \<and> (o1 = out \<or> (\<exists>nf. o1 = out @ [nf] \<and> filter_ok fs nf))"
    using step i1 look mem
    by (auto simp: filter_step_def filter_ok_def list_ex_iff Let_def split: if_splits)
  then show ?case using ih by auto
qed simp

lemma normaliseFilters_ok:
  assumes "normaliseFilters fls fs ops issues = (out, [])"
  shows "issues = [] \<and> list_all (filter_ok fs) out \<and> (fls \<noteq> [] \<longrightarrow> ''list'' \<in> set ops)"
proof (cases "fls = []")
  case False
  define issues' where "issues' = issues @ (if ''list'' \<notin> set ops then
                  [Issue_of ''list_filters'' ''list filters were given but the list operation is not selected''
                     ''add \"list\" to operations, or drop the filters''] else [])"
  obtain seen where "fold (filter_step fs) (enumerate 0 fls) ([], [], issues') = (out, seen, [])"
    using assms False by (auto simp: normaliseFilters_def issues'_def split: prod.splits)
  from filter_fold_ok [OF this] show ?thesis using False by (auto simp: issues'_def split: if_splits)
qed (use assms in \<open>simp add: normaliseFilters_def\<close>)

definition resource_ok :: "Resource \<Rightarrow> bool" where
  "resource_ok r \<longleftrightarrow>
     identRe (srName r) \<and> \<not> IsGoKeyword (to_lower (srName r)) \<and> Camel (srName r) \<notin> set reservedIdents
     \<and> (srPlural r = [] \<or> identRe (srPlural r)) \<and> (srTable r = [] \<or> snakeRe (srTable r))
     \<and> (srRouteBase r = ''/'' \<or> routeRe (srRouteBase r))
     \<and> operations_ok (srOperations r)
     \<and> srFields r \<noteq> [] \<and> list_all field_ok (srFields r)
     \<and> distinct (map sfGo (srFields r)) \<and> distinct (map sfJSON (srFields r)) \<and> distinct (map sfDB (srFields r))
     \<and> list_all (filter_ok (srFields r)) (srListFilters r)"

lemma Normalise_resource_ok: "Normalise r = Inr r' \<Longrightarrow> resource_ok r'"
proof -
  assume n: "Normalise r = Inr r'"
  let ?name = "Pascal (trim_space (srName r))"
  let ?plural = "spec_plural r ?name"
  let ?table = "spec_table r ?plural" and ?route = "spec_route r ?plural"
  obtain ops i1 where o: "normaliseOperations (srOperations r) (name_issues ?name @ header_issues ?plural ?table ?route) = (ops, i1)"
    by force
  obtain fs i2 where f: "normaliseFields (srFields r) i1 = (fs, i2)" by force
  obtain fls i3 where l: "normaliseFilters (srListFilters r) fs ops i2 = (fls, i3)" by force
  have r': "i3 = []" "\<not> (length fs = 0 \<and> length (srFields r) = 0)"
    "r' = \<lparr>srName = ?name, srPlural = ?plural, srTable = ?table, srRouteBase = ?route, srFields = fs,
           srOperations = ops, srListFilters = fls, srPaginate = srPaginate r\<rparr>"
    using n by (auto simp: Normalise_def Let_def o f l split: if_splits)
  have 1: "i2 = []" "list_all (filter_ok fs) fls" using normaliseFilters_ok [of "srListFilters r" fs ops i2 fls] l r' by auto
  have 2: "i1 = []" "length fs = length (srFields r)" "list_all field_ok fs"
    "distinct (map sfGo fs)" "distinct (map sfJSON fs)" "distinct (map sfDB fs)"
    using normaliseFields_ok [of "srFields r" i1 fs] f 1 by auto
  have 3: "name_issues ?name = []" "header_issues ?plural ?table ?route = []" "operations_ok ops"
    using normaliseOperations_ok [of "srOperations r" _ ops] o 2 by auto
  have "identRe ?name \<and> \<not> IsGoKeyword (to_lower ?name) \<and> Camel ?name \<notin> set reservedIdents"
    using 3(1) by (auto simp: name_issues_def split: if_splits)
  moreover have "(?plural = [] \<or> identRe ?plural) \<and> (?table = [] \<or> snakeRe ?table) \<and> (?route = ''/'' \<or> routeRe ?route)"
    using 3(2) by (auto simp: header_issues_def split: if_splits)
  moreover have "fs \<noteq> []" using r'(2) 2(2) by auto
  ultimately show ?thesis using 1 2 3 by (simp add: resource_ok_def r'(3))
qed

text \<open>Every string of a resource that a template interpolates.\<close>

definition field_strings :: "Field \<Rightarrow> string list" where
  "field_strings f = [sfGo f, sfJSON f, sfDB f, sfType f, sfValidate f, sfSQL f]"

definition filter_strings :: "Filter \<Rightarrow> string list" where
  "filter_strings fl = [flGo fl, flForm fl, flType fl, flDB fl]"

definition resource_strings :: "Resource \<Rightarrow> string list" where
  "resource_strings r =
     [srName r, srPlural r, srTable r, srRouteBase r] @ srOperations r
     @ concat (map field_strings (srFields r)) @ concat (map filter_strings (srListFilters r))"

text \<open>The bytes that end a Go string or tag literal, a line, or an SQL statement.\<close>

definition escaping :: "char \<Rightarrow> bool" where
  "escaping c \<longleftrightarrow> c \<in> set [CHR 0x22, CHR 0x60, CHR 0x5C, CHR 0x0A, CHR 0x0D, CHR 0x00, CHR '';'']"

definition tame :: "string \<Rightarrow> bool" where
  "tame s \<longleftrightarrow> list_all (\<lambda>c. \<not> escaping c) s"

lemma escaping_classes: "escaping c \<Longrightarrow> \<not> is_letter c \<and> \<not> is_lower c \<and> \<not> is_digit c"
  by (auto simp: escaping_def is_letter_def is_lower_def is_upper_def is_digit_def)

lemma plain_punctuation:
  "list_all (\<lambda>c. \<not> escaping c) (''_,=|.:+ -'' @ [CHR 0x27])" "list_all (\<lambda>c. \<not> escaping c) (''_ ,().-'' @ [CHR 0x27])"
  "\<not> escaping (CHR ''_'')"
  by code_simp+

lemma tame_class:
  assumes "list_all (\<lambda>c. is_letter c \<or> is_lower c \<or> is_digit c \<or> c \<in> set p) s" "list_all (\<lambda>c. \<not> escaping c) p"
  shows "tame s"
  using assms unfolding tame_def list_all_iff by (blast dest: escaping_classes)

lemma tame_ident: "identRe s \<Longrightarrow> tame s"
  by (rule tame_class [of "[]"]) (auto simp: identRe_def list_all_iff)

lemma tame_snake: "snakeRe s \<Longrightarrow> tame s"
  by (rule tame_class [of "''_''"]) (auto simp: snakeRe_def list_all_iff plain_punctuation)

lemma tame_tag: "tagRe s \<Longrightarrow> tame s"
  by (rule tame_class [OF _ plain_punctuation(1)]) (simp only: tagRe_def list_all_iff, blast)

lemma tame_sql: "sqlTypeRe s \<Longrightarrow> tame s"
  by (rule tame_class [OF _ plain_punctuation(2)]) (simp only: sqlTypeRe_def list_all_iff, blast)

lemmas tame_intros = tame_ident tame_snake tame_tag tame_sql

lemma tame_types: "t \<in> set (map fst goTypes) \<Longrightarrow> tame t"
  by (auto simp: goTypes_def tame_def escaping_def)

lemma tame_operations: "op \<in> set validOperations \<Longrightarrow> tame op"
  by (auto simp: validOperations_def tame_def escaping_def)

lemma split_char_chars: "c \<in> set s \<Longrightarrow> c \<noteq> x \<Longrightarrow> \<exists>w \<in> set (split_char x s). c \<in> set w"
proof (induction s)
  case (Cons d s)
  obtain w ws where e: "split_char x s = w # ws" by (cases "split_char x s") auto
  show ?case using Cons e by auto
qed simp

lemma tame_route: "routeRe s \<Longrightarrow> tame s"
proof -
  assume r: "routeRe s"
  let ?t = "map (\<lambda>c. if c = CHR ''-'' then CHR ''/'' else c) (tl s)"
  have "\<not> escaping c" if "c \<in> set s" for c
  proof (cases "c = CHR ''/'' \<or> c = CHR ''-''")
    case True
    then show ?thesis by (auto simp: escaping_def)
  next
    case False
    have "c \<in> set (tl s)" using that False r by (cases s) (auto simp: routeRe_def)
    then have "c \<in> set ?t" using False by force
    then obtain w where "w \<in> set (split_char (CHR ''/'') ?t)" "c \<in> set w"
      using split_char_chars [of c ?t "CHR ''/''"] False by auto
    then have "is_lower c \<or> is_digit c" using r by (auto simp: routeRe_def list_all_iff)
    then show ?thesis using escaping_classes by blast
  qed
  then show ?thesis by (simp add: tame_def list_all_iff)
qed

lemma resource_ok_tame: "resource_ok r \<Longrightarrow> list_all tame (resource_strings r)"
proof -
  assume ok: "resource_ok r"
  have "list_all tame (field_strings f)" if "f \<in> set (srFields r)" for f
  proof -
    have "field_ok f" using ok that by (auto simp: resource_ok_def list_all_iff)
    moreover from this have "tame (sfType f)" by (intro tame_types) (simp only: field_ok_def)
    ultimately show ?thesis by (simp add: field_ok_def field_strings_def tame_intros)
  qed
  moreover have "list_all tame (filter_strings fl)" if fl: "fl \<in> set (srListFilters r)" for fl
  proof -
    obtain f where "f \<in> set (srFields r)" "sfGo f = flGo fl" "sfType f = flType fl" "sfDB f = flDB fl" "snakeRe (flForm fl)"
    proof -
      have "filter_ok (srFields r) fl" using ok fl by (simp add: resource_ok_def list_all_iff)
      then obtain g where "g \<in> set (srFields r)" "sfGo g = flGo fl" "sfType g = flType fl" "sfDB g = flDB fl" "snakeRe (flForm fl)"
        by (auto simp: filter_ok_def list_ex_iff)
      then show thesis by (rule that)
    qed
    moreover have ok_f: "field_ok f" using ok calculation(1) by (auto simp: resource_ok_def list_all_iff)
    moreover have "tame (sfType f)" using ok_f by (intro tame_types) (simp only: field_ok_def)
    moreover have "tame (sfGo f)" "tame (sfDB f)" using ok_f by (simp_all add: field_ok_def tame_intros)
    ultimately show ?thesis by (simp add: filter_strings_def tame_intros)
  qed
  moreover have "list_all tame [srName r, srPlural r, srTable r, srRouteBase r]"
    using ok by (auto simp: resource_ok_def intro: tame_intros tame_route) (simp_all add: tame_def escaping_def)
  moreover have "list_all tame (srOperations r)"
    using ok by (auto simp: resource_ok_def operations_ok_def list_all_iff intro: tame_operations)
  ultimately show ?thesis by (auto simp: resource_strings_def list_all_iff)
qed


end
