(* ===== verification/SpecView.thy ===== *)
theory SpecView
  imports Spec
begin

text \<open>
  Model of gotools/internal/spec/view.go: the names, column lists, import decisions and parameter
  lists the templates and the generator read from a resource, and what they are worth on the specs
  that Normalise accepts.
\<close>

section \<open>Derived names\<close>

definition TimestampLayout_view :: string where
  "TimestampLayout_view = ''2006-01-02 15:04:05''"

definition res_Has :: "Resource \<Rightarrow> string \<Rightarrow> bool" where
  "res_Has r op \<longleftrightarrow> op \<in> set (srOperations r)"

definition RepoType :: "Resource \<Rightarrow> string" where
  "RepoType r = srName r @ ''Repository''"

definition HandlerType :: "Resource \<Rightarrow> string" where
  "HandlerType r = srName r @ ''Handler''"

definition FileStem :: "Resource \<Rightarrow> string" where
  "FileStem r = Snake (srName r)"

definition TableFileStem :: "Resource \<Rightarrow> string" where
  "TableFileStem r = Snake (srPlural r)"

definition CreateReq :: "Resource \<Rightarrow> string" where
  "CreateReq r = ''Create'' @ srName r @ ''Request''"

definition UpdateReq :: "Resource \<Rightarrow> string" where
  "UpdateReq r = ''Update'' @ srName r @ ''Request''"

definition IDUri :: "Resource \<Rightarrow> string" where
  "IDUri r = srName r @ ''IDUri''"

definition ListParams :: "Resource \<Rightarrow> string" where
  "ListParams r = ''List'' @ srPlural r @ ''Params''"

definition UseListParams :: "Resource \<Rightarrow> bool" where
  "UseListParams r \<longleftrightarrow> res_Has r ''list'' \<and> (srListFilters r \<noteq> [] \<or> srPaginate r)"

definition NeedsManualListValidate :: "Resource \<Rightarrow> bool" where
  "NeedsManualListValidate r \<longleftrightarrow> res_Has r ''list'' \<and> length (srListFilters r) = 0"

section \<open>Columns\<close>

definition SelectColumns :: "Resource \<Rightarrow> string list" where
  "SelectColumns r = ''id'' # map sfDB (srFields r) @ [''created_at'', ''updated_at'']"

definition quoteJoin :: "string list \<Rightarrow> string" where
  "quoteJoin cols = str_join '', '' (map (\<lambda>c. [CHR 0x22] @ c @ [CHR 0x22]) cols)"

definition QuotedSelectColumns :: "Resource \<Rightarrow> string" where
  "QuotedSelectColumns r = quoteJoin (SelectColumns r)"

definition InsertColumns :: "Resource \<Rightarrow> string list" where
  "InsertColumns r = map sfDB (srFields r)"

definition QuotedInsertColumns :: "Resource \<Rightarrow> string" where
  "QuotedInsertColumns r = quoteJoin (InsertColumns r)"

definition ReturningColumns :: "Resource \<Rightarrow> string" where
  "ReturningColumns r = str_join '', '' (SelectColumns r)"

definition NeedsIDUri :: "Resource \<Rightarrow> bool" where
  "NeedsIDUri r \<longleftrightarrow> res_Has r ''get'' \<or> res_Has r ''delete''"

section \<open>Import decisions\<close>

definition NeedsSquirrel :: "Resource \<Rightarrow> bool" where
  "NeedsSquirrel r \<longleftrightarrow> res_Has r ''get'' \<or> res_Has r ''update'' \<or> res_Has r ''delete'' \<or> srListFilters r \<noteq> []"

definition NeedsPgx :: "Resource \<Rightarrow> bool" where
  "NeedsPgx r \<longleftrightarrow> srOperations r \<noteq> []"

definition IsTime :: "Field \<Rightarrow> bool" where
  "IsTime f \<longleftrightarrow> gtImport (go_type (sfType f)) = ''time''"

definition HasTimeField :: "Resource \<Rightarrow> bool" where
  "HasTimeField r \<longleftrightarrow> list_ex (\<lambda>f. gtImport (go_type (sfType f)) = ''time'') (srFields r)"

definition NeedsTimeInRequest :: "Resource \<Rightarrow> bool" where
  "NeedsTimeInRequest r \<longleftrightarrow> HasTimeField r \<and> (res_Has r ''create'' \<or> res_Has r ''update'')"

definition NeedsTimeInRepo :: "Resource \<Rightarrow> bool" where
  "NeedsTimeInRepo r \<longleftrightarrow> HasTimeField r \<and> (res_Has r ''create'' \<or> res_Has r ''update'')"

definition NeedsTimeInHandler :: "Resource \<Rightarrow> bool" where
  "NeedsTimeInHandler r \<longleftrightarrow> HasTimeField r \<and> res_Has r ''update''"

section \<open>Parameters\<close>

record Param =
  paName :: string
  paType :: string
  paField :: Field

definition CreateParams :: "Resource \<Rightarrow> Param list" where
  "CreateParams r =
     map (\<lambda>f. \<lparr>paName = Camel (sfGo f), paType = gtName (go_type (sfType f)), paField = f\<rparr>) (srFields r)"

definition UpdateParams :: "Resource \<Rightarrow> Param list" where
  "UpdateParams r =
     map (\<lambda>f. \<lparr>paName = Camel (sfGo f), paType = ''*'' @ gtName (go_type (sfType f)), paField = f\<rparr>) (srFields r)"

definition param_ZeroTest :: "Param \<Rightarrow> string \<Rightarrow> string" where
  "param_ZeroTest p pre = ZeroTest (go_type (sfType (paField p))) (pre @ sfGo (paField p))"

definition param_AlwaysSet :: "Param \<Rightarrow> bool" where
  "param_AlwaysSet p = gtAlwaysSet (go_type (sfType (paField p)))"

definition RespType :: "Field \<Rightarrow> string" where
  "RespType f = (if IsTime f then ''string'' else gtName (go_type (sfType f)))"

definition UpdateValidate :: "Field \<Rightarrow> string" where
  "UpdateValidate f =
     str_join '',''
       (''omitempty'' # filter (\<lambda>p. p \<noteq> [] \<and> p \<noteq> ''required'' \<and> p \<noteq> ''omitempty'')
          (map trim_space (split_char (CHR '','') (sfValidate f))))"

text \<open>SignatureOf's loop: a acc is closed when the next parameter has another type.\<close>

fun signature_groups :: "string list \<Rightarrow> Param list \<Rightarrow> (string list \<times> string) list" where
  "signature_groups acc [] = []"
| "signature_groups acc (p # ps) =
     (let acc' = acc @ [paName p] in
      if ps = [] \<or> paType (hd ps) \<noteq> paType p then (acc', paType p) # signature_groups [] ps
      else signature_groups acc' ps)"

definition SignatureOf :: "Param list \<Rightarrow> string" where
  "SignatureOf ps =
     str_join '', '' (map (\<lambda>(ns, t). str_join '', '' ns @ '' '' @ t) (signature_groups [] ps))"

definition ArgsOf :: "Param list \<Rightarrow> string" where
  "ArgsOf ps = str_join '', '' (map paName ps)"

section \<open>Facts\<close>

text \<open>The constraints a validate tag lists.\<close>

definition tag_parts :: "string \<Rightarrow> string list" where
  "tag_parts v = filter (\<lambda>p. p \<noteq> []) (map trim_space (split_char (CHR '','') v))"

lemma comma_free_trim: "CHR '','' \<notin> set s \<Longrightarrow> CHR '','' \<notin> set (trim_space s)"
  using set_trim_by [of is_space s] by auto

lemma tag_parts_join:
  assumes "list_all (\<lambda>p. p \<noteq> [] \<and> trim_space p = p \<and> CHR '','' \<notin> set p) ps" "ps \<noteq> []"
  shows "tag_parts (str_join '','' ps) = ps"
proof -
  have "split_char (CHR '','') (str_join [CHR '',''] ps) = ps"
    using assms by (intro split_join_char) (auto simp: list_all_iff)
  then show ?thesis using assms(1) by (simp add: tag_parts_def list_all_iff map_idI)
qed

text \<open>
  The tag of an update keeps every constraint of the field but required: its parts are omitempty
  and then the parts of the field's tag without required and omitempty, in their order.
\<close>

theorem update_validate_keeps_constraints:
  "tag_parts (UpdateValidate f)
     = ''omitempty'' # filter (\<lambda>p. p \<noteq> ''required'' \<and> p \<noteq> ''omitempty'') (tag_parts (sfValidate f))"
proof -
  let ?ps = "filter (\<lambda>p. p \<noteq> [] \<and> p \<noteq> ''required'' \<and> p \<noteq> ''omitempty'')
          (map trim_space (split_char (CHR '','') (sfValidate f)))"
  have "trim_space ''omitempty'' = ''omitempty'' \<and> CHR '','' \<notin> set ''omitempty''" by code_simp
  then have "list_all (\<lambda>p. p \<noteq> [] \<and> trim_space p = p \<and> CHR '','' \<notin> set p) (''omitempty'' # ?ps)"
    by (auto simp: list_all_iff comma_free_trim dest: split_char_free)
  from tag_parts_join [OF this] have "tag_parts (UpdateValidate f) = ''omitempty'' # ?ps"
    by (simp add: UpdateValidate_def)
  moreover have "?ps = filter (\<lambda>p. p \<noteq> ''required'' \<and> p \<noteq> ''omitempty'') (tag_parts (sfValidate f))"
    by (simp add: tag_parts_def conj_commute)
  ultimately show ?thesis by simp
qed

lemma signature_groups_expand:
  "concat (map (\<lambda>(ns, t). map (\<lambda>n. (n, t)) ns) (signature_groups acc ps))
     = (case ps of [] \<Rightarrow> [] | p # _ \<Rightarrow> map (\<lambda>n. (n, paType p)) acc) @ map (\<lambda>p. (paName p, paType p)) ps"
proof (induction acc ps rule: signature_groups.induct)
  case (2 acc p ps)
  show ?case
  proof (cases "ps = [] \<or> paType (hd ps) \<noteq> paType p")
    case True
    then show ?thesis using 2(1) [OF refl True] by (cases ps) (auto simp: Let_def)
  next
    case False
    then show ?thesis using 2(2) [OF refl False] by (cases ps) (auto simp: Let_def)
  qed
qed simp

lemma signature_groups_hd: "ps \<noteq> [] \<Longrightarrow> \<exists>ns gs. signature_groups acc ps = (ns, paType (hd ps)) # gs"
proof (induction acc ps rule: signature_groups.induct)
  case (2 acc p ps)
  then show ?case by (cases "ps = [] \<or> paType (hd ps) \<noteq> paType p") (auto simp: Let_def)
qed simp

lemma signature_groups_minimal: "distinct_adj (map snd (signature_groups acc ps))"
proof (induction acc ps rule: signature_groups.induct)
  case (2 acc p ps)
  show ?case
  proof (cases "ps = [] \<or> paType (hd ps) \<noteq> paType p")
    case True
    then show ?thesis using 2(1) [OF refl True] signature_groups_hd [of ps "[]"]
      by (cases "ps = []") (auto simp: Let_def)
  next
    case False
    then show ?thesis using 2(2) [OF refl False] by (simp add: Let_def)
  qed
qed simp

text \<open>
  A rendered parameter list declares every parameter, in order, with its own type, and groups as
  much as it can: no two neighbouring groups have the same type.
\<close>

theorem signature_declares_all:
  "concat (map (\<lambda>(ns, t). map (\<lambda>n. (n, t)) ns) (signature_groups [] ps)) = map (\<lambda>p. (paName p, paType p)) ps
   \<and> distinct_adj (map snd (signature_groups [] ps))
   \<and> SignatureOf ps = str_join '', '' (map (\<lambda>(ns, t). str_join '', '' ns @ '' '' @ t) (signature_groups [] ps))"
  using signature_groups_expand [of "[]" ps] signature_groups_minimal [of "[]" ps]
  by (cases ps) (simp_all add: SignatureOf_def)

section \<open>What Normalise lets through\<close>

definition spec_of :: "string \<Rightarrow> Field \<Rightarrow> Resource" where
  "spec_of plural f =
     \<lparr>srName = ''Pension'', srPlural = plural, srTable = [], srRouteBase = [], srFields = [f],
      srOperations = [''create''], srListFilters = [], srPaginate = False\<rparr>"

definition field_of :: "string \<Rightarrow> string \<Rightarrow> Field" where
  "field_of go db =
     \<lparr>sfGo = go, sfJSON = [], sfDB = db, sfType = ''string'', sfValidate = [], sfSQL = []\<rparr>"

lemma Normalise_parts:
  assumes "Pascal (trim_space (srName r)) = name" "spec_plural r name = plural" "spec_table r plural = table"
    "spec_route r plural = route" "name_issues name = []" "header_issues plural table route = []"
    "normaliseOperations (srOperations r) [] = (ops, [])" "normaliseFields (srFields r) [] = (fs, [])"
    "srListFilters r = []" "fs \<noteq> []"
  shows "Normalise r = Inr \<lparr>srName = name, srPlural = plural, srTable = table, srRouteBase = route,
    srFields = fs, srOperations = ops, srListFilters = [], srPaginate = srPaginate r\<rparr>"
  using assms by (simp add: Normalise_def normaliseFilters_def)

lemma pension_name: "Pascal (trim_space ''Pension'') = ''Pension''" "name_issues ''Pension'' = []"
    "normaliseOperations [''create''] [] = ([''create''], [])"
  by code_simp+

definition pension_plain :: "Field \<Rightarrow> Resource" where
  "pension_plain f =
     \<lparr>srName = ''Pension'', srPlural = ''Pensions'', srTable = ''pensions'', srRouteBase = ''/pensions'',
      srFields = [f], srOperations = [''create''], srListFilters = [], srPaginate = False\<rparr>"

lemma pension_plural: "spec_plural (spec_of [] f) ''Pension'' = ''Pensions''"
proof -
  have "Plural ''Pension'' = ''Pensions''" by code_simp
  then show ?thesis by (simp add: spec_plural_def spec_of_def)
qed

lemma pension_header:
  "Snake ''Pensions'' = ''pensions''" "Kebab ''Pensions'' = ''pensions''"
  "header_issues ''Pensions'' ''pensions'' ''/pensions'' = []"
  by code_simp+

lemma Normalise_pension:
  "normaliseFields [f] [] = ([f'], []) \<Longrightarrow> Normalise (spec_of [] f) = Inr (pension_plain f')"
  by (subst Normalise_parts [OF _ pension_plural])
    (simp_all add: spec_of_def pension_plain_def pension_name pension_header spec_table_def spec_route_def)

text \<open>
  Three specs Normalise accepts although what is generated from them is broken. A plural without
  a letter leaves the plural and the table name empty and the route a bare slash; a field may claim
  the column id, which the scaffolder adds itself; and a field may be called Ctx, whose parameter is
  the context parameter's name.
\<close>

theorem normalise_gaps:
  "(case Normalise (spec_of ''-'' (field_of ''Amount'' [])) of
      Inl _ \<Rightarrow> False | Inr r \<Rightarrow> srPlural r = [] \<and> srTable r = [] \<and> srRouteBase r = ''/'')
   \<and> (case Normalise (spec_of [] (field_of ''Number'' ''id'')) of
      Inl _ \<Rightarrow> False | Inr r \<Rightarrow> \<not> distinct (SelectColumns r))
   \<and> (case Normalise (spec_of [] (field_of ''Ctx'' [])) of
      Inl _ \<Rightarrow> False | Inr r \<Rightarrow> map paName (CreateParams r) = [''ctx''] \<and> ''ctx'' \<in> set reservedIdents)"
proof (intro conjI)
  have p: "Pascal ''-'' = []" "Snake [] = []" "Kebab [] = []" "trim_space ''-'' = ''-''"
    "header_issues [] [] ''/'' = []" by code_simp+
  have f: "normaliseFields [field_of ''Amount'' []] [] = ([fill_field (field_of ''Amount'' []) ''Amount''], [])"
    by code_simp
  show "case Normalise (spec_of ''-'' (field_of ''Amount'' [])) of
      Inl _ \<Rightarrow> False | Inr r \<Rightarrow> srPlural r = [] \<and> srTable r = [] \<and> srRouteBase r = ''/''"
    by (subst Normalise_parts [where name = "''Pension''" and plural = "[]" and table = "[]" and route = "''/''"
          and fs = "[fill_field (field_of ''Amount'' []) ''Amount'']" and ops = "[''create'']"])
      (simp_all add: spec_of_def pension_name spec_plural_def spec_table_def spec_route_def p f)
next
  have "normaliseFields [field_of ''Number'' ''id''] [] = ([fill_field (field_of ''Number'' ''id'') ''Number''], [])"
    "sfDB (fill_field (field_of ''Number'' ''id'') ''Number'') = ''id''" by code_simp+
  then show "case Normalise (spec_of [] (field_of ''Number'' ''id'')) of
      Inl _ \<Rightarrow> False | Inr r \<Rightarrow> \<not> distinct (SelectColumns r)"
    by (simp add: Normalise_pension pension_plain_def SelectColumns_def)
next
  have "normaliseFields [field_of ''Ctx'' []] [] = ([fill_field (field_of ''Ctx'' []) ''Ctx''], [])"
    "Camel ''Ctx'' = ''ctx''" by code_simp+
  then show "case Normalise (spec_of [] (field_of ''Ctx'' [])) of
      Inl _ \<Rightarrow> False | Inr r \<Rightarrow> map paName (CreateParams r) = [''ctx''] \<and> ''ctx'' \<in> set reservedIdents"
    by (simp add: Normalise_pension pension_plain_def CreateParams_def reservedIdents_def)
qed

end
