(* ===== verification/Scaffold.thy ===== *)
theory Scaffold
  imports SpecView Fxwire Workspace
begin

text \<open>
  Model of gotools/internal/scaffold: turning a specification into files and writing them. The
  templates are executed by text/template, a parameter \<open>render\<close> from a template's name and the data it
  gets to text or an error; the parser and formatter are those of Gopatch. The file tree Apply
  writes to is a map from paths to contents, with what os.MkdirAll and os.WriteFile answer as
  parameters; the tree RepoEOL samples is one of the loader's directory entries.
\<close>

section \<open>Results\<close>

datatype Action = ActionCreate | ActionModify

record sfile =
  sfPath :: string
  sfAction :: Action
  sfContent :: string
  sfBytes :: nat

record sresult =
  srFiles :: "sfile list"
  srNotes :: "string list"
  srModule :: string

definition add_file :: "string \<Rightarrow> Action \<Rightarrow> string \<Rightarrow> sresult \<Rightarrow> sresult" where
  "add_file path action content res =
     res\<lparr>srFiles := srFiles res @ [\<lparr>sfPath = path, sfAction = action, sfContent = content, sfBytes = length content\<rparr>]\<rparr>"

definition add_note :: "string \<Rightarrow> sresult \<Rightarrow> sresult" where
  "add_note n res = res\<lparr>srNotes := srNotes res @ [n]\<rparr>"

definition result_Paths :: "sresult \<Rightarrow> string list" where
  "result_Paths res = map sfPath (srFiles res)"

section \<open>Writing\<close>

type_synonym tree = "string \<Rightarrow> string option"

datatype apply_error = ExistsError "string list" | WriteError string

definition exists_error_text :: "string list \<Rightarrow> string" where
  "exists_error_text ps =
     ''refusing to overwrite existing file(s): '' @ str_join '', '' ps @ [CHR 0x0A]
     @ ''the resource may already be scaffolded '' @ emdash @ '' check the paths, or remove them first''"

definition clashes :: "tree \<Rightarrow> sresult \<Rightarrow> string list" where
  "clashes fs res =
     map sfPath (filter (\<lambda>f. sfAction f = ActionCreate \<and> fs (sfPath f) \<noteq> None) (srFiles res))"

definition file_bytes :: "EOL \<Rightarrow> sfile \<Rightarrow> string" where
  "file_bytes eol f =
     (if sfAction f = ActionCreate then ApplyEOL (ToLF (sfContent f)) eol else sfContent f)"

fun write_files ::
  "(string \<Rightarrow> string option) \<Rightarrow> (string \<Rightarrow> string option) \<Rightarrow> EOL \<Rightarrow> sfile list \<Rightarrow> tree
    \<Rightarrow> apply_error option \<times> tree" where
  "write_files mkdir write eol [] fs = (None, fs)"
| "write_files mkdir write eol (f # files) fs =
     (case mkdir (sfPath f) of
        Some e \<Rightarrow> (Some (WriteError (''create '' @ sfPath f @ '': '' @ e)), fs)
      | None \<Rightarrow>
          (case write (sfPath f) of
             Some e \<Rightarrow> (Some (WriteError (''write '' @ sfPath f @ '': '' @ e)), fs)
           | None \<Rightarrow> write_files mkdir write eol files (fs(sfPath f \<mapsto> file_bytes eol f))))"

definition scaffold_Apply ::
  "(string \<Rightarrow> string option) \<Rightarrow> (string \<Rightarrow> string option) \<Rightarrow> EOL \<Rightarrow> sresult \<Rightarrow> tree
    \<Rightarrow> apply_error option \<times> tree" where
  "scaffold_Apply mkdir write eol res fs =
     (if clashes fs res \<noteq> [] then (Some (ExistsError (sort_strings (clashes fs res))), fs)
      else write_files mkdir write eol (srFiles res) fs)"

section \<open>The repository's line ending\<close>

definition eolSample :: nat where "eolSample = 12"

definition skipped_dirs :: "string list" where
  "skipped_dirs = [''.git'', ''vendor'', ''node_modules'', ''bin'', ''testdata'']"

text \<open>One file: its first 4096 bytes count, if it is a Go file that can be read.\<close>

definition sample_file :: "string \<Rightarrow> string option \<Rightarrow> nat \<times> nat \<times> nat \<Rightarrow> nat \<times> nat \<times> nat" where
  "sample_file name content st =
     (case st of
        (crlf, lf, seen) \<Rightarrow>
          if eolSample \<le> seen \<or> \<not> has_suffix name ''.go'' then st
          else (case content of
                  None \<Rightarrow> st
                | Some s \<Rightarrow>
                    (let head = take 4096 s; c = count_crlf head in
                     (crlf + c, lf + (count_list head (CHR 0x0A) - c), seen + 1))))"

fun sample_entry :: "entry \<Rightarrow> nat \<times> nat \<times> nat \<Rightarrow> nat \<times> nat \<times> nat"
  and sample_entries :: "entry list \<Rightarrow> nat \<times> nat \<times> nat \<Rightarrow> nat \<times> nat \<times> nat" where
  "sample_entry (EFile name content) st = sample_file name content st"
| "sample_entry (EDir name None) st = st"
| "sample_entry (EDir name (Some es)) st = (if name \<in> set skipped_dirs then st else sample_entries es st)"
| "sample_entries [] st = st"
| "sample_entries (e # es) st = sample_entries es (sample_entry e st)"

definition RepoEOL :: "entry \<Rightarrow> EOL" where
  "RepoEOL root = (case sample_entry root (0, 0, 0) of (crlf, lf, seen) \<Rightarrow> if lf < crlf then CRLF else LF)"

section \<open>Projects\<close>

record Versions =
  veSquirrel :: string
  vePgx :: string
  veConfig :: string
  veBootstrapper :: string
  veDBLib :: string
  veLog :: string
  veServer :: string
  veValidation :: string
  veFx :: string

definition DefaultVersions :: Versions where
  "DefaultVersions =
     \<lparr>veSquirrel = ''v1.5.4'', vePgx = ''v5.7.6'', veConfig = ''v0.0.17'', veBootstrapper = ''v0.0.14'',
      veDBLib = ''v0.0.1'', veLog = ''v0.0.1'', veServer = ''v0.0.17'', veValidation = ''v0.0.3'',
      veFx = ''v1.24.0''\<rparr>"

definition no_versions :: Versions where
  "no_versions =
     \<lparr>veSquirrel = [], vePgx = [], veConfig = [], veBootstrapper = [], veDBLib = [], veLog = [],
      veServer = [], veValidation = [], veFx = []\<rparr>"

definition Environments :: "string list" where
  "Environments = [''dev'', ''test'', ''sit'', ''staging'', ''training'', ''prod'']"

record Project =
  pjModule :: string
  pjAppName :: string
  pjTitle :: string
  pjDescription :: string
  pjGoVersion :: string
  pjAddr :: string
  pjEnv :: string
  pjVer :: Versions

definition BinaryName :: "Project \<Rightarrow> string" where
  "BinaryName p =
     (case last_index_char (pjModule p) (CHR ''/'') of Some i \<Rightarrow> drop (i + 1) (pjModule p) | None \<Rightarrow> pjModule p)"

definition modulePathRe :: "string \<Rightarrow> bool" where
  "modulePathRe s \<longleftrightarrow>
     s \<noteq> [] \<and> (is_letter (hd s) \<or> is_digit (hd s))
     \<and> list_all (\<lambda>c. is_letter c \<or> is_digit c \<or> c \<in> set ''._~/-'') s"

definition default_title :: "string \<Rightarrow> string" where
  "default_title b = (let t = Title b in if has_suffix (to_upper t) ''API'' then t else t @ '' API'')"

definition project_Normalise :: "Project \<Rightarrow> Issue list + Project" where
  "project_Normalise p =
     (let m = trim_set ''/'' (trim_space (pjModule p)); out = p\<lparr>pjModule := m\<rparr>; b = BinaryName out in
      if m = [] then
        Inl [Issue_of ''module'' ''module path is empty''
               ''supply a module path, e.g. gitlab.cept.gov.in/it-2.0/pension-api'']
      else if \<not> modulePathRe m then
        Inl [Issue_of ''module''
               (''module path '' @ go_quote (pjModule p) @ '' contains characters that are not valid in a Go module path'')
               ''use letters, digits, dots, dashes, underscores and slashes only'']
      else Inr (out\<lparr>
        pjAppName := (if pjAppName p = [] then Kebab b else pjAppName p),
        pjTitle := (if pjTitle p = [] then default_title b else pjTitle p),
        pjDescription := (if pjDescription p = [] then ''IT 2.0 service scaffolded from the n-api-template contract.''
                          else pjDescription p),
        pjGoVersion := (if pjGoVersion p = [] then ''1.25.0'' else pjGoVersion p),
        pjAddr := (let a = (if pjAddr p = [] then '':8080'' else pjAddr p) in
                   if has_prefix a '':'' then a else '':'' @ a),
        pjVer := (if pjVer p = no_versions then DefaultVersions else pjVer p)\<rparr>))"

section \<open>Rendering\<close>

record tdata =
  tdR :: Resource
  tdModule :: string
  tdLayout :: string
  tdImports :: string
  tdP :: Project

type_synonym renderer = "string \<Rightarrow> tdata \<Rightarrow> string + string"

definition render_named :: "renderer \<Rightarrow> string \<Rightarrow> tdata \<Rightarrow> string + string" where
  "render_named render name d =
     (case render name d of Inl e \<Rightarrow> Inl (''render '' @ name @ '': '' @ e) | Inr s \<Rightarrow> Inr s)"

definition renderGo :: "renderer \<Rightarrow> formatter \<Rightarrow> string \<Rightarrow> tdata \<Rightarrow> string + string" where
  "renderGo render fmt name d =
     (case render_named render name d of
        Inl e \<Rightarrow> Inl e
      | Inr raw \<Rightarrow>
          (case Format fmt raw of
             Inl e \<Rightarrow> Inl (''template '' @ name @ '': '' @ e)
           | Inr s \<Rightarrow> Inr s))"

definition selectorArgs :: "string \<Rightarrow> Param list \<Rightarrow> string" where
  "selectorArgs pre ps = str_join '', '' (map (\<lambda>p. pre @ sfGo (paField p)) ps)"

text \<open>An import: alias and path.\<close>

definition import_line :: "string \<times> string \<Rightarrow> string" where
  "import_line im =
     [CHR 0x09] @ (if fst im \<noteq> [] then fst im @ '' '' else []) @ [CHR 0x22] @ snd im @ [CHR 0x22]"

definition import_group :: "string \<Rightarrow> (string \<times> string) list \<Rightarrow> ImportGroup \<Rightarrow> string list" where
  "import_group module imps g =
     sort_strings (map import_line (filter (\<lambda>im. snd im \<noteq> [] \<and> ClassifyImport (snd im) module = g) imps))"

definition countLines :: "string list \<Rightarrow> nat" where
  "countLines gs = sum_list (map (\<lambda>g. count_list g (CHR 0x0A) + 1) gs)"

definition renderImports :: "string \<Rightarrow> (string \<times> string) list \<Rightarrow> string" where
  "renderImports module imps =
     (let groups = filter (\<lambda>g. g \<noteq> []) (map (import_group module imps) [GroupStd, GroupModule, GroupExternal]);
          rendered = map (str_join [CHR 0x0A]) groups
      in if rendered = [] then []
         else if countLines rendered = 1 then ''import '' @ trim_space (hd rendered)
         else ''import ('' @ [CHR 0x0A] @ str_join [CHR 0x0A, CHR 0x0A] rendered @ [CHR 0x0A] @ '')'')"

section \<open>A resource\<close>

definition pkgSquirrel :: string where "pkgSquirrel = ''github.com/Masterminds/squirrel''"
definition pkgPgx :: string where "pkgPgx = ''github.com/jackc/pgx/v5''"
definition pkgConfig :: string where "pkgConfig = ''gitlab.cept.gov.in/it-2.0-common/api-config''"
definition pkgDBLib :: string where "pkgDBLib = ''gitlab.cept.gov.in/it-2.0-common/n-api-db''"
definition pkgLog :: string where "pkgLog = ''gitlab.cept.gov.in/it-2.0-common/n-api-log''"
definition pkgServerHandler :: string where
  "pkgServerHandler = ''gitlab.cept.gov.in/it-2.0-common/n-api-server/handler''"
definition pkgServerRoute :: string where
  "pkgServerRoute = ''gitlab.cept.gov.in/it-2.0-common/n-api-server/route''"
definition pkgBootstrapper :: string where
  "pkgBootstrapper = ''gitlab.cept.gov.in/it-2.0-common/n-api-bootstrapper''"
definition pkgFx :: string where "pkgFx = ''go.uber.org/fx''"

definition requestFile :: string where "requestFile = ''handler/request/request.go''"

definition repo_imports :: "string \<Rightarrow> Resource \<Rightarrow> (string \<times> string) list" where
  "repo_imports module r =
     [([], ''context''), ([], module @ ''/core/domain''), (''config'', pkgConfig), (''dblib'', pkgDBLib)]
     @ (if NeedsTimeInRepo r then [([], ''time'')] else [])
     @ (if NeedsSquirrel r then [(''sq'', pkgSquirrel)] else [])
     @ (if NeedsPgx r then [([], pkgPgx)] else [])"

definition handler_imports :: "string \<Rightarrow> Resource \<Rightarrow> (string \<times> string) list" where
  "handler_imports module r =
     [([], module @ ''/core/port''), (''request'', module @ ''/handler/request''),
      (''resp'', module @ ''/handler/response''), (''repo'', module @ ''/repo/postgres''),
      (''log'', pkgLog), (''serverHandler'', pkgServerHandler), (''serverRoute'', pkgServerRoute)]
     @ (if NeedsTimeInHandler r then [([], ''time'')] else [])"

definition declaredTypeNames :: "Resource \<Rightarrow> string list" where
  "declaredTypeNames r =
     (if res_Has r ''create'' then [CreateReq r] else [])
     @ (if res_Has r ''update'' then [UpdateReq r] else [])
     @ (if NeedsIDUri r then [IDUri r] else [])
     @ (if res_Has r ''list'' then [ListParams r] else [])"

text \<open>The first type already declared ends the call; an error of HasDecl too.\<close>

fun first_declared :: "parser \<Rightarrow> string \<Rightarrow> string list \<Rightarrow> string option" where
  "first_declared parse existing [] = None"
| "first_declared parse existing (n # ns) =
     (case HasDecl parse existing n of
        Inl e \<Rightarrow> Some (requestFile @ '': '' @ e)
      | Inr dup \<Rightarrow>
          if dup then
            Some (requestFile @ '' already declares '' @ n @ ''; the resource looks scaffolded already '' @ emdash
              @ '' remove the existing DTOs, or scaffold under a different name'')
          else first_declared parse existing ns)"

fun ensure_all :: "parser \<Rightarrow> formatter \<Rightarrow> string \<Rightarrow> string list \<Rightarrow> string \<Rightarrow> string + string" where
  "ensure_all parse fmt module [] src = Inr src"
| "ensure_all parse fmt module (path # paths) src =
     (case EnsureImport parse fmt src [] path module of
        Inl e \<Rightarrow> Inl (requestFile @ '': '' @ e)
      | Inr (src', _) \<Rightarrow> ensure_all parse fmt module paths src')"

definition request_imports :: "string \<Rightarrow> Resource \<Rightarrow> string list" where
  "request_imports module r =
     (if res_Has r ''list'' then [module @ ''/core/port''] else [])
     @ (if NeedsTimeInRequest r then [''time''] else [])"

definition patchRequestFile ::
  "renderer \<Rightarrow> parser \<Rightarrow> formatter \<Rightarrow> read_result \<Rightarrow> string \<Rightarrow> Resource \<Rightarrow> tdata \<Rightarrow> string + string" where
  "patchRequestFile render parse fmt existing module r d =
     (case render_named render ''request.go.tmpl'' d of
        Inl e \<Rightarrow> Inl e
      | Inr raw \<Rightarrow>
          (let decls = trim_space raw in
           case existing of
             ReadErr e \<Rightarrow> Inl (''read '' @ requestFile @ '': '' @ e)
           | NotExist \<Rightarrow>
               (let block = renderImports module (map (Pair []) (request_imports module r));
                    header = ''package request'' @ [CHR 0x0A]
                      @ (if block \<noteq> [] then [CHR 0x0A] @ block @ [CHR 0x0A] else [])
                in (case Format fmt (header @ [CHR 0x0A] @ decls @ [CHR 0x0A]) of
                      Inl e \<Rightarrow> Inl (''template request.go.tmpl: '' @ e)
                    | Inr out \<Rightarrow> Inr out))
           | ReadOk src \<Rightarrow>
               (case first_declared parse src (declaredTypeNames r) of
                  Some e \<Rightarrow> Inl e
                | None \<Rightarrow>
                    (case ensure_all parse fmt module (request_imports module r) src of
                       Inl e \<Rightarrow> Inl e
                     | Inr src' \<Rightarrow>
                         (case AppendDecls parse fmt src' decls of
                            Inl e \<Rightarrow> Inl (requestFile @ '': '' @ e)
                          | Inr out \<Rightarrow> Inr out)))))"

definition addResourceNotes :: "Resource \<Rightarrow> sresult \<Rightarrow> sresult" where
  "addResourceNotes r res =
     (let res1 = add_note (''run `govalid ./request.go` from handler/request/ '' @ emdash
            @ '' the framework returns 422 for any non-GET route whose request DTO has no generated Validate()'') res;
          res2 = add_note (''apply db/'' @ TableFileStem r
            @ ''.sql to your database; the agent never runs DDL, because it is the one action git cannot undo'') res1;
          res3 = add_note ''verify with: go build ./... && gotools lint'' res2
      in if res_Has r ''create'' \<or> res_Has r ''update'' then
           add_note (''create and update use dblib.InsertReturning/UpdateReturning with a RETURNING clause, so the response carries the stored row rather than an echo of the request ''
             @ emdash @ '' this differs from the reference user resource, which returns id 0 on create'') res3
         else res3)"

record ResourceOptions =
  roModule :: string
  roSkipFXWire :: bool

text \<open>What the scaffolder finds on disk: go.mod, handler/request/request.go and bootstrap/.\<close>

record site =
  siGoMod :: read_result
  siRequest :: read_result
  siBootstrap :: bootdir

definition empty_project :: Project where
  "empty_project =
     \<lparr>pjModule = [], pjAppName = [], pjTitle = [], pjDescription = [], pjGoVersion = [], pjAddr = [],
      pjEnv = [], pjVer = no_versions\<rparr>"

definition spec_error :: "Issue list \<Rightarrow> string" where
  "spec_error issues = invalid_spec_error issues"

text \<open>The five files of its own, in order; the first template that fails ends the call.\<close>

fun render_files :: "(string \<times> (string + string)) list \<Rightarrow> sresult \<Rightarrow> string + sresult" where
  "render_files [] res = Inr res"
| "render_files ((path, out) # rest) res =
     (case out of Inl e \<Rightarrow> Inl e | Inr c \<Rightarrow> render_files rest (add_file path ActionCreate c res))"

definition resource_files ::
  "renderer \<Rightarrow> formatter \<Rightarrow> string \<Rightarrow> Resource \<Rightarrow> (string \<times> (string + string)) list" where
  "resource_files render fmt module r =
     (let d = \<lparr>tdR = r, tdModule = module, tdLayout = TimestampLayout_view, tdImports = [], tdP = empty_project\<rparr>;
          with = (\<lambda>imps. d\<lparr>tdImports := renderImports module imps\<rparr>)
      in [(''core/domain/'' @ FileStem r @ ''.go'', renderGo render fmt ''domain.go.tmpl'' (with [([], ''time'')])),
          (''db/'' @ TableFileStem r @ ''.sql'', render_named render ''table.sql.tmpl'' (with [([], ''time'')])),
          (''repo/postgres/'' @ FileStem r @ ''.go'',
             renderGo render fmt ''repository.go.tmpl'' (with (repo_imports module r))),
          (''handler/response/'' @ FileStem r @ ''.go'',
             renderGo render fmt ''response.go.tmpl''
               (with [([], module @ ''/core/domain''), ([], module @ ''/core/port'')])),
          (''handler/'' @ FileStem r @ ''.go'',
             renderGo render fmt ''handler.go.tmpl'' (with (handler_imports module r)))])"

definition wire_resource ::
  "parser \<Rightarrow> formatter \<Rightarrow> string \<Rightarrow> bootdir \<Rightarrow> string \<Rightarrow> Resource \<Rightarrow> sresult \<Rightarrow> string + sresult" where
  "wire_resource parse fmt root bd module r res =
     (case Plan parse fmt root bd module
             [\<lparr>regKind = KindRepo, regCtor = ''New'' @ RepoType r\<rparr>,
              \<lparr>regKind = KindHandler, regCtor = ''New'' @ HandlerType r\<rparr>] of
        Inl e \<Rightarrow> Inl (''fx wiring: '' @ e)
      | Inr wire \<Rightarrow>
          Inr (if wrChanged wire then add_file (wrPath wire) ActionModify (wrContent wire) res
               else if 0 < length (wrAlready wire) then
                 add_note (wrPath wire @ '' already registers '' @ str_join '' and '' (wrAlready wire) @ '' ''
                   @ emdash @ '' left unchanged'') res
               else res))"

definition ScaffoldResource ::
  "renderer \<Rightarrow> parser \<Rightarrow> formatter \<Rightarrow> string \<Rightarrow> site \<Rightarrow> Resource \<Rightarrow> ResourceOptions \<Rightarrow> string + sresult" where
  "ScaffoldResource render parse fmt root st s opts =
     (case Normalise s of
        Inl issues \<Rightarrow> Inl (spec_error issues)
      | Inr r \<Rightarrow>
          (case (if roModule opts = [] then ModulePath root (siGoMod st) else Inr (roModule opts)) of
             Inl e \<Rightarrow> Inl e
           | Inr module \<Rightarrow>
               (case render_files (resource_files render fmt module r)
                       \<lparr>srFiles = [], srNotes = [], srModule = module\<rparr> of
                  Inl e \<Rightarrow> Inl e
                | Inr res \<Rightarrow>
                    (case patchRequestFile render parse fmt (siRequest st) module r
                            \<lparr>tdR = r, tdModule = module, tdLayout = TimestampLayout_view,
                             tdImports = renderImports module (handler_imports module r), tdP = empty_project\<rparr> of
                       Inl e \<Rightarrow> Inl e
                     | Inr content \<Rightarrow>
                         (let res1 = add_file requestFile
                                (if siRequest st = NotExist then ActionCreate else ActionModify) content res
                          in case (if roSkipFXWire opts then Inr res1
                                   else wire_resource parse fmt root (siBootstrap st) module r res1) of
                               Inl e \<Rightarrow> Inl e
                             | Inr res2 \<Rightarrow> Inr (addResourceNotes r res2))))))"

section \<open>A project\<close>

definition assertEmptyEnough :: "string \<Rightarrow> site \<Rightarrow> string option" where
  "assertEmptyEnough root st =
     (if siGoMod st \<noteq> NotExist then
        Some (root @ '' already contains a go.mod; project_scaffold creates a new service and will not scaffold over an existing one ''
          @ emdash @ '' use resource_scaffold to add to it'')
      else None)"

definition project_data :: "Project \<Rightarrow> Resource \<Rightarrow> (string \<times> string) list \<Rightarrow> tdata" where
  "project_data p r imps =
     \<lparr>tdR = r, tdModule = pjModule p, tdLayout = TimestampLayout_view,
      tdImports = renderImports (pjModule p) imps, tdP = p\<rparr>"

definition main_imports :: "Project \<Rightarrow> (string \<times> string) list" where
  "main_imports p = [([], ''context''), ([], pjModule p @ ''/bootstrap''), (''bootstrapper'', pkgBootstrapper)]"

definition bootstrap_imports :: "Project \<Rightarrow> (string \<times> string) list" where
  "bootstrap_imports p =
     [(''handler'', pjModule p @ ''/handler''), (''repo'', pjModule p @ ''/repo/postgres''),
      (''serverHandler'', pkgServerHandler), ([], pkgFx)]"

definition config_file :: "renderer \<Rightarrow> Project \<Rightarrow> Resource \<Rightarrow> string \<Rightarrow> string \<Rightarrow> string \<times> (string + string)" where
  "config_file render p r path env =
     (path, render_named render ''config.yaml.tmpl'' (project_data (p\<lparr>pjEnv := env\<rparr>) r (bootstrap_imports p)))"

text \<open>The files before the seed resource; Go ranges over the two port files in either order.\<close>

definition project_files ::
  "renderer \<Rightarrow> formatter \<Rightarrow> Project \<Rightarrow> Resource \<Rightarrow> (string \<times> (string + string)) list" where
  "project_files render fmt p r =
     (let d = project_data p r in
      [(''go.mod'', render_named render ''go.mod.tmpl'' ((d [])\<lparr>tdImports := []\<rparr>)),
       (''main.go'', renderGo render fmt ''main.go.tmpl'' (d (main_imports p))),
       (''bootstrap/bootstrapper.go'', renderGo render fmt ''bootstrapper.go.tmpl'' (d (bootstrap_imports p))),
       (''core/port/request.go'', renderGo render fmt ''port_request.go.tmpl'' (d (bootstrap_imports p))),
       (''core/port/response.go'', renderGo render fmt ''port_response.go.tmpl'' (d (bootstrap_imports p))),
       config_file render p r ''configs/config.yaml'' ''local'']
      @ map (\<lambda>env. config_file render p r (''configs/config.'' @ env @ ''.yaml'') env) Environments)"

definition closing_files ::
  "renderer \<Rightarrow> Project \<Rightarrow> Resource \<Rightarrow> (string \<times> (string + string)) list" where
  "closing_files render p r =
     map (\<lambda>(path, name). (path, render_named render name (project_data p r (bootstrap_imports p))))
       [(''.gitignore'', ''gitignore.tmpl''), (''.golangci.yml'', ''golangci.yml.tmpl''),
        (''README.md'', ''README.md.tmpl'')]"

definition project_notes :: "Resource \<Rightarrow> string list" where
  "project_notes r =
     [''run `go env -w GOPRIVATE=gitlab.cept.gov.in/*` then `go mod tidy` '' @ emdash
        @ '' go.mod is pinned but there is no go.sum yet'',
      ''apply db/'' @ TableFileStem r @ ''.sql to your database'',
      ''run `govalid ./request.go` from handler/ '' @ emdash @ '' without it every non-GET route returns 422'',
      ''configs/*.yaml ship with empty credentials by design; supply them from your secret store, never by committing them'',
      ''verify with: go build ./... && gotools lint'']"

definition NewProject ::
  "renderer \<Rightarrow> parser \<Rightarrow> formatter \<Rightarrow> string \<Rightarrow> site \<Rightarrow> Project \<Rightarrow> Resource \<Rightarrow> string + sresult" where
  "NewProject render parse fmt root st p0 s =
     (case project_Normalise p0 of
        Inl issues \<Rightarrow> Inl (spec_error issues)
      | Inr p \<Rightarrow>
          (case Normalise s of
             Inl issues \<Rightarrow> Inl (spec_error issues)
           | Inr r \<Rightarrow>
               (case assertEmptyEnough root st of
                  Some e \<Rightarrow> Inl e
                | None \<Rightarrow>
                    (case render_files (project_files render fmt p r)
                            \<lparr>srFiles = [], srNotes = [], srModule = pjModule p\<rparr> of
                       Inl e \<Rightarrow> Inl e
                     | Inr res \<Rightarrow>
                         (case ScaffoldResource render parse fmt root st r
                                 \<lparr>roModule = pjModule p, roSkipFXWire = True\<rparr> of
                            Inl e \<Rightarrow> Inl (''seed resource: '' @ e)
                          | Inr seed \<Rightarrow>
                              (let res1 = fold (\<lambda>f. add_file (sfPath f) ActionCreate (sfContent f)) (srFiles seed) res in
                               case render_files (closing_files render p r) res1 of
                                 Inl e \<Rightarrow> Inl e
                               | Inr res2 \<Rightarrow> Inr (fold add_note (project_notes r) res2)))))))"

section \<open>What Apply does to the tree\<close>

lemma write_files_dom:
  "write_files mkdir write eol files fs = (err, fs') \<Longrightarrow> dom fs \<subseteq> dom fs'"
proof (induction files arbitrary: fs)
  case (Cons f files)
  then show ?case by (fastforce split: option.splits if_splits)
qed simp

lemma write_files_other:
  "write_files mkdir write eol files fs = (err, fs') \<Longrightarrow> p \<notin> set (map sfPath files) \<Longrightarrow> fs' p = fs p"
  by (induction files arbitrary: fs) (auto split: option.splits)

lemma write_files_all:
  "write_files mkdir write eol files fs = (None, fs') \<Longrightarrow> set (map sfPath files) \<subseteq> dom fs'"
proof (induction files arbitrary: fs)
  case (Cons f files)
  then have rest: "write_files mkdir write eol files (fs(sfPath f \<mapsto> file_bytes eol f)) = (None, fs')"
    by (auto split: option.splits)
  show ?case using Cons.IH [OF rest] write_files_dom [OF rest] by auto
qed simp

lemma write_files_error: "write_files mkdir write eol files fs = (err, fs') \<Longrightarrow> err \<noteq> Some (ExistsError ps)"
  by (induction files arbitrary: fs) (auto split: option.splits)

text \<open>
  C7: Apply never overwrites what it was not asked to modify. Among the files that were there only
  those marked for modification can have changed, nothing outside the result appears, a refusal
  names exactly the files in the way and leaves the tree alone, and success has written every file.
\<close>

theorem apply_never_overwrites:
  "(case scaffold_Apply mkdir write eol res fs of
      (err, fs') \<Rightarrow>
        {p. fs p \<noteq> None \<and> fs' p \<noteq> fs p}
          \<subseteq> set (map sfPath (filter (\<lambda>f. sfAction f = ActionModify) (srFiles res)))
        \<and> dom fs' \<subseteq> dom fs \<union> set (result_Paths res)
        \<and> (case err of
             None \<Rightarrow> set (result_Paths res) \<subseteq> dom fs'
           | Some (ExistsError ps) \<Rightarrow> fs' = fs \<and> ps \<noteq> [] \<and> sorted ps \<and> set ps = set (clashes fs res)
           | Some (WriteError _) \<Rightarrow> True))"
proof (cases "clashes fs res = []")
  case False
  then have "sort_strings (clashes fs res) \<noteq> []" by (metis set_empty set_sort)
  then show ?thesis using False by (simp add: scaffold_Apply_def)
next
  case True
  obtain err fs' where w: "write_files mkdir write eol (srFiles res) fs = (err, fs')" by force
  have "p \<in> set (map sfPath (filter (\<lambda>f. sfAction f = ActionModify) (srFiles res)))"
    if old: "fs p \<noteq> None" and new: "fs' p \<noteq> fs p" for p
  proof -
    obtain f where f: "f \<in> set (srFiles res)" "sfPath f = p"
      using write_files_other [OF w, of p] new by auto
    have "sfAction f \<noteq> ActionCreate"
      using True f old by (auto simp: clashes_def filter_empty_conv)
    then have "sfAction f = ActionModify" by (cases "sfAction f") auto
    then show ?thesis using f by auto
  qed
  then have modified: "{p. fs p \<noteq> None \<and> fs' p \<noteq> fs p}
      \<subseteq> set (map sfPath (filter (\<lambda>f. sfAction f = ActionModify) (srFiles res)))" by blast
  have dom: "dom fs' \<subseteq> dom fs \<union> set (result_Paths res)"
  proof
    fix p
    assume "p \<in> dom fs'"
    then show "p \<in> dom fs \<union> set (result_Paths res)"
      using write_files_other [OF w, of p] by (cases "p \<in> set (map sfPath (srFiles res))") (auto simp: result_Paths_def)
  qed
  have outcome: "case err of
             None \<Rightarrow> set (result_Paths res) \<subseteq> dom fs'
           | Some (ExistsError ps) \<Rightarrow> fs' = fs \<and> ps \<noteq> [] \<and> sorted ps \<and> set ps = set (clashes fs res)
           | Some (WriteError _) \<Rightarrow> True"
  proof (cases err)
    case None
    then show ?thesis using write_files_all w by (simp add: result_Paths_def)
  next
    case (Some e)
    then show ?thesis using write_files_error [OF w] by (cases e) auto
  qed
  have "scaffold_Apply mkdir write eol res fs = (err, fs')" using True w by (simp add: scaffold_Apply_def)
  then show ?thesis using modified dom outcome by simp
qed

section \<open>Where a resource's files go\<close>

definition plain_stem :: "string \<Rightarrow> bool" where
  "plain_stem s \<longleftrightarrow> list_all (\<lambda>c. c \<noteq> CHR ''/'' \<and> c \<noteq> CHR ''.'') s"

lemma plain_lower_char: "is_letter d \<or> is_digit d \<Longrightarrow> lower_char d \<noteq> CHR ''/'' \<and> lower_char d \<noteq> CHR ''.''"
proof -
  assume "is_letter d \<or> is_digit d"
  then have "is_letter (lower_char d) \<or> is_digit (lower_char d)" by simp
  moreover have "\<not> is_letter (CHR ''/'')" "\<not> is_digit (CHR ''/'')" "\<not> is_letter (CHR ''.'')" "\<not> is_digit (CHR ''.'')"
    by code_simp+
  ultimately show ?thesis by metis
qed

lemma plain_Snake: "s = [] \<or> identRe s \<Longrightarrow> plain_stem (Snake s)"
proof -
  assume s: "s = [] \<or> identRe s"
  have "c \<noteq> CHR ''/'' \<and> c \<noteq> CHR ''.''" if "c \<in> set (Snake s)" for c
    using Snake_char_origin [OF that] s plain_lower_char by (auto simp: identRe_def list_all_iff)
  then show ?thesis by (simp add: plain_stem_def list_all_iff)
qed

text \<open>A relative path that stays below where it starts.\<close>

definition descends :: "string \<Rightarrow> bool" where
  "descends p \<longleftrightarrow> list_all (\<lambda>seg. seg \<noteq> [] \<and> seg \<noteq> ''.'' \<and> seg \<noteq> ''..'') (split_char (CHR ''/'') p)"

lemma descends_append:
  "CHR ''/'' \<notin> set d \<Longrightarrow> d \<noteq> [] \<Longrightarrow> d \<noteq> ''.'' \<Longrightarrow> d \<noteq> ''..'' \<Longrightarrow> descends (d @ ''/'' @ p) = descends p"
  using split_char_append [of "CHR ''/''" d p] by (simp add: descends_def)

lemma descends_stem:
  assumes "plain_stem s" "ext \<in> {''.go'', ''.sql''}"
  shows "descends (s @ ext)"
proof -
  have "CHR ''/'' \<notin> set s" using assms(1) unfolding plain_stem_def list_all_iff by blast
  moreover have "CHR ''/'' \<notin> set ext" using assms(2) by (elim insertE) simp_all
  ultimately have "CHR ''/'' \<notin> set (s @ ext)" by simp
  moreover have "3 \<le> length (s @ ext)" using assms(2) by auto
  then have short: "s @ ext \<noteq> t" if "length t < 3" for t using that by (metis not_le)
  have "s @ ext \<noteq> []" "s @ ext \<noteq> ''.''" "s @ ext \<noteq> ''..''"
    using short [of "[]"] short [of "''.''"] short [of "''..''"] by simp_all
  ultimately show ?thesis by (simp add: descends_def split_char_single)
qed

lemma descends_resource_paths:
  assumes "resource_ok r"
  shows "list_all descends (map fst (resource_files render fmt module r)) \<and> descends requestFile"
proof -
  have stem: "plain_stem (FileStem r)" "plain_stem (TableFileStem r)"
    using assms by (auto simp: resource_ok_def FileStem_def TableFileStem_def intro!: plain_Snake)
  have d: "descends (''core/domain/'' @ FileStem r @ ''.go'')" "descends (''db/'' @ TableFileStem r @ ''.sql'')"
    "descends (''repo/postgres/'' @ FileStem r @ ''.go'')" "descends (''handler/response/'' @ FileStem r @ ''.go'')"
    "descends (''handler/'' @ FileStem r @ ''.go'')"
    using descends_append [of "''core''" "''domain/'' @ FileStem r @ ''.go''"]
      descends_append [of "''domain''" "FileStem r @ ''.go''"] descends_append [of "''db''" "TableFileStem r @ ''.sql''"]
      descends_append [of "''repo''" "''postgres/'' @ FileStem r @ ''.go''"]
      descends_append [of "''postgres''" "FileStem r @ ''.go''"]
      descends_append [of "''handler''" "''response/'' @ FileStem r @ ''.go''"]
      descends_append [of "''response''" "FileStem r @ ''.go''"] descends_append [of "''handler''" "FileStem r @ ''.go''"]
      descends_stem [OF stem(1)] descends_stem [OF stem(2)]
    by simp_all
  have "descends requestFile" by code_simp
  then show ?thesis using d by (simp add: resource_files_def Let_def)
qed

lemma render_files_spec:
  "render_files fs res = Inr res' \<Longrightarrow>
     srFiles res' = srFiles res @ map (\<lambda>(p, out). \<lparr>sfPath = p, sfAction = ActionCreate, sfContent = projr out,
       sfBytes = length (projr out)\<rparr>) fs
     \<and> list_all (\<lambda>(p, out). \<exists>c. out = Inr c) fs"
  by (induction fs res rule: render_files.induct) (auto simp: add_file_def split: sum.splits)

lemma srFiles_add_note [simp]: "srFiles (add_note n res) = srFiles res"
  by (simp add: add_note_def)

lemma srFiles_notes [simp]: "srFiles (addResourceNotes r res) = srFiles res"
  by (simp add: addResourceNotes_def Let_def)

lemma srFiles_fold_notes [simp]: "srFiles (fold add_note ns res) = srFiles res"
  by (induction ns arbitrary: res) simp_all

lemma srFiles_add_file [simp]:
  "srFiles (add_file p a c res) = srFiles res @ [\<lparr>sfPath = p, sfAction = a, sfContent = c, sfBytes = length c\<rparr>]"
  by (simp add: add_file_def)

lemma Plan_path:
  "Plan parse fmt root bd module regs = Inr w \<Longrightarrow> \<exists>n. findBootstrapFile root bd = Inr n \<and> wrPath w = ''bootstrap/'' @ n"
  by (auto simp: Plan_def Let_def split: option.splits sum.splits prod.splits)

lemma wire_resource_files:
  "wire_resource parse fmt root bd module r res = Inr res' \<Longrightarrow>
     srFiles res' = srFiles res
     \<or> (\<exists>n c. findBootstrapFile root bd = Inr n \<and> srFiles res' = srFiles (add_file (''bootstrap/'' @ n) ActionModify c res))"
  by (fastforce simp: wire_resource_def dest: Plan_path split: sum.splits if_splits)

lemma ScaffoldResource_files:
  assumes "ScaffoldResource render parse fmt root st s opts = Inr res"
  obtains r module rest where "Normalise s = Inr r"
    "roModule opts \<noteq> [] \<longrightarrow> module = roModule opts"
    "srFiles res = map (\<lambda>(p, out). \<lparr>sfPath = p, sfAction = ActionCreate, sfContent = projr out,
       sfBytes = length (projr out)\<rparr>) (resource_files render fmt module r) @ rest"
    "list_all (\<lambda>(p, out). \<exists>c. out = Inr c) (resource_files render fmt module r)"
    "\<forall>f \<in> set rest. sfPath f = requestFile
       \<or> sfAction f = ActionModify \<and> (\<exists>n. findBootstrapFile root (siBootstrap st) = Inr n \<and> sfPath f = ''bootstrap/'' @ n)"
proof -
  obtain r where r: "Normalise s = Inr r"
    using assms by (auto simp: ScaffoldResource_def split: sum.splits)
  obtain module where m: "(if roModule opts = [] then ModulePath root (siGoMod st) else Inr (roModule opts)) = Inr module"
    using assms r unfolding ScaffoldResource_def by (auto simp: Let_def split: sum.splits)
  obtain res0 where res0: "render_files (resource_files render fmt module r)
      \<lparr>srFiles = [], srNotes = [], srModule = module\<rparr> = Inr res0"
    using assms r m unfolding ScaffoldResource_def by (auto simp: Let_def split: sum.splits)
  obtain content a res2 where two: "res = addResourceNotes r res2"
    "res2 = add_file requestFile a content res0
     \<or> wire_resource parse fmt root (siBootstrap st) module r (add_file requestFile a content res0) = Inr res2"
    using assms r m res0 unfolding ScaffoldResource_def by (auto simp: Let_def split: sum.splits if_splits)
  note spec = render_files_spec [OF res0]
  let ?q = "\<lparr>sfPath = requestFile, sfAction = a, sfContent = content, sfBytes = length content\<rparr>"
  have "srFiles res2 = srFiles res0 @ [?q]
      \<or> (\<exists>n c. findBootstrapFile root (siBootstrap st) = Inr n
          \<and> srFiles res2 = srFiles res0 @ [?q, \<lparr>sfPath = ''bootstrap/'' @ n, sfAction = ActionModify, sfContent = c, sfBytes = length c\<rparr>])"
    using two(2) wire_resource_files [of parse fmt root "siBootstrap st" module r "add_file requestFile a content res0" res2]
    by auto
  then obtain rest where "srFiles res2 = srFiles res0 @ rest"
    "\<forall>f \<in> set rest. sfPath f = requestFile
       \<or> sfAction f = ActionModify \<and> (\<exists>n. findBootstrapFile root (siBootstrap st) = Inr n \<and> sfPath f = ''bootstrap/'' @ n)"
    by fastforce
  then show thesis using that [OF r, of module rest] m spec two(1) by (simp split: if_splits)
qed

text \<open>
  Whatever the specification says, a resource is created below the service: every file the
  scaffolder creates has a relative path without an empty, dot or dot-dot segment.
\<close>

theorem resource_stays_inside:
  "(case ScaffoldResource render parse fmt root st s opts of
      Inl _ \<Rightarrow> True
    | Inr res \<Rightarrow> list_all (descends \<circ> sfPath) (filter (\<lambda>f. sfAction f = ActionCreate) (srFiles res)))"
proof (cases "ScaffoldResource render parse fmt root st s opts")
  case (Inr res)
  obtain r module rest where f: "Normalise s = Inr r"
    "srFiles res = map (\<lambda>(p, out). \<lparr>sfPath = p, sfAction = ActionCreate, sfContent = projr out,
       sfBytes = length (projr out)\<rparr>) (resource_files render fmt module r) @ rest"
    "\<forall>f \<in> set rest. sfPath f = requestFile
       \<or> sfAction f = ActionModify \<and> (\<exists>n. findBootstrapFile root (siBootstrap st) = Inr n \<and> sfPath f = ''bootstrap/'' @ n)"
    by (rule ScaffoldResource_files [OF Inr])
  have "resource_ok r" by (rule Normalise_resource_ok [OF f(1)])
  from descends_resource_paths [OF this, of render fmt module]
  show ?thesis using Inr f(2,3) by (fastforce simp: list_all_iff)
qed simp

section \<open>What a new project is made of\<close>

text \<open>The rendered file is in the result under its path.\<close>

definition holds_file :: "sresult \<Rightarrow> string \<times> (string + string) \<Rightarrow> bool" where
  "holds_file res e =
     (case snd e of Inl _ \<Rightarrow> False | Inr c \<Rightarrow> (fst e, c) \<in> set (map (\<lambda>f. (sfPath f, sfContent f)) (srFiles res)))"

lemma render_files_holds:
  assumes "render_files fs res = Inr res'"
  shows "list_all (holds_file res') fs \<and> set (srFiles res) \<subseteq> set (srFiles res')"
proof -
  note spec = render_files_spec [OF assms]
  have "holds_file res' e" if mem: "e \<in> set fs" for e
  proof -
    obtain p out where po: "e = (p, out)" by force
    moreover obtain c where "out = Inr c" using spec mem po by (auto simp: list_all_iff)
    ultimately have e: "e = (p, Inr c)" by simp
    have "\<lparr>sfPath = p, sfAction = ActionCreate, sfContent = c, sfBytes = length c\<rparr> \<in> set (srFiles res')"
      using spec mem e by force
    then show ?thesis using e by (force simp: holds_file_def)
  qed
  then show ?thesis using spec by (simp add: list_all_iff)
qed

lemma holds_file_mono:
  assumes "holds_file res e" "(\<lambda>f. (sfPath f, sfContent f)) ` set (srFiles res) \<subseteq> (\<lambda>f. (sfPath f, sfContent f)) ` set (srFiles res')"
  shows "holds_file res' e"
  using assms by (auto simp: holds_file_def split: sum.splits)

lemma files_fold_add:
  "srFiles (fold (\<lambda>f. add_file (sfPath f) ActionCreate (sfContent f)) gs res)
     = srFiles res @ map (\<lambda>f. \<lparr>sfPath = sfPath f, sfAction = ActionCreate, sfContent = sfContent f,
         sfBytes = length (sfContent f)\<rparr>) gs"
  by (induction gs arbitrary: res) simp_all

definition x_id_spec :: Resource where
  "x_id_spec = (spec_of [] (field_of ''Amount'' []))\<lparr>srName := ''x_id''\<rparr>"

lemma NewProject_parts:
  assumes "NewProject render parse fmt root st p s = Inr res"
  obtains q r r2 where "project_Normalise p = Inr q" "Normalise s = Inr r" "Normalise r = Inr r2"
    "list_all (holds_file res) (project_files render fmt q r)"
    "list_all (holds_file res) (resource_files render fmt (pjModule q) r2)"
proof -
  obtain q where q: "project_Normalise p = Inr q" using assms by (auto simp: NewProject_def split: sum.splits)
  obtain r where r: "Normalise s = Inr r" using assms q by (auto simp: NewProject_def split: sum.splits)
  obtain res0 where res0: "render_files (project_files render fmt q r)
      \<lparr>srFiles = [], srNotes = [], srModule = pjModule q\<rparr> = Inr res0"
    using assms q r unfolding NewProject_def by (auto simp: Let_def split: sum.splits option.splits)
  obtain seed where seed: "ScaffoldResource render parse fmt root st r
      \<lparr>roModule = pjModule q, roSkipFXWire = True\<rparr> = Inr seed"
    using assms q r res0 unfolding NewProject_def by (auto simp: Let_def split: sum.splits option.splits)
  let ?res1 = "fold (\<lambda>f. add_file (sfPath f) ActionCreate (sfContent f)) (srFiles seed) res0"
  obtain res2 where res2: "render_files (closing_files render q r) ?res1 = Inr res2"
    "res = fold add_note (project_notes r) res2"
    using assms q r res0 seed unfolding NewProject_def by (auto simp: Let_def split: sum.splits option.splits)
  have "pjModule q \<noteq> []"
    using q by (auto simp: project_Normalise_def Let_def split: if_splits)
  obtain r2 module rest where r2: "Normalise r = Inr r2"
    and m0: "roModule \<lparr>roModule = pjModule q, roSkipFXWire = True\<rparr> \<noteq> []
      \<longrightarrow> module = roModule \<lparr>roModule = pjModule q, roSkipFXWire = True\<rparr>"
    and fs: "srFiles seed = map (\<lambda>(p, out). \<lparr>sfPath = p, sfAction = ActionCreate, sfContent = projr out,
       sfBytes = length (projr out)\<rparr>) (resource_files render fmt module r2) @ rest"
    "list_all (\<lambda>(p, out). \<exists>c. out = Inr c) (resource_files render fmt module r2)"
    by (rule ScaffoldResource_files [OF seed])
  have m: "module = pjModule q" using m0 \<open>pjModule q \<noteq> []\<close> by simp
  have kept: "set (srFiles ?res1) \<subseteq> set (srFiles res)" using render_files_holds [OF res2(1)] res2(2) by simp
  have project: "list_all (holds_file res) (project_files render fmt q r)"
  proof -
    have "list_all (holds_file res0) (project_files render fmt q r)" using render_files_holds [OF res0] by simp
    moreover have "set (srFiles res0) \<subseteq> set (srFiles res)" using kept by (simp add: files_fold_add)
    ultimately show ?thesis by (auto simp: list_all_iff intro: holds_file_mono)
  qed
  have "holds_file seed e" if mem: "e \<in> set (resource_files render fmt (pjModule q) r2)" for e
  proof -
    obtain p out where po: "e = (p, out)" by force
    moreover obtain c where "out = Inr c" using fs(2) mem m po by (auto simp: list_all_iff)
    ultimately have e: "e = (p, Inr c)" by simp
    have "\<lparr>sfPath = p, sfAction = ActionCreate, sfContent = c, sfBytes = length c\<rparr> \<in> set (srFiles seed)"
      using fs(1) mem e m by force
    then show ?thesis using e by (force simp: holds_file_def)
  qed
  moreover have "(\<lambda>f. (sfPath f, sfContent f)) ` set (srFiles seed) \<subseteq> (\<lambda>f. (sfPath f, sfContent f)) ` set (srFiles res)"
  proof -
    have "(\<lambda>f. (sfPath f, sfContent f)) ` set (srFiles seed) \<subseteq> (\<lambda>f. (sfPath f, sfContent f)) ` set (srFiles ?res1)"
      by (simp add: files_fold_add image_Un image_image)
    then show ?thesis using kept by blast
  qed
  ultimately have "list_all (holds_file res) (resource_files render fmt (pjModule q) r2)"
    by (auto simp: list_all_iff intro: holds_file_mono)
  then show thesis using that q r r2 project by blast
qed

text \<open>
  A new project is rendered from two specifications. The service around the seed resource is
  rendered from the normalised one, the resource itself from the result of normalising that again;
  and normalising twice can give another name: x-id becomes XID and then Xid, so the bootstrapper
  registers NewXIDHandler while the handler file declares NewXidHandler.
\<close>

theorem new_project_normalises_twice:
  "(case NewProject render parse fmt root st p s of
      Inl _ \<Rightarrow> True
    | Inr res \<Rightarrow>
        (\<exists>q r r2. project_Normalise p = Inr q \<and> Normalise s = Inr r \<and> Normalise r = Inr r2
           \<and> list_all (holds_file res) (project_files render fmt q r)
           \<and> list_all (holds_file res) (resource_files render fmt (pjModule q) r2)))
   \<and> (case Normalise x_id_spec of
        Inl _ \<Rightarrow> False
      | Inr r \<Rightarrow>
          (case Normalise r of
             Inl _ \<Rightarrow> False
           | Inr r2 \<Rightarrow> HandlerType r = ''XIDHandler'' \<and> HandlerType r2 = ''XidHandler''))"
proof
  show "case NewProject render parse fmt root st p s of
      Inl _ \<Rightarrow> True
    | Inr res \<Rightarrow>
        (\<exists>q r r2. project_Normalise p = Inr q \<and> Normalise s = Inr r \<and> Normalise r = Inr r2
           \<and> list_all (holds_file res) (project_files render fmt q r)
           \<and> list_all (holds_file res) (resource_files render fmt (pjModule q) r2))"
    by (auto split: sum.split elim!: NewProject_parts)
  show "case Normalise x_id_spec of
        Inl _ \<Rightarrow> False
      | Inr r \<Rightarrow>
          (case Normalise r of
             Inl _ \<Rightarrow> False
           | Inr r2 \<Rightarrow> HandlerType r = ''XIDHandler'' \<and> HandlerType r2 = ''XidHandler'')"
  proof -
    let ?f = "fill_field (field_of ''Amount'' []) ''Amount''"
    let ?r = "\<lparr>srName = ''XID'', srPlural = ''XIDS'', srTable = ''xids'', srRouteBase = ''/xids'', srFields = [?f],
      srOperations = [''create''], srListFilters = [], srPaginate = False\<rparr>"
    let ?r2 = "?r\<lparr>srName := ''Xid'', srPlural := ''Xids''\<rparr>"
    have names: "Pascal (trim_space ''x_id'') = ''XID''" "Plural ''XID'' = ''XIDS''" "Snake ''XIDS'' = ''xids''"
      "Kebab ''XIDS'' = ''xids''" "name_issues ''XID'' = []" "header_issues ''XIDS'' ''xids'' ''/xids'' = []" by code_simp+
    have again: "Pascal (trim_space ''XID'') = ''Xid''" "Pascal (trim_space ''XIDS'') = ''Xids''"
      "trim_space ''xids'' = ''xids''" "lower_char CHR ''x'' = CHR ''x'' \<and> lower_char CHR ''i'' = CHR ''i''
         \<and> lower_char CHR ''d'' = CHR ''d'' \<and> lower_char CHR ''s'' = CHR ''s''" "trim_space ''XIDS'' = ''XIDS''"
      "''/'' @ trim_set ''/'' (to_lower ''/xids'') = ''/xids''" "trim_space ''/xids'' = ''/xids''"
      "name_issues ''Xid'' = []" "header_issues ''Xids'' ''xids'' ''/xids'' = []" by code_simp+
    have fields: "normaliseFields [field_of ''Amount'' []] [] = ([?f], [])" "normaliseFields [?f] [] = ([?f], [])"
      by code_simp+
    have one: "Normalise x_id_spec = Inr ?r"
      by (subst Normalise_parts [where name = "''XID''" and plural = "''XIDS''" and table = "''xids''"
            and route = "''/xids''" and fs = "[?f]" and ops = "[''create'']"])
        (simp_all add: x_id_spec_def spec_of_def names fields pension_name spec_plural_def spec_table_def spec_route_def)
    have route: "spec_route ?r ''Xids'' = ''/xids''"
      by (simp only: spec_route_def Resource.simps again(6,7) list.distinct if_False)
    have two: "Normalise ?r = Inr ?r2"
      by (subst Normalise_parts [where name = "''Xid''" and plural = "''Xids''" and table = "''xids''"
            and route = "''/xids''" and fs = "[?f]" and ops = "[''create'']"])
        (simp_all add: route again(1,3-5,8,9) again(2) [unfolded again(5)] fields pension_name spec_plural_def
            spec_table_def)
    show ?thesis by (simp add: one two HandlerType_def)
  qed
qed

end
