(* ===== verification/Json.thy ===== *)
theory Json
  imports Prelude
begin

text \<open>
  What the sources use of Go's encoding/json: json.Marshal of structures as values with ordered
  members, in the compact form. Strings are printed with Marshal's escapes, the HTML-safe ones
  included; bytes of multi-byte sequences are copied (the sources print no invalid UTF-8 and no
  line or paragraph separator).
\<close>

section \<open>Values\<close>

datatype json =
    JStr string
  | JNum nat
  | JBool bool
  | JArr "json list"
  | JObj "(string \<times> json) list"

definition hex_char :: "nat \<Rightarrow> char" where
  "hex_char n = (if n < 10 then char_of (48 + n) else char_of (87 + n))"

definition json_char :: "char \<Rightarrow> string" where
  "json_char c =
     (if c = CHR 0x22 then [CHR 0x5C, CHR 0x22]
      else if c = CHR 0x5C then [CHR 0x5C, CHR 0x5C]
      else if c = CHR 0x08 then [CHR 0x5C, CHR ''b'']
      else if c = CHR 0x0C then [CHR 0x5C, CHR ''f'']
      else if c = CHR 0x0A then [CHR 0x5C, CHR ''n'']
      else if c = CHR 0x0D then [CHR 0x5C, CHR ''r'']
      else if c = CHR 0x09 then [CHR 0x5C, CHR ''t'']
      else if code c < 32 \<or> c \<in> set ''<>&'' then
        [CHR 0x5C] @ ''u00'' @ [hex_char (code c div 16), hex_char (code c mod 16)]
      else [c])"

definition json_esc :: "string \<Rightarrow> string" where
  "json_esc s = concat (map json_char s)"

definition json_quote :: "string \<Rightarrow> string" where
  "json_quote s = [CHR 0x22] @ json_esc s @ [CHR 0x22]"

fun marshal :: "json \<Rightarrow> string"
  and marshal_members :: "(string \<times> json) list \<Rightarrow> string list"
  and marshal_all :: "json list \<Rightarrow> string list" where
  "marshal (JStr s) = json_quote s"
| "marshal (JNum n) = itoa n"
| "marshal (JBool b) = (if b then ''true'' else ''false'')"
| "marshal (JArr xs) = ''['' @ str_join '','' (marshal_all xs) @ '']''"
| "marshal (JObj ms) = ''{'' @ str_join '','' (marshal_members ms) @ ''}''"
| "marshal_members [] = []"
| "marshal_members ((k, v) # ms) = (json_quote k @ '':'' @ marshal v) # marshal_members ms"
| "marshal_all [] = []"
| "marshal_all (x # xs) = marshal x # marshal_all xs"

text \<open>Members with omitempty.\<close>

definition omit :: "bool \<Rightarrow> string \<Rightarrow> json \<Rightarrow> (string \<times> json) list" where
  "omit absent k v = (if absent then [] else [(k, v)])"

definition omit_str :: "string \<Rightarrow> string \<Rightarrow> (string \<times> json) list" where
  "omit_str k s = omit (s = []) k (JStr s)"

definition omit_num :: "string \<Rightarrow> nat \<Rightarrow> (string \<times> json) list" where
  "omit_num k n = omit (n = 0) k (JNum n)"

definition omit_strs :: "string \<Rightarrow> string list \<Rightarrow> (string \<times> json) list" where
  "omit_strs k xs = omit (xs = []) k (JArr (map JStr xs))"

section \<open>Lengths\<close>

lemma json_esc_append [simp]: "json_esc (s @ t) = json_esc s @ json_esc t"
  by (simp add: json_esc_def)

lemma json_esc_Nil [simp]: "json_esc [] = []"
  by (simp add: json_esc_def)

lemma json_plain:
  assumes "\<forall>d \<in> set [CHR 0x22, CHR 0x5C, CHR 0x08, CHR 0x0C, CHR 0x0A, CHR 0x0D, CHR 0x09, CHR ''<'', CHR ''>'', CHR ''&'']. c \<noteq> d"
    and "32 \<le> code c"
  shows "json_char c = [c]"
  using assms unfolding json_char_def by simp

lemma json_digit:
  assumes "is_digit c"
  shows "json_char c = [c]"
proof (rule json_plain)
  have r: "48 \<le> code c" "code c \<le> 57" using assms by (simp_all only: is_digit_def)
  then have "c \<noteq> d" if "code d < 48 \<or> 57 < code d" for d using that by auto
  then show "\<forall>d \<in> set [CHR 0x22, CHR 0x5C, CHR 0x08, CHR 0x0C, CHR 0x0A, CHR 0x0D, CHR 0x09, CHR ''<'', CHR ''>'', CHR ''&'']. c \<noteq> d"
    by simp
  show "32 \<le> code c" using r by simp
qed

lemma json_esc_itoa [simp]: "json_esc (itoa n) = itoa n"
proof -
  have "list_all is_digit s \<Longrightarrow> json_esc s = s" for s
    by (induction s) (simp_all add: json_esc_def json_digit)
  then show ?thesis using itoa_digits by (simp add: list_all_iff)
qed

lemma length_itoa_Suc: "length (itoa n) = (if n < 10 then 1 else Suc (length (itoa (n div 10))))"
  by (subst itoa.simps) simp

lemma length_itoa_mono: "m \<le> n \<Longrightarrow> length (itoa m) \<le> length (itoa n)"
proof (induction n arbitrary: m rule: less_induct)
  case (less n)
  show ?case
  proof (cases "n < 10")
    case True
    then show ?thesis using less.prems length_itoa_Suc [of m] length_itoa_Suc [of n] by simp
  next
    case False
    have "length (itoa (m div 10)) \<le> length (itoa (n div 10))"
      using less False by (simp add: div_le_mono)
    then show ?thesis using False length_itoa_Suc [of m] length_itoa_Suc [of n] by simp
  qed
qed

lemma length_itoa_pos: "1 \<le> length (itoa n)"
  using itoa_not_Nil [of n] by (cases "itoa n") auto

definition member_length :: "string \<times> json \<Rightarrow> nat" where
  "member_length m = length (json_quote (fst m)) + 1 + length (marshal (snd m))"

lemma length_str_join_sum:
  "ws \<noteq> [] \<Longrightarrow> length (str_join [c] ws) + 1 = sum_list (map (\<lambda>w. length w + 1) ws)"
  by (induction "[c]" ws rule: str_join.induct) auto

lemma length_members: "map length (marshal_members ms) = map member_length ms"
  by (induction ms) (auto simp: member_length_def)

text \<open>The length of an object is the sum over its members, one separator or brace each.\<close>

lemma length_marshal_obj:
  "ms \<noteq> [] \<Longrightarrow> length (marshal (JObj ms)) = 1 + sum_list (map (\<lambda>m. member_length m + 1) ms)"
proof -
  assume "ms \<noteq> []"
  then have "marshal_members ms \<noteq> []" by (cases ms) auto
  from length_str_join_sum [OF this, of "CHR '',''"]
  have "length (str_join '','' (marshal_members ms)) + 1 = sum_list (map (\<lambda>w. w + 1) (map length (marshal_members ms)))"
    by (simp add: comp_def)
  then show ?thesis by (simp add: length_members comp_def)
qed

lemma length_json_esc_join:
  "ws \<noteq> [] \<Longrightarrow> length (json_esc (str_join sep ws)) + length (json_esc sep)
     = sum_list (map (\<lambda>w. length (json_esc w) + length (json_esc sep)) ws)"
  by (induction sep ws rule: str_join.induct) auto

end
