(* ===== verification/Repomap.thy ===== *)
theory Repomap
  imports FxRules Json "HOL-Library.AList"
begin

text \<open>
  Model of gotools/internal/repomap: the orientation map of a repository and how it is brought inside
  its token budget. The size of a map is that of its JSON form (theory Json), as the source
  measures it. Build's clock is not modelled: the duration is zero when the size is taken.
\<close>

section \<open>The map\<close>

definition DefaultMaxTokens :: nat where "DefaultMaxTokens = 4000"

definition LargeFileLines :: nat where "LargeFileLines = 800"

record rm_options =
  opPackage :: string
  opMaxTokens :: int

record LargeFile =
  lfPath :: string
  lfLines :: nat

record Package =
  pkDir :: string
  pkName :: string
  pkLayer :: string
  pkFiles :: nat
  pkTypes :: "string list"
  pkFuncs :: "string list"
  pkMoreTypes :: nat
  pkMoreFuncs :: nat
  pkSummarised :: bool
  pkAllTypes :: "string list"
  pkAllFuncs :: "string list"

record FX =
  fxRepos :: "string list"
  fxHandlers :: "string list"
  fxUnwired :: "string list"
  fxMisregistered :: "string list"

record Elision =
  elTruncated :: nat
  elSummarised :: nat
  elDropped :: nat
  elHint :: string

record repo_map =
  rmModule :: string
  rmGoVersion :: string
  rmGeneration :: string
  rmRequires :: "string list"
  rmPackages :: "Package list"
  rmFX :: "FX option"
  rmFiles :: nat
  rmLarge :: "LargeFile list"
  rmElided :: "Elision option"
  rmEstTokens :: nat

section \<open>Its size\<close>

definition package_json :: "Package \<Rightarrow> json" where
  "package_json p =
     JObj ([(''dir'', JStr (pkDir p)), (''name'', JStr (pkName p))] @ omit_str ''layer'' (pkLayer p)
       @ [(''files'', JNum (pkFiles p))] @ omit_strs ''types'' (pkTypes p) @ omit_strs ''funcs'' (pkFuncs p)
       @ omit_num ''more_types'' (pkMoreTypes p) @ omit_num ''more_funcs'' (pkMoreFuncs p)
       @ omit (\<not> pkSummarised p) ''summarised'' (JBool (pkSummarised p)))"

definition fx_json :: "FX \<Rightarrow> json" where
  "fx_json x =
     JObj (omit_strs ''repos'' (fxRepos x) @ omit_strs ''handlers'' (fxHandlers x)
       @ omit_strs ''unwired'' (fxUnwired x) @ omit_strs ''misregistered'' (fxMisregistered x))"

definition large_json :: "LargeFile \<Rightarrow> json" where
  "large_json l = JObj [(''path'', JStr (lfPath l)), (''lines'', JNum (lfLines l))]"

definition elision_members :: "Elision \<Rightarrow> (string \<times> json) list" where
  "elision_members e =
     omit_num ''truncated'' (elTruncated e) @ omit_num ''summarised'' (elSummarised e)
     @ omit_num ''dropped'' (elDropped e) @ [(''hint'', JStr (elHint e))]"

definition map_head :: "repo_map \<Rightarrow> (string \<times> json) list" where
  "map_head m =
     omit_str ''module'' (rmModule m) @ omit_str ''go_version'' (rmGoVersion m)
     @ omit_str ''generation'' (rmGeneration m) @ omit_strs ''requires'' (rmRequires m)
     @ [(''packages'', JArr (map package_json (rmPackages m)))]
     @ (case rmFX m of None \<Rightarrow> [] | Some x \<Rightarrow> [(''fx'', fx_json x)])
     @ [(''files'', JNum (rmFiles m))]
     @ omit (rmLarge m = []) ''large'' (JArr (map large_json (rmLarge m)))"

definition map_tail :: "Elision option \<Rightarrow> nat \<Rightarrow> (string \<times> json) list" where
  "map_tail e est =
     (case e of None \<Rightarrow> [] | Some x \<Rightarrow> [(''elided'', JObj (elision_members x))])
     @ [(''est_tokens'', JNum est), (''duration_ms'', JNum 0)]"

definition map_json :: "repo_map \<Rightarrow> json" where
  "map_json m = JObj (map_head m @ map_tail (rmElided m) (rmEstTokens m))"

definition estimateTokens :: "repo_map \<Rightarrow> nat" where
  "estimateTokens m = length (marshal (map_json m)) div 4"

section \<open>Packages\<close>

text \<open>The directory argument with forward slashes and without the leading and trailing marks.\<close>

definition only_dir :: "string \<Rightarrow> string" where
  "only_dir s =
     trim_suffix (trim_prefix (map (\<lambda>c. if c = CHR 0x5C then CHR ''/'' else c) s) ''./'') ''/''"

text \<open>path.Dir of a clean relative path, with the top directory as the empty string.\<close>

definition dir_of :: "string \<Rightarrow> string" where
  "dir_of rel = (case last_index_char rel (CHR ''/'') of None \<Rightarrow> [] | Some i \<Rightarrow> take i rel)"

definition in_scope :: "string \<Rightarrow> gofile \<Rightarrow> bool" where
  "in_scope only f \<longleftrightarrow> fLayer f \<noteq> LayerTest \<and> (only_dir only = [] \<or> dir_of (fRel f) = only_dir only)"

definition largeFiles :: "workspace \<Rightarrow> string \<Rightarrow> LargeFile list" where
  "largeFiles ws only =
     sort_key (\<lambda>l. (- int (lfLines l), lfPath l))
       (filter (\<lambda>l. LargeFileLines < lfLines l)
         (map (\<lambda>f. \<lparr>lfPath = fRel f, lfLines = count_list (fSrc f) (CHR 0x0A) + 1\<rparr>)
           (filter (in_scope only) (wsFiles ws))))"

definition is_exported :: "string \<Rightarrow> bool" where
  "is_exported s \<longleftrightarrow> s \<noteq> [] \<and> is_upper (hd s)"

fun receiverName :: "node \<Rightarrow> string" where
  "receiverName (StarExpr _ x) = ''*'' @ receiverName x"
| "receiverName (Ident _ n) = n"
| "receiverName (IndexExpr _ x _) = receiverName x"
| "receiverName (IndexListExpr _ x _) = receiverName x"
| "receiverName _ = ''?''"

definition decl_funcs :: "node \<Rightarrow> string list" where
  "decl_funcs d =
     (case d of
        FuncDecl _ recv n _ _ \<Rightarrow>
          if \<not> is_exported n then []
          else (case olist recv of
                  [] \<Rightarrow> [n]
                | r # _ \<Rightarrow> [''('' @ receiverName (field_type r) @ '').'' @ n])
      | _ \<Rightarrow> [])"

definition decl_types :: "node \<Rightarrow> string list" where
  "decl_types d =
     (case d of
        GenDecl _ tok specs _ _ \<Rightarrow>
          if tok \<noteq> decl_tok.TYPE then []
          else concat (map (\<lambda>s. case s of TypeSpec _ n _ \<Rightarrow> if is_exported n then [n] else [] | _ \<Rightarrow> []) specs)
      | _ \<Rightarrow> [])"

text \<open>collectSymbols: a file's declarations added to its package, which the first file names.\<close>

definition collectSymbols :: "gofile \<Rightarrow> Package \<Rightarrow> Package" where
  "collectSymbols f p =
     p\<lparr>pkTypes := pkTypes p @ concat (map decl_types (file_decls (fAST f))),
       pkFuncs := pkFuncs p @ concat (map decl_funcs (file_decls (fAST f)))\<rparr>"

definition new_package :: "gofile \<Rightarrow> Package" where
  "new_package f =
     \<lparr>pkDir = dir_of (fRel f), pkName = fPackage f, pkLayer = layer_string (fLayer f), pkFiles = 0,
      pkTypes = [], pkFuncs = [], pkMoreTypes = 0, pkMoreFuncs = 0, pkSummarised = False,
      pkAllTypes = [], pkAllFuncs = []\<rparr>"

definition package_step :: "gofile \<Rightarrow> (string \<times> Package) list \<Rightarrow> (string \<times> Package) list" where
  "package_step f byDir =
     (let dir = dir_of (fRel f);
          p = (case map_of byDir dir of Some q \<Rightarrow> q | None \<Rightarrow> new_package f)
      in AList.update dir (collectSymbols f (p\<lparr>pkFiles := pkFiles p + 1\<rparr>)) byDir)"

definition close_package :: "Package \<Rightarrow> Package" where
  "close_package p =
     (let ts = sort_strings (pkTypes p); fs = sort_strings (pkFuncs p) in
      p\<lparr>pkTypes := ts, pkFuncs := fs, pkAllTypes := ts, pkAllFuncs := fs\<rparr>)"

definition buildPackages :: "workspace \<Rightarrow> string \<Rightarrow> Package list" where
  "buildPackages ws only =
     sort_key pkDir (map (close_package \<circ> snd) (fold package_step (filter (in_scope only) (wsFiles ws)) []))"

section \<open>Fitting\<close>

definition layerPriority :: "(string \<times> nat) list" where
  "layerPriority =
     [(''handler'', 0), (''repo'', 1), (''domain'', 2), (''response'', 3), (''bootstrap'', 4), (''port'', 5),
      (''main'', 6), (''routes'', 7), (''other'', 8), (''test'', 9)]"

definition priorityOf :: "Package \<Rightarrow> nat" where
  "priorityOf p = (case map_of layerPriority (pkLayer p) of Some v \<Rightarrow> v | None \<Rightarrow> length layerPriority)"

definition symbolCaps :: "nat list" where
  "symbolCaps = [40, 24, 12, 6, 3, 1]"

definition budget_hint :: string where
  "budget_hint =
     '' to fit the context budget '' @ emdash
     @ '' call repo_map(package=\"<dir>\") for any package you need in full''"

definition worstCaseTail :: Elision where
  "worstCaseTail =
     \<lparr>elTruncated = 999, elSummarised = 999, elDropped = 999,
      elHint = ''symbol lists shortened in 999 package(s), symbols dropped from 999 package(s), ''
        @ ''999 package(s) omitted entirely'' @ budget_hint\<rparr>"

definition cut :: "string list \<Rightarrow> nat \<Rightarrow> string list \<times> nat" where
  "cut xs limit = (if length xs \<le> limit then (xs, 0) else (take limit xs, length xs - limit))"

definition applyCap :: "nat \<Rightarrow> Package \<Rightarrow> Package" where
  "applyCap limit p =
     p\<lparr>pkTypes := fst (cut (pkAllTypes p) limit), pkMoreTypes := snd (cut (pkAllTypes p) limit),
       pkFuncs := fst (cut (pkAllFuncs p) limit), pkMoreFuncs := snd (cut (pkAllFuncs p) limit)\<rparr>"

definition keeping :: "Package list \<Rightarrow> nat list \<Rightarrow> Package list" where
  "keeping ps dropped = map snd (filter (\<lambda>(i, p). i \<notin> set dropped) (enumerate 0 ps))"

definition hint_parts :: "nat \<Rightarrow> nat \<Rightarrow> nat \<Rightarrow> string list" where
  "hint_parts t s d =
     (if 0 < t then [''symbol lists shortened in '' @ itoa t @ '' package(s)''] else [])
     @ (if 0 < s then [''symbols dropped from '' @ itoa s @ '' package(s)''] else [])
     @ (if 0 < d then [itoa d @ '' package(s) omitted entirely''] else [])"

definition finishElision :: "Package list \<Rightarrow> nat \<Rightarrow> nat \<Rightarrow> Elision option" where
  "finishElision ps summarised dropped =
     (let t = length (filter (\<lambda>p. 0 < pkMoreTypes p \<or> 0 < pkMoreFuncs p) ps) in
      if t = 0 \<and> summarised = 0 \<and> dropped = 0 then None
      else Some \<lparr>elTruncated = t, elSummarised = summarised, elDropped = dropped,
        elHint = str_join '', '' (hint_parts t summarised dropped) @ budget_hint\<rparr>)"

text \<open>Least important layer first, within a layer the most symbols first; ties keep their order.\<close>

definition fit_order :: "Package list \<Rightarrow> nat list" where
  "fit_order ps =
     sort_key (\<lambda>i. (- int (priorityOf (ps ! i)), - int (length (pkTypes (ps ! i)) + length (pkFuncs (ps ! i)))))
       [0..<length ps]"

text \<open>The first loop: uniform caps until the map fits.\<close>

fun try_caps :: "nat list \<Rightarrow> nat \<Rightarrow> repo_map \<Rightarrow> repo_map \<times> bool" where
  "try_caps [] budget m = (m, False)"
| "try_caps (c # cs) budget m =
     (let m' = m\<lparr>rmPackages := map (applyCap c) (rmPackages m)\<rparr> in
      if estimateTokens m' \<le> budget then (m', True) else try_caps cs budget m')"

definition summarise :: "Package \<Rightarrow> Package" where
  "summarise p = p\<lparr>pkTypes := [], pkFuncs := [], pkMoreTypes := 0, pkMoreFuncs := 0, pkSummarised := True\<rparr>"

text \<open>The second: symbol lists dropped package by package.\<close>

fun summarise_loop :: "nat list \<Rightarrow> nat \<Rightarrow> repo_map \<times> nat \<Rightarrow> repo_map \<times> nat" where
  "summarise_loop [] budget st = st"
| "summarise_loop (i # is) budget (m, n) =
     (if estimateTokens m \<le> budget then (m, n)
      else (let p = rmPackages m ! i in
            if pkAllTypes p = [] \<and> pkAllFuncs p = [] then summarise_loop is budget (m, n)
            else summarise_loop is budget (m\<lparr>rmPackages := (rmPackages m)[i := summarise p]\<rparr>, n + 1)))"

text \<open>The third: packages dropped.\<close>

fun drop_loop :: "nat list \<Rightarrow> nat \<Rightarrow> Package list \<Rightarrow> repo_map \<times> nat list \<Rightarrow> repo_map \<times> nat list" where
  "drop_loop [] budget all st = st"
| "drop_loop (i # is) budget all (m, dropped) =
     (if estimateTokens m \<le> budget then (m, dropped)
      else drop_loop is budget all (m\<lparr>rmPackages := keeping all (i # dropped)\<rparr>, i # dropped))"

definition fit :: "nat \<Rightarrow> repo_map \<Rightarrow> repo_map" where
  "fit budget m0 =
     (let m = m0\<lparr>rmElided := Some worstCaseTail, rmEstTokens := 999999\<rparr> in
      (if estimateTokens m \<le> budget then m\<lparr>rmElided := None\<rparr>
       else (case try_caps symbolCaps budget m of
               (m1, True) \<Rightarrow> m1\<lparr>rmElided := finishElision (rmPackages m1) 0 0\<rparr>
             | (m1, False) \<Rightarrow>
                 (let order = fit_order (rmPackages m1) in
                  case summarise_loop order budget (m1, 0) of
                    (m2, n) \<Rightarrow>
                      (case drop_loop order budget (rmPackages m2) (m2, []) of
                         (m3, dropped) \<Rightarrow>
                           m3\<lparr>rmElided := finishElision (rmPackages m3) n (length dropped)\<rparr>))))
      \<lparr>rmEstTokens := 0\<rparr>)"

section \<open>Build\<close>

definition generationModules :: "string list" where
  "generationModules = [''server'', ''bootstrapper'', ''db'', ''log'', ''validation'']"

definition generation_name :: "string \<Rightarrow> string option" where
  "generation_name p =
     (let pre = ''gitlab.cept.gov.in/it-2.0-common/'' in
      if has_prefix p pre then Some (fst (cut_char (trim_prefix p pre) (CHR ''/''))) else None)"

definition uses_generation :: "string \<Rightarrow> workspace \<Rightarrow> bool" where
  "uses_generation pre ws \<longleftrightarrow>
     list_ex (\<lambda>f. list_ex (\<lambda>im. case generation_name (import_path im) of
         None \<Rightarrow> False
       | Some name \<Rightarrow> list_ex (\<lambda>m. name = pre @ m) generationModules) (ast_imports (fAST f))) (wsFiles ws)"

definition detectGeneration :: "workspace \<Rightarrow> string" where
  "detectGeneration ws =
     (let legacy = uses_generation ''api-'' ws; current = uses_generation ''n-api-'' ws in
      if legacy \<and> current then ''mixed'' else if legacy then ''api'' else if current then ''n-api'' else [])"

definition buildFX :: "workspace \<Rightarrow> FX option" where
  "buildFX ws =
     (let scan = ScanFX ws;
          x = \<lparr>fxRepos = FXNames scan FXRepo None, fxHandlers = FXNames scan FXHandler None,
               fxUnwired = Unwired scan, fxMisregistered = Misregistered scan\<rparr>
      in if \<not> fsPresent scan then None
         else if length (fxRepos x) = 0 \<and> length (fxHandlers x) = 0 then None
         else Some x)"

definition map_of_workspace :: "workspace \<Rightarrow> rm_options \<Rightarrow> repo_map" where
  "map_of_workspace ws opts =
     \<lparr>rmModule = wsModulePath ws, rmGoVersion = wsGoVersion ws, rmGeneration = detectGeneration ws,
      rmRequires = sort_strings (map (\<lambda>r. rqPath r @ ''@'' @ rqVersion r) (wsRequires ws)),
      rmPackages = buildPackages ws (opPackage opts),
      rmFX = (if opPackage opts = [] then buildFX ws else None),
      rmFiles = length (wsFiles ws), rmLarge = largeFiles ws (opPackage opts),
      rmElided = None, rmEstTokens = 0\<rparr>"

definition repomap_Build :: "workspace \<Rightarrow> rm_options \<Rightarrow> repo_map" where
  "repomap_Build ws opts =
     (let m = map_of_workspace ws opts;
          budget = (if opMaxTokens opts = 0 then int DefaultMaxTokens else opMaxTokens opts);
          m' = (if 0 < budget then fit (nat budget) m else m)
      in m'\<lparr>rmEstTokens := estimateTokens m'\<rparr>)"


section \<open>Grouping by directory\<close>

text \<open>What a directory's package is, said directly: its files in order, the first one naming it.\<close>

definition files_in :: "workspace \<Rightarrow> string \<Rightarrow> string \<Rightarrow> gofile list" where
  "files_in ws only dir = filter (\<lambda>f. dir_of (fRel f) = dir) (filter (in_scope only) (wsFiles ws))"

definition open_package :: "gofile list \<Rightarrow> Package" where
  "open_package g =
     (new_package (hd g))
       \<lparr>pkFiles := length g, pkTypes := concat (map (\<lambda>f. concat (map decl_types (file_decls (fAST f)))) g),
        pkFuncs := concat (map (\<lambda>f. concat (map decl_funcs (file_decls (fAST f)))) g)\<rparr>"

definition package_of :: "workspace \<Rightarrow> string \<Rightarrow> string \<Rightarrow> Package" where
  "package_of ws only dir = close_package (open_package (files_in ws only dir))"

definition source_dirs :: "workspace \<Rightarrow> string \<Rightarrow> string list" where
  "source_dirs ws only = sort_strings (remdups (map (\<lambda>f. dir_of (fRel f)) (filter (in_scope only) (wsFiles ws))))"

lemma open_package_snoc:
  "open_package (g @ [f]) =
     collectSymbols f ((if g = [] then new_package f else open_package g)
       \<lparr>pkFiles := length g + 1\<rparr>)"
  by (cases g) (simp_all add: open_package_def collectSymbols_def new_package_def)

lemma package_step_lookup:
  "map_of (fold package_step fs []) dir =
     (let g = filter (\<lambda>f. dir_of (fRel f) = dir) fs in if g = [] then None else Some (open_package g))"
proof (induction fs rule: rev_induct)
  case (snoc f fs)
  then show ?case
    by (auto simp: package_step_def Let_def update_conv' open_package_snoc
        open_package_def [of "filter _ _"] new_package_def split: if_splits)
qed simp

lemma package_step_keys: "distinct (map fst (fold package_step fs []))"
proof (induction fs rule: rev_induct)
  case (snoc f fs)
  then show ?case by (simp add: package_step_def Let_def distinct_update)
qed simp


lemma package_dir: "p \<in> set (map (close_package \<circ> snd) (fold package_step fs [])) \<Longrightarrow>
    \<exists>dir. map_of (fold package_step fs []) dir = Some (open_package (filter (\<lambda>f. dir_of (fRel f) = dir) fs))
      \<and> p = close_package (open_package (filter (\<lambda>f. dir_of (fRel f) = dir) fs))
      \<and> filter (\<lambda>f. dir_of (fRel f) = dir) fs \<noteq> [] \<and> pkDir p = dir"
proof -
  assume "p \<in> set (map (close_package \<circ> snd) (fold package_step fs []))"
  then obtain dir q where "(dir, q) \<in> set (fold package_step fs [])" and p: "p = close_package q" by auto
  then have q: "map_of (fold package_step fs []) dir = Some q"
    using package_step_keys by (simp add: map_of_is_SomeI)
  let ?g = "filter (\<lambda>f. dir_of (fRel f) = dir) fs"
  have g: "?g \<noteq> []" "q = open_package ?g" using q by (auto simp: package_step_lookup Let_def split: if_splits)
  have "hd ?g \<in> set ?g" using g(1) by (rule hd_in_set)
  then have "dir_of (fRel (hd ?g)) = dir" by simp
  then have "pkDir p = dir" by (simp add: p g(2) close_package_def open_package_def new_package_def Let_def)
  then show ?thesis using q g p by blast
qed

lemma package_dirs: "map pkDir (map (close_package \<circ> snd) (fold package_step fs [])) = map fst (fold package_step fs [])"
proof -
  have "pkDir (close_package q) = dir" if "(dir, q) \<in> set (fold package_step fs [])" for dir q
  proof -
    have q: "map_of (fold package_step fs []) dir = Some q"
      using that package_step_keys by (simp add: map_of_is_SomeI)
    let ?g = "filter (\<lambda>f. dir_of (fRel f) = dir) fs"
    have g: "?g \<noteq> []" "q = open_package ?g" using q by (auto simp: package_step_lookup Let_def split: if_splits)
    have "hd ?g \<in> set ?g" using g(1) by (rule hd_in_set)
    then show ?thesis by (simp add: g(2) close_package_def open_package_def new_package_def Let_def)
  qed
  then show ?thesis by auto
qed

lemma package_keys_set: "set (map fst (fold package_step fs [])) = set (map (\<lambda>f. dir_of (fRel f)) fs)"
proof -
  have "d \<in> set (map fst (fold package_step fs [])) \<longleftrightarrow> d \<in> set (map (\<lambda>f. dir_of (fRel f)) fs)" for d
  proof -
    have "d \<in> set (map fst (fold package_step fs [])) \<longleftrightarrow> map_of (fold package_step fs []) d \<noteq> None"
      by (simp add: map_of_eq_None_iff)
    also have "\<dots> \<longleftrightarrow> filter (\<lambda>f. dir_of (fRel f) = d) fs \<noteq> []" by (simp add: package_step_lookup Let_def)
    also have "\<dots> \<longleftrightarrow> d \<in> set (map (\<lambda>f. dir_of (fRel f)) fs)" by (auto simp: filter_empty_conv)
    finally show ?thesis .
  qed
  then show ?thesis by blast
qed

text \<open>Repo_map's packages are exactly the directories that hold a source file in scope, in order of
  their path, each once; a package counts the files of its directory, takes name and layer from the
  first of them, and lists every exported type and function they declare, sorted.\<close>

theorem packages_group_directories:
  "buildPackages ws only = map (package_of ws only) (source_dirs ws only)"
proof -
  define fs where "fs = filter (in_scope only) (wsFiles ws)"
  define ps where "ps = map (close_package \<circ> snd) (fold package_step fs [])"
  have B: "buildPackages ws only = sort_key pkDir ps" by (simp add: buildPackages_def ps_def fs_def)
  have keys: "map pkDir ps = map fst (fold package_step fs [])" unfolding ps_def by (rule package_dirs)
  have D: "map pkDir (sort_key pkDir ps) = source_dirs ws only"
  proof (rule sorted_distinct_set_unique)
    show "distinct (map pkDir (sort_key pkDir ps))"
      using package_step_keys [of fs] keys by (metis distinct_map distinct_sort set_sort)
    show "set (map pkDir (sort_key pkDir ps)) = set (source_dirs ws only)"
    proof -
      have "set (map pkDir (sort_key pkDir ps)) = set (map pkDir ps)" by simp
      also have "\<dots> = set (source_dirs ws only)"
        unfolding keys package_keys_set by (simp add: source_dirs_def fs_def)
      finally show ?thesis .
    qed
  qed (simp_all add: source_dirs_def)
  have "package_of ws only (pkDir p) = p" if "p \<in> set (sort_key pkDir ps)" for p
    using that package_dir [of p fs] by (auto simp: ps_def package_of_def files_in_def fs_def)
  then have "map (package_of ws only \<circ> pkDir) (sort_key pkDir ps) = sort_key pkDir ps"
    by (intro map_idI) simp
  then have "map (package_of ws only) (map pkDir (sort_key pkDir ps)) = sort_key pkDir ps" by simp
  then show ?thesis by (simp only: B D)
qed


section \<open>The budget\<close>

lemma applyCap_applyCap [simp]: "applyCap c (applyCap d p) = applyCap c p"
  by (simp add: applyCap_def)

lemma applyCap_comp [simp]: "applyCap c \<circ> applyCap d = applyCap c"
  by (rule ext) simp

text \<open>What each stage of fit does to the packages, and that it stops inside the budget when it can.\<close>

lemma try_caps_result:
  "\<exists>Q. fst (try_caps cs b m) = m\<lparr>rmPackages := Q\<rparr>
     \<and> (cs \<noteq> [] \<longrightarrow> (\<exists>c. Q = map (applyCap c) (rmPackages m)))
     \<and> (snd (try_caps cs b m) \<longrightarrow> cs \<noteq> [] \<and> estimateTokens (fst (try_caps cs b m)) \<le> b)"
proof (induction cs b m rule: try_caps.induct)
  case (1 b m)
  then show ?case by (intro exI [of _ "rmPackages m"]) simp
next
  case (2 c cs b m)
  let ?m = "m\<lparr>rmPackages := map (applyCap c) (rmPackages m)\<rparr>"
  show ?case
  proof (cases "estimateTokens ?m \<le> b")
    case True
    then show ?thesis by (auto simp: Let_def)
  next
    case False
    show ?thesis
    proof (cases cs)
      case Nil
      then show ?thesis using False by (auto simp: Let_def)
    next
      case (Cons c' cs')
      obtain Q where "fst (try_caps cs b ?m) = ?m\<lparr>rmPackages := Q\<rparr>"
        "\<exists>c. Q = map (applyCap c) (rmPackages ?m)"
        "snd (try_caps cs b ?m) \<longrightarrow> estimateTokens (fst (try_caps cs b ?m)) \<le> b"
        using 2 [OF refl False] Cons by blast
      then show ?thesis using False by (auto simp: Let_def)
    qed
  qed
qed

definition maybe_summarised :: "Package \<Rightarrow> Package \<Rightarrow> bool" where
  "maybe_summarised p q \<longleftrightarrow> q = p \<or> q = summarise p"

lemma maybe_summarised_refl [simp]: "maybe_summarised p p"
  by (simp add: maybe_summarised_def)

lemma maybe_summarised_step: "maybe_summarised p q \<Longrightarrow> maybe_summarised p (summarise q)"
  by (auto simp: maybe_summarised_def summarise_def)

lemma summarise_loop_result:
  "\<exists>Q. fst (summarise_loop is b (m, n)) = m\<lparr>rmPackages := Q\<rparr>
     \<and> (\<forall>P. list_all2 maybe_summarised P (rmPackages m) \<longrightarrow> list_all2 maybe_summarised P Q)
     \<and> n \<le> snd (summarise_loop is b (m, n)) \<and> snd (summarise_loop is b (m, n)) \<le> n + length is
     \<and> (snd (summarise_loop is b (m, n)) = n \<longrightarrow> Q = rmPackages m)"
proof (induction "is" arbitrary: m n)
  case Nil
  then show ?case by (intro exI [of _ "rmPackages m"]) simp
next
  case (Cons i "is")
  have same: "\<exists>Q. m = m\<lparr>rmPackages := Q\<rparr> \<and> (\<forall>P. list_all2 maybe_summarised P (rmPackages m) \<longrightarrow> list_all2 maybe_summarised P Q)
      \<and> Q = rmPackages m" by simp
  let ?p = "rmPackages m ! i"
  let ?m = "m\<lparr>rmPackages := (rmPackages m)[i := summarise ?p]\<rparr>"
  consider "estimateTokens m \<le> b"
    | "\<not> estimateTokens m \<le> b" "pkAllTypes ?p = []" "pkAllFuncs ?p = []"
    | "\<not> estimateTokens m \<le> b" "\<not> (pkAllTypes ?p = [] \<and> pkAllFuncs ?p = [])" by blast
  then show ?case
  proof cases
    case 1
    then show ?thesis using same by auto
  next
    case 2
    obtain Q where "fst (summarise_loop is b (m, n)) = m\<lparr>rmPackages := Q\<rparr>"
      "\<forall>P. list_all2 maybe_summarised P (rmPackages m) \<longrightarrow> list_all2 maybe_summarised P Q"
      "n \<le> snd (summarise_loop is b (m, n))" "snd (summarise_loop is b (m, n)) \<le> n + length is"
      "snd (summarise_loop is b (m, n)) = n \<longrightarrow> Q = rmPackages m" using Cons [of m n] by blast
    then show ?thesis using 2 by (auto simp: Let_def)
  next
    case 3
    obtain Q where Q: "fst (summarise_loop is b (?m, n + 1)) = ?m\<lparr>rmPackages := Q\<rparr>"
      "\<forall>P. list_all2 maybe_summarised P (rmPackages ?m) \<longrightarrow> list_all2 maybe_summarised P Q"
      "n + 1 \<le> snd (summarise_loop is b (?m, n + 1))" "snd (summarise_loop is b (?m, n + 1)) \<le> n + 1 + length is"
      using Cons [of ?m "n + 1"] by blast
    have "list_all2 maybe_summarised P (rmPackages ?m)" if "list_all2 maybe_summarised P (rmPackages m)" for P
      unfolding list_all2_conv_all_nth
    proof (intro conjI allI impI)
      show "length P = length (rmPackages ?m)" using that by (simp add: list_all2_lengthD)
      fix j assume "j < length P"
      with that show "maybe_summarised (P ! j) (rmPackages ?m ! j)"
        by (cases "j = i") (auto simp: list_all2_conv_all_nth maybe_summarised_step)
    qed
    then show ?thesis using 3 Q by (auto simp: Let_def)
  qed
qed

lemma drop_loop_result:
  assumes "rmPackages m = keeping all ds" and "distinct (is @ ds)"
  shows "\<exists>es. fst (drop_loop is b all (m, ds)) = m\<lparr>rmPackages := keeping all (snd (drop_loop is b all (m, ds)))\<rparr>
     \<and> snd (drop_loop is b all (m, ds)) = es @ ds \<and> set es \<subseteq> set is \<and> distinct (es @ ds)
     \<and> (estimateTokens (fst (drop_loop is b all (m, ds))) \<le> b \<or> set es = set is)"
  using assms
proof (induction "is" arbitrary: m ds)
  case Nil
  then have "m = m\<lparr>rmPackages := keeping all ds\<rparr>" by simp
  then show ?case using Nil by auto
next
  case (Cons i "is")
  show ?case
  proof (cases "estimateTokens m \<le> b")
    case True
    have "m = m\<lparr>rmPackages := keeping all ds\<rparr>" using Cons.prems(1) by simp
    then show ?thesis using True Cons.prems by auto
  next
    case False
    let ?m = "m\<lparr>rmPackages := keeping all (i # ds)\<rparr>"
    have "rmPackages ?m = keeping all (i # ds)" "distinct (is @ i # ds)" using Cons.prems(2) by auto
    from Cons.IH [OF this] obtain es where
      "fst (drop_loop is b all (?m, i # ds)) = ?m\<lparr>rmPackages := keeping all (snd (drop_loop is b all (?m, i # ds)))\<rparr>"
      "snd (drop_loop is b all (?m, i # ds)) = es @ i # ds" "set es \<subseteq> set is" "distinct (es @ i # ds)"
      "estimateTokens (fst (drop_loop is b all (?m, i # ds))) \<le> b \<or> set es = set is" by blast
    then show ?thesis using False by (intro exI [of _ "es @ [i]"]) auto
  qed
qed

lemma length_keeping:
  assumes "distinct ds" and "set ds \<subseteq> {0..<length ps}"
  shows "length (keeping ps ds) + length ds = length ps"
proof -
  have "length (keeping ps ds) = length (filter (\<lambda>i. i \<notin> set ds) (map fst (enumerate 0 ps)))"
    unfolding keeping_def filter_map length_map comp_def case_prod_unfold by (rule refl)
  also have "\<dots> = card (set [0..<length ps] - set ds)"
    by (simp add: distinct_card [symmetric] set_diff_eq del: set_upt) 
  also have "\<dots> = length ps - length ds" using assms by (simp add: card_Diff_subset distinct_card)
  finally show ?thesis using assms by (metis card_mono distinct_card finite_atLeastLessThan card_atLeastLessThan diff_zero le_add_diff_inverse2)
qed

lemma keeping_Nil [simp]: "keeping ps [] = ps"
  by (simp add: keeping_def)

lemma keeping_subset: "set (keeping ps ds) \<subseteq> set ps"
  by (auto simp: keeping_def in_set_enumerate_eq)

lemma set_fit_order [simp]: "set (fit_order ps) = {0..<length ps}" "distinct (fit_order ps)" "length (fit_order ps) = length ps"
  by (simp_all add: fit_order_def)


text \<open>The placeholder is at least as long as any marker for up to 999 packages.\<close>

lemma hint_part_mono:
  assumes "m \<le> n"
  shows "length (json_esc (pre @ itoa m @ suf)) \<le> length (json_esc (pre @ itoa n @ suf))"
  using length_itoa_mono [OF assms] by (simp only: json_esc_append json_esc_itoa length_append)

lemma hint_part_mono':
  assumes "m \<le> n"
  shows "length (json_esc (itoa m @ suf)) \<le> length (json_esc (itoa n @ suf))"
  using length_itoa_mono [OF assms] by (simp only: json_esc_append json_esc_itoa length_append)

lemma worst_hint: "elHint worstCaseTail = str_join '', '' (hint_parts 999 999 999) @ budget_hint"
  by code_simp

lemma hint_parts_weight:
  assumes "t \<le> 999" and "s \<le> 999" and "d \<le> 999"
  shows "sum_list (map (\<lambda>w. length (json_esc w) + k) (hint_parts t s d))
    \<le> sum_list (map (\<lambda>w. length (json_esc w) + k) (hint_parts 999 999 999))"
proof -
  have t: "length (json_esc (''symbol lists shortened in '' @ itoa t @ '' package(s)''))
      \<le> length (json_esc (''symbol lists shortened in '' @ itoa 999 @ '' package(s)''))" by (rule hint_part_mono [OF assms(1)])
  have s: "length (json_esc (''symbols dropped from '' @ itoa s @ '' package(s)''))
      \<le> length (json_esc (''symbols dropped from '' @ itoa 999 @ '' package(s)''))" by (rule hint_part_mono [OF assms(2)])
  have d: "length (json_esc (itoa d @ '' package(s) omitted entirely''))
      \<le> length (json_esc (itoa 999 @ '' package(s) omitted entirely''))" by (rule hint_part_mono' [OF assms(3)])
  have "sum_list (map f (if b then [x] else [])) = (if b then f x else 0)" for f :: "string \<Rightarrow> nat" and b x by simp
  note sums = this
  have pos: "(0::nat) < 999" by simp
  show ?thesis unfolding hint_parts_def map_append sum_list_append sums if_P [OF pos]
    using t s d by (intro add_mono) simp_all
qed

lemma marker_hint_length:
  assumes "t \<le> 999" and "s \<le> 999" and "d \<le> 999" and "hint_parts t s d \<noteq> []"
  shows "length (json_esc (str_join '', '' (hint_parts t s d) @ budget_hint)) \<le> length (json_esc (elHint worstCaseTail))"
proof -
  have "hint_parts 999 999 999 \<noteq> []" by (simp add: hint_parts_def)
  from length_json_esc_join [OF this, of "'', ''"] length_json_esc_join [OF assms(4), of "'', ''"]
    hint_parts_weight [OF assms(1-3), of "length (json_esc '', '')"]
  show ?thesis unfolding worst_hint json_esc_append length_append by linarith
qed

definition weight :: "(string \<times> json) list \<Rightarrow> nat" where
  "weight ms = sum_list (map (\<lambda>m. member_length m + 1) ms)"

lemma weight_append [simp]: "weight (xs @ ys) = weight xs + weight ys"
  by (simp add: weight_def)

lemma weight_num: "n \<le> k \<Longrightarrow> 0 < k \<Longrightarrow> weight (omit_num key n) \<le> weight (omit_num key k)"
  using length_itoa_mono [of n k] by (simp add: weight_def omit_num_def omit_def member_length_def)

lemma marker_weight:
  assumes "t \<le> 999" and "s \<le> 999" and "d \<le> 999" and "hint_parts t s d \<noteq> []"
  shows "weight (elision_members \<lparr>elTruncated = t, elSummarised = s, elDropped = d,
      elHint = str_join '', '' (hint_parts t s d) @ budget_hint\<rparr>) \<le> weight (elision_members worstCaseTail)"
proof -
  have w: "elTruncated worstCaseTail = 999" "elSummarised worstCaseTail = 999" "elDropped worstCaseTail = 999"
    by (simp_all add: worstCaseTail_def)
  have "weight [(''hint'', JStr (str_join '', '' (hint_parts t s d) @ budget_hint))]
      \<le> weight [(''hint'', JStr (elHint worstCaseTail))]"
    using marker_hint_length [OF assms] by (simp add: weight_def member_length_def json_quote_def)
  moreover have "weight (omit_num k t) \<le> weight (omit_num k 999)" "weight (omit_num k s) \<le> weight (omit_num k 999)"
    "weight (omit_num k d) \<le> weight (omit_num k 999)" for k using assms(1-3) by (simp_all add: weight_num)
  ultimately show ?thesis unfolding elision_members_def w
    by (simp only: weight_append Elision.simps) (intro add_mono; assumption)
qed

lemma finish_weight:
  assumes "finishElision ps s d = Some e" and "length ps \<le> 999" and "s \<le> 999" and "d \<le> 999"
  shows "weight (elision_members e) \<le> weight (elision_members worstCaseTail)"
proof -
  let ?t = "length (filter (\<lambda>p. 0 < pkMoreTypes p \<or> 0 < pkMoreFuncs p) ps)"
  have t: "?t \<le> 999" using assms(2) length_filter_le le_trans by blast
  have e: "e = \<lparr>elTruncated = ?t, elSummarised = s, elDropped = d, elHint = str_join '', '' (hint_parts ?t s d) @ budget_hint\<rparr>"
    and ne: "\<not> (?t = 0 \<and> s = 0 \<and> d = 0)"
    using assms(1) unfolding finishElision_def Let_def by (simp_all split: if_splits)
  from ne have "hint_parts ?t s d \<noteq> []" by (auto simp: hint_parts_def)
  from marker_weight [OF t assms(3,4) this] show ?thesis unfolding e .
qed

lemma tail_weight:
  assumes "\<forall>e. el = Some e \<longrightarrow> weight (elision_members e) \<le> weight (elision_members worstCaseTail)"
    and "est \<le> 999999"
  shows "weight (map_tail el est) \<le> weight (map_tail (Some worstCaseTail) 999999)"
proof -
  have n: "length (itoa est) \<le> length (itoa 999999)" using assms(2) by (rule length_itoa_mono)
  have obj: "length (marshal (JObj (elision_members e))) = 1 + weight (elision_members e)" for e
    unfolding weight_def by (rule length_marshal_obj) (simp add: elision_members_def)
  have "weight (case el of None \<Rightarrow> [] | Some x \<Rightarrow> [(''elided'', JObj (elision_members x))])
      \<le> weight [(''elided'', JObj (elision_members worstCaseTail))]"
    using assms(1) by (cases el) (simp_all add: weight_def [of "[]"] weight_def [of "[_]"] member_length_def obj del: marshal.simps(5))
  moreover have "weight [(''est_tokens'', JNum est), (''duration_ms'', JNum 0)]
      \<le> weight [(''est_tokens'', JNum 999999), (''duration_ms'', JNum 0)]"
    using n by (simp add: weight_def member_length_def)
  ultimately show ?thesis unfolding map_tail_def weight_append option.case by (rule add_mono)
qed

text \<open>So a map measured with the placeholder is no smaller than the map with its own marker and count.\<close>

lemma estimate_tail:
  assumes "\<forall>e. el = Some e \<longrightarrow> weight (elision_members e) \<le> weight (elision_members worstCaseTail)"
    and "est \<le> 999999"
  shows "estimateTokens (m\<lparr>rmElided := el, rmEstTokens := est\<rparr>)
    \<le> estimateTokens (m\<lparr>rmElided := Some worstCaseTail, rmEstTokens := 999999\<rparr>)"
proof -
  have "length (marshal (map_json q)) = 1 + (weight (map_head q) + weight (map_tail (rmElided q) (rmEstTokens q)))" for q
  proof -
    have "map_head q @ map_tail (rmElided q) (rmEstTokens q) \<noteq> []" by (simp add: map_tail_def)
    from length_marshal_obj [OF this] show ?thesis
      unfolding map_json_def weight_append [symmetric] by (simp only: weight_def)
  qed
  note len = this
  have "map_head (m\<lparr>rmElided := el, rmEstTokens := est\<rparr>) = map_head (m\<lparr>rmElided := Some worstCaseTail, rmEstTokens := 999999\<rparr>)"
    by (simp add: map_head_def)
  then show ?thesis using tail_weight [OF assms] by (simp add: estimateTokens_def len div_le_mono)
qed


text \<open>The three ways fit ends.\<close>

abbreviation measured :: "repo_map \<Rightarrow> Package list \<Rightarrow> repo_map" where
  "measured m ps \<equiv> m\<lparr>rmElided := Some worstCaseTail, rmEstTokens := 999999, rmPackages := ps\<rparr>"

abbreviation finished :: "repo_map \<Rightarrow> Package list \<Rightarrow> Elision option \<Rightarrow> repo_map" where
  "finished m ps e \<equiv> m\<lparr>rmPackages := ps, rmElided := e, rmEstTokens := 0\<rparr>"

lemma fit_cases:
  obtains (whole) "fit b m = finished m (rmPackages m) None" "estimateTokens (measured m (rmPackages m)) \<le> b"
  | (capped) c Q where "Q = map (applyCap c) (rmPackages m)" "fit b m = finished m Q (finishElision Q 0 0)"
      "estimateTokens (measured m Q) \<le> b"
  | (dropped) c R n ds where "list_all2 maybe_summarised (map (applyCap c) (rmPackages m)) R"
      "n \<le> length (rmPackages m)" "n = 0 \<Longrightarrow> R = map (applyCap c) (rmPackages m)"
      "distinct ds" "set ds \<subseteq> {0..<length (rmPackages m)}"
      "fit b m = finished m (keeping R ds) (finishElision (keeping R ds) n (length ds))"
      "estimateTokens (measured m (keeping R ds)) \<le> b \<or> set ds = {0..<length (rmPackages m)}"
proof -
  let ?P = "rmPackages m" and ?m = "m\<lparr>rmElided := Some worstCaseTail, rmEstTokens := 999999\<rparr>"
  have same: "?m = measured m ?P" by simp
  show ?thesis
  proof (cases "estimateTokens ?m \<le> b")
    case True
    then show ?thesis using whole by (simp add: fit_def)
  next
    case False
    have "symbolCaps \<noteq> []" by (simp add: symbolCaps_def)
    then obtain Q c where Q: "fst (try_caps symbolCaps b ?m) = ?m\<lparr>rmPackages := Q\<rparr>" "Q = map (applyCap c) ?P"
      "snd (try_caps symbolCaps b ?m) \<Longrightarrow> estimateTokens (?m\<lparr>rmPackages := Q\<rparr>) \<le> b"
      using try_caps_result [of symbolCaps b ?m] by auto
    have lQ: "length Q = length ?P" using Q(2) by simp
    show ?thesis
    proof (cases "snd (try_caps symbolCaps b ?m)")
      case True
      then have "try_caps symbolCaps b ?m = (?m\<lparr>rmPackages := Q\<rparr>, True)" using Q(1) by (simp add: prod_eq_iff)
      then show ?thesis using False Q True capped [of Q c] by (simp add: fit_def)
    next
      case False': False
      then have t: "try_caps symbolCaps b ?m = (?m\<lparr>rmPackages := Q\<rparr>, False)" using Q(1) by (simp add: prod_eq_iff)
      let ?o = "fit_order Q" and ?m1 = "?m\<lparr>rmPackages := Q\<rparr>"
      obtain R where R: "fst (summarise_loop ?o b (?m1, 0)) = ?m1\<lparr>rmPackages := R\<rparr>"
        "\<forall>P. list_all2 maybe_summarised P Q \<longrightarrow> list_all2 maybe_summarised P R"
        "snd (summarise_loop ?o b (?m1, 0)) \<le> length Q" "snd (summarise_loop ?o b (?m1, 0)) = 0 \<longrightarrow> R = Q"
        using summarise_loop_result [of ?o b ?m1 0] by auto
      define n where "n = snd (summarise_loop ?o b (?m1, 0))"
      have s: "summarise_loop ?o b (?m1, 0) = (?m1\<lparr>rmPackages := R\<rparr>, n)" using R(1) by (simp add: prod_eq_iff n_def)
      let ?m2 = "?m1\<lparr>rmPackages := R\<rparr>"
      have "list_all2 maybe_summarised Q R" using R(2) by (simp add: list_all2_same)
      have k: "rmPackages ?m2 = keeping R []" "distinct (?o @ [])" by simp_all
      obtain ds where ds: "drop_loop ?o b R (?m2, []) = (?m2\<lparr>rmPackages := keeping R ds\<rparr>, ds)" "set ds \<subseteq> set ?o" "distinct ds"
        "estimateTokens (?m2\<lparr>rmPackages := keeping R ds\<rparr>) \<le> b \<or> set ds = set ?o"
        using drop_loop_result [OF k, of b] by (metis append_Nil2 prod.collapse)
      have f: "fit b m = finished m (keeping R ds) (finishElision (keeping R ds) n (length ds))"
        using False t s ds(1) by (simp add: fit_def Let_def)
      show ?thesis
      proof (rule dropped [of c R n ds])
        show "list_all2 maybe_summarised (map (applyCap c) ?P) R" using \<open>list_all2 maybe_summarised Q R\<close> Q(2) by simp
        show "n \<le> length ?P" using R(3) lQ by (simp add: n_def)
        show "R = map (applyCap c) ?P" if "n = 0" using R(4) Q(2) that by (simp add: n_def)
        show "distinct ds" "set ds \<subseteq> {0..<length ?P}" using ds lQ by simp_all
        show "fit b m = finished m (keeping R ds) (finishElision (keeping R ds) n (length ds))" by (rule f)
        show "estimateTokens (measured m (keeping R ds)) \<le> b \<or> set ds = {0..<length ?P}" using ds(4) lQ by simp
      qed
    qed
  qed
qed


definition map_budget :: "rm_options \<Rightarrow> int" where
  "map_budget opts = (if opMaxTokens opts = 0 then int DefaultMaxTokens else opMaxTokens opts)"

lemma list_all2_keeping_length: "list_all2 R P Q \<Longrightarrow> length Q = length P"
  by (simp add: list_all2_lengthD)

lemma keeping_all: "set ds = {0..<length ps} \<Longrightarrow> keeping ps ds = []"
  by (auto simp: keeping_def in_set_enumerate_eq filter_empty_conv)

lemma length_keeping_le: "length (keeping ps ds) \<le> length ps"
  unfolding keeping_def length_map using length_filter_le [of _ "enumerate 0 ps"] by simp

lemma fit_within:
  assumes "length (rmPackages m) \<le> 999" and "est \<le> 999999"
  shows "estimateTokens ((fit b m)\<lparr>rmEstTokens := est\<rparr>) \<le> b \<or> rmPackages (fit b m) = []"
proof -
  have tail: "estimateTokens (m\<lparr>rmPackages := Q, rmElided := el, rmEstTokens := est\<rparr>) \<le> estimateTokens (measured m Q)"
    if "\<forall>e. el = Some e \<longrightarrow> weight (elision_members e) \<le> weight (elision_members worstCaseTail)" for Q el
  proof -
    have "measured m Q = m\<lparr>rmPackages := Q, rmElided := Some worstCaseTail, rmEstTokens := 999999\<rparr>" by (cases m) simp
    then show ?thesis by (simp only: estimate_tail [OF that assms(2), of "m\<lparr>rmPackages := Q\<rparr>"])
  qed
  show ?thesis
  proof (cases rule: fit_cases [of b m])
    case whole
    then show ?thesis using tail [of None "rmPackages m"] by simp
  next
    case (capped c Q)
    then have "length Q \<le> 999" using assms(1) by simp
    then show ?thesis using capped(2,3) tail [of "finishElision Q 0 0" Q] finish_weight [of Q 0 0] by simp
  next
    case (dropped c R n ds)
    have lR: "length R = length (rmPackages m)" using dropped(1) by (auto dest: list_all2_lengthD)
    have "length ds \<le> length (rmPackages m)"
      using dropped(4,5) card_mono [OF finite_atLeastLessThan dropped(5)] by (simp add: distinct_card)
    then have d: "length ds \<le> 999" using assms(1) by simp
    have k: "length (keeping R ds) \<le> 999" using length_keeping_le [of R ds] lR assms(1) by simp
    have n: "n \<le> 999" using dropped(2) assms(1) by simp
    show ?thesis
    proof (cases "set ds = {0..<length (rmPackages m)}")
      case True
      then show ?thesis using keeping_all [of ds R] lR dropped(6) by simp
    next
      case False
      then have "estimateTokens (measured m (keeping R ds)) \<le> b" using dropped(7) by blast
      then show ?thesis
        using dropped(6) tail [of "finishElision (keeping R ds) n (length ds)" "keeping R ds"] finish_weight [OF _ k n d] by simp
    qed
  qed
qed

lemma rmPackages_built: "rmPackages (map_of_workspace ws opts) = buildPackages ws (opPackage opts)"
  by (simp add: map_of_workspace_def)

text \<open>C10: The map of a repository of up to 999 packages, its own truncation marker and token count included,
  is within the token budget, unless every package had to be dropped and what remains (requirements, composition root,
  large files) is alone too big.\<close>

theorem map_within_budget:
  assumes "length (buildPackages ws (opPackage opts)) \<le> 999"
    and "0 < map_budget opts" and "map_budget opts \<le> 999999"
  shows "int (estimateTokens (repomap_Build ws opts)) \<le> map_budget opts \<or> rmPackages (repomap_Build ws opts) = []"
proof -
  let ?m = "fit (nat (map_budget opts)) (map_of_workspace ws opts)"
  have B: "repomap_Build ws opts = ?m\<lparr>rmEstTokens := estimateTokens ?m\<rparr>"
    using assms(2) by (simp add: repomap_Build_def map_budget_def Let_def)
  have len: "length (rmPackages (map_of_workspace ws opts)) \<le> 999" using assms(1) by (simp add: rmPackages_built)
  have "?m = ?m\<lparr>rmEstTokens := 0\<rparr>" by (cases rule: fit_cases [of "nat (map_budget opts)" "map_of_workspace ws opts"]) simp_all
  then have "estimateTokens ?m \<le> nat (map_budget opts) \<or> rmPackages ?m = []"
    using fit_within [OF len, of 0 "nat (map_budget opts)"] by simp
  then show ?thesis
  proof
    assume e: "estimateTokens ?m \<le> nat (map_budget opts)"
    then have "estimateTokens ?m \<le> 999999" using assms(3) by linarith
    from fit_within [OF len this, of "nat (map_budget opts)"] show ?thesis using assms(2) by (auto simp: B le_nat_iff)
  qed (simp add: B)
qed


section \<open>What a map shows\<close>

text \<open>A package of the map is the directory's package with its symbol lists whole, shortened with the rest counted, or
  dropped and marked.\<close>

definition shown_of :: "Package \<Rightarrow> Package \<Rightarrow> bool" where
  "shown_of q p \<longleftrightarrow>
     pkDir p = pkDir q \<and> pkName p = pkName q \<and> pkLayer p = pkLayer q \<and> pkFiles p = pkFiles q
     \<and> (if pkSummarised p then pkTypes p = [] \<and> pkFuncs p = []
        else prefix (pkTypes p) (pkTypes q) \<and> length (pkTypes p) + pkMoreTypes p = length (pkTypes q)
          \<and> prefix (pkFuncs p) (pkFuncs q) \<and> length (pkFuncs p) + pkMoreFuncs p = length (pkFuncs q))"

definition marker_dropped :: "Elision option \<Rightarrow> nat" where
  "marker_dropped e = (case e of None \<Rightarrow> 0 | Some x \<Rightarrow> elDropped x)"

definition unabridged :: "Package \<Rightarrow> bool" where
  "unabridged p \<longleftrightarrow> pkAllTypes p = pkTypes p \<and> pkAllFuncs p = pkFuncs p \<and> pkMoreTypes p = 0 \<and> pkMoreFuncs p = 0
     \<and> \<not> pkSummarised p"

lemma built_unabridged: "p \<in> set (buildPackages ws only) \<Longrightarrow> unabridged p"
proof -
  assume "p \<in> set (buildPackages ws only)"
  then have "p \<in> set (map (close_package \<circ> snd) (fold package_step (filter (in_scope only) (wsFiles ws)) []))"
    by (simp add: buildPackages_def)
  from package_dir [OF this] obtain g where "p = close_package (open_package g)" by blast
  then show ?thesis by (simp add: unabridged_def close_package_def open_package_def new_package_def Let_def)
qed

lemma shown_of_self: "unabridged p \<Longrightarrow> shown_of p p"
  by (simp add: shown_of_def unabridged_def)

lemma shown_of_cap: "unabridged p \<Longrightarrow> shown_of p (applyCap c p)"
  by (auto simp: shown_of_def unabridged_def applyCap_def cut_def take_is_prefix)

lemma shown_of_summary: "shown_of p q \<Longrightarrow> shown_of p (summarise q)"
  by (simp add: shown_of_def summarise_def)

lemma cap_nothing_cut: "unabridged p \<Longrightarrow> pkMoreTypes (applyCap c p) = 0 \<Longrightarrow> pkMoreFuncs (applyCap c p) = 0 \<Longrightarrow> applyCap c p = p"
  by (cases p) (auto simp: unabridged_def applyCap_def cut_def split: if_splits)

lemma finish_None_iff:
  "finishElision ps n d = None \<longleftrightarrow> n = 0 \<and> d = 0 \<and> (\<forall>p \<in> set ps. pkMoreTypes p = 0 \<and> pkMoreFuncs p = 0)"
  by (auto simp: finishElision_def Let_def filter_empty_conv)

lemma finish_dropped [simp]: "marker_dropped (finishElision ps n d) = d"
  by (auto simp: finishElision_def marker_dropped_def Let_def)

lemma fit_accounts:
  assumes "\<forall>p \<in> set (rmPackages m). unabridged p" and "rmElided m = None"
  shows "length (rmPackages (fit b m)) + marker_dropped (rmElided (fit b m)) = length (rmPackages m)
    \<and> (\<forall>p \<in> set (rmPackages (fit b m)). \<exists>q \<in> set (rmPackages m). shown_of q p)
    \<and> (rmElided (fit b m) = None \<longrightarrow> rmPackages (fit b m) = rmPackages m)"
proof -
  have full: "map (applyCap c) (rmPackages m) = rmPackages m"
    if "\<forall>p \<in> set (map (applyCap c) (rmPackages m)). pkMoreTypes p = 0 \<and> pkMoreFuncs p = 0" for c
    using that assms(1) by (intro map_idI) (auto intro: cap_nothing_cut)
  show ?thesis
  proof (cases rule: fit_cases [of b m])
    case whole
    then show ?thesis using assms by (auto simp: marker_dropped_def intro: shown_of_self)
  next
    case (capped c Q)
    then show ?thesis using assms full [of c] by (auto simp: finish_None_iff intro: shown_of_cap)
  next
    case (dropped c R n ds)
    have lR: "length R = length (rmPackages m)" using dropped(1) by (auto dest: list_all2_lengthD)
    have "\<exists>q \<in> set (rmPackages m). shown_of q p" if pR: "p \<in> set R" for p
    proof -
      obtain i where i: "i < length R" "p = R ! i" using pR by (metis in_set_conv_nth)
      let ?q = "rmPackages m ! i"
      have "?q \<in> set (rmPackages m)" using i(1) lR by simp
      moreover have "maybe_summarised (applyCap c ?q) p"
        using dropped(1) i lR by (simp add: list_all2_conv_all_nth)
      ultimately show ?thesis using assms(1) by (auto simp: maybe_summarised_def intro!: bexI [of _ ?q] shown_of_summary shown_of_cap)
    qed
    moreover have "rmPackages (fit b m) = rmPackages m" if "rmElided (fit b m) = None"
    proof -
      have "n = 0" "ds = []" and cuts: "\<forall>p \<in> set R. pkMoreTypes p = 0 \<and> pkMoreFuncs p = 0"
        using that dropped(6) by (auto simp: finish_None_iff)
      then have "R = map (applyCap c) (rmPackages m)" using dropped(3) by simp
      then show ?thesis using cuts full [of c] dropped(6) \<open>ds = []\<close> by simp
    qed
    ultimately show ?thesis
      using dropped(4-6) lR length_keeping [of ds R] keeping_subset [of R ds] by auto
  qed
qed

text \<open>C9: A map never loses anything silently: the packages shown and those the marker counts as dropped
  are together all of the repository's, every package shown has its lists whole, or a prefix with the rest counted, or
  carries the summarised mark, and a map without a marker lists every package in full.\<close>

theorem map_accounts_for_packages:
  "length (rmPackages (repomap_Build ws opts)) + marker_dropped (rmElided (repomap_Build ws opts))
      = length (buildPackages ws (opPackage opts))
   \<and> (\<forall>p \<in> set (rmPackages (repomap_Build ws opts)). \<exists>q \<in> set (buildPackages ws (opPackage opts)). shown_of q p)
   \<and> (rmElided (repomap_Build ws opts) = None \<longrightarrow> rmPackages (repomap_Build ws opts) = buildPackages ws (opPackage opts))"
proof -
  let ?m = "map_of_workspace ws opts"
  have u: "\<forall>p \<in> set (rmPackages ?m). unabridged p" by (auto simp: rmPackages_built intro: built_unabridged)
  have "rmElided ?m = None" by (simp add: map_of_workspace_def)
  from fit_accounts [OF u this] show ?thesis
    by (auto simp: repomap_Build_def Let_def rmPackages_built marker_dropped_def \<open>rmElided ?m = None\<close>
        intro: shown_of_self built_unabridged)
qed

definition sample_ws :: workspace where
  "sample_ws = \<lparr>wsModulePath = ''svc'', wsGoVersion = ''1.22'',
     wsFiles = [\<lparr>fRel = ''handler/user.go'', fSrc = ''package handler'', fAST = FileNode no_span (Ident no_span ''handler'')
       [GenDecl no_span decl_tok.TYPE [TypeSpec no_span ''UserHandler'' (Ident no_span ''int'')] None no_span],
       fPackage = ''handler'', fLayer = LayerHandler, fGenerated = False, fParseErr = None\<rparr>],
     wsRequires = [], wsConfigs = [], wsReadCount = 1\<rparr>"

abbreviation sample_opts :: rm_options where
  "sample_opts \<equiv> \<lparr>opPackage = ''handler'', opMaxTokens = 0\<rparr>"

abbreviation sample_uncapped :: rm_options where
  "sample_uncapped \<equiv> \<lparr>opPackage = ''handler'', opMaxTokens = -1\<rparr>"

lemma sample_unmarked: "rmElided (repomap_Build sample_ws sample_uncapped) = None"
  by (simp add: repomap_Build_def map_of_workspace_def)

theorem map_accounts_for_packages_witness:
  "rmPackages (repomap_Build sample_ws sample_uncapped) = buildPackages sample_ws ''handler''"
  using map_accounts_for_packages [of sample_ws sample_uncapped] sample_unmarked by simp

lemma sample_one: "length (buildPackages sample_ws ''handler'') = 1"
  by code_simp

theorem map_within_budget_witness:
  "int (estimateTokens (repomap_Build sample_ws sample_opts)) \<le> 4000
     \<or> rmPackages (repomap_Build sample_ws sample_opts) = []"
  using map_within_budget [of sample_ws sample_opts] sample_one
  by (simp add: map_budget_def DefaultMaxTokens_def)

end
