(* ===== verification/Kb.thy ===== *)
theory Kb
  imports Gopatch
begin

text \<open>
  Model of gotools/internal/kb: the reference documents, the citations into them, the check that keeps
  the two together, and the assembly of the knowledge base. Reading a file is the parameter
  \<open>files\<close> (an error or the bytes), SHA-256 in hexadecimal the parameter \<open>digest\<close>, of which the check uses
  only that it is a function of the bytes.
\<close>

section \<open>Strings at a separator\<close>

text \<open>strings.ReplaceAll and strings.Split for a separator that is not empty, and strings.Cut.\<close>

fun replace_str :: "string \<Rightarrow> string \<Rightarrow> string \<Rightarrow> string" where
  "replace_str old new [] = []"
| "replace_str old new (c # s) =
     (if has_prefix (c # s) old then new @ replace_str old new (drop (length old - 1) s)
      else c # replace_str old new s)"

fun split_str :: "string \<Rightarrow> string \<Rightarrow> string list" where
  "split_str sep [] = [[]]"
| "split_str sep (c # s) =
     (if has_prefix (c # s) sep then [] # split_str sep (drop (length sep - 1) s)
      else (case split_str sep s of [] \<Rightarrow> [[c]] | w # ws \<Rightarrow> (c # w) # ws))"

definition cut_str :: "string \<Rightarrow> string \<Rightarrow> string \<times> string \<times> bool" where
  "cut_str s sep =
     (case str_index s sep of
        None \<Rightarrow> (s, [], False)
      | Some i \<Rightarrow> (take i s, drop (i + length sep) s, True))"

section \<open>Documents\<close>

record Section =
  seTitle :: string
  seLevel :: nat
  seLine :: nat
  seEndLine :: nat
  seBody :: string

record Doc =
  dcName :: string
  dcPath :: string
  dcHash :: string
  dcLines :: nat
  dcSections :: "Section list"

text \<open>The class \<open>\s\<close> of the regexp package.\<close>

definition re_space :: "char \<Rightarrow> bool" where
  "re_space c \<longleftrightarrow> code c \<in> {9, 10, 12, 13, 32}"

text \<open>
  The match of headingRe on a line: one to six marks, white space, then the shortest text after which
  only white space is left. On a line of marks and white space alone the text is the last space.
\<close>

definition headingRe :: "string \<Rightarrow> (nat \<times> string) option" where
  "headingRe line =
     (let hs = takeWhile (\<lambda>c. c = CHR ''#'') line;
          rest = dropWhile (\<lambda>c. c = CHR ''#'') line;
          ws = takeWhile re_space rest;
          body = dropWhile re_space rest
      in if hs = [] \<or> 6 < length hs \<or> ws = [] then None
         else if body \<noteq> [] then Some (length hs, trim_right_by re_space body)
         else if 2 \<le> length ws then Some (length hs, [last ws])
         else None)"

definition fenceRe :: "string \<Rightarrow> bool" where
  "fenceRe line \<longleftrightarrow>
     has_prefix (dropWhile re_space line) ''```'' \<or> has_prefix (dropWhile re_space line) ''~~~''"

text \<open>The headings outside code fences, the first of these lines having number \<open>n\<close>.\<close>

fun scan_headings :: "nat \<Rightarrow> bool \<Rightarrow> string list \<Rightarrow> Section list" where
  "scan_headings n inFence [] = []"
| "scan_headings n inFence (line # ls) =
     (if fenceRe line then scan_headings (n + 1) (\<not> inFence) ls
      else if inFence then scan_headings (n + 1) inFence ls
      else (case headingRe line of
              None \<Rightarrow> scan_headings (n + 1) inFence ls
            | Some (lv, t) \<Rightarrow>
                \<lparr>seTitle = t, seLevel = lv, seLine = n, seEndLine = 0, seBody = []\<rparr>
                # scan_headings (n + 1) inFence ls))"

definition close_section :: "string list \<Rightarrow> Section list \<Rightarrow> Section \<Rightarrow> Section" where
  "close_section lns rest s =
     (let e = (case find (\<lambda>t. seLevel t \<le> seLevel s) rest of None \<Rightarrow> length lns | Some t \<Rightarrow> seLine t - 1) in
      s\<lparr>seEndLine := e,
        seBody := (if seLine s < e then str_join [CHR 0x0A] (take (e - seLine s) (drop (seLine s) lns)) else [])\<rparr>)"

fun close_sections :: "string list \<Rightarrow> Section list \<Rightarrow> Section list" where
  "close_sections lns [] = []"
| "close_sections lns (s # rest) = close_section lns rest s # close_sections lns rest"

text \<open>filepath.Base of a path without trailing slashes.\<close>

definition base_name :: "string \<Rightarrow> string" where
  "base_name p = (case last_index_char p (CHR ''/'') of None \<Rightarrow> p | Some i \<Rightarrow> drop (i + 1) p)"

definition doc_lines :: "string \<Rightarrow> string list" where
  "doc_lines raw = split_char (CHR 0x0A) (ToLF raw)"

definition parse_doc :: "(string \<Rightarrow> string) \<Rightarrow> string \<Rightarrow> string \<Rightarrow> Doc" where
  "parse_doc digest path raw =
     \<lparr>dcName = base_name path, dcPath = path, dcHash = ''sha256:'' @ digest (ToLF raw),
      dcLines = length (doc_lines raw),
      dcSections = close_sections (doc_lines raw) (scan_headings 1 False (doc_lines raw))\<rparr>"

definition LoadDoc :: "(string \<Rightarrow> string + string) \<Rightarrow> (string \<Rightarrow> string) \<Rightarrow> string \<Rightarrow> string + Doc" where
  "LoadDoc files digest path =
     (case files path of
        Inl e \<Rightarrow> Inl (''read '' @ path @ '': '' @ e)
      | Inr raw \<Rightarrow> Inr (parse_doc digest path raw))"

definition normaliseTitle :: "string \<Rightarrow> string" where
  "normaliseTitle s =
     (let low = to_lower (trim_space s);
          dashes = replace_str emdash ''-'' (replace_str endash ''-'' low)
      in str_join '' '' (str_words (trim_set ('' .,:;`'' @ [CHR 0x22, CHR 0x27]) dashes)))"

definition prefixAtWordBoundary :: "string \<Rightarrow> string \<Rightarrow> bool" where
  "prefixAtWordBoundary long short \<longleftrightarrow>
     \<not> (short = [] \<or> length long < length short \<or> \<not> has_prefix long short)
     \<and> (length long = length short \<or> long ! length short = CHR '' '')"

definition abbreviates :: "string \<Rightarrow> Section \<Rightarrow> bool" where
  "abbreviates want s \<longleftrightarrow>
     (let got = normaliseTitle (seTitle s) in prefixAtWordBoundary want got \<or> prefixAtWordBoundary got want)"

definition better_section :: "string \<Rightarrow> Section \<Rightarrow> Section option \<Rightarrow> Section option" where
  "better_section want s best =
     (if \<not> abbreviates want s then best
      else (case best of
              None \<Rightarrow> Some s
            | Some b \<Rightarrow> if length (seTitle b) < length (seTitle s) then Some s else best))"

definition Doc_Section :: "Doc \<Rightarrow> string \<Rightarrow> Section option" where
  "Doc_Section d title =
     (let want = normaliseTitle title in
      case find (\<lambda>s. normaliseTitle (seTitle s) = want) (dcSections d) of
        Some s \<Rightarrow> Some s
      | None \<Rightarrow> fold (better_section want) (dcSections d) None)"

definition Titles :: "Doc \<Rightarrow> string list" where
  "Titles d = map seTitle (dcSections d)"

section \<open>Citations\<close>

record Ref =
  rfDoc :: string
  rfSection :: string

definition ref_string :: "Ref \<Rightarrow> string" where
  "ref_string r = (if rfSection r = [] then rfDoc r else rfDoc r @ '' '' @ sect @ rfSection r)"

text \<open>
  docRe: one or more characters of the class, as many as leave a dot and an extension after them. The match at
  the head of a text, and the leftmost one.
\<close>

definition doc_char :: "char \<Rightarrow> bool" where
  "doc_char c \<longleftrightarrow> is_letter c \<or> is_digit c \<or> c \<in> set ''_.-/''"

definition doc_ext :: "string \<Rightarrow> string option" where
  "doc_ext s = find (\<lambda>e. has_prefix s e) [''.md'', ''.go'', ''.yaml'', ''.yml'', ''.mod'']"

definition doc_at :: "string \<Rightarrow> string option" where
  "doc_at s =
     (let run = takeWhile doc_char s in
      case find (\<lambda>k. doc_ext (drop k run) \<noteq> None) (rev [1..<length run]) of
        None \<Rightarrow> None
      | Some k \<Rightarrow> (case doc_ext (drop k run) of None \<Rightarrow> None | Some e \<Rightarrow> Some (take k run @ e)))"

fun docRe :: "string \<Rightarrow> string" where
  "docRe [] = []"
| "docRe (c # s) = (case doc_at (c # s) of Some m \<Rightarrow> m | None \<Rightarrow> docRe s)"

definition section_part :: "string \<Rightarrow> string" where
  "section_part part =
     (let sec = trim_space (trim_suffix (trim_space part) '','');
          sec' = (case str_index sec ('', '' @ sect) of None \<Rightarrow> sec | Some i \<Rightarrow> take i sec)
      in trim_space (trim_set '','' sec'))"

definition clause_refs :: "string \<Rightarrow> Ref list \<Rightarrow> Ref list" where
  "clause_refs clause0 refs =
     (let clause = trim_space clause0 in
      if clause = [] then refs
      else (case cut_str clause sect of
              (hd0, rest, hasSection) \<Rightarrow>
                (let found = docRe hd0 in
                 if found = [] \<and> refs = [] then refs
                 else (let doc = (if found = [] then rfDoc (last refs) else found) in
                       if \<not> hasSection then refs @ [\<lparr>rfDoc = doc, rfSection = []\<rparr>]
                       else refs @ map (\<lambda>sec. \<lparr>rfDoc = doc, rfSection = sec\<rparr>)
                              (filter (\<lambda>sec. sec \<noteq> []) (map section_part (split_str sect rest)))))))"

definition ParseCitation :: "string \<Rightarrow> Ref list" where
  "ParseCitation citation = fold clause_refs (split_char (CHR '';'') citation) []"

section \<open>The check\<close>

definition ManifestFile :: string where
  "ManifestFile = ''docs/doc-manifest.json''"

record DocPin =
  dpHash :: string
  dpLines :: nat
  dpSections :: nat
  dpCited :: "string list"

record Manifest =
  mfComment :: string
  mfDocs :: "(string \<times> DocPin) list"

definition manifestComment :: string where
  "manifestComment =
     ''Pinned state of the template reference documents. Rules cite sections of these; changing a document ''
     @ ''without reviewing the rules that cite it is how the rule set drifts from the template it enforces ''
     @ ''(plan.md '' @ sect @ ''14.4). Regenerate deliberately with `gotools doc-check --update` and review what moved.''"

record Citation =
  ciRuleID :: string
  ciText :: string

record Problem =
  prKind :: string
  prRuleID :: string
  prDoc :: string
  prDetail :: string
  prFix :: string

definition problem_string :: "Problem \<Rightarrow> string" where
  "problem_string p =
     (prKind p @ (if prRuleID p \<noteq> [] then '' ['' @ prRuleID p @ '']'' else []) @ '': '' @ prDetail p)
     @ (if prFix p \<noteq> [] then [CHR 0x0A] @ ''      fix: '' @ prFix p else [])"

record kb_report =
  krOK :: bool
  krProblems :: "Problem list"
  krChecked :: "string list"
  krResolved :: nat
  krManifest :: Manifest

definition commonPrefixLen :: "string \<Rightarrow> string \<Rightarrow> nat" where
  "commonPrefixLen a b = length (takeWhile (\<lambda>(x, y). x = y) (zip a b))"

definition similarity :: "string \<Rightarrow> string \<Rightarrow> nat" where
  "similarity a b =
     (let shared = length (filter (\<lambda>w. w \<in> set (str_words a)) (str_words b)) in
      if shared = 0 then 0 else shared * 100 + commonPrefixLen a b)"

definition nearest_step :: "string \<Rightarrow> Section \<Rightarrow> string \<times> nat \<Rightarrow> string \<times> nat" where
  "nearest_step w s st =
     (let n = similarity w (normaliseTitle (seTitle s)) in if snd st < n then (seTitle s, n) else st)"

definition nearest :: "Doc \<Rightarrow> string \<Rightarrow> string" where
  "nearest d want =
     (let best = fst (fold (nearest_step (normaliseTitle want)) (dcSections d) ([], 0)) in
      if best = [] then ''no heading in '' @ dcName d @ '' resembles it''
      else ''did you mean '' @ dcName d @ '' '' @ sect @ best @ ''?'')"

definition intersect :: "string list \<Rightarrow> string list \<Rightarrow> string list" where
  "intersect a b = filter (\<lambda>s. s \<in> set a) b"

definition missingFrom :: "string list \<Rightarrow> string list \<Rightarrow> string list" where
  "missingFrom before after = sort_strings (filter (\<lambda>s. s \<notin> set after) before)"

definition pinnable :: "string list" where
  "pinnable = [''skill.md'', ''SOP.md'']"

definition doc_path :: "string \<Rightarrow> string \<Rightarrow> string" where
  "doc_path docsDir name = (if docsDir = [] then name else docsDir @ ''/'' @ name)"

record check_state =
  csDocs :: "(string \<times> Doc) list"
  csCited :: "(string \<times> string) list"
  csMissing :: "string list"
  csProblems :: "Problem list"
  csResolved :: nat

definition missing_doc :: "string \<Rightarrow> string \<Rightarrow> Problem" where
  "missing_doc docsDir name =
     \<lparr>prKind = ''missing-doc'', prRuleID = [], prDoc = name,
      prDetail = name @ '' is cited by the rule set but was not found in '' @ docsDir,
      prFix = ''point --docs at the reference template, or check the corpus is present''\<rparr>"

definition unresolved :: "string \<Rightarrow> Doc \<Rightarrow> Ref \<Rightarrow> Problem" where
  "unresolved rule d ref =
     \<lparr>prKind = ''unresolved'', prRuleID = rule, prDoc = rfDoc ref,
      prDetail = ''citation names '' @ rfDoc ref @ '' '' @ sect @ rfSection ref
        @ '', which is not a heading in that document'',
      prFix = ''cite a real heading '' @ emdash @ '' '' @ nearest d (rfSection ref)\<rparr>"

text \<open>The first reference to a document reads it; a document that cannot be read is reported once.\<close>

definition read_doc ::
  "(string \<Rightarrow> string + string) \<Rightarrow> (string \<Rightarrow> string) \<Rightarrow> string \<Rightarrow> string \<Rightarrow> check_state \<Rightarrow> check_state" where
  "read_doc files digest docsDir name st =
     (if map_of (csDocs st) name \<noteq> None \<or> name \<in> set (csMissing st) then st
      else (case LoadDoc files digest (doc_path docsDir name) of
              Inl _ \<Rightarrow> st\<lparr>csMissing := name # csMissing st, csProblems := csProblems st @ [missing_doc docsDir name]\<rparr>
            | Inr d \<Rightarrow> st\<lparr>csDocs := (name, d) # csDocs st\<rparr>))"

definition resolve_ref :: "string \<Rightarrow> Ref \<Rightarrow> check_state \<Rightarrow> check_state" where
  "resolve_ref rule ref st =
     (case map_of (csDocs st) (rfDoc ref) of
        None \<Rightarrow> st
      | Some d \<Rightarrow>
          if rfSection ref = [] then st
          else (case Doc_Section d (rfSection ref) of
                  None \<Rightarrow> st\<lparr>csProblems := csProblems st @ [unresolved rule d ref]\<rparr>
                | Some s \<Rightarrow> st\<lparr>csResolved := csResolved st + 1, csCited := (rfDoc ref, seTitle s) # csCited st\<rparr>))"

definition check_ref ::
  "(string \<Rightarrow> string + string) \<Rightarrow> (string \<Rightarrow> string) \<Rightarrow> string \<Rightarrow> string \<times> Ref \<Rightarrow> check_state \<Rightarrow> check_state" where
  "check_ref files digest docsDir rr st =
     (if rfDoc (snd rr) \<notin> set pinnable then st
      else resolve_ref (fst rr) (snd rr) (read_doc files digest docsDir (rfDoc (snd rr)) st))"

definition cited_refs :: "Citation list \<Rightarrow> (string \<times> Ref) list" where
  "cited_refs cs = concat (map (\<lambda>c. map (Pair (ciRuleID c)) (ParseCitation (ciText c))) cs)"

definition pin_of :: "check_state \<Rightarrow> string \<times> Doc \<Rightarrow> string \<times> DocPin" where
  "pin_of st nd =
     (fst nd, \<lparr>dpHash = dcHash (snd nd), dpLines = dcLines (snd nd), dpSections = length (dcSections (snd nd)),
       dpCited = sort_strings (remdups (map snd (filter (\<lambda>c. fst c = fst nd) (csCited st))))\<rparr>)"

definition unpinned :: "string \<Rightarrow> Problem" where
  "unpinned name =
     \<lparr>prKind = ''unpinned'', prRuleID = [], prDoc = name,
      prDetail = name @ '' is cited by the rule set but is not in '' @ ManifestFile,
      prFix = ''run `gotools doc-check --update` and commit the manifest''\<rparr>"

definition drift :: "string \<Rightarrow> DocPin \<Rightarrow> DocPin \<Rightarrow> Problem" where
  "drift name before now =
     (let gone = missingFrom (dpCited before) (dpCited now);
          affected = intersect (dpCited before) (dpCited now)
      in \<lparr>prKind = ''drift'', prRuleID = [], prDoc = name,
          prDetail = name @ '' changed ('' @ itoa (dpLines before) @ '' '' @ arrow @ '' '' @ itoa (dpLines now)
            @ '' lines, '' @ itoa (dpSections before) @ '' '' @ arrow @ '' '' @ itoa (dpSections now) @ '' headings)''
            @ (if gone \<noteq> [] then ''; '' @ itoa (length gone) @ '' cited heading(s) no longer exist: ''
                 @ str_join '', '' gone else []),
          prFix = ''review the '' @ itoa (length affected) @ '' rule citation(s) into '' @ name
            @ '', then run `gotools doc-check --update`''\<rparr>)"

definition zero_pin :: DocPin where
  "zero_pin = \<lparr>dpHash = [], dpLines = 0, dpSections = 0, dpCited = []\<rparr>"

definition compare_name :: "Manifest \<Rightarrow> Manifest \<Rightarrow> string \<Rightarrow> Problem list" where
  "compare_name pinned current name =
     (let now = (case map_of (mfDocs current) name of None \<Rightarrow> zero_pin | Some p \<Rightarrow> p) in
      case map_of (mfDocs pinned) name of
        None \<Rightarrow> [unpinned name]
      | Some before \<Rightarrow> if dpHash before = dpHash now then [] else [drift name before now])"

definition kb_compare :: "kb_report \<Rightarrow> Manifest \<Rightarrow> kb_report" where
  "kb_compare rep pinned =
     rep\<lparr>krProblems := krProblems rep @ concat (map (compare_name pinned (krManifest rep)) (krChecked rep))\<rparr>"

definition empty_check :: check_state where
  "empty_check = \<lparr>csDocs = [], csCited = [], csMissing = [], csProblems = [], csResolved = 0\<rparr>"

definition kb_Check ::
  "(string \<Rightarrow> string + string) \<Rightarrow> (string \<Rightarrow> string) \<Rightarrow> string \<Rightarrow> Citation list \<Rightarrow> Manifest option \<Rightarrow> kb_report" where
  "kb_Check files digest docsDir citations pinned =
     (let st = fold (check_ref files digest docsDir) (cited_refs citations) empty_check;
          rep = \<lparr>krOK = False, krProblems = csProblems st, krChecked = sort_strings (map fst (csDocs st)),
                 krResolved = csResolved st,
                 krManifest = \<lparr>mfComment = manifestComment, mfDocs = map (pin_of st) (csDocs st)\<rparr>\<rparr>;
          rep' = (case pinned of None \<Rightarrow> rep | Some m \<Rightarrow> kb_compare rep m)
      in rep'\<lparr>krOK := (krProblems rep' = [])\<rparr>)"

section \<open>Sections nest\<close>

lemma scan_headings_lines:
  "sorted_wrt (<) (map seLine (scan_headings n b ls))
   \<and> (\<forall>s \<in> set (scan_headings n b ls). n \<le> seLine s \<and> seLine s < n + length ls)"
proof (induction ls arbitrary: n b)
  case (Cons l ls)
  have "sorted_wrt (<) (map seLine (scan_headings (n + 1) b ls))"
    "\<forall>s \<in> set (scan_headings (n + 1) b ls). n < seLine s \<and> n \<le> seLine s \<and> seLine s < Suc (n + length ls)" for b
    using Cons.IH [of "n + 1" b] by auto
  note ih = this
  show ?case using ih [of b] ih [of "\<not> b"] by (auto split: option.splits)
qed simp

lemma close_section_keeps [simp]:
  "seLine (close_section lns rest s) = seLine s" "seLevel (close_section lns rest s) = seLevel s"
  "seTitle (close_section lns rest s) = seTitle s"
  by (simp_all add: close_section_def Let_def)

lemma close_sections_keeps [simp]:
  "map seLine (close_sections lns ss) = map seLine ss" "map seLevel (close_sections lns ss) = map seLevel ss"
  "map seTitle (close_sections lns ss) = map seTitle ss" "length (close_sections lns ss) = length ss"
  by (induction ss) simp_all

lemma nth_close_sections:
  "i < length ss \<Longrightarrow> close_sections lns ss ! i = close_section lns (drop (Suc i) ss) (ss ! i)"
proof (induction ss arbitrary: i)
  case (Cons s ss)
  then show ?case by (cases i) simp_all
qed simp

text \<open>Where a section ends: at the end of the text, or before the first later heading of its level or above.\<close>

lemma close_section_end:
  "(seEndLine (close_section lns rest s) = length lns \<and> (\<forall>t \<in> set rest. seLevel s < seLevel t))
   \<or> (\<exists>k < length rest. seEndLine (close_section lns rest s) = seLine (rest ! k) - 1 \<and> seLevel (rest ! k) \<le> seLevel s
        \<and> (\<forall>j < k. seLevel s < seLevel (rest ! j)))"
proof (cases "find (\<lambda>t. seLevel t \<le> seLevel s) rest")
  case None
  then have "\<forall>t \<in> set rest. seLevel s < seLevel t" by (auto simp: find_None_iff not_le)
  then show ?thesis using None by (simp add: close_section_def Let_def)
next
  case (Some t)
  then obtain k where "k < length rest" "seLevel t \<le> seLevel s" "t = rest ! k" "\<forall>j < k. \<not> seLevel (rest ! j) \<le> seLevel s"
    unfolding find_Some_iff by blast
  then have "seEndLine (close_section lns rest s) = seLine (rest ! k) - 1" "\<forall>j < k. seLevel s < seLevel (rest ! j)"
    using Some by (simp_all add: close_section_def Let_def not_le)
  then show ?thesis using \<open>k < length rest\<close> \<open>seLevel t \<le> seLevel s\<close> \<open>t = rest ! k\<close> by blast
qed

definition nested_sections :: "nat \<Rightarrow> Section list \<Rightarrow> bool" where
  "nested_sections n ss \<longleftrightarrow>
     (\<forall>i < length ss. 1 \<le> seLine (ss ! i) \<and> seLine (ss ! i) \<le> seEndLine (ss ! i) \<and> seEndLine (ss ! i) \<le> n)
     \<and> (\<forall>j < length ss. \<forall>i < j. seLine (ss ! i) < seLine (ss ! j)
          \<and> (seEndLine (ss ! i) < seLine (ss ! j)
             \<or> seEndLine (ss ! j) \<le> seEndLine (ss ! i) \<and> seLevel (ss ! i) < seLevel (ss ! j)))"

lemma close_sections_nested:
  assumes sorted: "sorted_wrt (<) (map seLine ss)" and range: "\<forall>s \<in> set ss. 1 \<le> seLine s \<and> seLine s \<le> length lns"
  shows "nested_sections (length lns) (close_sections lns ss)"
proof -
  let ?e = "\<lambda>i. seEndLine (close_sections lns ss ! i)"
  have lt: "seLine (ss ! i) < seLine (ss ! j)" if "i < j" "j < length ss" for i j
    using sorted that by (simp add: sorted_wrt_iff_nth_less)
  have lo: "1 \<le> seLine (ss ! i)" "seLine (ss ! i) \<le> length lns" if "i < length ss" for i
    using range that by simp_all
  have ends: "(?e i = length lns \<and> (\<forall>j. i < j \<and> j < length ss \<longrightarrow> seLevel (ss ! i) < seLevel (ss ! j)))
      \<or> (\<exists>k. i < k \<and> k < length ss \<and> ?e i = seLine (ss ! k) - 1 \<and> seLevel (ss ! k) \<le> seLevel (ss ! i)
           \<and> (\<forall>j. i < j \<and> j < k \<longrightarrow> seLevel (ss ! i) < seLevel (ss ! j)))"
    if i: "i < length ss" for i
  proof -
    have nth: "drop (Suc i) ss ! (j - Suc i) = ss ! j" if "i < j" "j < length ss" for j using that by simp
    from close_section_end [of lns "drop (Suc i) ss" "ss ! i"] show ?thesis
    proof
      assume a: "seEndLine (close_section lns (drop (Suc i) ss) (ss ! i)) = length lns
        \<and> (\<forall>t \<in> set (drop (Suc i) ss). seLevel (ss ! i) < seLevel t)"
      have "seLevel (ss ! i) < seLevel (ss ! j)" if "i < j" "j < length ss" for j
      proof -
        have "drop (Suc i) ss ! (j - Suc i) \<in> set (drop (Suc i) ss)" using that by (intro nth_mem) simp
        then show ?thesis using a nth [OF that] by simp
      qed
      then show ?thesis using a i by (simp add: nth_close_sections)
    next
      assume "\<exists>k < length (drop (Suc i) ss). seEndLine (close_section lns (drop (Suc i) ss) (ss ! i)) = seLine (drop (Suc i) ss ! k) - 1
        \<and> seLevel (drop (Suc i) ss ! k) \<le> seLevel (ss ! i) \<and> (\<forall>j < k. seLevel (ss ! i) < seLevel (drop (Suc i) ss ! j))"
      then have "\<exists>k. Suc i + k < length ss \<and> seEndLine (close_section lns (drop (Suc i) ss) (ss ! i)) = seLine (ss ! (Suc i + k)) - 1
        \<and> seLevel (ss ! (Suc i + k)) \<le> seLevel (ss ! i) \<and> (\<forall>j < k. seLevel (ss ! i) < seLevel (ss ! Suc (i + j)))"
        by (elim exE) (rule exI, use i in \<open>auto simp: less_diff_conv\<close>)
      then obtain k where k: "Suc i + k < length ss" "seEndLine (close_section lns (drop (Suc i) ss) (ss ! i)) = seLine (ss ! (Suc i + k)) - 1"
        "seLevel (ss ! (Suc i + k)) \<le> seLevel (ss ! i)" "\<forall>j < k. seLevel (ss ! i) < seLevel (ss ! Suc (i + j))" by blast
      have "seLevel (ss ! i) < seLevel (ss ! j)" if "i < j" "j < Suc i + k" for j
        using k(4) [rule_format, of "j - Suc i"] that by simp
      then show ?thesis using k(1-3) i by (intro disjI2 exI [of _ "Suc i + k"]) (simp add: nth_close_sections)
    qed
  qed
  have bounds: "seLine (ss ! i) \<le> ?e i \<and> ?e i \<le> length lns" if i: "i < length ss" for i
    using ends [OF i] lo [OF i] lo(2) by (auto dest: lt) (metis diff_le_self le_trans)
  have nest: "?e i < seLine (ss ! j) \<or> ?e j \<le> ?e i \<and> seLevel (ss ! i) < seLevel (ss ! j)" if ij: "i < j" "j < length ss" for i j
  proof -
    from ij have i: "i < length ss" by simp
    from ends [OF i] show ?thesis
    proof
      assume "?e i = length lns \<and> (\<forall>j. i < j \<and> j < length ss \<longrightarrow> seLevel (ss ! i) < seLevel (ss ! j))"
      then show ?thesis using bounds [OF ij(2)] ij by simp
    next
      assume "\<exists>k. i < k \<and> k < length ss \<and> ?e i = seLine (ss ! k) - 1 \<and> seLevel (ss ! k) \<le> seLevel (ss ! i)
           \<and> (\<forall>j. i < j \<and> j < k \<longrightarrow> seLevel (ss ! i) < seLevel (ss ! j))"
      then obtain k where k: "i < k" "k < length ss" "?e i = seLine (ss ! k) - 1" "seLevel (ss ! k) \<le> seLevel (ss ! i)"
        "\<forall>j. i < j \<and> j < k \<longrightarrow> seLevel (ss ! i) < seLevel (ss ! j)" by blast
      show ?thesis
      proof (cases "j < k")
        case False
        then have "seLine (ss ! k) \<le> seLine (ss ! j)" using lt [of k j] ij k(2) by (cases "k = j") auto
        then have "seLine (ss ! k) - 1 < seLine (ss ! j)" using lo(1) [OF k(2)] by linarith
        then show ?thesis using k(3) by simp
      next
        case True
        then have lv: "seLevel (ss ! i) < seLevel (ss ! j)" using k(5) ij by blast
        then have close: "seLevel (ss ! k) \<le> seLevel (ss ! j)" using k(4) by simp
        have "?e j \<le> seLine (ss ! k) - 1" using ends [OF ij(2)]
        proof
          assume "?e j = length lns \<and> (\<forall>l. j < l \<and> l < length ss \<longrightarrow> seLevel (ss ! j) < seLevel (ss ! l))"
          then have "seLevel (ss ! j) < seLevel (ss ! k)" using True k(2) by blast
          then show ?thesis using close by simp
        next
          assume "\<exists>l. j < l \<and> l < length ss \<and> ?e j = seLine (ss ! l) - 1 \<and> seLevel (ss ! l) \<le> seLevel (ss ! j)
             \<and> (\<forall>m. j < m \<and> m < l \<longrightarrow> seLevel (ss ! j) < seLevel (ss ! m))"
          then obtain l where l: "j < l" "l < length ss" "?e j = seLine (ss ! l) - 1"
            "\<forall>m. j < m \<and> m < l \<longrightarrow> seLevel (ss ! j) < seLevel (ss ! m)" by blast
          have "l \<le> k" using l(4) True close by (meson leD not_le)
          then have "seLine (ss ! l) \<le> seLine (ss ! k)" using lt [of l k] k(2) by (cases "l = k") auto
          then show ?thesis using l(3) by simp
        qed
        then show ?thesis using k(3) lv by simp
      qed
    qed
  qed
  have line: "seLine (close_sections lns ss ! i) = seLine (ss ! i)" "seLevel (close_sections lns ss ! i) = seLevel (ss ! i)"
    if "i < length ss" for i using that by (simp_all add: nth_close_sections)
  show ?thesis unfolding nested_sections_def using lo(1) bounds nest lt line by simp
qed

text \<open>The sections of a document nest: each has a heading line inside the document and ends at or after it,
  headings come in order, and of two sections the later one begins after the earlier has ended or lies within it
  at a deeper level.\<close>

theorem sections_nest:
  "nested_sections (dcLines (parse_doc digest path raw)) (dcSections (parse_doc digest path raw))"
proof -
  let ?ls = "doc_lines raw"
  have "\<forall>s \<in> set (scan_headings 1 False ?ls). 1 \<le> seLine s \<and> seLine s \<le> length ?ls"
    using scan_headings_lines [of 1 False ?ls] by fastforce
  then show ?thesis using close_sections_nested scan_headings_lines [of 1 False ?ls] by (simp add: parse_doc_def)
qed

section \<open>Resolving a section\<close>

lemma better_section_fold:
  "(case fold (better_section want) ss b of
      None \<Rightarrow> b = None \<and> (\<forall>s \<in> set ss. \<not> abbreviates want s)
    | Some r \<Rightarrow> (b = Some r \<or> r \<in> set ss \<and> abbreviates want r)
        \<and> (\<forall>s \<in> set ss. abbreviates want s \<longrightarrow> length (seTitle s) \<le> length (seTitle r))
        \<and> (\<forall>q. b = Some q \<longrightarrow> length (seTitle q) \<le> length (seTitle r)))"
proof (induction ss arbitrary: b)
  case Nil
  then show ?case by (simp split: option.split)
next
  case (Cons s ss)
  show ?case
    using Cons.IH [of "better_section want s b"]
    by (auto simp: better_section_def split: option.splits if_splits)
qed

text \<open>A citation resolves to a heading of the document with that very title up to case, dashes and
  punctuation, or else to one of which it is an extension or an abbreviation by whole words, the longest such; it fails to resolve
  only when no heading is related to it.\<close>

theorem section_resolution:
  "(case Doc_Section d title of
      None \<Rightarrow> \<forall>s \<in> set (dcSections d). normaliseTitle (seTitle s) \<noteq> normaliseTitle title
        \<and> \<not> abbreviates (normaliseTitle title) s
    | Some r \<Rightarrow> r \<in> set (dcSections d)
        \<and> (normaliseTitle (seTitle r) = normaliseTitle title
           \<or> abbreviates (normaliseTitle title) r
             \<and> (\<forall>s \<in> set (dcSections d). normaliseTitle (seTitle s) \<noteq> normaliseTitle title
                 \<and> (abbreviates (normaliseTitle title) s \<longrightarrow> length (seTitle s) \<le> length (seTitle r)))))"
proof (cases "find (\<lambda>s. normaliseTitle (seTitle s) = normaliseTitle title) (dcSections d)")
  case None
  then have "\<forall>s \<in> set (dcSections d). normaliseTitle (seTitle s) \<noteq> normaliseTitle title"
    by (simp add: find_None_iff)
  then show ?thesis
    using None better_section_fold [where want = "normaliseTitle title" and ss = "dcSections d" and b = None]
    by (auto simp: Doc_Section_def Let_def split: option.splits)
next
  case (Some s)
  then have "s \<in> set (dcSections d)" "normaliseTitle (seTitle s) = normaliseTitle title"
    by (auto simp: find_Some_iff)
  then show ?thesis using Some by (simp add: Doc_Section_def Let_def)
qed

section \<open>What the check decides\<close>

definition ref_ok :: "(string \<Rightarrow> string + string) \<Rightarrow> (string \<Rightarrow> string) \<Rightarrow> string \<Rightarrow> Ref \<Rightarrow> bool" where
  "ref_ok files digest dir ref \<longleftrightarrow>
     (case LoadDoc files digest (doc_path dir (rfDoc ref)) of
        Inl _ \<Rightarrow> False
      | Inr d \<Rightarrow> rfSection ref = [] \<or> Doc_Section d (rfSection ref) \<noteq> None)"

definition pinnable_refs :: "(string \<times> Ref) list \<Rightarrow> Ref list" where
  "pinnable_refs rs = filter (\<lambda>ref. rfDoc ref \<in> set pinnable) (map snd rs)"

lemma pinnable_refs_snoc [simp]:
  "pinnable_refs (rs @ [rr]) = pinnable_refs rs @ (if rfDoc (snd rr) \<in> set pinnable then [snd rr] else [])"
  by (simp add: pinnable_refs_def)

text \<open>What is known after a list of references.\<close>

definition checked_so_far ::
  "(string \<Rightarrow> string + string) \<Rightarrow> (string \<Rightarrow> string) \<Rightarrow> string \<Rightarrow> Ref list \<Rightarrow> check_state \<Rightarrow> bool" where
  "checked_so_far files digest dir refs st \<longleftrightarrow>
     (\<forall>n. map_of (csDocs st) n =
        (if n \<in> rfDoc ` set refs
         then (case LoadDoc files digest (doc_path dir n) of Inl _ \<Rightarrow> None | Inr d \<Rightarrow> Some d) else None))
     \<and> (\<forall>n. n \<in> set (csMissing st) \<longleftrightarrow> n \<in> rfDoc ` set refs \<and> isl (LoadDoc files digest (doc_path dir n)))
     \<and> (csProblems st = [] \<longleftrightarrow> list_all (ref_ok files digest dir) refs)"

lemma resolve_keeps [simp]:
  "csDocs (resolve_ref rule ref st) = csDocs st" "csMissing (resolve_ref rule ref st) = csMissing st"
  by (simp_all add: resolve_ref_def split: option.split)

lemma check_ref_step:
  assumes inv: "checked_so_far files digest dir (pinnable_refs rs) st"
  shows "checked_so_far files digest dir (pinnable_refs (rs @ [rr])) (check_ref files digest dir rr st)"
proof (cases "rfDoc (snd rr) \<in> set pinnable")
  case False
  then show ?thesis using inv by (simp add: check_ref_def)
next
  case True
  let ?n = "rfDoc (snd rr)" and ?refs = "pinnable_refs rs"
  let ?L = "LoadDoc files digest (doc_path dir ?n)" and ?st = "read_doc files digest dir ?n st"
  have docs: "map_of (csDocs st) n = (if n \<in> rfDoc ` set ?refs
      then (case LoadDoc files digest (doc_path dir n) of Inl _ \<Rightarrow> None | Inr d \<Rightarrow> Some d) else None)"
    and miss: "n \<in> set (csMissing st) \<longleftrightarrow> n \<in> rfDoc ` set ?refs \<and> isl (LoadDoc files digest (doc_path dir n))" for n
    using inv by (simp_all add: checked_so_far_def)
  have prob: "csProblems st = [] \<longleftrightarrow> list_all (ref_ok files digest dir) ?refs"
    using inv by (simp add: checked_so_far_def)
  have docs': "map_of (csDocs ?st) n = (if n \<in> insert ?n (rfDoc ` set ?refs)
      then (case LoadDoc files digest (doc_path dir n) of Inl _ \<Rightarrow> None | Inr d \<Rightarrow> Some d) else None)" for n
    using docs [of n] docs [of ?n] miss [of ?n] by (cases ?L) (auto simp: read_doc_def)
  have miss': "n \<in> set (csMissing ?st) \<longleftrightarrow> n \<in> insert ?n (rfDoc ` set ?refs) \<and> isl (LoadDoc files digest (doc_path dir n))" for n
    using miss [of n] docs [of ?n] miss [of ?n] by (cases ?L) (auto simp: read_doc_def)
  have prob': "csProblems (resolve_ref (fst rr) (snd rr) ?st) = []
      \<longleftrightarrow> list_all (ref_ok files digest dir) ?refs \<and> ref_ok files digest dir (snd rr)"
  proof (cases ?L)
    case (Inl e)
    then have bad: "\<not> ref_ok files digest dir (snd rr)" by (simp add: ref_ok_def)
    have "csProblems ?st \<noteq> []"
    proof (cases "?n \<in> rfDoc ` set ?refs")
      case True
      then obtain r where "r \<in> set ?refs" "rfDoc r = ?n" by auto
      then have "\<not> ref_ok files digest dir r" using Inl by (simp add: ref_ok_def)
      then have "\<not> list_all (ref_ok files digest dir) ?refs" using \<open>r \<in> set ?refs\<close> by (auto simp: list_all_iff)
      then show ?thesis using prob by (simp add: read_doc_def Inl)
    next
      case False
      then show ?thesis using docs [of ?n] miss [of ?n] Inl by (simp add: read_doc_def)
    qed
    then show ?thesis using bad docs' [of ?n] Inl by (simp add: resolve_ref_def)
  next
    case (Inr d)
    then have "csProblems ?st = csProblems st" by (simp add: read_doc_def)
    then show ?thesis using Inr docs' [of ?n] prob
      by (auto simp: resolve_ref_def ref_ok_def split: option.split)
  qed
  show ?thesis using True docs' miss' prob' by (simp add: checked_so_far_def check_ref_def)
qed

lemma check_fold_state:
  "checked_so_far files digest dir (pinnable_refs rs) (fold (check_ref files digest dir) rs empty_check)"
proof (induction rs rule: rev_induct)
  case Nil
  then show ?case by (simp add: checked_so_far_def empty_check_def pinnable_refs_def)
next
  case (snoc rr rs)
  from check_ref_step [OF snoc] show ?case by simp
qed

lemma pin_of_lookup: "map_of (map (pin_of st) ds) n = map_option (\<lambda>d. snd (pin_of st (n, d))) (map_of ds n)"
  by (induction ds) (auto simp: pin_of_def)

text \<open>A document whose pin is current.\<close>

definition pin_current ::
  "(string \<Rightarrow> string + string) \<Rightarrow> (string \<Rightarrow> string) \<Rightarrow> string \<Rightarrow> Manifest \<Rightarrow> string \<Rightarrow> bool" where
  "pin_current files digest dir m name \<longleftrightarrow>
     (case (files (doc_path dir name), map_of (mfDocs m) name) of
        (Inr raw, Some pin) \<Rightarrow> dpHash pin = ''sha256:'' @ digest (ToLF raw)
      | _ \<Rightarrow> False)"

text \<open>C11: The check is green exactly when every section of skill.md and SOP.md that a citation
  names resolves to a heading of a document that can be read and, when there is a manifest, every
  document named is pinned in it with the hash of its text up to line endings.\<close>

theorem check_green_iff:
  "krOK (kb_Check files digest dir citations pinned) \<longleftrightarrow>
     list_all (\<lambda>ref. ref_ok files digest dir ref
         \<and> (case pinned of None \<Rightarrow> True | Some m \<Rightarrow> pin_current files digest dir m (rfDoc ref)))
       (pinnable_refs (cited_refs citations))"
proof -
  let ?refs = "pinnable_refs (cited_refs citations)"
  define st where "st = fold (check_ref files digest dir) (cited_refs citations) empty_check"
  have inv: "checked_so_far files digest dir ?refs st" unfolding st_def by (rule check_fold_state)
  have prob: "csProblems st = [] \<longleftrightarrow> list_all (ref_ok files digest dir) ?refs"
    using inv by (simp add: checked_so_far_def)
  have docs: "map_of (csDocs st) n = (if n \<in> rfDoc ` set ?refs
      then (case LoadDoc files digest (doc_path dir n) of Inl _ \<Rightarrow> None | Inr d \<Rightarrow> Some d) else None)" for n
    using inv by (simp add: checked_so_far_def)
  show ?thesis
  proof (cases pinned)
    case None
    then show ?thesis using prob by (simp add: kb_Check_def Let_def flip: st_def)
  next
    case (Some m)
    have cur: "compare_name m \<lparr>mfComment = manifestComment, mfDocs = map (pin_of st) (csDocs st)\<rparr> n = []
        \<longleftrightarrow> pin_current files digest dir m n"
      if "map_of (csDocs st) n = Some d" for n d
    proof -
      have L: "LoadDoc files digest (doc_path dir n) = Inr d"
        using docs [of n] that by (auto split: if_splits sum.splits)
      then obtain raw where "files (doc_path dir n) = Inr raw" "d = parse_doc digest (doc_path dir n) raw"
        by (auto simp: LoadDoc_def split: sum.splits)
      then show ?thesis using that
        by (auto simp: compare_name_def pin_of_lookup pin_of_def pin_current_def parse_doc_def Let_def split: option.split)
    qed
    have names: "set (map fst (csDocs st)) = {n \<in> rfDoc ` set ?refs. \<not> isl (LoadDoc files digest (doc_path dir n))}"
    proof -
      have "n \<in> set (map fst (csDocs st)) \<longleftrightarrow> n \<in> rfDoc ` set ?refs \<and> \<not> isl (LoadDoc files digest (doc_path dir n))" for n
      proof -
        have "n \<in> set (map fst (csDocs st)) \<longleftrightarrow> map_of (csDocs st) n \<noteq> None" by (simp add: map_of_eq_None_iff)
        also have "\<dots> \<longleftrightarrow> n \<in> rfDoc ` set ?refs \<and> \<not> isl (LoadDoc files digest (doc_path dir n))"
          unfolding docs [of n] by (simp add: isl_def split: sum.split)
        finally show ?thesis .
      qed
      then show ?thesis by blast
    qed
    have "krOK (kb_Check files digest dir citations pinned) \<longleftrightarrow>
        csProblems st = [] \<and> (\<forall>n \<in> set (map fst (csDocs st)).
          compare_name m \<lparr>mfComment = manifestComment, mfDocs = map (pin_of st) (csDocs st)\<rparr> n = [])"
      by (simp add: kb_Check_def Let_def kb_compare_def Some flip: st_def)
    also have "\<dots> \<longleftrightarrow> csProblems st = [] \<and> (\<forall>n \<in> set (map fst (csDocs st)). pin_current files digest dir m n)"
    proof -
      have "\<exists>d. map_of (csDocs st) n = Some d" if "n \<in> set (map fst (csDocs st))" for n
        using that by (metis map_of_eq_None_iff option.exhaust set_map)
      then show ?thesis using cur by metis
    qed
    also have "\<dots> \<longleftrightarrow> list_all (\<lambda>ref. ref_ok files digest dir ref \<and> pin_current files digest dir m (rfDoc ref)) ?refs"
    proof -
      have "\<not> isl (LoadDoc files digest (doc_path dir (rfDoc r)))" if "ref_ok files digest dir r" for r
        using that by (auto simp: ref_ok_def isl_def)
      then show ?thesis unfolding prob names by (auto simp: list_all_iff)
    qed
    finally show ?thesis using Some by simp
  qed
qed

section \<open>Citations read back\<close>

text \<open>A reference as citations write it: a document name of the class with an extension at its end, and a
  section, if any, without the separators at which citations are cut.\<close>

definition plain_section :: "string \<Rightarrow> bool" where
  "plain_section s \<longleftrightarrow>
     s \<noteq> [] \<and> \<not> is_space (hd s) \<and> \<not> is_space (last s) \<and> hd s \<noteq> CHR '','' \<and> last s \<noteq> CHR '',''
     \<and> CHR '';'' \<notin> set s \<and> CHR 0xC2 \<notin> set s"

definition wf_ref :: "Ref \<Rightarrow> bool" where
  "wf_ref r \<longleftrightarrow> doc_at (rfDoc r) = Some (rfDoc r) \<and> (rfSection r = [] \<or> plain_section (rfSection r))"

lemma doc_at_chars:
  assumes "doc_at s = Some m"
  shows "list_all doc_char m \<and> m \<noteq> []"
proof -
  let ?run = "takeWhile doc_char s"
  obtain k e where k: "find (\<lambda>k. doc_ext (drop k ?run) \<noteq> None) (rev [1..<length ?run]) = Some k"
    and e: "doc_ext (drop k ?run) = Some e" and m: "m = take k ?run @ e"
    using assms by (auto simp: doc_at_def Let_def split: option.splits)
  have "has_prefix (drop k ?run) e" using e unfolding doc_ext_def find_Some_iff by blast
  then have "set e \<subseteq> set ?run" using set_drop_subset [of k ?run] by (auto dest: set_mono_prefix)
  moreover have "set ?run \<subseteq> Collect doc_char" by (auto dest: set_takeWhileD)
  moreover have "e \<noteq> []" using e by (auto simp: doc_ext_def split: if_splits)
  ultimately show ?thesis using set_take_subset [of k ?run] by (auto simp: m list_all_iff)
qed

lemma doc_char_plain: "doc_char c \<Longrightarrow> \<not> is_space c \<and> c \<noteq> CHR '';'' \<and> c \<noteq> CHR 0xC2"
  by (auto simp: doc_char_def is_space_def is_letter_def is_upper_def is_lower_def is_digit_def)

lemma docRe_here:
  assumes "doc_at d = Some d" and "s = [] \<or> \<not> doc_char (hd s)"
  shows "docRe (d @ s) = d"
proof -
  have d: "list_all doc_char d" "d \<noteq> []" using doc_at_chars [OF assms(1)] by simp_all
  have "takeWhile doc_char (d @ s) = d" "takeWhile doc_char d = d"
    using d(1) assms(2) by (cases s; simp add: list_all_iff takeWhile_append2 takeWhile_eq_all_conv)+
  then have "doc_at (d @ s) = doc_at d" unfolding doc_at_def by (simp only:)
  then have "doc_at (d @ s) = Some d" using assms(1) by simp
  then show ?thesis using d(2) by (cases d) auto
qed

lemma str_index_sect:
  "CHR 0xC2 \<notin> set a \<Longrightarrow> str_index (a @ sect @ b) sect = Some (length a)"
  by (induction a) (auto simp: sect_def)

lemma str_index_no_sect: "CHR 0xC2 \<notin> set a \<Longrightarrow> str_index a sect = None"
  by (induction a) (auto simp: sect_def)

lemma str_index_no_comma_sect: "CHR 0xC2 \<notin> set a \<Longrightarrow> str_index a ('', '' @ sect) = None"
proof (induction a)
  case (Cons c a)
  have "\<not> has_prefix (c # a) ('', '' @ sect)" using Cons.prems by (auto simp: sect_def dest: set_mono_prefix)
  then show ?case using Cons by simp
qed (simp add: sect_def)

lemma split_no_sect: "CHR 0xC2 \<notin> set a \<Longrightarrow> split_str sect a = [a]"
  by (induction a) (auto simp: sect_def)

lemma plain_section_part: "plain_section s \<Longrightarrow> section_part s = s"
proof -
  assume p: "plain_section s"
  then have "trim_space s = s" "trim_set '','' s = s" by (auto simp: plain_section_def intro!: trim_by_id)
  moreover have "trim_suffix s '','' = s"
    using p by (auto simp: plain_section_def trim_suffix_def suffix_def)
  moreover have "str_index s ('', '' @ sect) = None" using p str_index_no_comma_sect by (simp add: plain_section_def)
  ultimately show ?thesis by (simp add: section_part_def Let_def)
qed

lemma ref_string_ends:
  assumes "wf_ref r"
  shows "ref_string r \<noteq> []" "\<not> is_space (hd (ref_string r))" "\<not> is_space (last (ref_string r))" "CHR '';'' \<notin> set (ref_string r)"
proof -
  have d: "list_all doc_char (rfDoc r)" "rfDoc r \<noteq> []" using assms doc_at_chars by (auto simp: wf_ref_def)
  then have "doc_char (hd (rfDoc r))" "doc_char (last (rfDoc r))" "\<forall>c \<in> set (rfDoc r). doc_char c" by (simp_all add: list_all_iff)
  note c = this doc_char_plain
  show "ref_string r \<noteq> []" using d(2) by (simp add: ref_string_def)
  show "\<not> is_space (hd (ref_string r))" using c(1,4) d(2) by (simp add: ref_string_def)
  show "\<not> is_space (last (ref_string r))" using assms c(2,4) d(2) by (auto simp: ref_string_def wf_ref_def plain_section_def)
  show "CHR '';'' \<notin> set (ref_string r)" using assms c(3,4) by (auto simp: ref_string_def wf_ref_def plain_section_def sect_def)
qed

lemma clause_ref:
  assumes "wf_ref r" and "trim_space clause = ref_string r"
  shows "clause_refs clause refs = refs @ [r]"
proof -
  have d: "list_all doc_char (rfDoc r)" "rfDoc r \<noteq> []" using assms(1) doc_at_chars by (auto simp: wf_ref_def)
  have nc: "CHR 0xC2 \<notin> set (rfDoc r)" using d(1) doc_char_plain by (auto simp: list_all_iff)
  have sp: "\<not> doc_char (CHR '' '')" by (simp add: doc_char_def is_letter_def is_upper_def is_lower_def is_digit_def)
  have at: "doc_at (rfDoc r) = Some (rfDoc r)" using assms(1) by (simp add: wf_ref_def)
  show ?thesis
  proof (cases "rfSection r = []")
    case True
    then have "cut_str (ref_string r) sect = (rfDoc r, [], False)"
      using nc by (simp add: ref_string_def cut_str_def str_index_no_sect)
    moreover have "docRe (rfDoc r) = rfDoc r" using docRe_here [OF at, of "[]"] by simp
    ultimately show ?thesis using True d(2) ref_string_ends(1) [OF assms(1)] by (simp add: clause_refs_def assms(2))
  next
    case False
    then have sec: "plain_section (rfSection r)" using assms(1) by (simp add: wf_ref_def)
    have "ref_string r = (rfDoc r @ '' '') @ sect @ rfSection r" using False by (simp add: ref_string_def)
    then have "cut_str (ref_string r) sect = (rfDoc r @ '' '', rfSection r, True)"
      using nc str_index_sect [of "rfDoc r @ '' ''" "rfSection r"] by (simp add: cut_str_def)
    moreover have "docRe (rfDoc r @ '' '') = rfDoc r" using docRe_here [OF at, of "'' ''"] sp by simp
    moreover have "split_str sect (rfSection r) = [rfSection r]" using sec by (simp add: split_no_sect plain_section_def)
    ultimately show ?thesis
      using False d(2) ref_string_ends(1) [OF assms(1)] plain_section_part [OF sec] by (simp add: clause_refs_def assms(2))
  qed
qed

lemma join_semicolon: "str_join ''; '' (w # ws) = str_join '';'' (w # map ((#) (CHR '' '')) ws)"
proof (induction ws arbitrary: w)
  case (Cons v ws)
  have "str_join '';'' ((CHR '' '' # v) # map ((#) (CHR '' '')) ws) = CHR '' '' # str_join '';'' (v # map ((#) (CHR '' '')) ws)"
    by (cases ws) simp_all
  then show ?case using Cons [of v] by simp
qed simp

text \<open>Citations round trip: printing references one after the other with semicolons and reading the text gives them back.\<close>

theorem citation_roundtrip:
  assumes "list_all wf_ref refs"
  shows "ParseCitation (str_join ''; '' (map ref_string refs)) = refs"
proof (cases refs)
  case Nil
  then show ?thesis by (simp add: ParseCitation_def clause_refs_def)
next
  case (Cons r rs)
  have wf: "wf_ref r" "list_all wf_ref rs" using assms Cons by simp_all
  have free: "CHR '';'' \<notin> set w" if "w \<in> set (ref_string r # map ((#) (CHR '' '')) (map ref_string rs))" for w
    using that wf ref_string_ends(4) by (auto simp: list_all_iff)
  have "split_char (CHR '';'') (str_join ''; '' (map ref_string refs)) = ref_string r # map ((#) (CHR '' '')) (map ref_string rs)"
    unfolding Cons list.map(2) join_semicolon by (rule split_join_char) (use free in auto)
  moreover have "fold clause_refs (map ((#) (CHR '' '')) (map ref_string rs)) acc = acc @ rs" for acc
    using wf(2)
  proof (induction rs arbitrary: acc)
    case (Cons q qs)
    have "trim_space (CHR '' '' # ref_string q) = trim_space (ref_string q)"
      by (simp add: trim_by_def trim_left_by_def is_space_def)
    also have "\<dots> = ref_string q" using Cons.prems ref_string_ends [of q] by (intro trim_by_id) auto
    finally show ?case using Cons clause_ref [of q "CHR '' '' # ref_string q" acc] by simp
  qed simp
  moreover have "clause_refs (ref_string r) [] = [r]"
    using clause_ref [OF wf(1), of "ref_string r" "[]"] ref_string_ends [OF wf(1)] by (simp add: trim_by_id)
  ultimately show ?thesis by (simp add: ParseCitation_def Cons)
qed

theorem citation_roundtrip_witness:
  "ParseCitation (str_join ''; '' (map ref_string
      [\<lparr>rfDoc = ''skill.md'', rfSection = ''Handler Pattern''\<rparr>, \<lparr>rfDoc = ''go.mod'', rfSection = []\<rparr>]))
   = [\<lparr>rfDoc = ''skill.md'', rfSection = ''Handler Pattern''\<rparr>, \<lparr>rfDoc = ''go.mod'', rfSection = []\<rparr>]"
  by (rule citation_roundtrip) code_simp

definition sample_doc :: Doc where
  "sample_doc = parse_doc (\<lambda>s. s) ''new-template/skill.md''
     (''# Guide'' @ [CHR 0x0A] @ ''## Repository Pattern'' @ [CHR 0x0A] @ ''text'')"

lemma sample_unresolved: "Doc_Section sample_doc ''Repository Patterns That Do Not Exist'' = None"
  by code_simp

theorem section_resolution_witness:
  "\<forall>s \<in> set (dcSections sample_doc).
     \<not> abbreviates (normaliseTitle ''Repository Patterns That Do Not Exist'') s"
  using section_resolution [of sample_doc "''Repository Patterns That Do Not Exist''"]
  by (simp add: sample_unresolved)

end
