(* ===== verification/KbBuild.thy ===== *)
theory KbBuild
  imports Kb "HOL-Library.AList"
begin

text \<open>
  Model of the assembly of the knowledge base (gotools/internal/kb/build.go): references extracted from the
  documents, tables generated from the configuration and the rules, and the index. The table of references
  (references.go) is the argument \<open>refs\<close>, the workspace that workspace.Load returns for the template the
  argument \<open>ws\<close>. LoadDoc being a function of the file, the cache of loaded documents is not modelled.
\<close>

section \<open>Its input and output\<close>

record kb_file =
  kfPath :: string
  kfContent :: string

record RuleSummary =
  rsID :: string
  rsSeverity :: string
  rsSummary :: string
  rsCitation :: string
  rsLegacy :: bool

record Reference =
  reSlug :: string
  reTitle :: string
  rePurpose :: string
  reIntro :: string
  reCorrections :: "string list"
  reSources :: "Ref list"
  reGenerator :: string
  reBody :: string

definition generatedNotice :: string where
  "generatedNotice =
     text_lines [
     ''> **Generated.** Do not edit '' @ emdash @ '' run `make knowledge` and commit the result.'',
     ''> Assembled from the reference template, so it cannot drift from what the linter enforces.'']"

definition contractSummary :: string where
  "contractSummary =
     text_lines [
     ''```'',
     ''core/domain/     plain Go models: json + db tags, ID, CreatedAt, UpdatedAt'',
     ''core/port/       shared request and response envelopes'',
     ''repo/postgres/   the ONLY place SQL, squirrel or pgx may appear'',
     ''handler/         handlers, routes, and every request DTO in request.go'',
     ''handler/response/  wire types and their New*Response converters'',
     ''bootstrap/       the Uber-FX composition root'',
     ''db/              DDL, applied by hand '' @ emdash @ '' never by the agent'',
     ''configs/         one file per environment'',
     ''```'',
     [],
     ''- Handlers take `(sctx *serverRoute.Context, req T) (*resp.R, error)` '' @ emdash @ '' never a'',
     ''  `*gin.Context`, never a manual `ShouldBind`. Input-less routes take `_ struct{}`.'',
     ''- Handlers embed `*serverHandler.Base` and declare their own `Routes()`. Every route'',
     ''  carries `.Name(...)` or it is missing from the generated OpenAPI document.'',
     ''- Repositories build queries with `dblib.Psql`, take a deadline from'',
     ''  `cfg.GetDuration(\"db.QueryTimeout'' @ ellipsis @ ''\")`, and map rows with'',
     ''  `pgx.RowToStructByName[domain.X]`. A zero-row write returns `pgx.ErrNoRows`.'',
     ''- Responses embed `port.StatusCodeAndMessage` with `json:\",inline\"` and take their'',
     ''  status from the predefined `port.*Success` constants.'',
     ''- Request structs live in `handler/request/request.go` (package `request`), because `govalid`'',
     ''  reads only that file. Run it, or every non-GET route answers 422.'',
     ''- Repositories go into `FxRepo` as plain providers; handlers go into `FxHandler`'',
     ''  wrapped in `fx.Annotate` with `fx.As` and `fx.ResultTags`. Use `fx_wire`.'',
     ''- Never add a credential to `configs/*.yaml`. Never echo one that is already there.'']"

definition quoteYAML :: "string \<Rightarrow> string" where
  "quoteYAML s = [CHR 0x22] @ replace_char (CHR 0x22) [CHR 0x5C, CHR 0x22] s @ [CHR 0x22]"

section \<open>References from documents\<close>

text \<open>demote: the headings outside code fences get one more mark, up to six.\<close>

fun demote_lines :: "bool \<Rightarrow> string list \<Rightarrow> string list" where
  "demote_lines inFence [] = []"
| "demote_lines inFence (line # ls) =
     (if fenceRe line then line # demote_lines (\<not> inFence) ls
      else if inFence then line # demote_lines inFence ls
      else (case headingRe line of
              Some (lv, _) \<Rightarrow> if lv < 6 then CHR ''#'' # line else line
            | None \<Rightarrow> line) # demote_lines inFence ls)"

definition demote :: "string \<Rightarrow> string" where
  "demote body = str_join [CHR 0x0A] (demote_lines False (split_char (CHR 0x0A) body))"

definition render_source :: "string \<Rightarrow> Section \<Rightarrow> string" where
  "render_source doc s =
     text_lines [''## '' @ seTitle s, [],
       ''*From `'' @ doc @ ''` '' @ sect @ seTitle s @ '' (lines '' @ itoa (seLine s) @ endash @ itoa (seEndLine s) @ '').*'', []]
     @ trim_space (demote (seBody s)) @ [CHR 0x0A, CHR 0x0A]"

fun renderFromSources :: "(string \<Rightarrow> string + Doc) \<Rightarrow> Ref list \<Rightarrow> string + string" where
  "renderFromSources load [] = Inr []"
| "renderFromSources load (src # srcs) =
     (case load (rfDoc src) of
        Inl e \<Rightarrow> Inl e
      | Inr d \<Rightarrow>
          (case Doc_Section d (rfSection src) of
             None \<Rightarrow> Inl (rfDoc src @ '' '' @ sect @ rfSection src @ '' does not resolve'')
           | Some s \<Rightarrow>
               (case renderFromSources load srcs of
                  Inl e \<Rightarrow> Inl e
                | Inr rest \<Rightarrow> Inr (render_source (rfDoc src) s @ rest))))"

definition renderReference :: "Reference \<Rightarrow> string \<Rightarrow> string" where
  "renderReference ref body =
     text_lines ([''---'', ''slug: '' @ reSlug ref, ''handle: \"@skill:'' @ reSlug ref @ ''\"'', ''fetch_when: '' @ quoteYAML (rePurpose ref)]
       @ (if reSources ref \<noteq> [] then ''sources:'' # map (\<lambda>s. ''  - '' @ quoteYAML (ref_string s)) (reSources ref) else [])
       @ (if reGenerator ref \<noteq> [] then [''generated_from: '' @ reGenerator ref] else [])
       @ [''---'', [], ''# '' @ reTitle ref, []])
     @ generatedNotice @ [CHR 0x0A]
     @ (if reIntro ref \<noteq> [] then reIntro ref @ [CHR 0x0A, CHR 0x0A] else [])
     @ (if reCorrections ref \<noteq> []
        then text_lines ([''## Corrections to the source'', [],
               ''The document below is reproduced as written. These parts of it are wrong:'', []]
             @ map (\<lambda>c. ''- '' @ c) (reCorrections ref) @ [[]])
        else [])
     @ trim_space body @ [CHR 0x0A]"

section \<open>The index\<close>

definition index_top :: string where
  "index_top =
     text_lines [
     ''---'',
     ''name: n-api-template'',
     ''handle: \"@skill\"'',
     ''---'',
     [],
     ''# The n-api-template contract'',
     []]"

definition index_intro :: string where
  "index_intro =
     text_lines [
     [],
     ''This file is always in context. Everything else is fetched on demand '' @ emdash @ '' `skill.md` is 2,339 lines and 95% of it is irrelevant to any given turn.'',
     [],
     ''## The contract, in short'',
     []]"

definition index_table :: string where
  "index_table =
     text_lines [
     [],
     ''## What to fetch, and when'',
     [],
     ''| Handle | Fetch when |'',
     ''|---|---|'']"

definition index_verification :: "nat \<Rightarrow> nat \<Rightarrow> string" where
  "index_verification compliance legacy =
     text_lines [[], ''## Verification'', [],
       ''`rules_lint` runs after every edit batch and checks '' @ itoa compliance @ '' rules. Every violation ''
         @ ''carries a one-line fix and a citation, so it can be acted on without fetching ''
         @ ''anything '' @ emdash @ '' call `list_rules` only if you need the whole set.'', [],
       ''Pass `paths` with the files you changed. Findings elsewhere are reported but never ''
         @ ''block, which is what stops a stray legacy violation turning into unrequested work.'', [],
       itoa legacy @ '' legacy-pattern rules run only under `legacy_audit` '' @ emdash @ '' see ''
         @ ''`@skill:legacy-patterns`. They never fire during ordinary edits: a pre-template ''
         @ ''service trips roughly 1,700 compliance findings, which would bury the two you ''
         @ ''actually caused.'']"

definition renderIndex :: "Reference list \<Rightarrow> RuleSummary list \<Rightarrow> string" where
  "renderIndex refs rules =
     index_top @ generatedNotice @ index_intro @ contractSummary @ index_table
     @ text_lines (map (\<lambda>r. ''| `@skill:'' @ reSlug r @ ''` | '' @ rePurpose r @ '' |'') refs)
     @ index_verification (length (filter (\<lambda>r. \<not> rsLegacy r) rules)) (length (filter rsLegacy rules))"

section \<open>Generated references\<close>

definition config_label :: "ConfigFile \<Rightarrow> string" where
  "config_label c = (if cfEnv c = [] then ''base'' else cfEnv c)"

text \<open>byEnv: of two files of one environment the later.\<close>

definition env_has :: "ConfigFile list \<Rightarrow> string \<Rightarrow> string \<Rightarrow> bool" where
  "env_has configs lower e =
     (case map_of (rev (map (\<lambda>c. (config_label c, c)) configs)) e of None \<Rightarrow> False | Some c \<Rightarrow> cf_has c lower)"

definition scalar_step :: "string \<times> ConfigKey \<Rightarrow> (string \<times> string) list \<Rightarrow> (string \<times> string) list" where
  "scalar_step lk keys = (if ckScalar (snd lk) then AList.update (fst lk) (ckPath (snd lk)) keys else keys)"

definition scalar_keys :: "ConfigFile list \<Rightarrow> (string \<times> string) list" where
  "scalar_keys configs = fold (\<lambda>c keys. fold scalar_step (cfKeys c) keys) configs []"

definition key_path :: "ConfigFile list \<Rightarrow> string \<Rightarrow> string" where
  "key_path configs lower = (case map_of (scalar_keys configs) lower of None \<Rightarrow> [] | Some p \<Rightarrow> p)"

definition key_row :: "ConfigFile list \<Rightarrow> string list \<Rightarrow> string \<Rightarrow> string" where
  "key_row configs envs lower =
     ''| `'' @ key_path configs lower @ ''` |''
     @ concat (map (\<lambda>e. if env_has configs lower e then '' '' @ tick @ '' |'' else '' |'') envs)"

definition absent_in :: "ConfigFile list \<Rightarrow> string list \<Rightarrow> string \<Rightarrow> string list" where
  "absent_in configs envs lower = filter (\<lambda>e. \<not> env_has configs lower e) envs"

definition gap_keys :: "ConfigFile list \<Rightarrow> string list" where
  "gap_keys configs =
     (let envs = map config_label configs in
      filter (\<lambda>lower. let absent = absent_in configs envs lower in 0 < length absent \<and> length absent < length envs)
        (sort_strings (map fst (scalar_keys configs))))"

definition renderConfigKeys :: "workspace \<Rightarrow> string" where
  "renderConfigKeys ws =
     (let configs = wsConfigs ws; envs = map config_label configs;
          ordered = sort_strings (map fst (scalar_keys configs));
          gaps = map (\<lambda>lower. ''- `'' @ key_path configs lower @ ''` is missing from ''
                        @ str_join '', '' (absent_in configs envs lower)) (gap_keys configs)
      in if configs = [] then ''*No `configs/` directory was found in the reference template.*'' @ [CHR 0x0A]
         else text_lines ([''## Keys'', [],
                itoa (length ordered) @ '' scalar keys across '' @ itoa (length configs) @ '' environment file(s). ''
                  @ ''A '' @ tick @ '' means the environment declares the key; a blank means a lookup there returns ''
                  @ ''the zero value.'', [],
                ''| Key |'' @ concat (map (\<lambda>e. '' '' @ e @ '' |'') envs),
                ''|---|'' @ concat (map (\<lambda>_. ''---|'') envs)]
              @ map (key_row configs envs) ordered @ [[], ''## Gaps'', []])
           @ (if gaps = [] then text_lines [''Every key is declared in every environment file.'']
              else text_lines [''Keys declared in some environments and not others. Reading one of these ''
                     @ ''in an environment that does not declare it returns the zero value, silently:'', []]
                   @ str_join [CHR 0x0A] gaps @ [CHR 0x0A]))"

definition rule_row :: "RuleSummary \<Rightarrow> string" where
  "rule_row r =
     ''| `'' @ rsID r @ ''` | '' @ (if rsSeverity r = ''error'' then ''yes'' else []) @ '' | '' @ rsSummary r @ '' |''"

definition renderRules :: "RuleSummary list \<Rightarrow> bool \<Rightarrow> string" where
  "renderRules rules legacy =
     (let sel = filter (\<lambda>r. rsLegacy r = legacy) rules in
      if sel = [] then text_lines [''*No rules in this set.*'']
      else text_lines ([''| Rule | Blocks | Detects |'', ''|---|---|---|''] @ map rule_row sel
             @ [[], ''Run `legacy_audit` against a service to see which of these it trips, with ''
                 @ ''a file and line for each.'']))"

definition idiom_text :: string where
  "idiom_text =
     text_lines [
     ''## What it checks'',
     [],
     ''- `any` rather than the written-out `interface{}` (Go 1.18+).'',
     ''- Error strings lower-case and unpunctuated '' @ emdash @ '' they get wrapped, and `open config: Could not read file.` is what a capitalised, punctuated inner message turns into.'',
     ''- `fmt.Errorf` wrapping an error with `%w` rather than `%v`. In this template the consequence is concrete: `pgx.ErrNoRows` has to survive the trip up to the framework to become a 404, and `%v` severs it.'',
     ''- One package per directory. **This one blocks** '' @ emdash @ '' it does not compile, and the compiler's version of the message names a directory rather than the file that introduced the mismatch.'',
     ''- Package names lower-case and single-word.'',
     [],
     ''## What it deliberately does not check'',
     [],
     ''Anything needing type information '' @ emdash @ '' unchecked errors, missing `defer` close, nil interface versus nil pointer. Those are `golangci-lint`'s at the verification gate, where there is time for them.'']"

definition renderIdiom :: "RuleSummary list \<Rightarrow> string" where
  "renderIdiom rules =
     concat (map (\<lambda>r. text_lines [''## `'' @ rsID r @ ''`'', [], rsSummary r, [], ''Source: '' @ rsCitation r, []])
       (filter (\<lambda>r. rsID r = ''go-idiom'') rules))
     @ idiom_text"

section \<open>Build\<close>

definition reference_error :: "string \<Rightarrow> string \<Rightarrow> string" where
  "reference_error slug e = ''reference '' @ slug @ '': '' @ e"

definition reference_body ::
  "(string \<Rightarrow> string + Doc) \<Rightarrow> string \<Rightarrow> (string + workspace) \<Rightarrow> RuleSummary list \<Rightarrow> Reference \<Rightarrow> string + string" where
  "reference_body load docsDir ws rules ref =
     (if reGenerator ref = [] then
        (if reSources ref = [] \<and> reBody ref \<noteq> [] then Inr (trim_space (reBody ref) @ [CHR 0x0A])
         else (case renderFromSources load (reSources ref) of
                 Inl e \<Rightarrow> Inl (reference_error (reSlug ref) e)
               | Inr b \<Rightarrow> Inr b))
      else if reGenerator ref = ''config-keys'' then
        (case ws of Inl e \<Rightarrow> Inl (''load '' @ docsDir @ '': '' @ e) | Inr w \<Rightarrow> Inr (renderConfigKeys w))
      else if reGenerator ref = ''legacy-rules'' then Inr (renderRules rules True)
      else if reGenerator ref = ''idiom-rules'' then Inr (renderIdiom rules)
      else Inl (''reference '' @ reSlug ref @ '' names unknown generator '' @ go_quote (reGenerator ref)))"

fun build_references ::
  "(string \<Rightarrow> string + Doc) \<Rightarrow> string \<Rightarrow> (string + workspace) \<Rightarrow> RuleSummary list \<Rightarrow> Reference list
    \<Rightarrow> string + kb_file list" where
  "build_references load docsDir ws rules [] = Inr []"
| "build_references load docsDir ws rules (ref # refs) =
     (case reference_body load docsDir ws rules ref of
        Inl e \<Rightarrow> Inl e
      | Inr body \<Rightarrow>
          (case build_references load docsDir ws rules refs of
             Inl e \<Rightarrow> Inl e
           | Inr out \<Rightarrow>
               Inr (\<lparr>kfPath = ''references/'' @ reSlug ref @ ''.md'', kfContent = renderReference ref body\<rparr> # out)))"

definition kb_Build ::
  "(string \<Rightarrow> string + string) \<Rightarrow> (string \<Rightarrow> string) \<Rightarrow> (string + workspace) \<Rightarrow> string \<Rightarrow> RuleSummary list
    \<Rightarrow> Reference list \<Rightarrow> string + kb_file list" where
  "kb_Build files digest ws docsDir rules refs =
     (case build_references (\<lambda>name. LoadDoc files digest (doc_path docsDir name)) docsDir ws rules refs of
        Inl e \<Rightarrow> Inl e
      | Inr out \<Rightarrow> Inr (sort_key kfPath (out @ [\<lparr>kfPath = ''SKILL.md'', kfContent = renderIndex refs rules\<rparr>])))"

definition kb_Equal :: "kb_file list \<Rightarrow> kb_file list \<Rightarrow> bool" where
  "kb_Equal a b \<longleftrightarrow>
     length a = length b
     \<and> list_all2 (\<lambda>x y. kfPath x = kfPath y \<and> ToLF (kfContent x) = ToLF (kfContent y)) a b"

section \<open>Extracted text nests\<close>

definition deeper :: "Section \<Rightarrow> Section" where
  "deeper s = s\<lparr>seLevel := (if seLevel s < 6 then seLevel s + 1 else seLevel s)\<rparr>"

lemma heading_deeper:
  assumes "headingRe line = Some (lv, t)" and "lv < 6"
  shows "headingRe (CHR ''#'' # line) = Some (lv + 1, t) \<and> \<not> fenceRe (CHR ''#'' # line)"
proof -
  have "\<not> re_space (CHR ''#'')" by (simp add: re_space_def)
  then show ?thesis using assms by (auto simp: headingRe_def fenceRe_def Let_def split: if_splits)
qed

lemma scan_demoted:
  "scan_headings n b (demote_lines b ls) = map deeper (scan_headings n b ls)"
proof (induction ls arbitrary: n b)
  case (Cons l ls)
  show ?case
  proof (cases "fenceRe l \<or> b \<or> headingRe l = None")
    case True
    then show ?thesis using Cons by auto
  next
    case False
    then obtain lv t where h: "headingRe l = Some (lv, t)" "\<not> fenceRe l" "\<not> b" by auto
    then show ?thesis using Cons heading_deeper [OF h(1)] by (cases "lv < 6") (auto simp: deeper_def)
  qed
qed simp

lemma demote_lines_free:
  "list_all (\<lambda>l. CHR 0x0A \<notin> set l) ls \<Longrightarrow> list_all (\<lambda>l. CHR 0x0A \<notin> set l) (demote_lines b ls)"
  by (induction ls arbitrary: b) (auto split: option.split)

lemma length_demote_lines [simp]: "length (demote_lines b ls) = length ls"
  by (induction ls arbitrary: b) auto

text \<open>Demoting extracted text keeps its lines and moves every heading outside code fences one level down, to six at
  most, and no other line becomes a heading or stops being one.\<close>

theorem demote_nests:
  "scan_headings n False (split_char (CHR 0x0A) (demote body))
     = map deeper (scan_headings n False (split_char (CHR 0x0A) body))
   \<and> length (split_char (CHR 0x0A) (demote body)) = length (split_char (CHR 0x0A) body)"
proof -
  let ?ls = "split_char (CHR 0x0A) body"
  have "list_all (\<lambda>l. CHR 0x0A \<notin> set l) ?ls" by (auto simp: list_all_iff dest: split_char_free)
  then have "list_all (\<lambda>l. CHR 0x0A \<notin> set l) (demote_lines False ?ls)" by (rule demote_lines_free)
  moreover have "demote_lines False ?ls \<noteq> []"
    by (metis length_0_conv length_demote_lines split_char_not_Nil)
  ultimately have "split_char (CHR 0x0A) (demote body) = demote_lines False ?ls"
    unfolding demote_def by (intro split_join_char) (auto simp: list_all_iff)
  then show ?thesis by (simp add: scan_demoted)
qed

section \<open>The table of gaps\<close>

definition scalar_lowers :: "key_table \<Rightarrow> string set" where
  "scalar_lowers t = {lower. \<exists>k. (lower, k) \<in> set t \<and> ckScalar k}"

lemma scalar_step_keys: "fst ` set (fold scalar_step t keys) = fst ` set keys \<union> scalar_lowers t"
proof (induction t arbitrary: keys)
  case (Cons lk t)
  obtain lower k where lk: "lk = (lower, k)" by (cases lk)
  have "set (map fst (AList.update lower v keys)) = insert lower (set (map fst keys))" for v
    unfolding update_keys by auto
  then have "fst ` set (AList.update lower v keys) = insert lower (fst ` set keys)" for v by simp
  moreover have "scalar_lowers (lk # t) = (if ckScalar k then insert lower (scalar_lowers t) else scalar_lowers t)"
    by (auto simp: scalar_lowers_def lk)
  ultimately show ?case using Cons [of "scalar_step lk keys"] by (simp add: scalar_step_def lk)
qed (simp add: scalar_lowers_def)

lemma scalar_keys_iff:
  "lower \<in> fst ` set (scalar_keys configs) \<longleftrightarrow> (\<exists>c \<in> set configs. \<exists>k. (lower, k) \<in> set (cfKeys c) \<and> ckScalar k)"
proof -
  have "fst ` set (fold (\<lambda>c keys. fold scalar_step (cfKeys c) keys) configs ks)
      = fst ` set ks \<union> (\<Union>c \<in> set configs. scalar_lowers (cfKeys c))" for ks
    by (induction configs arbitrary: ks) (simp_all add: scalar_step_keys Un_assoc)
  then show ?thesis by (simp add: scalar_keys_def scalar_lowers_def)
qed

lemma env_has_own:
  assumes "distinct (map config_label configs)" and "c \<in> set configs"
  shows "env_has configs lower (config_label c) = cf_has c lower"
proof -
  have "map_of (rev (map (\<lambda>c. (config_label c, c)) configs)) (config_label c) = Some c"
    using assms by (intro map_of_is_SomeI) (auto simp: comp_def rev_map [symmetric])
  then show ?thesis by (simp add: env_has_def)
qed

text \<open>With one file per environment and case-folded key tables, as the loader builds them, the gaps listed are
  exactly the scalar keys that some environment file declares and some other does not.\<close>

theorem config_gaps_exact:
  assumes "distinct (map config_label configs)"
    and "\<forall>c \<in> set configs. \<forall>(k, v) \<in> set (cfKeys c). to_lower k = k"
  shows "lower \<in> set (gap_keys configs) \<longleftrightarrow>
    (\<exists>c \<in> set configs. \<exists>k. (lower, k) \<in> set (cfKeys c) \<and> ckScalar k) \<and> (\<exists>c \<in> set configs. \<not> cf_has c lower)"
proof -
  let ?envs = "map config_label configs"
  have own: "env_has configs lower (config_label c) = cf_has c lower" if "c \<in> set configs" for c
    using env_has_own [OF assms(1) that] .
  have some: "0 < length (absent_in configs ?envs lower) \<longleftrightarrow> (\<exists>c \<in> set configs. \<not> cf_has c lower)"
    using own by (auto simp: absent_in_def filter_empty_conv)
  have less: "length (absent_in configs ?envs lower) < length ?envs"
    if declared: "c \<in> set configs" "(lower, k) \<in> set (cfKeys c)" for c k
  proof -
    have "to_lower lower = lower" using assms(2) declared by fastforce
    moreover have "lower \<in> fst ` set (cfKeys c)" using declared(2) by (rule image_eqI [rotated]) simp
    ultimately have "cf_has c lower" by (simp add: cf_has_def map_of_eq_None_iff)
    then have "env_has configs lower (config_label c)" using own declared(1) by simp
    then have "config_label c \<notin> set (absent_in configs ?envs lower)" by (simp add: absent_in_def)
    then show ?thesis
      using declared(1) unfolding absent_in_def by (intro length_filter_less) auto
  qed
  show ?thesis
    using some less by (auto simp: gap_keys_def Let_def scalar_keys_iff)
qed

definition sample_key :: "string \<Rightarrow> ConfigKey" where
  "sample_key p = \<lparr>ckPath = p, ckLine = 1, ckCol = 1, ckScalar = True, ckEmpty = False, ckValue = ''x''\<rparr>"

theorem config_gaps_exact_witness:
  "''db.host'' \<in> set (gap_keys
     [\<lparr>cfRel = ''configs/config.yaml'', cfEnv = [], cfKeys = [(''db.host'', sample_key ''db.Host'')], cfParseErr = None\<rparr>,
      \<lparr>cfRel = ''configs/config.dev.yaml'', cfEnv = ''dev'', cfKeys = [], cfParseErr = None\<rparr>])"
  by (subst config_gaps_exact) (simp_all add: config_label_def sample_key_def cf_has_def lower_char_def is_upper_def)

end
