(* ===== verification/Filepath.thy ===== *)
theory Filepath
  imports GoAst
begin

text \<open>
  What the sources use of path/filepath on Unix (Clean, Join, IsAbs, Dir), and resolveRoot of
  gotools/internal/mcpserver/server.go, which keeps a root the agent asks for inside the served one.
\<close>

section \<open>Paths\<close>

definition IsAbs :: "string \<Rightarrow> bool" where
  "IsAbs p \<longleftrightarrow> has_prefix p ''/''"

definition clean_seg :: "bool \<Rightarrow> string \<Rightarrow> string list \<Rightarrow> string list" where
  "clean_seg rooted s out =
     (if s = [] \<or> s = ''.'' then out
      else if s = ''..'' then
        (if out = [] \<or> last out = ''..'' then (if rooted then out else out @ [''..'']) else butlast out)
      else out @ [s])"

abbreviation path_segs :: "string \<Rightarrow> string list" where
  "path_segs p \<equiv> split_char (CHR ''/'') p"

definition Clean :: "string \<Rightarrow> string" where
  "Clean p =
     (let segs = fold (clean_seg (IsAbs p)) (path_segs p) [] in
      if IsAbs p then CHR ''/'' # str_join ''/'' segs
      else if segs = [] then ''.'' else str_join ''/'' segs)"

definition Join :: "string list \<Rightarrow> string" where
  "Join ps = (case dropWhile (\<lambda>p. p = []) ps of [] \<Rightarrow> [] | qs \<Rightarrow> Clean (str_join ''/'' qs))"

definition path_dir :: "string \<Rightarrow> string" where
  "path_dir p = Clean (case last_index_char p (CHR ''/'') of None \<Rightarrow> [] | Some i \<Rightarrow> take (i + 1) p)"

section \<open>Containment\<close>

definition inside :: "string \<Rightarrow> string \<Rightarrow> bool" where
  "inside base p \<longleftrightarrow> p = base \<or> has_prefix p (base @ ''/'')"

definition resolveRoot :: "string \<Rightarrow> string \<Rightarrow> string + string" where
  "resolveRoot base req =
     (if IsAbs req then
        (let clean = Clean req in
         if inside base clean then Inr clean
         else Inl (''root '' @ go_quote req @ '' is outside the served workspace''))
      else
        (let joined = Clean (Join [base, req]) in
         if joined \<noteq> base \<and> \<not> has_prefix joined (base @ ''/'')
         then Inl (''root '' @ go_quote req @ '' escapes the served workspace'')
         else Inr joined))"

section \<open>Segments\<close>

definition plain_seg :: "string \<Rightarrow> bool" where
  "plain_seg s \<longleftrightarrow> s \<noteq> [] \<and> s \<noteq> ''.'' \<and> s \<noteq> ''..'' \<and> CHR ''/'' \<notin> set s"

definition abs_path :: "string list \<Rightarrow> string" where
  "abs_path segs = CHR ''/'' # str_join ''/'' segs"

lemma IsAbs_abs_path [simp]: "IsAbs (abs_path segs)"
  by (simp add: IsAbs_def abs_path_def)

lemma clean_seg_plain: "list_all plain_seg out \<Longrightarrow> CHR ''/'' \<notin> set s \<Longrightarrow> list_all plain_seg (clean_seg True s out)"
  by (auto simp: clean_seg_def plain_seg_def list_all_iff dest: in_set_butlastD)

lemma clean_segs_plain:
  "list_all plain_seg out \<Longrightarrow> \<forall>s \<in> set ss. CHR ''/'' \<notin> set s \<Longrightarrow> list_all plain_seg (fold (clean_seg True) ss out)"
  by (induction ss arbitrary: out) (simp_all add: clean_seg_plain)

lemma clean_segs_id: "list_all plain_seg ss \<Longrightarrow> fold (clean_seg True) ss out = out @ ss"
  by (induction ss arbitrary: out) (simp_all add: clean_seg_def plain_seg_def)

lemma path_segs_abs_path:
  "list_all plain_seg ss \<Longrightarrow> path_segs (abs_path ss) = (if ss = [] then [[], []] else [] # ss)"
proof -
  assume ss: "list_all plain_seg ss"
  then have "ss \<noteq> [] \<Longrightarrow> path_segs (str_join ''/'' ss) = ss"
    by (intro split_join_char) (auto simp: list_all_iff plain_seg_def)
  moreover have "path_segs (CHR ''/'' # s) = [] # path_segs s" for s by simp
  ultimately show ?thesis by (simp add: abs_path_def)
qed

lemma Clean_abs: "IsAbs p \<Longrightarrow> Clean p = abs_path (fold (clean_seg True) (path_segs p) [])"
  by (simp add: Clean_def abs_path_def)

lemma Clean_abs_path: "list_all plain_seg ss \<Longrightarrow> Clean (abs_path ss) = abs_path ss"
  by (simp add: Clean_abs path_segs_abs_path clean_segs_id clean_seg_def [of _ "[]"])

text \<open>A path below another is one whose segments extend its segments.\<close>

lemma split_prefix_append: "path_segs (p @ CHR ''/'' # s) = path_segs p @ path_segs s"
proof (induction p)
  case (Cons c p)
  then show ?case by (cases "path_segs p") auto
qed simp

lemma inside_segs:
  assumes "list_all plain_seg bs" and "bs \<noteq> []" and "list_all plain_seg cs"
  shows "inside (abs_path bs) (abs_path cs) \<longleftrightarrow> prefix bs cs"
proof
  assume "inside (abs_path bs) (abs_path cs)"
  then consider "abs_path cs = abs_path bs" | s where "abs_path cs = abs_path bs @ CHR ''/'' # s"
    by (auto simp: inside_def prefix_def)
  then show "prefix bs cs"
  proof cases
    case 1
    then have "path_segs (abs_path cs) = path_segs (abs_path bs)" by simp
    then show ?thesis using assms by (auto simp: path_segs_abs_path plain_seg_def split: if_splits)
  next
    case 2
    then have "path_segs (abs_path cs) = path_segs (abs_path bs) @ path_segs s"
      by (simp only: split_prefix_append)
    then have eq: "(if cs = [] then [[]] else cs) = bs @ path_segs s" using assms by (simp add: path_segs_abs_path split: if_splits)
    have "2 \<le> length (bs @ path_segs s)" using assms(2) by (cases bs; cases "path_segs s") simp_all
    then have "cs \<noteq> []" using eq by (auto dest: arg_cong [of _ _ length])
    then show ?thesis using eq by simp
  qed
next
  assume "prefix bs cs"
  then obtain ds where ds: "cs = bs @ ds" by (auto simp: prefix_def)
  show "inside (abs_path bs) (abs_path cs)"
  proof (cases "ds = []")
    case True
    then show ?thesis by (simp add: inside_def ds)
  next
    case False
    have "str_join ''/'' (bs @ ds) = str_join ''/'' bs @ ''/'' @ str_join ''/'' ds"
      using assms(2) False by (rule str_join_append)
    then show ?thesis by (simp add: inside_def ds abs_path_def)
  qed
qed

text \<open>The segments a request leads to, from the served directory or from the top.\<close>

definition target_segs :: "string list \<Rightarrow> string \<Rightarrow> string list" where
  "target_segs bs req = fold (clean_seg True) (path_segs req) (if IsAbs req then [] else bs)"

lemma target_segs_plain: "list_all plain_seg bs \<Longrightarrow> list_all plain_seg (target_segs bs req)"
  unfolding target_segs_def by (rule clean_segs_plain) (auto dest: split_char_free)

lemma Join_below:
  assumes "list_all plain_seg bs" and "\<not> IsAbs req"
  shows "Join [abs_path bs, req] = abs_path (target_segs bs req)"
proof -
  have "abs_path bs \<noteq> []" by (simp add: abs_path_def)
  then have "Join [abs_path bs, req] = Clean (abs_path bs @ CHR ''/'' # req)" by (simp add: Join_def)
  also have "\<dots> = abs_path (fold (clean_seg True) (path_segs (abs_path bs) @ path_segs req) [])"
    by (subst Clean_abs) (simp_all add: split_prefix_append IsAbs_def abs_path_def)
  also have "\<dots> = abs_path (target_segs bs req)"
    using assms by (simp add: path_segs_abs_path clean_segs_id target_segs_def clean_seg_def [of _ "[]"])
  finally show ?thesis .
qed

lemma resolveRoot_segs:
  assumes "list_all plain_seg bs" and "bs \<noteq> []"
  shows "resolveRoot (abs_path bs) req =
    (if prefix bs (target_segs bs req) then Inr (abs_path (target_segs bs req))
     else Inl (''root '' @ go_quote req @ (if IsAbs req then '' is outside'' else '' escapes'') @ '' the served workspace''))"
proof -
  have t: "list_all plain_seg (target_segs bs req)" by (rule target_segs_plain [OF assms(1)])
  note ins = inside_segs [OF assms t]
  show ?thesis
  proof (cases "IsAbs req")
    case True
    then have "Clean req = abs_path (target_segs bs req)" by (simp add: Clean_abs target_segs_def)
    then show ?thesis using True ins by (simp add: resolveRoot_def)
  next
    case False
    then have "Clean (Join [abs_path bs, req]) = abs_path (target_segs bs req)"
      using Join_below [OF assms(1)] t by (simp add: Clean_abs_path)
    then show ?thesis using False ins by (auto simp: resolveRoot_def inside_def Let_def)
  qed
qed

text \<open>Whatever the agent asks for, resolveRoot normalises the request from the served directory (an absolute
  one from the top) and accepts it exactly when the result is the served directory or lies below it, segment by segment; the
  answer is that clean path.\<close>

theorem resolve_root_contains:
  assumes "list_all plain_seg bs" and "bs \<noteq> []"
  shows "resolveRoot (abs_path bs) req =
    (if prefix bs (target_segs bs req) then Inr (abs_path (target_segs bs req))
     else Inl (''root '' @ go_quote req @ (if IsAbs req then '' is outside'' else '' escapes'') @ '' the served workspace''))"
  using assms by (rule resolveRoot_segs)

theorem resolve_root_contains_witness:
  "resolveRoot (abs_path [''srv'', ''ws'']) ''../ws-old/x'' = Inl (''root \"../ws-old/x\" escapes the served workspace'')"
proof -
  have "list_all plain_seg [''srv'', ''ws'']" by code_simp
  moreover have "\<not> prefix [''srv'', ''ws''] (target_segs [''srv'', ''ws''] ''../ws-old/x'')" by code_simp
  moreover have "\<not> IsAbs ''../ws-old/x''" "go_quote ''../ws-old/x'' = ''\"../ws-old/x\"''" by code_simp+
  ultimately show ?thesis using resolve_root_contains [of "[''srv'', ''ws'']" "''../ws-old/x''"] by simp
qed

end
