(* ===== verification/Mcp.thy ===== *)
theory Mcp
  imports RuleSet Scaffold Repomap Libversion Routes Filepath
begin

text \<open>
  Model of gotools/internal/mcpserver: the tools the agent calls. A handler is a function of the arguments
  and of the tree, and returns an error or an output together with the tree afterwards; the
  output that accompanies an error is dropped, as the protocol library drops it. What a handler finds below a root, the
  parsers, the templates, the go command, the JSON form of an inventory and the outcome of each file
  system call are the environment \<open>ev\<close>. Contexts, timeouts and durations are not modelled.
\<close>

section \<open>The tools\<close>

record registered =
  rgName :: string
  rgDescription :: string
  rgParams :: "string list"

text \<open>Name, description and the members of the input structure of each registration.\<close>

definition server_tools :: "registered list" where
  "server_tools = [
     \<lparr>rgName = ''rules_lint'',
      rgDescription = ''Check Go against the n-api-template contract: layer boundaries, handler signature, repository contract, DTO envelopes, FX wiring. Run after each edit batch, passing `paths` with the files you changed.'',
      rgParams = [''root'', ''paths'', ''only'']\<rparr>,
     \<lparr>rgName = ''legacy_audit'',
      rgDescription = ''Detect pre-template (api-*) patterns in an existing service: routes.go, gin handlers, manual validation, swaggo docs, handleSuccess helpers. Use when planning a migration, not during ordinary edits.'',
      rgParams = [''root'', ''paths'', ''only'']\<rparr>,
     \<lparr>rgName = ''list_rules'',
      rgDescription = ''List the rule ids, severities and citations. Call this before explaining a violation so you quote the real rule id and its source.'',
      rgParams = [''legacy'']\<rparr>]"

definition scaffold_tools :: "registered list" where
  "scaffold_tools = [
     \<lparr>rgName = ''resource_scaffold'',
      rgDescription = ''Write a whole CRUD resource '' @ emdash @ '' domain, DDL, repository, DTOs, handler, FX registration '' @ emdash @ '' from a field spec. Use this instead of writing the files yourself.'',
      rgParams = [''spec'', ''root'', ''dry_run'']\<rparr>,
     \<lparr>rgName = ''project_scaffold'',
      rgDescription = ''Create a new n-api-template service in an empty directory, seeded with one working resource. Greenfield only; to add to an existing service use resource_scaffold.'',
      rgParams = [''project'', ''resource'', ''root'', ''dry_run'']\<rparr>,
     \<lparr>rgName = ''fx_wire'',
      rgDescription = ''Register a repository or handler in bootstrap/bootstrapper.go with the correct annotation. Never hand-edit it: an unannotated handler serves no routes.'',
      rgParams = [''kind'', ''ctor'', ''root'', ''dry_run'']\<rparr>]"

definition repo_map_tool :: "registered list" where
  "repo_map_tool = [
     \<lparr>rgName = ''repo_map'',
      rgDescription = ''Module path, library generation, package tree with exported symbols, and the FX composition root. Call once to orient; pass `package` for one package in full.'',
      rgParams = [''root'', ''package'', ''max_tokens'']\<rparr>]"

definition route_inventory_tool :: "registered list" where
  "route_inventory_tool = [
     \<lparr>rgName = ''route_inventory'',
      rgDescription = ''Every HTTP route the service registers, gin or template, prefixes resolved. `save` records them before a migration; `against` reports which a finished one no longer serves.'',
      rgParams = [''root'', ''save'', ''against'']\<rparr>]"

definition audit_tools :: "registered list" where
  "audit_tools = [
     \<lparr>rgName = ''db_roundtrip_audit'',
      rgDescription = ''Per repository method: database calls, whether any is in a loop, batched, in a transaction, plus a verdict. Worst first. Call before optimising by eye.'',
      rgParams = [''root'']\<rparr>,
     \<lparr>rgName = ''validation_audit'',
      rgDescription = ''Every request field, its validate tag, and what the tag leaves unbounded. Call when writing or reviewing request DTOs: `required` alone means only 'not empty', so a 10MB string passes.'',
      rgParams = [''root'']\<rparr>,
     \<lparr>rgName = ''temporal_audit'',
      rgDescription = ''Inline work that may belong off the request path: uploads, SMS, email, reports, outbound calls. Candidates only, no recommendation. Call when asked about async or Temporal.'',
      rgParams = [''root'']\<rparr>,
     \<lparr>rgName = ''lib_version_check'',
      rgDescription = ''CEPT library drift: which are behind, which are superseded by the n-api-* generation. Reports only '' @ emdash @ '' never edit go.mod on it; tell the user. Call when asked about versions or migration.'',
      rgParams = [''root'']\<rparr>]"

definition NewServer_tools :: "registered list" where
  "NewServer_tools = server_tools @ scaffold_tools @ repo_map_tool @ route_inventory_tool @ audit_tools"

section \<open>The environment\<close>

record mcp_env =
  evOutside :: "string \<Rightarrow> outside"
  evSite :: "string \<Rightarrow> site"
  evEntry :: "string \<Rightarrow> entry"
  evRender :: renderer
  evParse :: parser
  evFmt :: formatter
  evMkdir :: "string \<Rightarrow> string option"
  evWrite :: "string \<Rightarrow> string option"
  evRename :: "string \<Rightarrow> string option"
  evGo :: "string \<Rightarrow> string \<Rightarrow> string + string"
  evEncode :: "Inventory \<Rightarrow> string + string"
  evDecode :: "string \<Rightarrow> string + Inventory"

text \<open>workspace.Load without options.\<close>

definition load_at :: "mcp_env \<Rightarrow> string \<Rightarrow> string + workspace" where
  "load_at ev root =
     (let out = evOutside ev root in
      Load (outParse out) (outYaml out) \<lparr>includeTests = False, includeGen = False, extraPrune = []\<rparr> (outRoot out))"

text \<open>The tree below a root, with paths relative to it, put back into the whole.\<close>

definition below :: "string \<Rightarrow> tree \<Rightarrow> tree" where
  "below root fs = (\<lambda>p. fs (root @ ''/'' @ p))"

definition mount :: "string \<Rightarrow> tree \<Rightarrow> tree \<Rightarrow> tree" where
  "mount root sub fs =
     (\<lambda>p. if has_prefix p (root @ ''/'') then sub (drop (length root + 1) p) else fs p)"

definition rootFor :: "string \<Rightarrow> string \<Rightarrow> string + string" where
  "rootFor defaultRoot requested =
     (if trim_space requested = [] then Inr defaultRoot else resolveRoot defaultRoot requested)"

section \<open>Linting\<close>

record LintOutput =
  loOK :: bool
  loCount :: nat
  loViolations :: "Violation list"
  loOutOfScopeCount :: nat
  loWarnings :: "Violation list"
  loFilesScanned :: nat

definition no_config :: Config where
  "no_config =
     \<lparr>cAllowedDeps = None, cAllowedTestDeps = None, cMaxFileLines = 0, cDisable = [], cSeverityOverride = [],
      cRequiredDomainFields = None, cTimestampLayout = [], cRoundTripNotice = 0, cRoundTripRecommend = 0,
      cSensitiveFields = None, cDisabled = [], cSensitive = []\<rparr>"

definition lintHandler ::
  "mcp_env \<Rightarrow> string \<Rightarrow> bool \<Rightarrow> string \<Rightarrow> string list \<Rightarrow> string list \<Rightarrow> string + LintOutput" where
  "lintHandler ev defaultRoot legacy root paths only =
     (case rootFor defaultRoot root of
        Inl e \<Rightarrow> Inl e
      | Inr r \<Rightarrow>
          (case Analyze (evOutside ev r) \<lparr>oOnly = only, oScope = paths, oLegacy = legacy, oConfig = no_config\<rparr> of
             Inl e \<Rightarrow> Inl (''analyze: '' @ e)
           | Inr res \<Rightarrow>
               Inr \<lparr>loOK = resOK res, loCount = resCount res, loViolations = resViolations res,
                    loOutOfScopeCount = resOutOfScopeCount res, loWarnings = resWarnings res,
                    loFilesScanned = resFilesScanned res\<rparr>))"

record RuleInfo =
  riID :: string
  riSeverity :: string
  riSummary :: string
  riCitation :: string

definition rulesHandler :: "(string \<Rightarrow> bool) \<Rightarrow> bool \<Rightarrow> string + RuleInfo list" where
  "rulesHandler exists legacy =
     (case Default exists of
        Inl e \<Rightarrow> Inl e
      | Inr reg \<Rightarrow>
          Inr (map (\<lambda>r. \<lparr>riID = rID r, riSeverity = rSeverity r, riSummary = rSummary r, riCitation = rCitation r\<rparr>)
            (filter (\<lambda>r. rLegacy r = legacy) (All_rules reg))))"

section \<open>Scaffolding\<close>

record FileSummary =
  fsmPath :: string
  fsmAction :: string
  fsmBytes :: nat
  fsmContent :: string

record ScaffoldOutput =
  soOK :: bool
  soWritten :: bool
  soFiles :: "FileSummary list"
  soNotes :: "string list"
  soModule :: string

fun action_text :: "Action \<Rightarrow> string" where
  "action_text ActionCreate = ''create''"
| "action_text ActionModify = ''modify''"

definition toScaffoldOutput :: "sresult \<Rightarrow> bool \<Rightarrow> ScaffoldOutput" where
  "toScaffoldOutput res written =
     \<lparr>soOK = True, soWritten = written,
      soFiles = map (\<lambda>f. \<lparr>fsmPath = sfPath f, fsmAction = action_text (sfAction f), fsmBytes = sfBytes f,
                          fsmContent = (if written then [] else sfContent f)\<rparr>) (srFiles res),
      soNotes = srNotes res, soModule = srModule res\<rparr>"

fun apply_error_text :: "apply_error \<Rightarrow> string" where
  "apply_error_text (ExistsError ps) = exists_error_text ps"
| "apply_error_text (WriteError e) = e"

definition apply_at :: "mcp_env \<Rightarrow> string \<Rightarrow> sresult \<Rightarrow> tree \<Rightarrow> apply_error option \<times> tree" where
  "apply_at ev root res fs =
     (case scaffold_Apply (\<lambda>p. evMkdir ev (root @ ''/'' @ p)) (\<lambda>p. evWrite ev (root @ ''/'' @ p))
             (RepoEOL (evEntry ev root)) res (below root fs) of
        (err, sub) \<Rightarrow> (err, mount root sub fs))"

text \<open>The common end of the two scaffold handlers.\<close>

definition finish_scaffold ::
  "mcp_env \<Rightarrow> string \<Rightarrow> bool \<Rightarrow> string + sresult \<Rightarrow> tree \<Rightarrow> (string + ScaffoldOutput) \<times> tree" where
  "finish_scaffold ev root dryRun outcome fs =
     (case outcome of
        Inl e \<Rightarrow> (Inl e, fs)
      | Inr res \<Rightarrow>
          if dryRun then (Inr (toScaffoldOutput res False), fs)
          else (case apply_at ev root res fs of
                  (Some e, fs') \<Rightarrow> (Inl (apply_error_text e), fs')
                | (None, fs') \<Rightarrow> (Inr (toScaffoldOutput res True), fs')))"

definition resourceScaffoldHandler ::
  "mcp_env \<Rightarrow> string \<Rightarrow> Resource \<Rightarrow> string \<Rightarrow> bool \<Rightarrow> tree \<Rightarrow> (string + ScaffoldOutput) \<times> tree" where
  "resourceScaffoldHandler ev defaultRoot s reqRoot dryRun fs =
     (case rootFor defaultRoot reqRoot of
        Inl e \<Rightarrow> (Inl e, fs)
      | Inr root \<Rightarrow>
          finish_scaffold ev root dryRun
            (ScaffoldResource (evRender ev) (evParse ev) (evFmt ev) root (evSite ev root) s
               \<lparr>roModule = [], roSkipFXWire = False\<rparr>) fs)"

definition projectScaffoldHandler ::
  "mcp_env \<Rightarrow> string \<Rightarrow> Project \<Rightarrow> Resource \<Rightarrow> string \<Rightarrow> bool \<Rightarrow> tree \<Rightarrow> (string + ScaffoldOutput) \<times> tree" where
  "projectScaffoldHandler ev defaultRoot p s reqRoot dryRun fs =
     (case rootFor defaultRoot reqRoot of
        Inl e \<Rightarrow> (Inl e, fs)
      | Inr root \<Rightarrow>
          finish_scaffold ev root dryRun
            (NewProject (evRender ev) (evParse ev) (evFmt ev) root (evSite ev root) p s) fs)"

record FxWireOutput =
  fwOK :: bool
  fwPath :: string
  fwChanged :: bool
  fwWritten :: bool
  fwAdded :: "string list"
  fwAlready :: "string list"
  fwContent :: string

definition wire_kind_of :: "string \<Rightarrow> wire_kind" where
  "wire_kind_of s =
     (let k = to_lower (trim_space s) in
      if k = ''repo'' then KindRepo else if k = ''handler'' then KindHandler else OtherKind k)"

definition put_all :: "string \<Rightarrow> (string \<times> string) list \<Rightarrow> tree \<Rightarrow> tree" where
  "put_all root edits fs = fold (\<lambda>(p, content) t. t(root @ ''/'' @ p \<mapsto> content)) edits fs"

definition fxWireHandler ::
  "mcp_env \<Rightarrow> string \<Rightarrow> string \<Rightarrow> string \<Rightarrow> string \<Rightarrow> bool \<Rightarrow> tree \<Rightarrow> (string + FxWireOutput) \<times> tree" where
  "fxWireHandler ev defaultRoot kind ctor reqRoot dryRun fs =
     (case rootFor defaultRoot reqRoot of
        Inl e \<Rightarrow> (Inl e, fs)
      | Inr root \<Rightarrow>
          (case ModulePath root (siGoMod (evSite ev root)) of
             Inl e \<Rightarrow> (Inl e, fs)
           | Inr module \<Rightarrow>
               (let regs = [\<lparr>regKind = wire_kind_of kind, regCtor = ctor\<rparr>]; bd = siBootstrap (evSite ev root);
                    done = (if dryRun then (Plan (evParse ev) (evFmt ev) root bd module regs, [])
                            else Apply_wire (evParse ev) (evFmt ev) (\<lambda>p _. evWrite ev (root @ ''/'' @ p)) root bd module regs)
                in case done of
                     (Inl e, edits) \<Rightarrow> (Inl e, put_all root edits fs)
                   | (Inr res, edits) \<Rightarrow>
                       (Inr \<lparr>fwOK = True, fwPath = wrPath res, fwChanged = wrChanged res,
                             fwWritten = (wrChanged res \<and> \<not> dryRun), fwAdded = wrAdded res, fwAlready = wrAlready res,
                             fwContent = (if dryRun then wrContent res else [])\<rparr>, put_all root edits fs))))"

section \<open>Reading tools\<close>

definition repoMapHandler :: "mcp_env \<Rightarrow> string \<Rightarrow> string \<Rightarrow> string \<Rightarrow> int \<Rightarrow> string + repo_map" where
  "repoMapHandler ev defaultRoot reqRoot package maxTokens =
     (case rootFor defaultRoot reqRoot of
        Inl e \<Rightarrow> Inl e
      | Inr root \<Rightarrow>
          (case load_at ev root of
             Inl e \<Rightarrow> Inl (''load workspace: '' @ e)
           | Inr ws \<Rightarrow> Inr (repomap_Build ws \<lparr>opPackage = package, opMaxTokens = maxTokens\<rparr>)))"

definition auditWorkspace :: "mcp_env \<Rightarrow> string \<Rightarrow> string \<Rightarrow> string + workspace" where
  "auditWorkspace ev defaultRoot root =
     (case rootFor defaultRoot root of Inl e \<Rightarrow> Inl e | Inr r \<Rightarrow> load_at ev r)"

definition plural_count :: "nat \<Rightarrow> string \<Rightarrow> string" where
  "plural_count n noun =
     (if n = 0 then ''no '' @ noun @ ''s'' else if n = 1 then ''1 '' @ noun else itoa n @ '' '' @ noun @ ''s'')"

record RoundTripOutput =
  roMethods :: "RoundTripReport list"
  roTotal :: nat
  roHealthy :: nat
  roSummary :: string

definition roundTripHandler :: "mcp_env \<Rightarrow> string \<Rightarrow> string \<Rightarrow> string + RoundTripOutput" where
  "roundTripHandler ev defaultRoot root =
     (case auditWorkspace ev defaultRoot root of
        Inl e \<Rightarrow> Inl e
      | Inr ws \<Rightarrow>
          (let all = RoundTripAudit ws; work = filter (\<lambda>m. rtVerdict m \<noteq> ''ok'') all in
           Inr \<lparr>roMethods = work, roTotal = length all, roHealthy = length all - length work,
                roSummary = itoa (length work) @ '' of '' @ plural_count (length all) ''repository method''
                  @ '' need attention, worst first; the other '' @ itoa (length all - length work) @ '' are fine''\<rparr>))"

record ValidationOutput =
  voFields :: "ValidationReport list"
  voTotal :: nat
  voBounded :: nat
  voSummary :: string

definition validationHandler :: "mcp_env \<Rightarrow> string \<Rightarrow> string \<Rightarrow> string + ValidationOutput" where
  "validationHandler ev defaultRoot root =
     (case auditWorkspace ev defaultRoot root of
        Inl e \<Rightarrow> Inl e
      | Inr ws \<Rightarrow>
          (let all = ValidationAudit ws; unbounded = filter (\<lambda>f. vrMissing f \<noteq> []) all in
           Inr \<lparr>voFields = unbounded, voTotal = length all, voBounded = length all - length unbounded,
                voSummary = itoa (length unbounded) @ '' of '' @ plural_count (length all) ''request field''
                  @ '' have nothing bounding them''\<rparr>))"

record TemporalOutput =
  toCandidates :: "TemporalCandidate list"
  toSummary :: string
  toNote :: string

definition temporalHandler :: "mcp_env \<Rightarrow> string \<Rightarrow> string \<Rightarrow> string + TemporalOutput" where
  "temporalHandler ev defaultRoot root =
     (case auditWorkspace ev defaultRoot root of
        Inl e \<Rightarrow> Inl e
      | Inr ws \<Rightarrow>
          (let candidates = TemporalAudit ws in
           Inr \<lparr>toCandidates = candidates,
                toSummary = plural_count (length candidates) ''candidate'' @ '' doing work inline'',
                toNote = ''Candidates only. Do not move any of this without asking: the template has ''
                  @ ''no Temporal wiring, and where the work belongs is a decision about what ''
                  @ ''should happen when it fails halfway through.''\<rparr>))"

definition shortNames :: "string list \<Rightarrow> string list" where
  "shortNames modules = map (\<lambda>m. trim_prefix m ModulePrefix) modules"

definition note_text :: string where
  "note_text =
     ''Reports only; it does not edit go.mod. To act on it, run `go_mod op=get` per module with `version` omitted ''
     @ emdash @ '' the toolchain resolves the latest and edits go.mod itself. Never copy a version from the ''
     @ ''CURRENT column onto a superseded module: the two generations are separate release lines. Outside a migration, ''
     @ ''report the drift and let the developer decide '' @ emdash @ '' a library bump mid-review turns a review ''
     @ ''into a regression hunt.''"

definition versionNote :: "version_result \<Rightarrow> string" where
  "versionNote res =
     (if \<not> vsReachable res then
        ''The package registry was not reachable, so only supersession is reported '' @ emdash
        @ '' every version column is missing, not empty. '' @ note_text
      else if 0 < length (vsUnresolved res) then
        itoa (length (vsUnresolved res)) @ '' lookup(s) did not answer ('' @ str_join '', '' (shortNames (vsUnresolved res))
        @ ''), so their version columns are missing rather than empty '' @ emdash
        @ '' nothing here says those modules have no releases. You do not need the numbers: fetch with no ''
        @ ''version and the toolchain resolves them. '' @ note_text
      else note_text)"

record LibVersionOutput =
  lvResult :: version_result
  lvSummary :: string
  lvNote :: string

definition libVersionHandler :: "mcp_env \<Rightarrow> string \<Rightarrow> string \<Rightarrow> string + LibVersionOutput" where
  "libVersionHandler ev defaultRoot reqRoot =
     (case auditWorkspace ev defaultRoot reqRoot of
        Inl e \<Rightarrow> Inl e
      | Inr ws \<Rightarrow>
          (let root = (case rootFor defaultRoot reqRoot of Inl _ \<Rightarrow> defaultRoot | Inr r \<Rightarrow> r);
               res = version_check ws (GoListVersions (evGo ev root))
           in Inr \<lparr>lvResult = res, lvSummary = Summary res, lvNote = versionNote res\<rparr>))"

section \<open>The route inventory\<close>

definition resolveUnder :: "string \<Rightarrow> string \<Rightarrow> string" where
  "resolveUnder root path = (if IsAbs path then path else Join [root, path])"

definition saveInventory :: "mcp_env \<Rightarrow> string \<Rightarrow> Inventory \<Rightarrow> tree \<Rightarrow> string option \<times> tree" where
  "saveInventory ev path iv fs =
     (case (if path_dir path \<noteq> [] then evMkdir ev (path_dir path) else None) of
        Some e \<Rightarrow> (Some (''create '' @ path_dir path @ '': '' @ e), fs)
      | None \<Rightarrow>
          (case evEncode ev iv of
             Inl e \<Rightarrow> (Some (''encode inventory: '' @ e), fs)
           | Inr body \<Rightarrow>
               (let tmp = path @ ''.tmp''; content = body @ [CHR 0x0A] in
                case evWrite ev tmp of
                  Some e \<Rightarrow> (Some (''write '' @ path @ '': '' @ e), fs)
                | None \<Rightarrow>
                    (case evRename ev path of
                       Some e \<Rightarrow> (Some e, fs(tmp \<mapsto> content))
                     | None \<Rightarrow> (None, (fs(tmp := None))(path \<mapsto> content))))))"

definition loadInventory :: "mcp_env \<Rightarrow> string \<Rightarrow> tree \<Rightarrow> string + Inventory" where
  "loadInventory ev path fs =
     (case fs path of
        None \<Rightarrow> Inl (''read '' @ path @ '': no such file '' @ emdash @ '' take the inventory with save= before the migration starts'')
      | Some raw \<Rightarrow>
          (case evDecode ev raw of
             Inl e \<Rightarrow> Inl (path @ '' is not a route inventory: '' @ e)
           | Inr iv \<Rightarrow> Inr iv))"

record RouteInventoryOutput =
  riRoutes :: "Route list"
  riUnresolved :: "string list"
  riFiles :: "string list"
  riLegacy :: nat
  riTemplate :: nat
  riSaved :: string
  riMissing :: "Route list"
  riCompared :: bool
  riBefore :: nat

definition inventory_output :: "Inventory \<Rightarrow> RouteInventoryOutput" where
  "inventory_output iv =
     \<lparr>riRoutes = invRoutes iv, riUnresolved = invUnresolved iv, riFiles = invFiles iv, riLegacy = fst (Counts iv),
      riTemplate = snd (Counts iv), riSaved = [], riMissing = [], riCompared = False, riBefore = 0\<rparr>"

definition compare_saved ::
  "mcp_env \<Rightarrow> string \<Rightarrow> string \<Rightarrow> Inventory \<Rightarrow> RouteInventoryOutput \<Rightarrow> tree \<Rightarrow> string + RouteInventoryOutput" where
  "compare_saved ev root against iv out fs =
     (if against = [] then Inr out
      else (case loadInventory ev (resolveUnder root against) fs of
              Inl e \<Rightarrow> Inl e
            | Inr before \<Rightarrow>
                Inr (out\<lparr>riBefore := length (invRoutes before), riMissing := Compare before iv, riCompared := True\<rparr>)))"

definition routeInventoryHandler ::
  "mcp_env \<Rightarrow> string \<Rightarrow> string \<Rightarrow> string \<Rightarrow> string \<Rightarrow> tree \<Rightarrow> (string + RouteInventoryOutput) \<times> tree" where
  "routeInventoryHandler ev defaultRoot reqRoot save against fs =
     (case rootFor defaultRoot reqRoot of
        Inl e \<Rightarrow> (Inl e, fs)
      | Inr root \<Rightarrow>
          (case load_at ev root of
             Inl e \<Rightarrow> (Inl (''load workspace: '' @ e), fs)
           | Inr ws \<Rightarrow>
               (let iv = Take ws; out = inventory_output iv in
                if save = [] then (compare_saved ev root against iv out fs, fs)
                else (case saveInventory ev (resolveUnder root save) iv fs of
                        (Some e, fs') \<Rightarrow> (Inl e, fs')
                      | (None, fs') \<Rightarrow> (compare_saved ev root against iv (out\<lparr>riSaved := save\<rparr>) fs', fs')))))"

section \<open>Where the tools write\<close>

text \<open>A directory listing of the operating system has no slash in its names.\<close>

definition slash_free_names :: "bootdir \<Rightarrow> bool" where
  "slash_free_names bd \<longleftrightarrow> (case bdEntries bd of None \<Rightarrow> True | Some es \<Rightarrow> list_all (\<lambda>e. CHR ''/'' \<notin> set (fst e)) es)"

lemma descends_go: "CHR ''/'' \<notin> set n \<Longrightarrow> has_suffix n ''.go'' \<Longrightarrow> descends (''bootstrap/'' @ n)"
proof -
  assume n: "CHR ''/'' \<notin> set n" "has_suffix n ''.go''"
  then have "3 \<le> length n" by (auto simp: suffix_def)
  then have "n \<noteq> []" "n \<noteq> ''.''" "n \<noteq> ''..''" by auto
  then show ?thesis using n descends_append [of "''bootstrap''" n] by (simp add: descends_def split_char_single)
qed

lemma descends_bootstrap:
  assumes "findBootstrapFile root bd = Inr n" and "slash_free_names bd"
  shows "descends (''bootstrap/'' @ n)"
proof -
  obtain es where es: "bdEntries bd = Some es" using assms(1) by (auto simp: findBootstrapFile_def split: option.splits)
  show ?thesis
  proof (cases "bootstrapper \<in> set (map fst es)")
    case True
    then have "n = bootstrapper" using assms(1) es by (simp add: findBootstrapFile_def)
    moreover have "descends (''bootstrap/'' @ bootstrapper)" by code_simp
    ultimately show ?thesis by simp
  next
    case False
    then have "n \<in> set (bootstrap_candidates es)"
      using assms(1) es by (auto simp: findBootstrapFile_def find_Some_iff split: option.splits)
    then obtain d where "(n, d) \<in> set es" "has_suffix n ''.go''" by (auto simp: bootstrap_candidates_def)
    then show ?thesis using assms(2) es descends_go by (auto simp: slash_free_names_def list_all_iff)
  qed
qed

lemma ScaffoldResource_descends:
  assumes "ScaffoldResource render parse fmt root st s opts = Inr res" and "slash_free_names (siBootstrap st)"
  shows "list_all (descends \<circ> sfPath) (srFiles res)"
proof -
  obtain r module rest where f: "Normalise s = Inr r"
    "srFiles res = map (\<lambda>(p, out). \<lparr>sfPath = p, sfAction = ActionCreate, sfContent = projr out,
       sfBytes = length (projr out)\<rparr>) (resource_files render fmt module r) @ rest"
    "\<forall>f \<in> set rest. sfPath f = requestFile
       \<or> sfAction f = ActionModify \<and> (\<exists>n. findBootstrapFile root (siBootstrap st) = Inr n \<and> sfPath f = ''bootstrap/'' @ n)"
    by (rule ScaffoldResource_files [OF assms(1)])
  have "resource_ok r" by (rule Normalise_resource_ok [OF f(1)])
  note d = descends_resource_paths [OF this, of render fmt module]
  have "descends (sfPath f)" if "f \<in> set rest" for f
    using f(3) that d descends_bootstrap [OF _ assms(2)] by auto
  then show ?thesis using d f(2) by (fastforce simp: list_all_iff)
qed

lemma descends_project_paths:
  "list_all descends (map fst (project_files render fmt p r))"
  "list_all descends (map fst (closing_files render p r))"
proof -
  have "map fst (project_files render fmt p r) =
      [''go.mod'', ''main.go'', ''bootstrap/bootstrapper.go'', ''core/port/request.go'', ''core/port/response.go'',
       ''configs/config.yaml''] @ map (\<lambda>env. ''configs/config.'' @ env @ ''.yaml'') Environments"
    by (simp add: project_files_def config_file_def Let_def comp_def)
  moreover have "list_all descends ([''go.mod'', ''main.go'', ''bootstrap/bootstrapper.go'', ''core/port/request.go'', ''core/port/response.go'',
       ''configs/config.yaml''] @ map (\<lambda>env. ''configs/config.'' @ env @ ''.yaml'') Environments)" by code_simp
  ultimately show "list_all descends (map fst (project_files render fmt p r))" by simp
  have "map fst (closing_files render p r) = [''.gitignore'', ''.golangci.yml'', ''README.md'']"
    by (simp add: closing_files_def)
  moreover have "list_all descends [''.gitignore'', ''.golangci.yml'', ''README.md'']" by code_simp
  ultimately show "list_all descends (map fst (closing_files render p r))" by simp
qed

lemma NewProject_descends:
  assumes "NewProject render parse fmt root st p s = Inr res" and "slash_free_names (siBootstrap st)"
  shows "list_all (descends \<circ> sfPath) (srFiles res)"
proof -
  obtain q where q: "project_Normalise p = Inr q" using assms by (auto simp: NewProject_def split: sum.splits)
  obtain r where r: "Normalise s = Inr r" using assms q by (auto simp: NewProject_def split: sum.splits)
  obtain res0 where res0: "render_files (project_files render fmt q r)
      \<lparr>srFiles = [], srNotes = [], srModule = pjModule q\<rparr> = Inr res0"
    using assms q r by (auto simp: NewProject_def split: sum.splits option.splits)
  obtain seed where seed: "ScaffoldResource render parse fmt root st r \<lparr>roModule = pjModule q, roSkipFXWire = True\<rparr> = Inr seed"
    using assms q r res0 by (auto simp: NewProject_def split: sum.splits option.splits)
  let ?res1 = "fold (\<lambda>f. add_file (sfPath f) ActionCreate (sfContent f)) (srFiles seed) res0"
  obtain res2 where res2: "render_files (closing_files render q r) ?res1 = Inr res2" "srFiles res = srFiles res2"
    using assms q r res0 seed by (auto simp: NewProject_def Let_def split: sum.splits option.splits)
  have "list_all (descends \<circ> sfPath) (srFiles res0)"
    using render_files_spec [OF res0] descends_project_paths(1) [of render fmt q r] by (auto simp: list_all_iff)
  moreover have "list_all (descends \<circ> sfPath) (srFiles ?res1)"
    using calculation ScaffoldResource_descends [OF seed assms(2)] by (auto simp: files_fold_add list_all_iff)
  ultimately show ?thesis
    using render_files_spec [OF res2(1)] descends_project_paths(2) [of render q r] res2(2) by (auto simp: list_all_iff)
qed

text \<open>Below a clean root a descending path stays clean and inside.\<close>

lemma descends_segs: "descends p \<Longrightarrow> list_all plain_seg (path_segs p)"
  by (auto simp: descends_def plain_seg_def list_all_iff dest: split_char_free)

lemma abs_path_below: "rs \<noteq> [] \<Longrightarrow> abs_path rs @ ''/'' @ p = abs_path (rs @ path_segs p)"
  using str_join_append [of rs "path_segs p" "''/''"] by (simp add: abs_path_def)

definition clean_inside :: "string \<Rightarrow> string \<Rightarrow> bool" where
  "clean_inside base p \<longleftrightarrow> inside base p \<and> Clean p = p"

lemma below_clean_inside:
  assumes "list_all plain_seg bs" "bs \<noteq> []" "list_all plain_seg rs" "prefix bs rs" "descends p"
  shows "clean_inside (abs_path bs) (abs_path rs @ ''/'' @ p)"
proof -
  have "rs \<noteq> []" using assms(2,4) by auto
  then have e: "abs_path rs @ ''/'' @ p = abs_path (rs @ path_segs p)" by (rule abs_path_below)
  have plain: "list_all plain_seg (rs @ path_segs p)" using assms(3) descends_segs [OF assms(5)] by simp
  have "prefix bs (rs @ path_segs p)" using assms(4) by (simp add: prefix_def) force
  then show ?thesis
    unfolding clean_inside_def e using Clean_abs_path [OF plain] inside_segs [OF assms(1,2) plain] by simp
qed

text \<open>A call has kept its promise: on a dry run nothing changed, otherwise only files at clean paths inside the
  served directory.\<close>

definition contained :: "string \<Rightarrow> bool \<Rightarrow> tree \<Rightarrow> tree \<Rightarrow> bool" where
  "contained base dryRun fs fs' \<longleftrightarrow> (\<forall>p. fs' p = fs p \<or> \<not> dryRun \<and> clean_inside base p)"

lemma contained_refl [simp]: "contained base dryRun fs fs"
  by (simp add: contained_def)

lemma rootFor_segs:
  assumes "list_all plain_seg bs" "bs \<noteq> []" "rootFor (abs_path bs) req = Inr root"
  obtains rs where "root = abs_path rs" "list_all plain_seg rs" "prefix bs rs"
proof (cases "trim_space req = []")
  case True
  then show thesis using that [of bs] assms by (simp add: rootFor_def)
next
  case False
  then have "resolveRoot (abs_path bs) req = Inr root" using assms(3) by (simp add: rootFor_def)
  then have "root = abs_path (target_segs bs req)" "prefix bs (target_segs bs req)"
    using resolveRoot_segs [OF assms(1,2), of req] by (auto split: if_splits)
  then show thesis using that target_segs_plain [OF assms(1)] by blast
qed

lemma scaffold_Apply_other:
  "p \<notin> set (map sfPath (srFiles res)) \<Longrightarrow> snd (scaffold_Apply mkdir write eol res fs) p = fs p"
  using write_files_other [of mkdir "write" eol "srFiles res" fs "fst (write_files mkdir write eol (srFiles res) fs)"
      "snd (write_files mkdir write eol (srFiles res) fs)" p]
  by (simp add: scaffold_Apply_def)

lemma apply_at_contained:
  assumes "\<And>p. descends p \<Longrightarrow> clean_inside base (root @ ''/'' @ p)" and "list_all (descends \<circ> sfPath) (srFiles res)"
  shows "contained base False fs (snd (apply_at ev root res fs))"
  unfolding contained_def
proof
  fix q
  let ?sub = "snd (scaffold_Apply (\<lambda>p. evMkdir ev (root @ ''/'' @ p)) (\<lambda>p. evWrite ev (root @ ''/'' @ p))
      (RepoEOL (evEntry ev root)) res (below root fs))"
  have snd: "snd (apply_at ev root res fs) = mount root ?sub fs" by (simp add: apply_at_def split: prod.split)
  show "snd (apply_at ev root res fs) q = fs q \<or> \<not> False \<and> clean_inside base q"
  proof (cases "has_prefix q (root @ ''/'')")
    case False
    then show ?thesis by (simp add: snd mount_def)
  next
    case True
    then obtain p where q: "q = root @ ''/'' @ p" by (auto simp: prefix_def)
    show ?thesis
    proof (cases "p \<in> set (map sfPath (srFiles res))")
      case True
      then have "descends p" using assms(2) by (auto simp: list_all_iff)
      then show ?thesis using assms(1) q by simp
    next
      case False
      then have "?sub p = below root fs p" by (rule scaffold_Apply_other)
      then show ?thesis by (simp add: snd mount_def q below_def)
    qed
  qed
qed

lemma finish_scaffold_contained:
  assumes "\<And>p. descends p \<Longrightarrow> clean_inside base (root @ ''/'' @ p)"
    and "\<And>res. outcome = Inr res \<Longrightarrow> list_all (descends \<circ> sfPath) (srFiles res)"
  shows "contained base dryRun fs (snd (finish_scaffold ev root dryRun outcome fs))"
proof (cases outcome)
  case (Inr res)
  have "contained base False fs (snd (apply_at ev root res fs))"
    using apply_at_contained [OF assms(1) assms(2) [OF Inr]] .
  then show ?thesis using Inr by (auto simp: finish_scaffold_def split: prod.split option.split)
qed (simp add: finish_scaffold_def)

lemma put_all_contained:
  assumes "list_all (\<lambda>e. clean_inside base (root @ ''/'' @ fst e)) edits"
  shows "contained base False fs (put_all root edits fs)"
  using assms
proof (induction edits arbitrary: fs)
  case (Cons e edits)
  let ?fs = "fs(root @ ''/'' @ fst e \<mapsto> snd e)"
  have "put_all root (e # edits) fs = put_all root edits ?fs" by (simp add: put_all_def case_prod_unfold)
  moreover have "contained base False ?fs (put_all root edits ?fs)" using Cons by simp
  moreover have "contained base False fs ?fs" using Cons.prems by (simp add: contained_def)
  ultimately show ?case unfolding contained_def by metis
qed (simp add: put_all_def)

lemma Apply_wire_edits:
  "list_all (\<lambda>e. \<exists>n. findBootstrapFile root bd = Inr n \<and> fst e = ''bootstrap/'' @ n)
     (snd (Apply_wire parse fmt write root bd module regs))"
  by (auto simp: Apply_wire_def dest: Plan_path split: sum.split option.split)

text \<open>C12: The three tools that write through the scaffolder and the wiring keep to the served directory whatever
  root, specification, project, kind or constructor the agent passes: a call with dry_run changes no file, any other only files
  whose clean path lies inside the served directory.\<close>

theorem write_tools_contained:
  assumes "list_all plain_seg bs" and "bs \<noteq> []" and "\<forall>root. slash_free_names (siBootstrap (evSite ev root))"
  shows "contained (abs_path bs) dryRun fs (snd (resourceScaffoldHandler ev (abs_path bs) s req dryRun fs))
    \<and> contained (abs_path bs) dryRun fs (snd (projectScaffoldHandler ev (abs_path bs) p s req dryRun fs))
    \<and> contained (abs_path bs) dryRun fs (snd (fxWireHandler ev (abs_path bs) kind ctor req dryRun fs))"
proof (cases "rootFor (abs_path bs) req")
  case (Inl e)
  then show ?thesis by (simp add: resourceScaffoldHandler_def projectScaffoldHandler_def fxWireHandler_def)
next
  case (Inr root)
  obtain rs where rs: "root = abs_path rs" "list_all plain_seg rs" "prefix bs rs"
    by (rule rootFor_segs [OF assms(1,2) Inr])
  have inside: "clean_inside (abs_path bs) (root @ ''/'' @ q)" if "descends q" for q
    unfolding rs(1) by (rule below_clean_inside [OF assms(1,2) rs(2,3) that])
  have l: "slash_free_names (siBootstrap (evSite ev root))" using assms(3) by blast
  have "contained (abs_path bs) dryRun fs (snd (fxWireHandler ev (abs_path bs) kind ctor req dryRun fs))"
  proof (cases "ModulePath root (siGoMod (evSite ev root))")
    case (Inl e)
    then show ?thesis using Inr by (simp add: fxWireHandler_def)
  next
    case m: (Inr module)
    let ?A = "Apply_wire (evParse ev) (evFmt ev) (\<lambda>p _. evWrite ev (root @ ''/'' @ p)) root
        (siBootstrap (evSite ev root)) module [\<lparr>regKind = wire_kind_of kind, regCtor = ctor\<rparr>]"
    have "list_all (\<lambda>e. clean_inside (abs_path bs) (root @ ''/'' @ fst e)) (snd ?A)"
      using Apply_wire_edits [of root "siBootstrap (evSite ev root)"] inside descends_bootstrap [OF _ l]
      by (fastforce simp: list_all_iff)
    then have "contained (abs_path bs) False fs (put_all root (snd ?A) fs)" by (rule put_all_contained)
    moreover have "put_all root [] fs = fs" by (simp add: put_all_def)
    ultimately show ?thesis using Inr m
      by (cases dryRun; cases ?A) (auto simp: fxWireHandler_def Let_def split: sum.split)
  qed
  then show ?thesis
    using Inr finish_scaffold_contained [OF inside] ScaffoldResource_descends [OF _ l] NewProject_descends [OF _ l]
    by (simp add: resourceScaffoldHandler_def projectScaffoldHandler_def)
qed

definition quiet_env :: "mcp_env \<Rightarrow> mcp_env" where
  "quiet_env ev =
     ev\<lparr>evSite := (\<lambda>_. \<lparr>siGoMod = ReadOk ''module svc'', siRequest = NotExist,
        siBootstrap = \<lparr>bdEntries = Some [(bootstrapper, False)], bdRead = (\<lambda>_. Inr [])\<rparr>\<rparr>)\<rparr>"

theorem write_tools_contained_witness:
  "\<forall>ev s fs. contained (abs_path [''srv'']) True fs
     (snd (resourceScaffoldHandler (quiet_env ev) (abs_path [''srv'']) s ''../other'' True fs))"
proof (intro allI)
  fix ev s fs
  have "list_all plain_seg [''srv'']" by code_simp
  moreover have "CHR ''/'' \<notin> set bootstrapper" by code_simp
  ultimately show "contained (abs_path [''srv'']) True fs
     (snd (resourceScaffoldHandler (quiet_env ev) (abs_path [''srv'']) s ''../other'' True fs))"
    using write_tools_contained [of "[''srv'']" "quiet_env ev"] by (simp add: quiet_env_def slash_free_names_def)
qed

end
