(* ===== verification/Catalog.thy ===== *)
theory Catalog
  imports Mcp
begin

text \<open>
  Model of gotools/internal/catalog: the published half of the tool contract. What the protocol library lists
  for the server is the argument \<open>listed\<close>, decoding a schema into the structure paramsOf reads the
  parameter \<open>decode\<close>, json.Indent the parameter \<open>indent\<close>.
\<close>

section \<open>The catalogue\<close>

definition MaxParams :: nat where "MaxParams = 6"

definition MaxDescriptionChar :: nat where "MaxDescriptionChar = 200"

record CParam =
  cpName :: string
  cpType :: string
  cpRequired :: bool
  cpDescription :: string

record CTool =
  ctName :: string
  ctDescription :: string
  ctMutates :: bool
  ctInput :: "json option"
  ctOutput :: "json option"
  ctParams :: "CParam list"

record Catalog =
  caComponent :: string
  caVersion :: string
  caContract :: string
  caTools :: "CTool list"

record sdk_tool =
  stName :: string
  stDescription :: string
  stInput :: "json option"
  stOutput :: "json option"

record schema_prop =
  ppType :: "json option"
  ppDescription :: string

record schema =
  scProperties :: "(string \<times> schema_prop) list"
  scRequired :: "string list"

definition mutatingTools :: "string list" where
  "mutatingTools = [''resource_scaffold'', ''project_scaffold'', ''fx_wire'']"

definition MutatingToolNames :: "string list" where
  "MutatingToolNames = sort_strings mutatingTools"

text \<open>marshalSchema: through a map, which orders the members of every object.\<close>

fun canonical :: "json \<Rightarrow> json"
  and canonical_members :: "(string \<times> json) list \<Rightarrow> (string \<times> json) list"
  and canonical_all :: "json list \<Rightarrow> json list" where
  "canonical (JObj ms) = JObj (sort_key fst (canonical_members ms))"
| "canonical (JArr xs) = JArr (canonical_all xs)"
| "canonical (JStr s) = JStr s"
| "canonical (JNum n) = JNum n"
| "canonical (JBool b) = JBool b"
| "canonical_members [] = []"
| "canonical_members ((k, v) # ms) = (k, canonical v) # canonical_members ms"
| "canonical_all [] = []"
| "canonical_all (x # xs) = canonical x # canonical_all xs"

definition marshalSchema :: "json option \<Rightarrow> json option" where
  "marshalSchema s = map_option canonical s"

fun all_strings :: "json list \<Rightarrow> string list option" where
  "all_strings [] = Some []"
| "all_strings (JStr s # xs) = map_option ((#) s) (all_strings xs)"
| "all_strings (_ # xs) = None"

definition renderType :: "json option \<Rightarrow> string" where
  "renderType raw =
     (case raw of
        None \<Rightarrow> []
      | Some (JStr s) \<Rightarrow> s
      | Some (JArr xs) \<Rightarrow>
          (case all_strings xs of
             Some ss \<Rightarrow> str_join '' or '' ss
           | None \<Rightarrow> trim_set [CHR 0x22] (marshal (JArr xs)))
      | Some j \<Rightarrow> trim_set [CHR 0x22] (marshal j))"

definition param_of :: "string list \<Rightarrow> string \<times> schema_prop \<Rightarrow> CParam" where
  "param_of required np =
     (let t = renderType (ppType (snd np)) in
      \<lparr>cpName = fst np, cpType = (if t = [] then ''object'' else t), cpRequired = (fst np \<in> set required),
       cpDescription = ppDescription (snd np)\<rparr>)"

definition paramsOf :: "(json \<Rightarrow> string + schema) \<Rightarrow> json option \<Rightarrow> string + CParam list" where
  "paramsOf decode sc =
     (case sc of
        None \<Rightarrow> Inr []
      | Some j \<Rightarrow>
          (case decode j of
             Inl e \<Rightarrow> Inl e
           | Inr s \<Rightarrow>
               Inr (sort_key (\<lambda>p. (\<not> cpRequired p, cpName p)) (map (param_of (scRequired s)) (scProperties s)))))"

fun catalog_tools :: "(json \<Rightarrow> string + schema) \<Rightarrow> sdk_tool list \<Rightarrow> string + CTool list" where
  "catalog_tools decode [] = Inr []"
| "catalog_tools decode (t # ts) =
     (case paramsOf decode (marshalSchema (stInput t)) of
        Inl e \<Rightarrow> Inl (stName t @ '' parameters: '' @ e)
      | Inr ps \<Rightarrow>
          (case catalog_tools decode ts of
             Inl e \<Rightarrow> Inl e
           | Inr out \<Rightarrow>
               Inr (\<lparr>ctName = stName t, ctDescription = stDescription t, ctMutates = (stName t \<in> set mutatingTools),
                     ctInput = marshalSchema (stInput t), ctOutput = marshalSchema (stOutput t), ctParams = ps\<rparr> # out)))"

definition catalog_Build :: "(json \<Rightarrow> string + schema) \<Rightarrow> string \<Rightarrow> sdk_tool list \<Rightarrow> string + Catalog" where
  "catalog_Build decode version listed =
     (case catalog_tools decode listed of
        Inl e \<Rightarrow> Inl e
      | Inr ts \<Rightarrow> Inr \<lparr>caComponent = ''gotools'', caVersion = version, caContract = ''C1'', caTools = sort_key ctName ts\<rparr>)"

section \<open>Conformance\<close>

record CViolation =
  cvTool :: string
  cvDetail :: string

definition tool_conformance :: "CTool \<Rightarrow> CViolation list" where
  "tool_conformance t =
     (let v = (\<lambda>d. \<lparr>cvTool = ctName t, cvDetail = d\<rparr>);
          n = length (ctDescription t); k = length (ctParams t)
      in (if ctDescription t = [] then [v ''no description''] else [])
       @ (if MaxDescriptionChar < n
          then [v (''description is '' @ itoa n @ '' characters, over the '' @ itoa MaxDescriptionChar @ ''-character cap'')] else [])
       @ (if MaxParams < k
          then [v (''takes '' @ itoa k @ '' parameters, over the '' @ itoa MaxParams @ ''-parameter cap'')] else [])
       @ (if ctInput t = None then [v ''no input schema''] else []))"

definition Conformance :: "Catalog \<Rightarrow> CViolation list" where
  "Conformance c = concat (map tool_conformance (caTools c))"

section \<open>The document\<close>

definition catalog_head :: string where
  "catalog_head =
     text_lines [
     ''# Tool catalogue '' @ emdash @ '' `gotools`'',
     [],
     ''> **Generated.** Do not edit. Run `make tool-catalog` and commit the result.'',
     ''> Regenerating is how this file stays true; editing it is how it stops being.'',
     [],
     ''The sidecar's half of contract **C1** (plan.md '' @ sect @ ''7). The gateway routes against'',
     ''these schemas, the extension renders approvals from them, and the model is sent'',
     ''them verbatim '' @ emdash @ '' so they are re-sent on every turn, which is why the size limits'',
     ''below are limits and not preferences.'',
     []]"

definition catalog_legend :: string where
  "catalog_legend =
     text_lines [
     [],
     ''A tool marked **Mutates** writes to the workspace and passes through the'',
     ''approval gate (Part A '' @ sect @ ''7.2). Each of them takes `dry_run`, which returns the'',
     ''full result without touching the working tree '' @ emdash @ '' that is what the gate uses to'',
     ''show a diff before anything is written.'']"

definition catalog_limits :: string where
  "catalog_limits =
     ''C1 limits: at most **'' @ itoa MaxParams @ '' parameters** per tool, description at most **'' @ itoa MaxDescriptionChar
     @ '' characters**, written as an instruction to the model rather than documentation for a human.'' @ [CHR 0x0A, CHR 0x0A]"

definition tool_row :: "CTool \<Rightarrow> string" where
  "tool_row t =
     ''| [`'' @ ctName t @ ''`](#'' @ ctName t @ '') | '' @ (if ctMutates t then tick else []) @ '' | ''
     @ itoa (length (ctParams t)) @ '' | '' @ ctDescription t @ '' |''"

definition param_row :: "CParam \<Rightarrow> string" where
  "param_row p =
     ''| `'' @ cpName p @ ''` | '' @ cpType p @ '' | '' @ (if cpRequired p then ''yes'' else []) @ '' | ''
     @ replace_char (CHR ''|'') [CHR 0x5C, CHR ''|''] (cpDescription p) @ '' |''"

definition schema_block :: "(json \<Rightarrow> string) \<Rightarrow> string \<Rightarrow> json option \<Rightarrow> string" where
  "schema_block indent title s =
     text_lines [[], ''<details><summary>'' @ title @ ''</summary>'', [], ''```json'']
     @ (case s of None \<Rightarrow> [] | Some j \<Rightarrow> indent j)
     @ text_lines [[], ''```'', [], ''</details>'']"

definition tool_section :: "(json \<Rightarrow> string) \<Rightarrow> CTool \<Rightarrow> string" where
  "tool_section indent t =
     text_lines [[], ''---'', [], ''## '' @ ctName t, [], ctDescription t, []]
     @ (if ctMutates t then text_lines [''**Mutates the workspace.** Approval-gated.'', []] else [])
     @ (if ctParams t = [] then text_lines [''Takes no parameters.'']
        else text_lines ([''| Parameter | Type | Required | Description |'', ''|---|---|---|---|'']
               @ map param_row (ctParams t)))
     @ schema_block indent ''Input schema'' (ctInput t)
     @ (if ctOutput t \<noteq> None then schema_block indent ''Output schema'' (ctOutput t) else [])"

definition Markdown :: "(json \<Rightarrow> string) \<Rightarrow> Catalog \<Rightarrow> string" where
  "Markdown indent c =
     catalog_head @ catalog_limits
     @ text_lines ([''| Tool | Mutates | Params | Description |'', ''|---|---|---|---|''] @ map tool_row (caTools c))
     @ catalog_legend @ concat (map (tool_section indent) (caTools c))"

section \<open>What is published conforms\<close>

lemma catalog_tools_spec:
  assumes "list_all (\<lambda>t. \<exists>ps. paramsOf decode (marshalSchema (stInput t)) = Inr ps) listed"
  shows "catalog_tools decode listed = Inr (map (\<lambda>t.
     \<lparr>ctName = stName t, ctDescription = stDescription t, ctMutates = (stName t \<in> set mutatingTools),
      ctInput = marshalSchema (stInput t), ctOutput = marshalSchema (stOutput t),
      ctParams = projr (paramsOf decode (marshalSchema (stInput t)))\<rparr>) listed)"
  using assms by (induction listed) auto

definition registered_ok :: "registered \<Rightarrow> bool" where
  "registered_ok r \<longleftrightarrow> rgDescription r \<noteq> [] \<and> length (rgDescription r) \<le> MaxDescriptionChar \<and> length (rgParams r) \<le> MaxParams"

lemma registered_all_ok: "list_all registered_ok NewServer_tools"
  by code_simp

lemma mutating_registered: "set mutatingTools \<subseteq> set (map rgName NewServer_tools)"
  by code_simp

text \<open>How the protocol library lists a registered tool: with its name and description and an object schema that has one
  property for each member of the input structure.\<close>

definition lists_tool :: "(json \<Rightarrow> string + schema) \<Rightarrow> registered \<Rightarrow> sdk_tool \<Rightarrow> bool" where
  "lists_tool decode r t \<longleftrightarrow>
     stName t = rgName r \<and> stDescription t = rgDescription r
     \<and> (\<exists>j s. stInput t = Some j \<and> decode (canonical j) = Inr s \<and> map fst (scProperties s) = rgParams r)"


definition sdk_listing :: "registered \<Rightarrow> sdk_tool" where
  "sdk_listing r =
     \<lparr>stName = rgName r, stDescription = rgDescription r, stInput = Some (JArr (map JStr (rgParams r))), stOutput = None\<rparr>"

definition sample_decode :: "json \<Rightarrow> string + schema" where
  "sample_decode j =
     (case j of
        JArr xs \<Rightarrow>
          (case all_strings xs of
             Some ss \<Rightarrow> Inr \<lparr>scProperties = map (\<lambda>s. (s, \<lparr>ppType = None, ppDescription = []\<rparr>)) ss, scRequired = []\<rparr>
           | None \<Rightarrow> Inl ''shape'')
      | _ \<Rightarrow> Inl ''shape'')"

lemma canonical_strings [simp]: "canonical_all (map JStr ss) = map JStr ss"
  by (induction ss) simp_all

lemma all_strings_map [simp]: "all_strings (map JStr ss) = Some ss"
  by (induction ss) simp_all

lemma sample_lists: "list_all2 (lists_tool sample_decode) NewServer_tools (map sdk_listing NewServer_tools)"
  by (simp add: list_all2_map2 list_all2_same lists_tool_def sdk_listing_def sample_decode_def comp_def)


section \<open>A tool that writes and is not marked\<close>

text \<open>The tool route_inventory writes to whatever path its save argument names: an absolute one is taken as it is and a relative one
  may climb, so that, nothing failing, the inventory replaces a file outside the served directory; and the tool is not among those
  the catalogue marks as mutating, which the approval gate relies on.\<close>

theorem inventory_save_unconfined:
  assumes "IsAbs save" and "rootFor base req = Inr root" and "load_at ev root = Inr ws"
    and "evEncode ev (Take ws) = Inr body"
    and "evMkdir ev (path_dir save) = None" and "evWrite ev (save @ ''.tmp'') = None" and "evRename ev save = None"
  shows "snd (routeInventoryHandler ev base req save against fs) save = Some (body @ [CHR 0x0A])
    \<and> resolveUnder (abs_path [''srv'', ''ws'']) ''../x'' = ''/srv/x''
    \<and> ''route_inventory'' \<in> set (map rgName NewServer_tools) - set MutatingToolNames"
proof (intro conjI)
  have "save \<noteq> []" using assms(1) by (auto simp: IsAbs_def)
  then show "snd (routeInventoryHandler ev base req save against fs) save = Some (body @ [CHR 0x0A])"
    using assms by (simp add: routeInventoryHandler_def resolveUnder_def saveInventory_def Let_def)
  show "resolveUnder (abs_path [''srv'', ''ws'']) ''../x'' = ''/srv/x''" by code_simp
  have "''route_inventory'' \<in> set (map rgName NewServer_tools)" by code_simp
  then show "''route_inventory'' \<in> set (map rgName NewServer_tools) - set MutatingToolNames"
    by (simp add: MutatingToolNames_def mutatingTools_def)
qed

definition demo_outside :: outside where
  "demo_outside =
     \<lparr>outConfig = NotExist, outUnmarshal = (\<lambda>_. Inr no_config), outParse = demo_parse, outYaml = (\<lambda>_. Inr None),
      outRoot = demo_root, outExists = (\<lambda>_. False)\<rparr>"

definition demo_env :: mcp_env where
  "demo_env =
     \<lparr>evOutside = (\<lambda>_. demo_outside),
      evSite = (\<lambda>_. \<lparr>siGoMod = NotExist, siRequest = NotExist, siBootstrap = \<lparr>bdEntries = None, bdRead = (\<lambda>_. Inl [])\<rparr>\<rparr>),
      evEntry = (\<lambda>_. EDir [] None), evRender = (\<lambda>_ _. Inl []), evParse = (\<lambda>_. Inl []), evFmt = (\<lambda>_. Inl []),
      evMkdir = (\<lambda>_. None), evWrite = (\<lambda>_. None), evRename = (\<lambda>_. None), evGo = (\<lambda>_ _. Inl []),
      evEncode = (\<lambda>_. Inr ''{}''), evDecode = (\<lambda>_. Inl [])\<rparr>"

theorem inventory_save_unconfined_witness:
  "snd (routeInventoryHandler demo_env ''/srv/ws'' [] ''/etc/cron.d/x'' [] (\<lambda>_. None)) ''/etc/cron.d/x''
     = Some (''{}'' @ [CHR 0x0A])"
proof -
  have "load_at demo_env ''/srv/ws'' = Inr demo_ws"
    using demo_load by (simp add: load_at_def demo_env_def demo_outside_def demo_opts_def)
  then show ?thesis
    using inventory_save_unconfined [of "''/etc/cron.d/x''" "''/srv/ws''" "[]" "''/srv/ws''" demo_env demo_ws "''{}''" "[]" "\<lambda>_. None"]
    by (simp add: IsAbs_def rootFor_def demo_env_def)
qed

end
