(* ===== verification/Flags.thy ===== *)
theory Flags
  imports Prelude "HOL-Library.AList"
begin

text \<open>
  What gotools/cmd/gotools uses of the flag package: a flag set is the list of its flags with their
  values, the defaults at first; Parse walks over the arguments. A flag set continues on errors, as
  every command sets it up. The text of a duration is read by the parameter \<open>duration\<close>.
\<close>

section \<open>Values\<close>

datatype flag_value = FString string | FBool bool | FInt int | FDuration int

type_synonym flag_set = "(string \<times> flag_value) list"

text \<open>strconv.ParseBool.\<close>

definition ParseBool :: "string \<Rightarrow> bool option" where
  "ParseBool s =
     (if s \<in> set [''1'', ''t'', ''T'', ''TRUE'', ''true'', ''True''] then Some True
      else if s \<in> set [''0'', ''f'', ''F'', ''FALSE'', ''false'', ''False''] then Some False
      else None)"

text \<open>strconv.ParseInt with base 0 and 64 bits: a sign, a base prefix (also the bare 0 of an octal number) and
  underscores, each between two digits or the prefix and a digit.\<close>

definition digit_value :: "char \<Rightarrow> nat option" where
  "digit_value c =
     (if is_digit c then Some (code c - code (CHR ''0''))
      else if is_letter c then Some (code (lower_char c) - code (CHR ''a'') + 10)
      else None)"

fun read_digits :: "nat \<Rightarrow> nat \<Rightarrow> string \<Rightarrow> nat option" where
  "read_digits base acc [] = Some acc"
| "read_digits base acc (c # cs) =
     (if c = CHR ''_'' then read_digits base acc cs
      else (case digit_value c of
              None \<Rightarrow> None
            | Some d \<Rightarrow> if d < base then read_digits base (acc * base + d) cs else None))"

fun underscores_ok :: "bool \<Rightarrow> string \<Rightarrow> bool" where
  "underscores_ok after_digit [] \<longleftrightarrow> True"
| "underscores_ok after_digit (c # cs) \<longleftrightarrow>
     (if c = CHR ''_'' then after_digit \<and> cs \<noteq> [] \<and> hd cs \<noteq> CHR ''_'' \<and> underscores_ok False cs
      else underscores_ok True cs)"

definition split_base :: "string \<Rightarrow> nat \<times> bool \<times> string" where
  "split_base s =
     (case s of
        a # b # cs \<Rightarrow>
          if a = CHR ''0'' \<and> lower_char b = CHR ''b'' \<and> cs \<noteq> [] then (2, True, cs)
          else if a = CHR ''0'' \<and> lower_char b = CHR ''o'' \<and> cs \<noteq> [] then (8, True, cs)
          else if a = CHR ''0'' \<and> lower_char b = CHR ''x'' \<and> cs \<noteq> [] then (16, True, cs)
          else if a = CHR ''0'' then (8, True, b # cs)
          else (10, False, s)
      | _ \<Rightarrow> (10, False, s))"

definition ParseUint :: "string \<Rightarrow> nat option" where
  "ParseUint s =
     (case split_base s of
        (base, prefixed, ds) \<Rightarrow>
          if ds = [] \<or> \<not> underscores_ok prefixed ds then None
          else read_digits base 0 ds)"

definition ParseInt :: "string \<Rightarrow> int option" where
  "ParseInt s =
     (case (if has_prefix s ''-'' then map_option (\<lambda>n. - int n) (ParseUint (drop 1 s))
            else map_option int (ParseUint (if has_prefix s ''+'' then drop 1 s else s))) of
        None \<Rightarrow> None
      | Some i \<Rightarrow> if - (2 ^ 63) \<le> i \<and> i < 2 ^ 63 then Some i else None)"

text \<open>The Set method of a flag: its kind decides how the text is read.\<close>

fun set_value :: "(string \<Rightarrow> int option) \<Rightarrow> flag_value \<Rightarrow> string \<Rightarrow> flag_value option" where
  "set_value duration (FString _) s = Some (FString s)"
| "set_value duration (FBool _) s = map_option FBool (ParseBool s)"
| "set_value duration (FInt _) s = map_option FInt (ParseInt s)"
| "set_value duration (FDuration _) s = map_option FDuration (duration s)"

fun is_bool_flag :: "flag_value \<Rightarrow> bool" where
  "is_bool_flag (FBool _) \<longleftrightarrow> True"
| "is_bool_flag _ \<longleftrightarrow> False"

section \<open>Parse\<close>

datatype flag_token = Operand | Terminator | BadFlag | Flag string "string option"

text \<open>What one argument is: an operand, the terminator, or a flag and the value after its first equals sign.\<close>

definition flag_token :: "string \<Rightarrow> flag_token" where
  "flag_token s =
     (if length s < 2 \<or> hd s \<noteq> CHR ''-'' then Operand
      else if s = ''--'' then Terminator
      else (let name = (if s ! 1 = CHR ''-'' then drop 2 s else drop 1 s) in
            if name = [] \<or> hd name = CHR ''-'' \<or> hd name = CHR ''='' then BadFlag
            else (case cut_char name (CHR ''='') of (n, v, found) \<Rightarrow> Flag n (if found then Some v else None))))"

datatype flag_error = BadSyntax string | HelpRequested | Undefined string | NeedsArgument string | InvalidValue string string

fun Parse :: "(string \<Rightarrow> int option) \<Rightarrow> flag_set \<Rightarrow> string list \<Rightarrow> flag_error + flag_set \<times> string list" where
  "Parse duration fl [] = Inr (fl, [])"
| "Parse duration fl (s # rest) =
     (case flag_token s of
        Operand \<Rightarrow> Inr (fl, s # rest)
      | Terminator \<Rightarrow> Inr (fl, rest)
      | BadFlag \<Rightarrow> Inl (BadSyntax s)
      | Flag n v \<Rightarrow>
          (case map_of fl n of
             None \<Rightarrow> Inl (if n = ''help'' \<or> n = ''h'' then HelpRequested else Undefined n)
           | Some old \<Rightarrow>
               (case v of
                  Some x \<Rightarrow>
                    (case set_value duration old x of
                       None \<Rightarrow> Inl (InvalidValue n x)
                     | Some new \<Rightarrow> Parse duration (AList.update n new fl) rest)
                | None \<Rightarrow>
                    if is_bool_flag old then Parse duration (AList.update n (FBool True) fl) rest
                    else (case rest of
                            [] \<Rightarrow> Inl (NeedsArgument n)
                          | y # rest' \<Rightarrow>
                              (case set_value duration old y of
                                 None \<Rightarrow> Inl (InvalidValue n y)
                               | Some new \<Rightarrow> Parse duration (AList.update n new fl) rest')))))"

text \<open>Reading a flag.\<close>

definition flag_string :: "flag_set \<Rightarrow> string \<Rightarrow> string" where
  "flag_string fl n = (case map_of fl n of Some (FString s) \<Rightarrow> s | _ \<Rightarrow> [])"

definition flag_bool :: "flag_set \<Rightarrow> string \<Rightarrow> bool" where
  "flag_bool fl n \<longleftrightarrow> map_of fl n = Some (FBool True)"

definition flag_int :: "flag_set \<Rightarrow> string \<Rightarrow> int" where
  "flag_int fl n = (case map_of fl n of Some (FInt i) \<Rightarrow> i | _ \<Rightarrow> 0)"

section \<open>Facts\<close>

text \<open>Parse keeps the flags and the kind of each.\<close>

fun same_kind :: "flag_value \<Rightarrow> flag_value \<Rightarrow> bool" where
  "same_kind (FString _) (FString _) \<longleftrightarrow> True"
| "same_kind (FBool _) (FBool _) \<longleftrightarrow> True"
| "same_kind (FInt _) (FInt _) \<longleftrightarrow> True"
| "same_kind (FDuration _) (FDuration _) \<longleftrightarrow> True"
| "same_kind _ _ \<longleftrightarrow> False"

lemma flag_token_operand: "flag_token s = Operand \<longleftrightarrow> length s < 2 \<or> hd s \<noteq> CHR ''-''"
  by (auto simp: flag_token_def Let_def split: prod.splits)

text \<open>Text of a flag with its value, as one argument.\<close>

definition flag_arg :: "string \<times> string \<Rightarrow> string" where
  "flag_arg nv = ''--'' @ fst nv @ ''='' @ snd nv"

definition flag_name :: "string \<Rightarrow> bool" where
  "flag_name n \<longleftrightarrow> n \<noteq> [] \<and> CHR ''='' \<notin> set n \<and> hd n \<noteq> CHR ''-''"

lemma flag_token_arg: "flag_name n \<Longrightarrow> flag_token (flag_arg (n, v)) = Flag n (Some v)"
proof -
  assume n: "flag_name n"
  then have "cut_char (n @ CHR ''='' # v) (CHR ''='') = (n, v, True)" by (simp add: flag_name_def cut_char_found)
  then show ?thesis using n by (cases n) (auto simp: flag_token_def flag_arg_def flag_name_def)
qed

text \<open>What a flag with its value does to the set, where the set has the flag and reads the value.\<close>

definition settable :: "(string \<Rightarrow> int option) \<Rightarrow> flag_set \<Rightarrow> string \<times> string \<Rightarrow> bool" where
  "settable duration fl nv \<longleftrightarrow>
     flag_name (fst nv)
     \<and> (case map_of fl (fst nv) of None \<Rightarrow> False | Some old \<Rightarrow> set_value duration old (snd nv) \<noteq> None)"

definition set_flag :: "(string \<Rightarrow> int option) \<Rightarrow> string \<times> string \<Rightarrow> flag_set \<Rightarrow> flag_set" where
  "set_flag duration nv fl =
     (case map_of fl (fst nv) of
        None \<Rightarrow> fl
      | Some old \<Rightarrow>
          (case set_value duration old (snd nv) of None \<Rightarrow> fl | Some new \<Rightarrow> AList.update (fst nv) new fl))"

lemma same_kind_refl [simp]: "same_kind v v"
  by (cases v) simp_all

lemma same_kind_trans: "same_kind u v \<Longrightarrow> same_kind v w \<Longrightarrow> same_kind u w"
  by (cases u; cases v; cases w) simp_all

lemma set_value_kind: "set_value duration old s = Some new \<Longrightarrow> same_kind old new"
  by (cases old) auto

lemma set_value_settable: "same_kind u v \<Longrightarrow> set_value duration u s = None \<longleftrightarrow> set_value duration v s = None"
  by (cases u; cases v) simp_all

text \<open>A flag set after some flags were set: the same flags, each of its kind.\<close>

definition same_flags :: "flag_set \<Rightarrow> flag_set \<Rightarrow> bool" where
  "same_flags fl fl' \<longleftrightarrow>
     (\<forall>n. (map_of fl n = None \<longleftrightarrow> map_of fl' n = None)
        \<and> (\<forall>u v. map_of fl n = Some u \<longrightarrow> map_of fl' n = Some v \<longrightarrow> same_kind u v))"

lemma same_flagsE:
  assumes "same_flags fl fl'" "map_of fl n = Some u"
  obtains v where "map_of fl' n = Some v" "same_kind u v"
proof -
  have "map_of fl' n \<noteq> None" using assms unfolding same_flags_def by (metis option.distinct(1))
  then show thesis using that assms unfolding same_flags_def by blast
qed

lemma same_flags_refl [simp]: "same_flags fl fl"
  by (simp add: same_flags_def)

lemma same_flags_trans:
  assumes "same_flags fl1 fl2" "same_flags fl2 fl3"
  shows "same_flags fl1 fl3"
  unfolding same_flags_def
proof (intro allI conjI impI)
  fix n
  show "map_of fl1 n = None \<longleftrightarrow> map_of fl3 n = None" using assms by (simp add: same_flags_def)
  fix u w
  assume uw: "map_of fl1 n = Some u" "map_of fl3 n = Some w"
  obtain v where v: "map_of fl2 n = Some v" "same_kind u v" by (rule same_flagsE [OF assms(1) uw(1)])
  obtain w' where "map_of fl3 n = Some w'" "same_kind v w'" by (rule same_flagsE [OF assms(2) v(1)])
  then show "same_kind u w" using uw(2) v(2) same_kind_trans by simp
qed

lemma same_flags_update:
  "map_of fl n = Some old \<Longrightarrow> same_kind old new \<Longrightarrow> same_flags fl (AList.update n new fl)"
  by (auto simp: same_flags_def update_conv)

lemma settable_same: "same_flags fl fl' \<Longrightarrow> settable duration fl nv \<Longrightarrow> settable duration fl' nv"
proof -
  assume s: "same_flags fl fl'" and "settable duration fl nv"
  then obtain u where u: "flag_name (fst nv)" "map_of fl (fst nv) = Some u" "set_value duration u (snd nv) \<noteq> None"
    by (auto simp: settable_def split: option.splits)
  obtain v where v: "map_of fl' (fst nv) = Some v" "same_kind u v" by (rule same_flagsE [OF s u(2)])
  then show ?thesis using u by (simp add: settable_def set_value_settable)
qed

lemma same_flags_set: "same_flags fl (set_flag duration nv fl)"
  by (auto simp: set_flag_def split: option.splits intro: same_flags_update set_value_kind)

lemma Parse_arg:
  assumes "settable duration fl nv"
  shows "Parse duration fl (flag_arg nv # rest) = Parse duration (set_flag duration nv fl) rest"
  using assms by (cases nv) (auto simp: settable_def set_flag_def flag_token_arg split: option.splits)

lemma Parse_args:
  "list_all (settable duration fl) nvs
    \<Longrightarrow> Parse duration fl (map flag_arg nvs @ rest) = Parse duration (fold (set_flag duration) nvs fl) rest"
proof (induction nvs arbitrary: fl)
  case (Cons nv nvs)
  then have "list_all (settable duration (set_flag duration nv fl)) nvs"
    using settable_same [OF same_flags_set] by (auto simp: list_all_iff)
  then show ?case using Cons by (simp add: Parse_arg del: Parse.simps)
qed simp

lemma Parse_same_flags: "Parse duration fl args = Inr (fl', rest) \<Longrightarrow> same_flags fl fl'"
proof (induction duration fl args arbitrary: fl' rest rule: Parse.induct)
  case (2 duration fl s args)
  show ?case
  proof (cases "flag_token s")
    case (Flag n v)
    then obtain old where old: "map_of fl n = Some old" using 2(4) by (auto split: option.splits if_splits)
    note step = same_flags_trans [OF same_flags_update [OF old]]
    show ?thesis
      using 2 Flag old
      by (auto split: option.splits if_splits list.splits intro!: step dest: set_value_kind) (cases old; simp)+
  qed (use 2 in auto)
qed simp

text \<open>Flags round trip: of a set whose flags are known and whose values are readable, printing each as one argument and
  parsing sets them one after the other; parsing stops at the first operand, which it hands back with all that
  follows, flags or not, and it changes neither the flags nor the kind of any.\<close>

theorem flags_roundtrip:
  assumes "list_all (settable duration fl) nvs"
  shows "Parse duration fl (map flag_arg nvs) = Inr (fold (set_flag duration) nvs fl, [])
    \<and> (flag_token s = Operand
       \<longrightarrow> Parse duration fl (map flag_arg nvs @ s # rest) = Inr (fold (set_flag duration) nvs fl, s # rest))
    \<and> same_flags fl (fold (set_flag duration) nvs fl)"
proof (intro conjI impI)
  show parsed: "Parse duration fl (map flag_arg nvs) = Inr (fold (set_flag duration) nvs fl, [])"
    using Parse_args [OF assms, of "[]"] by simp
  show "flag_token s = Operand \<Longrightarrow>
      Parse duration fl (map flag_arg nvs @ s # rest) = Inr (fold (set_flag duration) nvs fl, s # rest)"
    using Parse_args [OF assms] by simp
  show "same_flags fl (fold (set_flag duration) nvs fl)" using parsed by (rule Parse_same_flags)
qed

theorem flags_roundtrip_witness:
  "Parse (\<lambda>_. None) [(''root'', FString ''.''), (''n'', FInt 0), (''all'', FBool False)]
     [''--root=svc'', ''--n=-0x1F'', ''--all=T'', ''x'', ''--all'']
   = Inr ([(''root'', FString ''svc''), (''n'', FInt (- 31)), (''all'', FBool True)], [''x'', ''--all''])"
proof -
  let ?fl = "[(''root'', FString ''.''), (''n'', FInt 0), (''all'', FBool False)]"
  let ?nvs = "[(''root'', ''svc''), (''n'', ''-0x1F''), (''all'', ''T'')]"
  have "list_all (settable (\<lambda>_. None) ?fl) ?nvs" by code_simp
  note t = flags_roundtrip [OF this, of "''x''" "[''--all'']"]
  have "flag_token ''x'' = Operand" by code_simp
  then have "Parse (\<lambda>_. None) ?fl (map flag_arg ?nvs @ [''x'', ''--all''])
      = Inr (fold (set_flag (\<lambda>_. None)) ?nvs ?fl, [''x'', ''--all''])"
    using t by blast
  moreover have "fold (set_flag (\<lambda>_. None)) ?nvs ?fl = [(''root'', FString ''svc''), (''n'', FInt (- 31)), (''all'', FBool True)]"
    by code_simp
  moreover have "map flag_arg ?nvs = [''--root=svc'', ''--n=-0x1F'', ''--all=T'']" by code_simp
  ultimately show ?thesis by (simp only: append.simps)
qed

end
