(* ===== verification/CliText.thy ===== *)
theory CliText
  imports RuleSet Scaffold Repomap Libversion Routes Kb Json
begin

text \<open>
  The human-readable output of gotools/cmd/gotools, command by command. Columns are padded by
  characters, not bytes, as the formatted print and the tab writer of the Go library count them.
\<close>

section \<open>Columns\<close>

text \<open>The characters of a string: its bytes that do not continue a multi-byte sequence.\<close>

definition rune_count :: "string \<Rightarrow> nat" where
  "rune_count s = length (filter (\<lambda>c. \<not> (128 \<le> code c \<and> code c < 192)) s)"

definition pad_right :: "nat \<Rightarrow> string \<Rightarrow> string" where
  "pad_right w s = s @ replicate (w - rune_count s) (CHR '' '')"

definition pad_left :: "nat \<Rightarrow> string \<Rightarrow> string" where
  "pad_left w s = replicate (w - rune_count s) (CHR '' '') @ s"

text \<open>A tab writer with padding 2 over rows of the same number of cells: each column but the last is as wide as its
  widest cell and the padding.\<close>

definition column_width :: "string list list \<Rightarrow> nat \<Rightarrow> nat" where
  "column_width rows j = fold max (map (\<lambda>r. rune_count (r ! j)) rows) 0 + 2"

definition tab_row :: "nat list \<Rightarrow> string list \<Rightarrow> string" where
  "tab_row ws cells = concat (map (\<lambda>(w, c). pad_right w c) (zip ws (butlast cells))) @ last cells @ [CHR 0x0A]"

definition tabulate :: "string list list \<Rightarrow> string" where
  "tabulate rows = concat (map (tab_row (map (column_width rows) [0..<length (hd rows) - 1])) rows)"

definition bullet :: string where
  "bullet = [CHR 0xC2, CHR 0xB7]"

section \<open>lint and rules\<close>

definition summary_line :: "nat \<Rightarrow> Result \<Rightarrow> string" where
  "summary_line ms res =
     text_lines [[], itoa (resFilesScanned res) @ '' file(s), '' @ itoa (resRulesRun res) @ '' rule(s), '' @ itoa ms @ ''ms'']"

definition by_rule :: "Rule list \<Rightarrow> Violation list \<Rightarrow> string" where
  "by_rule rules vs =
     (if vs = [] then []
      else text_lines ([[], ''by rule:''] @
        concat (map (\<lambda>r. let n = count_list (map vRule vs) (rID r) in
                         if 0 < n then [''  '' @ pad_right 28 (rID r) @ '' '' @ itoa n] else []) rules)))"

definition writeText :: "nat \<Rightarrow> Rule list \<Rightarrow> Result \<Rightarrow> bool \<Rightarrow> string" where
  "writeText ms rules res quiet =
     (if resOK res \<and> resWarnings res = [] \<and> resOutOfScopeCount res = 0 then
        (if quiet then []
         else ''OK '' @ emdash @ '' 0 violations ('' @ itoa (resFilesScanned res) @ '' files, '' @ itoa (resRulesRun res)
           @ '' rules, '' @ itoa ms @ ''ms)'' @ [CHR 0x0A])
      else
        (if resViolations res = [] then []
         else text_lines ([[], itoa (length (resViolations res)) @ '' violation(s):'', []]
                @ map (\<lambda>v. ''  '' @ violation_string v) (resViolations res)))
        @ (if resWarnings res = [] then []
           else text_lines ([[], itoa (length (resWarnings res)) @ '' warning(s):'', []]
                  @ map (\<lambda>v. ''  '' @ violation_string v) (resWarnings res)))
        @ (if 0 < resOutOfScopeCount res
           then text_lines [[], itoa (resOutOfScopeCount res)
                  @ '' pre-existing violation(s) in files outside the requested scope (not blocking).'']
           else [])
        @ (if quiet then [] else by_rule rules (resViolations res @ resWarnings res) @ summary_line ms res))"

definition rule_line :: "Rule \<Rightarrow> string" where
  "rule_line r =
     text_lines ([pad_right 28 (rID r) @ '' '' @ pad_right 8 (rSeverity r) @ '' ''
         @ pad_right 11 (if rLegacy r then ''legacy'' else ''compliance'') @ '' '' @ rSummary r]
       @ (if rCitation r \<noteq> [] then [pad_right 28 [] @ ''          see: '' @ rCitation r] else []))"

section \<open>The audits\<close>

definition yesNo :: "bool \<Rightarrow> string" where
  "yesNo b = (if b then ''yes'' else ''-'')"

definition orDash :: "string \<Rightarrow> string" where
  "orDash s = (if s = [] then ''-'' else s)"

definition roundtrip_text :: "RoundTripReport list \<Rightarrow> string" where
  "roundtrip_text rs =
     (if rs = [] then text_lines [''no repository method makes more than one database call'']
      else tabulate ([''METHOD'', ''STMTS'', ''IN-LOOP'', ''BATCHED'', ''TXN'', ''VERDICT'']
             # map (\<lambda>r. [RoundTripReport.rtMethod r, itoa (rtStatements r), yesNo (rtInLoop r), yesNo (rtBatched r),
                          yesNo (rtTransaction r), rtVerdict r]) rs)
        @ text_lines [[], itoa (length rs) @ '' method(s) worth a look, ordered by cost''])"

definition validation_text :: "ValidationReport list \<Rightarrow> string" where
  "validation_text rs =
     (if rs = [] then text_lines [''every request field is bound'']
      else tabulate ([''STRUCT'', ''FIELD'', ''TYPE'', ''VALIDATE'', ''MISSING'']
             # map (\<lambda>r. [vrStruct r, vrField r, vrType r, orDash (vrTag r), orDash (vrMissing r)]) rs)
        @ text_lines [[], itoa (length rs) @ '' field(s) with nothing bounding them''])"

definition temporal_text :: "TemporalCandidate list \<Rightarrow> string" where
  "temporal_text cs =
     (if cs = [] then text_lines [''no off-request-path candidates found'']
      else tabulate ([''LOCATION'', ''FUNC'', ''KIND'', ''CALL'']
             # map (\<lambda>c. [tcPath c @ '':'' @ itoa (tcLine c), tcFunc c, tcKind c, tcCall c]) cs)
        @ text_lines [[], itoa (length cs) @ '' candidate(s) for review. This report makes no recommendation:'',
             ''where this work belongs is a decision about failure semantics, and the'',
             ''template has no Temporal wiring yet.''])"

fun status_text :: "Status \<Rightarrow> string" where
  "status_text StatusCurrent = ''current''"
| "status_text StatusBehind = ''behind''"
| "status_text StatusSuperseded = ''superseded''"
| "status_text StatusUnknown = ''unknown''"

definition shortModule :: "string \<Rightarrow> string" where
  "shortModule path =
     (if length ModulePrefix < length path \<and> take (length ModulePrefix) path = ModulePrefix
      then drop (length ModulePrefix) path else path)"

definition version_status :: "version_report \<Rightarrow> string" where
  "version_status r =
     (if vrSupersededBy r \<noteq> [] then
        ''SUPERSEDED -> '' @ shortModule (vrSupersededBy r)
        @ (if vrSupersededByLatest r \<noteq> [] then ''@'' @ vrSupersededByLatest r else [])
        @ (if 0 < vrBehind r then '' (also '' @ itoa (vrBehind r) @ '' behind)'' else [])
      else if 0 < vrBehind r then ''behind ('' @ itoa (vrBehind r) @ '')''
      else status_text (vrStatus r))"

definition version_text :: "version_result \<Rightarrow> string" where
  "version_text res =
     (if vsReports res = [] then text_lines [''no CEPT common libraries in go.mod'']
      else tabulate ([''MODULE'', ''CURRENT'', ''LATEST'', ''STATUS'']
             # map (\<lambda>r. [shortModule (vrModule r), vrCurrent r, orDash (vrLatest r), version_status r]) (vsReports res))
        @ text_lines ([[], Summary res]
            @ (if vsError res \<noteq> [] then [''registry not fully reachable: '' @ vsError res] else [])
            @ [''reported only '' @ emdash @ '' nothing was changed, and being behind does not fail a build'']))"

section \<open>routes\<close>

definition unresolved_lines :: "string list \<Rightarrow> string list" where
  "unresolved_lines us = map (\<lambda>u. ''  '' @ u) us"

definition route_columns :: "Route \<Rightarrow> string" where
  "route_columns r = ''  '' @ pad_right 6 (Route.rtMethod r) @ '' '' @ pad_right 50 (Route.rtPath r) @ '' ''"

definition route_place :: "Route \<Rightarrow> string" where
  "route_place r = rtFile r @ '':'' @ itoa (Route.rtLine r)"

definition route_line :: "Route \<Rightarrow> string" where
  "route_line r =
     route_columns r @ route_place r
     @ (if rtHandler r \<noteq> [] then '' '' @ arrow @ '' '' @ rtHandler r else [])
     @ (if rtStyle r = ''template'' \<and> rtName r = [] then ''  [no .Name(); it will be missing from swagger]'' else [])"

definition writeInventoryText :: "Inventory \<Rightarrow> string \<Rightarrow> string" where
  "writeInventoryText iv saved =
     text_lines ([itoa (length (invRoutes iv)) @ '' route(s): '' @ itoa (fst (Counts iv)) @ '' legacy (gin), ''
         @ itoa (snd (Counts iv)) @ '' template'']
       @ (if saved \<noteq> [] then [''saved to '' @ saved] else []) @ [[]] @ map route_line (invRoutes iv)
       @ (if invUnresolved iv = [] then []
          else [[], itoa (length (invUnresolved iv)) @ '' registration(s) could not be read as a literal path:'']
            @ unresolved_lines (invUnresolved iv)
            @ [[], ''These are not in the inventory, so they will not be checked after the ''
                 @ ''migration. Register them with a literal path, or check them by hand.'']))"

definition missing_line :: "Route \<Rightarrow> string" where
  "missing_line r =
     route_columns r @ ''was '' @ route_place r
     @ (if rtHandler r \<noteq> [] then '' ('' @ rtHandler r @ '')'' else [])"

definition compare_text :: "Inventory \<Rightarrow> Inventory \<Rightarrow> Route list \<Rightarrow> string" where
  "compare_text before now missing =
     text_lines ([''routes before: '' @ itoa (length (invRoutes before)), ''routes now:    '' @ itoa (length (invRoutes now)), []]
       @ (if missing = [] then
            [''OK '' @ emdash @ '' every route in the saved inventory is still registered.'']
            @ (if invUnresolved now = [] then []
               else [[], itoa (length (invUnresolved now)) @ '' registration(s) could not be read as a literal path and were ''
                        @ ''not compared:''] @ unresolved_lines (invUnresolved now))
          else
            [itoa (length missing) @ '' route(s) are no longer registered:'', []] @ map missing_line missing
            @ [[], ''Each one is an endpoint a client can still call and will now get a 404 from.'',
               ''Add it to the converted handler's Routes(), with the same method and path.'']))"

section \<open>repo-map\<close>

definition more :: "nat \<Rightarrow> string" where
  "more n = (if n = 0 then [] else ''  (+'' @ itoa n @ '' more)'')"

definition module_line :: "repo_map \<Rightarrow> string list" where
  "module_line m =
     (if rmModule m = [] then []
      else [''module '' @ rmModule m
        @ (if rmGoVersion m \<noteq> [] then ''  (go '' @ rmGoVersion m @ '')'' else [])
        @ (if rmGeneration m \<noteq> [] then ''  ['' @ rmGeneration m @ '' generation]'' else [])])"

definition package_lines :: "Package \<Rightarrow> string list" where
  "package_lines p =
     [''  '' @ pad_right 28 (if pkDir p = [] then ''.'' else pkDir p) @ '' '' @ pad_right 10 (pkLayer p) @ '' ''
        @ pad_left 2 (itoa (pkFiles p)) @ '' file(s)'' @ (if pkSummarised p then ''  (symbols elided)'' else [])]
     @ (if pkTypes p = [] then [] else [''      types: '' @ str_join '', '' (pkTypes p) @ more (pkMoreTypes p)])
     @ (if pkFuncs p = [] then [] else [''      funcs: '' @ str_join '', '' (pkFuncs p) @ more (pkMoreFuncs p)])"

definition fx_lines :: "FX option \<Rightarrow> string list" where
  "fx_lines f =
     (case f of
        None \<Rightarrow> []
      | Some x \<Rightarrow>
          [[], ''fx:'']
          @ (if fxRepos x = [] then [] else [''  repos:    '' @ str_join '', '' (fxRepos x)])
          @ (if fxHandlers x = [] then [] else [''  handlers: '' @ str_join '', '' (fxHandlers x)])
          @ (if fxUnwired x = [] then []
             else [''  UNWIRED:  '' @ str_join '', '' (fxUnwired x) @ ''  (these fail at startup)''])
          @ (if fxMisregistered x = [] then []
             else [''  MISREGISTERED: '' @ str_join '', '' (fxMisregistered x) @ ''  (these start but serve no routes)'']))"

definition writeRepoMap :: "nat \<Rightarrow> repo_map \<Rightarrow> string" where
  "writeRepoMap ms m =
     text_lines (module_line m
       @ (if rmPackages m = [] then [] else [[], ''packages:''] @ concat (map package_lines (rmPackages m)))
       @ fx_lines (rmFX m)
       @ (if rmRequires m = [] then [] else [[], ''direct dependencies: '' @ itoa (length (rmRequires m))])
       @ (case rmElided m of None \<Rightarrow> [] | Some el \<Rightarrow> [[], elHint el])
       @ [[], itoa (rmFiles m) @ '' file(s), ~'' @ itoa (rmEstTokens m) @ '' tokens, '' @ itoa ms @ ''ms''])"

section \<open>doc-check, the scaffolders and fx-wire\<close>

text \<open>The verb %v of a list of strings.\<close>

definition bracketed :: "string list \<Rightarrow> string" where
  "bracketed ss = ''['' @ str_join '' '' ss @ '']''"

definition writeDocReport :: "kb_report \<Rightarrow> string \<Rightarrow> string" where
  "writeDocReport rp docsDir =
     (if krOK rp then
        text_lines [''OK '' @ emdash @ '' '' @ itoa (krResolved rp) @ '' citation(s) resolved against '' @ docsDir]
      else text_lines ([[], itoa (length (krProblems rp)) @ '' problem(s):'', []]
        @ map (\<lambda>p. ''  '' @ problem_string p) (krProblems rp)
        @ [[], itoa (krResolved rp) @ '' citation(s) resolved across '' @ bracketed (krChecked rp)]))"

fun action_word :: "Action \<Rightarrow> string" where
  "action_word ActionCreate = ''create''"
| "action_word ActionModify = ''modify''"

definition scaffold_text :: "bool \<Rightarrow> sresult \<Rightarrow> string" where
  "scaffold_text dryRun res =
     text_lines ([(if dryRun then ''would write'' else ''wrote'') @ '' '' @ itoa (length (srFiles res)) @ '' file(s):'', []]
       @ map (\<lambda>f. ''  '' @ pad_right 6 (action_word (sfAction f)) @ '' '' @ pad_right 38 (sfPath f) @ '' ''
             @ pad_left 6 (itoa (sfBytes f)) @ '' bytes'') (srFiles res)
       @ (if srNotes res = [] then [] else [[], ''next:''] @ map (\<lambda>n. ''  '' @ bullet @ '' '' @ n) (srNotes res)))"

definition issue_lines :: "Issue list \<Rightarrow> string" where
  "issue_lines issues =
     text_lines (concat (map (\<lambda>i. [''  '' @ isPath i, ''      '' @ isMessage i]
       @ (if isFix i \<noteq> [] then [''      fix: '' @ isFix i] else [])) issues))"

definition wire_text :: "bool \<Rightarrow> wire_result \<Rightarrow> string" where
  "wire_text dryRun res =
     (if wrAlready res \<noteq> [] then
        text_lines [wrPath res @ '' already registers '' @ str_join '', '' (wrAlready res) @ '' '' @ emdash @ '' nothing to do'']
      else if dryRun then
        text_lines [''would register '' @ str_join '', '' (wrAdded res) @ '' in '' @ wrPath res @ '':'', []] @ wrContent res
      else text_lines [''registered '' @ str_join '', '' (wrAdded res) @ '' in '' @ wrPath res])"

section \<open>What the tables say\<close>

lemma rune_count_Nil [simp]: "rune_count [] = 0"
  by (simp add: rune_count_def)

lemma rune_count_append [simp]: "rune_count (s @ t) = rune_count s + rune_count t"
  by (simp add: rune_count_def)

lemma rune_count_spaces [simp]: "rune_count (replicate n (CHR '' '')) = n"
  by (simp add: rune_count_def)

lemma rune_count_pad_right: "rune_count (pad_right w s) = max w (rune_count s)"
  by (simp add: pad_right_def)

lemma fold_max_ge: "x \<in> set xs \<or> x \<le> a \<Longrightarrow> x \<le> fold max xs (a :: nat)"
  by (induction xs arbitrary: a) (auto simp: le_max_iff_disj)

lemma column_width_ge: "r \<in> set rows \<Longrightarrow> rune_count (r ! j) + 2 \<le> column_width rows j"
  by (auto simp: column_width_def intro!: fold_max_ge)

text \<open>Every cell of a column but the last begins at the same character.\<close>

lemma rune_count_cells:
  "list_all2 (\<lambda>w c. rune_count c \<le> w) ws cs
    \<Longrightarrow> rune_count (concat (map (\<lambda>(w, c). pad_right w c) (zip ws cs))) = sum_list ws"
  by (induction rule: list_all2_induct) (simp_all add: rune_count_pad_right)

end
