(* ===== verification/Cli.thy ===== *)
theory Cli
  imports Flags CliText KbBuild Catalog
begin

text \<open>
  Model of gotools/cmd/gotools: the command line over the components. A command is a function of its
  arguments and of the tree, and returns the exit code, what it prints and the tree afterwards. What the server
  handlers take from their environment the commands take from the same one; beside it the environment
  holds standard input, the JSON forms, the flag package's own diagnostics, the elapsed milliseconds and the order in which a
  map is walked.
\<close>

section \<open>The environment\<close>

datatype payload =
    LintPayload Result
  | RulesPayload "Rule list"
  | RoundTripPayload "RoundTripReport list"
  | ValidationPayload "ValidationReport list"
  | TemporalPayload "TemporalCandidate list"
  | VersionPayload version_result
  | InventoryPayload Inventory
  | ComparePayload nat nat "Route list" bool
  | ScaffoldPayload sresult bool
  | WirePayload wire_result
  | MapPayload repo_map
  | DocPayload kb_report

record cli_env =
  cvHost :: mcp_env
  cvVersion :: string
  cvStdin :: "string + string"
  cvDuration :: "string \<Rightarrow> int option"
  cvFlagError :: "string \<Rightarrow> flag_error \<Rightarrow> string"
  cvJson :: "payload \<Rightarrow> string + string"
  cvResource :: "string \<Rightarrow> string + Resource"
  cvProject :: "string \<Rightarrow> string + Project \<times> Resource"
  cvManifest :: "string \<Rightarrow> string + Manifest"
  cvManifestJson :: "Manifest \<Rightarrow> string + string"
  cvDigest :: "string \<Rightarrow> string"
  cvReferences :: "Reference list"
  cvSchema :: "json \<Rightarrow> string + schema"
  cvListed :: "sdk_tool list"
  cvIndent :: "json \<Rightarrow> string"
  cvCatalogJson :: "Catalog \<Rightarrow> string + string"
  cvJsonFirst :: bool
  cvServe :: "string \<Rightarrow> string option"
  cvElapsed :: nat

record outcome =
  ocCode :: nat
  ocOut :: string
  ocErr :: string
  ocTree :: tree

definition exitOK :: nat where "exitOK = 0"
definition exitFindings :: nat where "exitFindings = 1"
definition exitError :: nat where "exitError = 2"

definition done_ok :: "string \<Rightarrow> tree \<Rightarrow> outcome" where
  "done_ok out fs = \<lparr>ocCode = exitOK, ocOut = out, ocErr = [], ocTree = fs\<rparr>"

definition failed :: "string \<Rightarrow> tree \<Rightarrow> outcome" where
  "failed err fs = \<lparr>ocCode = exitError, ocOut = [], ocErr = err, ocTree = fs\<rparr>"

definition error_line :: "string \<Rightarrow> string \<Rightarrow> string" where
  "error_line name e = ''gotools '' @ name @ '': '' @ e @ [CHR 0x0A]"

definition with_flags ::
  "cli_env \<Rightarrow> string \<Rightarrow> flag_set \<Rightarrow> string list \<Rightarrow> tree \<Rightarrow> (flag_set \<Rightarrow> outcome) \<Rightarrow> outcome" where
  "with_flags ev name fl args fs k =
     (case Parse (cvDuration ev) fl args of
        Inl e \<Rightarrow> failed (cvFlagError ev name e) fs
      | Inr (fl', _) \<Rightarrow> k fl')"

definition format_ok :: "string \<Rightarrow> bool" where
  "format_ok f \<longleftrightarrow> f = ''text'' \<or> f = ''json''"

definition format_error :: "string \<Rightarrow> string" where
  "format_error f = ''--format must be text or json, got '' @ go_quote f"

text \<open>Encoding a value to standard output.\<close>

definition writeJSON :: "cli_env \<Rightarrow> string \<Rightarrow> payload \<Rightarrow> tree \<Rightarrow> outcome" where
  "writeJSON ev name v fs =
     (case cvJson ev v of
        Inl e \<Rightarrow> failed (error_line name (''encode result: '' @ e)) fs
      | Inr s \<Rightarrow> done_ok s fs)"

definition print_as :: "cli_env \<Rightarrow> string \<Rightarrow> string \<Rightarrow> payload \<Rightarrow> string \<Rightarrow> tree \<Rightarrow> outcome" where
  "print_as ev name format v human fs = (if format = ''json'' then writeJSON ev name v fs else done_ok human fs)"

section \<open>lint, legacy-audit and rules\<close>

definition splitList :: "string \<Rightarrow> string list" where
  "splitList s =
     (if trim_space s = [] then []
      else filter (\<lambda>p. p \<noteq> []) (map trim_space (split_char (CHR '','') s)))"

definition lint_flags :: flag_set where
  "lint_flags =
     [(''root'', FString ''.''), (''paths'', FString []), (''only'', FString []), (''format'', FString ''text''),
      (''quiet'', FBool False)]"

definition shipped_rules :: "cli_env \<Rightarrow> string \<Rightarrow> Rule list" where
  "shipped_rules ev root =
     (case Default (outExists (evOutside (cvHost ev) root)) of Inl _ \<Rightarrow> [] | Inr reg \<Rightarrow> All_rules reg)"

definition lint_options :: "flag_set \<Rightarrow> bool \<Rightarrow> RunOptions" where
  "lint_options fl legacy =
     \<lparr>oOnly = splitList (flag_string fl ''only''), oScope = splitList (flag_string fl ''paths''), oLegacy = legacy,
      oConfig = no_config\<rparr>"

text \<open>The hint follows an error that names unknown rules.\<close>

definition unknown_hint :: "Rule list \<Rightarrow> string list \<Rightarrow> string \<Rightarrow> string" where
  "unknown_hint rules only e =
     (let unknown = filter (\<lambda>i. i \<notin> set (map rID rules)) only in
      if unknown \<noteq> [] \<and> e = unknown_rule_string (UnknownRuleError unknown)
      then text_lines [''run `gotools rules` to list valid IDs''] else [])"

definition cmdLint :: "cli_env \<Rightarrow> string list \<Rightarrow> bool \<Rightarrow> tree \<Rightarrow> outcome" where
  "cmdLint ev args legacy fs =
     with_flags ev (if legacy then ''legacy-audit'' else ''lint'') lint_flags args fs (\<lambda>fl.
       let format = flag_string fl ''format''; root = flag_string fl ''root''; rules = shipped_rules ev root in
       if \<not> format_ok format then failed (''gotools: '' @ format_error format @ [CHR 0x0A]) fs
       else (case Analyze (evOutside (cvHost ev) root) (lint_options fl legacy) of
               Inl e \<Rightarrow>
                 failed (''gotools: '' @ e @ [CHR 0x0A] @ unknown_hint rules (splitList (flag_string fl ''only'')) e) fs
             | Inr res \<Rightarrow>
                 (let text = writeText (cvElapsed ev) rules res (flag_bool fl ''quiet'') in
                  case (if format = ''json'' then cvJson ev (LintPayload res) else Inr text) of
                    Inl e \<Rightarrow> failed (''gotools: encode result: '' @ e @ [CHR 0x0A]) fs
                  | Inr out \<Rightarrow>
                      \<lparr>ocCode = (if resOK res then exitOK else exitFindings), ocOut = out, ocErr = [], ocTree = fs\<rparr>)))"

definition cmdRules :: "cli_env \<Rightarrow> string list \<Rightarrow> tree \<Rightarrow> outcome" where
  "cmdRules ev args fs =
     with_flags ev ''rules'' [(''format'', FString ''text'')] args fs (\<lambda>fl.
       let rules = shipped_rules ev ''.'' in
       if flag_string fl ''format'' = ''json'' then
         (case cvJson ev (RulesPayload rules) of
            Inl e \<Rightarrow> failed (''gotools: '' @ e @ [CHR 0x0A]) fs
          | Inr s \<Rightarrow> done_ok s fs)
       else done_ok (concat (map rule_line rules)) fs)"

section \<open>The audits\<close>

definition audit_flags :: flag_set where
  "audit_flags = [(''root'', FString ''.''), (''format'', FString ''text'')]"

definition loadForAudit :: "cli_env \<Rightarrow> flag_set \<Rightarrow> string \<Rightarrow> string + workspace" where
  "loadForAudit ev fl name =
     (if \<not> format_ok (flag_string fl ''format'') then Inl (error_line name (format_error (flag_string fl ''format'')))
      else (case load_at (cvHost ev) (flag_string fl ''root'') of
              Inl e \<Rightarrow> Inl (error_line name e)
            | Inr ws \<Rightarrow> Inr ws))"

text \<open>The shape the four reports share.\<close>

definition audit_command ::
  "cli_env \<Rightarrow> string \<Rightarrow> flag_set \<Rightarrow> string list \<Rightarrow> tree
    \<Rightarrow> (flag_set \<Rightarrow> workspace \<Rightarrow> payload \<times> string) \<Rightarrow> outcome" where
  "audit_command ev name extra args fs report =
     with_flags ev name (audit_flags @ extra) args fs (\<lambda>fl.
       case loadForAudit ev fl name of
         Inl e \<Rightarrow> failed e fs
       | Inr ws \<Rightarrow> (case report fl ws of (v, human) \<Rightarrow> print_as ev name (flag_string fl ''format'') v human fs))"

definition cmdDBRoundTripAudit :: "cli_env \<Rightarrow> string list \<Rightarrow> tree \<Rightarrow> outcome" where
  "cmdDBRoundTripAudit ev args fs =
     audit_command ev ''db-roundtrip-audit'' [(''all'', FBool False)] args fs (\<lambda>fl ws.
       let rs = filter (\<lambda>r. flag_bool fl ''all'' \<or> rtVerdict r \<noteq> ''ok'') (RoundTripAudit ws)
       in (RoundTripPayload rs, roundtrip_text rs))"

definition cmdValidationAudit :: "cli_env \<Rightarrow> string list \<Rightarrow> tree \<Rightarrow> outcome" where
  "cmdValidationAudit ev args fs =
     audit_command ev ''validation-audit'' [(''all'', FBool False)] args fs (\<lambda>fl ws.
       let rs = filter (\<lambda>r. flag_bool fl ''all'' \<or> vrMissing r \<noteq> []) (ValidationAudit ws)
       in (ValidationPayload rs, validation_text rs))"

definition cmdTemporalAudit :: "cli_env \<Rightarrow> string list \<Rightarrow> tree \<Rightarrow> outcome" where
  "cmdTemporalAudit ev args fs =
     audit_command ev ''temporal-audit'' [] args fs (\<lambda>fl ws.
       (TemporalPayload (TemporalAudit ws), temporal_text (TemporalAudit ws)))"

definition offlineLister :: lister where
  "offlineLister m = Inr []"

definition cmdLibVersionCheck :: "cli_env \<Rightarrow> string list \<Rightarrow> tree \<Rightarrow> outcome" where
  "cmdLibVersionCheck ev args fs =
     audit_command ev ''lib-version-check'' [(''timeout'', FDuration (30 * 10 ^ 9)), (''offline'', FBool False)] args fs
       (\<lambda>fl ws.
         let lister = (if flag_bool fl ''offline'' then offlineLister
                       else GoListVersions (evGo (cvHost ev) (flag_string fl ''root'')));
             res = version_check ws lister
         in (VersionPayload res, version_text res))"

section \<open>repo-map and routes\<close>

definition map_flags :: flag_set where
  "map_flags = [(''root'', FString ''.''), (''package'', FString []), (''max-tokens'', FInt 0), (''format'', FString ''text'')]"

definition cmdRepoMap :: "cli_env \<Rightarrow> string list \<Rightarrow> tree \<Rightarrow> outcome" where
  "cmdRepoMap ev args fs =
     with_flags ev ''repo-map'' map_flags args fs (\<lambda>fl.
       let format = flag_string fl ''format'' in
       if \<not> format_ok format then failed (error_line ''repo-map'' (format_error format)) fs
       else (case load_at (cvHost ev) (flag_string fl ''root'') of
               Inl e \<Rightarrow> failed (error_line ''repo-map'' e) fs
             | Inr ws \<Rightarrow>
                 (let m = repomap_Build ws \<lparr>opPackage = flag_string fl ''package'', opMaxTokens = flag_int fl ''max-tokens''\<rparr>
                  in print_as ev ''repo-map'' format (MapPayload m) (writeRepoMap (cvElapsed ev) m) fs)))"

definition routes_flags :: flag_set where
  "routes_flags =
     [(''root'', FString ''.''), (''save'', FString []), (''against'', FString []), (''format'', FString ''text'')]"

definition writeInventory :: "mcp_env \<Rightarrow> string \<Rightarrow> Inventory \<Rightarrow> tree \<Rightarrow> string option \<times> tree" where
  "writeInventory host path iv fs =
     (let dir = path_dir path in
      case (if dir \<noteq> [] \<and> dir \<noteq> ''.'' then evMkdir host dir else None) of
        Some e \<Rightarrow> (Some (''create '' @ dir @ '': '' @ e), fs)
      | None \<Rightarrow>
          (case evEncode host iv of
             Inl e \<Rightarrow> (Some (''encode inventory: '' @ e), fs)
           | Inr body \<Rightarrow>
               (let tmp = path @ ''.tmp''; content = body @ [CHR 0x0A] in
                case evWrite host tmp of
                  Some e \<Rightarrow> (Some (''write '' @ path @ '': '' @ e), fs)
                | None \<Rightarrow>
                    (case evRename host path of
                       Some e \<Rightarrow> (Some e, fs(tmp \<mapsto> content))
                     | None \<Rightarrow> (None, (fs(tmp := None))(path \<mapsto> content))))))"

definition read_file :: "tree \<Rightarrow> string \<Rightarrow> string + string" where
  "read_file fs path =
     (case fs path of None \<Rightarrow> Inl (''open '' @ path @ '': no such file or directory'') | Some b \<Rightarrow> Inr b)"

text \<open>The exit code of a comparison says whether a route was lost, whatever the format.\<close>

definition compareRoutes :: "cli_env \<Rightarrow> string \<Rightarrow> Inventory \<Rightarrow> string \<Rightarrow> tree \<Rightarrow> outcome" where
  "compareRoutes ev path now format fs =
     (case read_file fs path of
        Inl e \<Rightarrow>
          failed (error_line ''routes'' (''read '' @ path @ '': '' @ e)
            @ text_lines [''run `gotools routes --save <path>` before the migration starts'']) fs
      | Inr raw \<Rightarrow>
          (case evDecode (cvHost ev) raw of
             Inl e \<Rightarrow> failed (error_line ''routes'' (path @ '' is not a route inventory: '' @ e)) fs
           | Inr before \<Rightarrow>
               (let missing = Compare before now;
                    res = print_as ev ''routes'' format
                      (ComparePayload (length (invRoutes before)) (length (invRoutes now)) missing (missing = []))
                      (compare_text before now missing) fs
                in if ocCode res = exitOK \<and> missing \<noteq> [] then res\<lparr>ocCode := exitFindings\<rparr> else res)))"

definition cmdRoutes :: "cli_env \<Rightarrow> string list \<Rightarrow> tree \<Rightarrow> outcome" where
  "cmdRoutes ev args fs =
     with_flags ev ''routes'' routes_flags args fs (\<lambda>fl.
       let save = flag_string fl ''save''; against = flag_string fl ''against''; format = flag_string fl ''format'' in
       case load_at (cvHost ev) (flag_string fl ''root'') of
         Inl e \<Rightarrow> failed (error_line ''routes'' e) fs
       | Inr ws \<Rightarrow>
           (let iv = Take ws in
            case (if save \<noteq> [] then writeInventory (cvHost ev) save iv fs else (None, fs)) of
              (Some e, fs') \<Rightarrow> failed (error_line ''routes'' e) fs'
            | (None, fs') \<Rightarrow>
                if against \<noteq> [] then compareRoutes ev against iv format fs'
                else print_as ev ''routes'' format (InventoryPayload iv) (writeInventoryText iv save) fs'))"

section \<open>The scaffolders and fx-wire\<close>

definition scaffold_flags :: flag_set where
  "scaffold_flags =
     [(''root'', FString ''.''), (''spec'', FString []), (''dry-run'', FBool False), (''format'', FString ''text'')]"

definition validate_flags :: "flag_set \<Rightarrow> string \<Rightarrow> string option" where
  "validate_flags fl name =
     (if \<not> format_ok (flag_string fl ''format'') then Some (error_line name (format_error (flag_string fl ''format'')))
      else if trim_space (flag_string fl ''spec'') = [] then
        Some (error_line name ''--spec is required (a file path, or - for stdin)'')
      else None)"

definition readSpec :: "cli_env \<Rightarrow> tree \<Rightarrow> (string \<Rightarrow> string + 'a) \<Rightarrow> string \<Rightarrow> string + 'a" where
  "readSpec ev fs decode path =
     (case (if path = ''-'' then cvStdin ev else read_file fs path) of
        Inl e \<Rightarrow> Inl (''read spec: '' @ e)
      | Inr body \<Rightarrow> (case decode body of Inl e \<Rightarrow> Inl (''parse spec: '' @ e) | Inr x \<Rightarrow> Inr x))"

text \<open>An invalid specification is printed as a list of its issues, any other error as it is; \<open>issues\<close> are the lists
  of issues a call can end with.\<close>

definition reportScaffoldError :: "string \<Rightarrow> Issue list list \<Rightarrow> string \<Rightarrow> string" where
  "reportScaffoldError name issues e =
     (case find (\<lambda>is. spec_error is = e) issues of
        Some is \<Rightarrow>
          error_line name (''the spec has '' @ itoa (length is) @ '' problem(s):'' @ [CHR 0x0A]) @ issue_lines is
      | None \<Rightarrow> error_line name e)"

definition issues_of :: "(Issue list + 'a) \<Rightarrow> Issue list list" where
  "issues_of r = (case r of Inl is \<Rightarrow> [is] | Inr _ \<Rightarrow> [])"

definition cli_finish ::
  "cli_env \<Rightarrow> string \<Rightarrow> flag_set \<Rightarrow> Issue list list \<Rightarrow> string + sresult \<Rightarrow> tree \<Rightarrow> outcome" where
  "cli_finish ev name fl issues res fs =
     (let root = flag_string fl ''root''; dryRun = flag_bool fl ''dry-run'' in
      case res of
        Inl e \<Rightarrow> failed (reportScaffoldError name issues e) fs
      | Inr r \<Rightarrow>
          (case (if dryRun then (None, fs) else apply_at (cvHost ev) root r fs) of
             (Some e, fs') \<Rightarrow> failed (reportScaffoldError name [] (apply_error_text e)) fs'
           | (None, fs') \<Rightarrow>
               print_as ev name (flag_string fl ''format'') (ScaffoldPayload r (\<not> dryRun)) (scaffold_text dryRun r) fs'))"

definition cmdResourceScaffold :: "cli_env \<Rightarrow> string list \<Rightarrow> tree \<Rightarrow> outcome" where
  "cmdResourceScaffold ev args fs =
     with_flags ev ''resource-scaffold'' scaffold_flags args fs (\<lambda>fl.
       let root = flag_string fl ''root''; host = cvHost ev in
       case validate_flags fl ''resource-scaffold'' of
         Some e \<Rightarrow> failed e fs
       | None \<Rightarrow>
           (case readSpec ev fs (cvResource ev) (flag_string fl ''spec'') of
              Inl e \<Rightarrow> failed (error_line ''resource-scaffold'' e) fs
            | Inr s \<Rightarrow>
                cli_finish ev ''resource-scaffold'' fl (issues_of (Normalise s))
                  (ScaffoldResource (evRender host) (evParse host) (evFmt host) root (evSite host root) s
                     \<lparr>roModule = [], roSkipFXWire = False\<rparr>) fs))"

text \<open>The seed resource is normalised, and normalised again as it is scaffolded.\<close>

definition project_issues :: "Project \<Rightarrow> Resource \<Rightarrow> Issue list list" where
  "project_issues p s =
     issues_of (project_Normalise p) @ issues_of (Normalise s)
     @ (case Normalise s of Inl _ \<Rightarrow> [] | Inr r \<Rightarrow> issues_of (Normalise r))"

definition cmdProjectScaffold :: "cli_env \<Rightarrow> string list \<Rightarrow> tree \<Rightarrow> outcome" where
  "cmdProjectScaffold ev args fs =
     with_flags ev ''project-scaffold'' scaffold_flags args fs (\<lambda>fl.
       let root = flag_string fl ''root''; host = cvHost ev in
       case validate_flags fl ''project-scaffold'' of
         Some e \<Rightarrow> failed e fs
       | None \<Rightarrow>
           (case readSpec ev fs (cvProject ev) (flag_string fl ''spec'') of
              Inl e \<Rightarrow> failed (error_line ''project-scaffold'' e) fs
            | Inr (p, s) \<Rightarrow>
                cli_finish ev ''project-scaffold'' fl (project_issues p s)
                  (NewProject (evRender host) (evParse host) (evFmt host) root (evSite host root) p s) fs))"

definition wire_flags :: flag_set where
  "wire_flags =
     [(''root'', FString ''.''), (''kind'', FString []), (''ctor'', FString []), (''dry-run'', FBool False),
      (''format'', FString ''text'')]"

definition cmdFxWire :: "cli_env \<Rightarrow> string list \<Rightarrow> tree \<Rightarrow> outcome" where
  "cmdFxWire ev args fs =
     with_flags ev ''fx-wire'' wire_flags args fs (\<lambda>fl.
       let root = flag_string fl ''root''; kind = flag_string fl ''kind''; ctor = flag_string fl ''ctor'';
           dryRun = flag_bool fl ''dry-run''; format = flag_string fl ''format''; host = cvHost ev;
           bd = siBootstrap (evSite host root); regs = [\<lparr>regKind = wire_kind_of kind, regCtor = ctor\<rparr>] in
       if \<not> format_ok format then failed (error_line ''fx-wire'' (format_error format)) fs
       else if kind = [] \<or> ctor = [] then failed (error_line ''fx-wire'' ''--kind and --ctor are required'') fs
       else (case ModulePath root (siGoMod (evSite host root)) of
               Inl e \<Rightarrow> failed (error_line ''fx-wire'' e) fs
             | Inr module \<Rightarrow>
                 (case (if dryRun then (Plan (evParse host) (evFmt host) root bd module regs, [])
                        else Apply_wire (evParse host) (evFmt host) (\<lambda>p _. evWrite host (root @ ''/'' @ p)) root bd module regs) of
                    (Inl e, edits) \<Rightarrow> failed (error_line ''fx-wire'' e) (put_all root edits fs)
                  | (Inr res, edits) \<Rightarrow>
                      print_as ev ''fx-wire'' format (WirePayload res) (wire_text dryRun res) (put_all root edits fs))))"

section \<open>doc-check\<close>

definition LoadManifest :: "(string \<Rightarrow> string + Manifest) \<Rightarrow> string \<Rightarrow> tree \<Rightarrow> string + Manifest option" where
  "LoadManifest decode path fs =
     (case fs path of
        None \<Rightarrow> Inr None
      | Some b \<Rightarrow> (case decode b of Inl e \<Rightarrow> Inl (''parse '' @ path @ '': '' @ e) | Inr m \<Rightarrow> Inr (Some m)))"

definition SaveManifest ::
  "mcp_env \<Rightarrow> (Manifest \<Rightarrow> string + string) \<Rightarrow> string \<Rightarrow> Manifest \<Rightarrow> tree \<Rightarrow> string option \<times> tree" where
  "SaveManifest host encode path m fs =
     (case evMkdir host (path_dir path) of
        Some e \<Rightarrow> (Some (''create '' @ path_dir path @ '': '' @ e), fs)
      | None \<Rightarrow>
          (case encode m of
             Inl e \<Rightarrow> (Some (''encode manifest: '' @ e), fs)
           | Inr b \<Rightarrow>
               (case evWrite host path of Some e \<Rightarrow> (Some e, fs) | None \<Rightarrow> (None, fs(path \<mapsto> b @ [CHR 0x0A])))))"

definition doc_flags :: flag_set where
  "doc_flags =
     [(''docs'', FString ''../new-template''), (''manifest'', FString ManifestFile), (''update'', FBool False),
      (''format'', FString ''text'')]"

definition rule_citations :: "Rule list \<Rightarrow> Citation list" where
  "rule_citations rules =
     map (\<lambda>r. \<lparr>ciRuleID = rID r, ciText = rCitation r\<rparr>) (filter (\<lambda>r. rCitation r \<noteq> []) rules)"

text \<open>The report, the manifest being replaced when asked for.\<close>

definition doc_report :: "cli_env \<Rightarrow> flag_set \<Rightarrow> Manifest option \<Rightarrow> tree \<Rightarrow> kb_report" where
  "doc_report ev fl pinned fs =
     kb_Check (read_file fs) (cvDigest ev) (flag_string fl ''docs'') (rule_citations (shipped_rules ev ''.''))
       (if flag_bool fl ''update'' then None else pinned)"

definition doc_outcome :: "cli_env \<Rightarrow> flag_set \<Rightarrow> kb_report \<Rightarrow> string \<Rightarrow> tree \<Rightarrow> outcome" where
  "doc_outcome ev fl rp notice fs =
     (case (if flag_string fl ''format'' = ''json'' then cvJson ev (DocPayload rp)
            else Inr (writeDocReport rp (flag_string fl ''docs''))) of
        Inl e \<Rightarrow> (failed (error_line ''doc-check'' (''encode result: '' @ e)) fs)\<lparr>ocOut := notice\<rparr>
      | Inr out \<Rightarrow>
          \<lparr>ocCode = (if krOK rp then exitOK else exitFindings), ocOut = notice @ out, ocErr = [], ocTree = fs\<rparr>)"

definition cmdDocCheck :: "cli_env \<Rightarrow> string list \<Rightarrow> tree \<Rightarrow> outcome" where
  "cmdDocCheck ev args fs =
     with_flags ev ''doc-check'' doc_flags args fs (\<lambda>fl.
       let format = flag_string fl ''format''; manifest = flag_string fl ''manifest'' in
       if \<not> format_ok format then failed (error_line ''doc-check'' (format_error format)) fs
       else (case LoadManifest (cvManifest ev) manifest fs of
               Inl e \<Rightarrow> failed (error_line ''doc-check'' e) fs
             | Inr pinned \<Rightarrow>
                 (let rp = doc_report ev fl pinned fs in
                  if \<not> flag_bool fl ''update'' then doc_outcome ev fl rp [] fs
                  else (case SaveManifest (cvHost ev) (cvManifestJson ev) manifest (krManifest rp) fs of
                          (Some e, fs') \<Rightarrow> failed (error_line ''doc-check'' e) fs'
                        | (None, fs') \<Rightarrow>
                            doc_outcome ev fl rp
                              (text_lines [''wrote '' @ manifest @ '' '' @ emdash @ '' review the diff before committing'']) fs'))))"

section \<open>tool-catalog and knowledge\<close>

definition normaliseEOL :: "string \<Rightarrow> string" where
  "normaliseEOL b = ToLF b"

definition stale :: "tree \<Rightarrow> string \<times> string \<Rightarrow> bool" where
  "stale fs pc \<longleftrightarrow> (case fs (fst pc) of None \<Rightarrow> True | Some got \<Rightarrow> normaliseEOL got \<noteq> normaliseEOL (snd pc))"

definition cat_JSON :: "cli_env \<Rightarrow> Catalog \<Rightarrow> string + string" where
  "cat_JSON ev cat = (case cvCatalogJson ev cat of Inl e \<Rightarrow> Inl e | Inr b \<Rightarrow> Inr (b @ [CHR 0x0A]))"

definition catalog_files :: "cli_env \<Rightarrow> string \<Rightarrow> string \<Rightarrow> string \<Rightarrow> (string \<times> string) list" where
  "catalog_files ev dir jsonBody mdBody =
     (let j = (Join [dir, ''tool-catalog.json''], jsonBody); m = (Join [dir, ''TOOL-CATALOG.md''], mdBody)
      in if cvJsonFirst ev then [j, m] else [m, j])"

text \<open>Writing files one by one: the first that fails ends it, with what was printed so far.\<close>

fun write_catalog :: "mcp_env \<Rightarrow> (string \<times> string) list \<Rightarrow> string \<Rightarrow> tree \<Rightarrow> string option \<times> string \<times> tree" where
  "write_catalog host [] out fs = (None, out, fs)"
| "write_catalog host ((path, body) # rest) out fs =
     (case evWrite host path of
        Some e \<Rightarrow> (Some (''write '' @ path @ '': '' @ e), out, fs)
      | None \<Rightarrow> write_catalog host rest (out @ text_lines [''wrote '' @ path]) (fs(path \<mapsto> body)))"

definition violation_lines :: "CViolation list \<Rightarrow> string" where
  "violation_lines bad =
     text_lines ((''gotools tool-catalog: '' @ itoa (length bad) @ '' contract C1 violation(s):'')
       # map (\<lambda>v. ''  '' @ cvTool v @ '': '' @ cvDetail v) bad)"

definition findings_on :: "string \<Rightarrow> tree \<Rightarrow> outcome" where
  "findings_on err fs = \<lparr>ocCode = exitFindings, ocOut = [], ocErr = err, ocTree = fs\<rparr>"

definition check_catalog :: "(string \<times> string) list \<Rightarrow> Catalog \<Rightarrow> tree \<Rightarrow> outcome" where
  "check_catalog files cat fs =
     (let bad = filter (stale fs) files in
      if bad \<noteq> [] then
        findings_on (text_lines ((''gotools tool-catalog: '' @ itoa (length bad) @ '' file(s) are stale or missing:'')
          # map (\<lambda>pc. ''  '' @ fst pc) bad @ [''run `make tool-catalog` and commit the result''])) fs
      else done_ok (text_lines [''OK '' @ emdash @ '' the catalogue is current ('' @ itoa (length (caTools cat)) @ '' tools)'']) fs)"

definition save_catalog :: "mcp_env \<Rightarrow> string \<Rightarrow> (string \<times> string) list \<Rightarrow> Catalog \<Rightarrow> tree \<Rightarrow> outcome" where
  "save_catalog host dir files cat fs =
     (case evMkdir host dir of
        Some e \<Rightarrow> failed (error_line ''tool-catalog'' e) fs
      | None \<Rightarrow>
          (case write_catalog host files [] fs of
             (Some e, out, fs') \<Rightarrow> (failed (error_line ''tool-catalog'' e) fs')\<lparr>ocOut := out\<rparr>
           | (None, out, fs') \<Rightarrow>
               done_ok (out @ text_lines [itoa (length (caTools cat)) @ '' tools, contract C1 conformant'']) fs'))"

definition catalog_flags :: flag_set where
  "catalog_flags = [(''out'', FString ''docs''), (''check'', FBool False)]"

definition cmdToolCatalog :: "cli_env \<Rightarrow> string list \<Rightarrow> tree \<Rightarrow> outcome" where
  "cmdToolCatalog ev args fs =
     with_flags ev ''tool-catalog'' catalog_flags args fs (\<lambda>fl.
       case catalog_Build (cvSchema ev) (cvVersion ev) (cvListed ev) of
         Inl e \<Rightarrow> failed (error_line ''tool-catalog'' e) fs
       | Inr cat \<Rightarrow>
           if Conformance cat \<noteq> [] then findings_on (violation_lines (Conformance cat)) fs
           else (case cat_JSON ev cat of
                   Inl e \<Rightarrow> failed (error_line ''tool-catalog'' e) fs
                 | Inr body \<Rightarrow>
                     (let dir = flag_string fl ''out''; files = catalog_files ev dir body (Markdown (cvIndent ev) cat)
                      in if flag_bool fl ''check'' then check_catalog files cat fs
                         else save_catalog (cvHost ev) dir files cat fs)))"

definition rule_summaries :: "Rule list \<Rightarrow> RuleSummary list" where
  "rule_summaries rules =
     map (\<lambda>r. \<lparr>rsID = rID r, rsSeverity = rSeverity r, rsSummary = rSummary r, rsCitation = rCitation r,
               rsLegacy = rLegacy r\<rparr>) rules"

fun write_knowledge :: "mcp_env \<Rightarrow> string \<Rightarrow> kb_file list \<Rightarrow> tree \<Rightarrow> string option \<times> tree" where
  "write_knowledge host out [] fs = (None, fs)"
| "write_knowledge host out (f # rest) fs =
     (let path = Join [out, kfPath f] in
      case evMkdir host (path_dir path) of
        Some e \<Rightarrow> (Some e, fs)
      | None \<Rightarrow>
          (case evWrite host path of
             Some e \<Rightarrow> (Some (''write '' @ kfPath f @ '': '' @ e), fs)
           | None \<Rightarrow> write_knowledge host out rest (fs(path \<mapsto> kfContent f))))"

definition check_knowledge :: "string \<Rightarrow> kb_file list \<Rightarrow> tree \<Rightarrow> outcome" where
  "check_knowledge out files fs =
     (let bad = map kfPath (filter (\<lambda>f. stale fs (Join [out, kfPath f], kfContent f)) files) in
      if bad \<noteq> [] then
        findings_on (text_lines ((''gotools knowledge: '' @ itoa (length bad) @ '' file(s) are stale or missing:'')
          # map (\<lambda>p. ''  '' @ p) (sort_strings bad) @ [''run `make knowledge` and commit the result''])) fs
      else done_ok (text_lines [''OK '' @ emdash @ '' the knowledge base is current ('' @ itoa (length files) @ '' files)'']) fs)"

definition save_knowledge :: "mcp_env \<Rightarrow> string \<Rightarrow> kb_file list \<Rightarrow> tree \<Rightarrow> outcome" where
  "save_knowledge host out files fs =
     (case write_knowledge host out files fs of
        (Some e, fs') \<Rightarrow> failed (error_line ''knowledge'' e) fs'
      | (None, fs') \<Rightarrow>
          done_ok (text_lines ((''wrote '' @ itoa (length files) @ '' file(s) to '' @ out)
            # map (\<lambda>f. ''  '' @ pad_right 42 (kfPath f) @ '' '' @ pad_left 6 (itoa (length (kfContent f))) @ '' bytes'') files)) fs')"

definition knowledge_flags :: flag_set where
  "knowledge_flags =
     [(''docs'', FString ''../new-template''), (''out'', FString ''../packages/knowledge''), (''check'', FBool False)]"

definition knowledge_files :: "cli_env \<Rightarrow> string \<Rightarrow> tree \<Rightarrow> string + kb_file list" where
  "knowledge_files ev docs fs =
     kb_Build (read_file fs) (cvDigest ev) (load_at (cvHost ev) docs) docs (rule_summaries (shipped_rules ev ''.''))
       (cvReferences ev)"

definition cmdKnowledge :: "cli_env \<Rightarrow> string list \<Rightarrow> tree \<Rightarrow> outcome" where
  "cmdKnowledge ev args fs =
     with_flags ev ''knowledge'' knowledge_flags args fs (\<lambda>fl.
       case knowledge_files ev (flag_string fl ''docs'') fs of
         Inl e \<Rightarrow> failed (error_line ''knowledge'' e) fs
       | Inr files \<Rightarrow>
           if flag_bool fl ''check'' then check_knowledge (flag_string fl ''out'') files fs
           else save_knowledge (cvHost ev) (flag_string fl ''out'') files fs)"

section \<open>mcp and the dispatch\<close>

text \<open>The outcome of serving is what remains of its error after a cancellation has been taken as a clean end.\<close>

definition cmdMCP :: "cli_env \<Rightarrow> string list \<Rightarrow> tree \<Rightarrow> outcome" where
  "cmdMCP ev args fs =
     with_flags ev ''mcp'' [(''root'', FString ''.'')] args fs (\<lambda>fl.
       case cvServe ev (flag_string fl ''root'') of
         Some e \<Rightarrow> failed (error_line ''mcp'' e) fs
       | None \<Rightarrow> done_ok [] fs)"

definition usage_text :: string where
  "usage_text =
     text_lines [
     ''gotools '' @ emdash @ '' n-api-template analysis for the dakcoder agent'',
     [],
     ''USAGE'',
     ''  gotools lint               [flags]   check template compliance'',
     ''  gotools legacy-audit       [flags]   detect pre-template (pao-generation) patterns'',
     ''  gotools resource-scaffold  [flags]   write a CRUD resource from a spec'',
     ''  gotools project-scaffold   [flags]   create a new service from a spec'',
     ''  gotools fx-wire            [flags]   register a constructor in bootstrapper.go'',
     ''  gotools repo-map           [flags]   module, package tree, exported symbols, FX graph'',
     ''  gotools routes             [flags]   every registered route; --save before a migration,'',
     ''                                       --against after it, to prove none were lost'',
     ''  gotools db-roundtrip-audit [flags]   per-method database round trips, N+1s first'',
     ''  gotools validation-audit   [flags]   request fields and what their validate tags miss'',
     ''  gotools temporal-audit     [flags]   work on the request path that may belong off it'',
     ''  gotools lib-version-check  [flags]   CEPT library drift (reports only, never updates)'',
     ''  gotools doc-check          [flags]   verify rule citations against skill.md / SOP.md'',
     ''  gotools tool-catalog       [flags]   write contract C1 (the published tool schemas)'',
     ''  gotools knowledge          [flags]   build the agent's knowledge base from skill.md / SOP.md'',
     ''  gotools mcp                [flags]   serve the tools over MCP on stdio'',
     ''  gotools rules              [flags]   list the rule set'',
     ''  gotools version'',
     [],
     ''LINT FLAGS'',
     ''  --root DIR        workspace root (default \".\")'',
     ''  --paths a,b       scope blocking to these files; findings elsewhere are'',
     ''                    reported but do not fail the run'',
     ''  --only id1,id2    run only these rules'',
     ''  --format text|json'',
     ''  --quiet           suppress the summary line'',
     [],
     ''SCAFFOLD FLAGS'',
     ''  --root DIR        workspace root (default \".\")'',
     ''  --spec FILE       JSON spec, or - to read stdin'',
     ''  --dry-run         print what would be written without writing it'',
     ''  --format text|json'',
     [],
     ''AUDIT FLAGS (db-roundtrip-audit, validation-audit, temporal-audit, lib-version-check)'',
     ''  --root DIR        workspace root (default \".\")'',
     ''  --format text|json'',
     ''  --all             audits only: include entries whose verdict is already ok'',
     ''  --offline         lib-version-check only: skip the registry, report supersession'',
     ''  --timeout D       lib-version-check only: per-module lookup timeout (default 30s)'',
     [],
     ''  These are reports. They always exit 0; none of them gates a build.'',
     [],
     ''REPO-MAP FLAGS'',
     ''  --root DIR        workspace root (default \".\")'',
     ''  --package DIR     narrow to one package directory, in full detail'',
     ''  --max-tokens N    size cap; 0 for the default (4000), -1 for none'',
     ''  --format text|json'',
     [],
     ''FX-WIRE FLAGS'',
     ''  --root DIR        workspace root (default \".\")'',
     ''  --kind KIND       repo | handler'',
     ''  --ctor NAME       constructor name, e.g. NewPensionHandler'',
     ''  --dry-run         print the patched file without writing it'',
     ''  --format text|json'',
     [],
     ''DOC-CHECK FLAGS'',
     ''  --docs DIR        directory holding skill.md and SOP.md (default \"../new-template\")'',
     ''  --manifest PATH   pinned manifest (default \"docs/doc-manifest.json\")'',
     ''  --update          rewrite the manifest, then review the diff'',
     ''  --format text|json'',
     [],
     ''TOOL-CATALOG FLAGS'',
     ''  --out DIR         output directory (default \"docs\")'',
     ''  --check           verify the committed catalogue is current instead of writing'',
     [],
     ''KNOWLEDGE FLAGS'',
     ''  --docs DIR        directory holding skill.md and SOP.md (default \"../new-template\")'',
     ''  --out DIR         knowledge-base root (default \"../packages/knowledge\")'',
     ''  --check           verify the committed knowledge base is current'',
     [],
     ''EXIT CODES'',
     ''  0  clean          1  violations found          2  gotools itself failed'']"

definition run :: "cli_env \<Rightarrow> string list \<Rightarrow> tree \<Rightarrow> outcome" where
  "run ev args fs =
     (case args of
        [] \<Rightarrow> failed usage_text fs
      | c # rest \<Rightarrow>
          if c = ''lint'' then cmdLint ev rest False fs
          else if c = ''legacy-audit'' then cmdLint ev rest True fs
          else if c = ''resource-scaffold'' then cmdResourceScaffold ev rest fs
          else if c = ''project-scaffold'' then cmdProjectScaffold ev rest fs
          else if c = ''fx-wire'' then cmdFxWire ev rest fs
          else if c = ''repo-map'' then cmdRepoMap ev rest fs
          else if c = ''routes'' then cmdRoutes ev rest fs
          else if c = ''db-roundtrip-audit'' then cmdDBRoundTripAudit ev rest fs
          else if c = ''validation-audit'' then cmdValidationAudit ev rest fs
          else if c = ''temporal-audit'' then cmdTemporalAudit ev rest fs
          else if c = ''lib-version-check'' then cmdLibVersionCheck ev rest fs
          else if c = ''doc-check'' then cmdDocCheck ev rest fs
          else if c = ''tool-catalog'' then cmdToolCatalog ev rest fs
          else if c = ''knowledge'' then cmdKnowledge ev rest fs
          else if c = ''mcp'' then cmdMCP ev rest fs
          else if c = ''rules'' then cmdRules ev rest fs
          else if c \<in> set [''version'', ''--version'', ''-v''] then done_ok (cvVersion ev @ [CHR 0x0A]) fs
          else if c \<in> set [''help'', ''--help'', ''-h''] then done_ok usage_text fs
          else failed (''gotools: unknown command '' @ go_quote c @ [CHR 0x0A, CHR 0x0A] @ usage_text) fs)"

end
