(* ===== verification/CliProps.thy ===== *)
theory CliProps
  imports Cli
begin

text \<open>
  What the command line promises: which runs leave the tree alone, what the exit codes mean, that the agent and a
  developer at the shell get the same verdict and the same files, and that a saved baseline or a
  written document passes its own check.
\<close>

section \<open>Outcomes\<close>

lemmas exit_codes = exitOK_def exitFindings_def exitError_def

lemma outcome_simps [simp]:
  "ocTree (done_ok out fs) = fs" "ocTree (failed err fs) = fs" "ocTree (findings_on err fs) = fs"
  "ocCode (done_ok out fs) = exitOK" "ocCode (failed err fs) = exitError" "ocCode (findings_on err fs) = exitFindings"
  "ocTree (writeJSON ev name v fs) = fs" "ocTree (print_as ev name format v human fs) = fs"
  by (simp_all add: done_ok_def failed_def findings_on_def writeJSON_def print_as_def split: sum.split)

lemma print_as_code:
  "ocCode (print_as ev name format v human fs) = (if format = ''json'' \<and> isl (cvJson ev v) then exitError else exitOK)"
  by (auto simp: print_as_def writeJSON_def split: sum.split)

lemma with_flags_Inr:
  "Parse (cvDuration ev) fl args = Inr (fl', rest) \<Longrightarrow> with_flags ev name fl args fs k = k fl'"
  by (simp add: with_flags_def)

lemma with_flags_rule:
  assumes "\<And>e. P (failed (cvFlagError ev name e) fs)"
    and "\<And>fl' rest. Parse (cvDuration ev) fl args = Inr (fl', rest) \<Longrightarrow> P (k fl')"
  shows "P (with_flags ev name fl args fs k)"
  using assms by (auto simp: with_flags_def split: sum.split)

section \<open>Which runs write\<close>

text \<open>The flags of a command.\<close>

definition flags_of :: "string \<Rightarrow> flag_set" where
  "flags_of c =
     (if c = ''lint'' \<or> c = ''legacy-audit'' then lint_flags
      else if c = ''resource-scaffold'' \<or> c = ''project-scaffold'' then scaffold_flags
      else if c = ''fx-wire'' then wire_flags
      else if c = ''routes'' then routes_flags
      else if c = ''doc-check'' then doc_flags
      else if c = ''tool-catalog'' then catalog_flags
      else if c = ''knowledge'' then knowledge_flags
      else [])"

definition may_write :: "string \<Rightarrow> flag_set \<Rightarrow> bool" where
  "may_write c fl \<longleftrightarrow>
     c \<in> set [''resource-scaffold'', ''project-scaffold'', ''fx-wire''] \<and> \<not> flag_bool fl ''dry-run''
     \<or> c \<in> set [''tool-catalog'', ''knowledge''] \<and> \<not> flag_bool fl ''check''
     \<or> c = ''doc-check'' \<and> flag_bool fl ''update''
     \<or> c = ''routes'' \<and> flag_string fl ''save'' \<noteq> []"

lemma audit_command_tree [simp]: "ocTree (audit_command ev name extra args fs report) = fs"
  unfolding audit_command_def by (rule with_flags_rule) (auto split: sum.split prod.split)

lemma reports_read_only:
  "ocTree (cmdLint ev args legacy fs) = fs" "ocTree (cmdRules ev args fs) = fs" "ocTree (cmdRepoMap ev args fs) = fs"
  "ocTree (cmdDBRoundTripAudit ev args fs) = fs" "ocTree (cmdValidationAudit ev args fs) = fs"
  "ocTree (cmdTemporalAudit ev args fs) = fs" "ocTree (cmdLibVersionCheck ev args fs) = fs" "ocTree (cmdMCP ev args fs) = fs"
proof -
  show "ocTree (cmdLint ev args legacy fs) = fs"
    unfolding cmdLint_def by (rule with_flags_rule) (auto simp: Let_def split: sum.split)
  show "ocTree (cmdRules ev args fs) = fs"
    unfolding cmdRules_def by (rule with_flags_rule) (auto simp: Let_def split: sum.split)
  show "ocTree (cmdRepoMap ev args fs) = fs"
    unfolding cmdRepoMap_def by (rule with_flags_rule) (auto simp: Let_def split: sum.split)
  show "ocTree (cmdMCP ev args fs) = fs"
    unfolding cmdMCP_def by (rule with_flags_rule) (auto split: option.split)
qed (simp_all add: cmdDBRoundTripAudit_def cmdValidationAudit_def cmdTemporalAudit_def cmdLibVersionCheck_def)

lemma compareRoutes_tree [simp]: "ocTree (compareRoutes ev path now format fs) = fs"
  by (auto simp: compareRoutes_def Let_def split: sum.split)

lemma doc_outcome_tree [simp]: "ocTree (doc_outcome ev fl rp notice fs) = fs"
  by (auto simp: doc_outcome_def split: sum.split)

lemma checks_read_only [simp]:
  "ocTree (check_catalog files cat fs) = fs" "ocTree (check_knowledge out files' fs) = fs"
  by (simp_all add: check_catalog_def check_knowledge_def Let_def)

lemma cli_finish_dry: "flag_bool fl ''dry-run'' \<Longrightarrow> ocTree (cli_finish ev name fl issues res fs) = fs"
  by (auto simp: cli_finish_def Let_def split: sum.split)

lemma writers_keep_promise:
  assumes "\<And>fl rest. Parse (cvDuration ev) (flags_of c) args = Inr (fl, rest) \<Longrightarrow> \<not> may_write c fl"
  shows "c = ''resource-scaffold'' \<Longrightarrow> ocTree (cmdResourceScaffold ev args fs) = fs"
    and "c = ''project-scaffold'' \<Longrightarrow> ocTree (cmdProjectScaffold ev args fs) = fs"
    and "c = ''fx-wire'' \<Longrightarrow> ocTree (cmdFxWire ev args fs) = fs"
    and "c = ''routes'' \<Longrightarrow> ocTree (cmdRoutes ev args fs) = fs"
    and "c = ''doc-check'' \<Longrightarrow> ocTree (cmdDocCheck ev args fs) = fs"
    and "c = ''tool-catalog'' \<Longrightarrow> ocTree (cmdToolCatalog ev args fs) = fs"
    and "c = ''knowledge'' \<Longrightarrow> ocTree (cmdKnowledge ev args fs) = fs"
proof -
  note p = assms [unfolded flags_of_def may_write_def, simplified]
  show "ocTree (cmdResourceScaffold ev args fs) = fs" if "c = ''resource-scaffold''"
    unfolding cmdResourceScaffold_def
    by (rule with_flags_rule) (use p that in \<open>auto simp: Let_def cli_finish_dry split: option.split sum.split\<close>)
  show "ocTree (cmdProjectScaffold ev args fs) = fs" if "c = ''project-scaffold''"
    unfolding cmdProjectScaffold_def
    by (rule with_flags_rule) (use p that in \<open>auto simp: Let_def cli_finish_dry split: option.split sum.split\<close>)
  show "ocTree (cmdFxWire ev args fs) = fs" if "c = ''fx-wire''"
    unfolding cmdFxWire_def
    by (rule with_flags_rule) (use p that in \<open>auto simp: Let_def put_all_def split: option.split sum.split\<close>)
  show "ocTree (cmdRoutes ev args fs) = fs" if "c = ''routes''"
    unfolding cmdRoutes_def
    by (rule with_flags_rule) (use p that in \<open>auto simp: Let_def split: option.split sum.split\<close>)
  show "ocTree (cmdDocCheck ev args fs) = fs" if "c = ''doc-check''"
    unfolding cmdDocCheck_def
    by (rule with_flags_rule) (use p that in \<open>auto simp: Let_def split: option.split sum.split\<close>)
  show "ocTree (cmdToolCatalog ev args fs) = fs" if "c = ''tool-catalog''"
    unfolding cmdToolCatalog_def
    by (rule with_flags_rule) (use p that in \<open>auto simp: Let_def split: option.split sum.split\<close>)
  show "ocTree (cmdKnowledge ev args fs) = fs" if "c = ''knowledge''"
    unfolding cmdKnowledge_def
    by (rule with_flags_rule) (use p that in \<open>auto simp: Let_def split: option.split sum.split\<close>)
qed



section \<open>Exit codes\<close>

lemma code_rule:
  assumes "\<And>fl' rest. Parse (cvDuration ev) fl args = Inr (fl', rest) \<Longrightarrow> ocCode (k fl') \<in> A" and "exitError \<in> A"
  shows "ocCode (with_flags ev name fl args fs k) \<in> A"
  by (rule with_flags_rule) (use assms in auto)

definition report_codes :: "nat set" where
  "report_codes = {exitOK, exitError}"

definition gate_codes :: "nat set" where
  "gate_codes = {exitOK, exitFindings, exitError}"

lemma codes_simps [simp]:
  "exitOK \<in> report_codes" "exitError \<in> report_codes" "exitOK \<in> gate_codes" "exitError \<in> gate_codes"
  "exitFindings \<in> gate_codes"
  by (simp_all add: report_codes_def gate_codes_def)

lemma print_as_codes [simp]:
  "ocCode (print_as ev name format v human fs) \<in> report_codes" "ocCode (print_as ev name format v human fs) \<in> gate_codes"
  by (simp_all add: print_as_code)

lemma audit_command_code: "ocCode (audit_command ev name extra args fs report) \<in> report_codes"
  unfolding audit_command_def by (rule code_rule) (auto simp: print_as_code split: sum.split prod.split)

lemma cli_finish_code: "ocCode (cli_finish ev name fl issues res fs) \<in> report_codes"
  by (auto simp: cli_finish_def print_as_code Let_def split: sum.split prod.split option.split)

lemma report_commands_code:
  "ocCode (cmdRules ev args fs) \<in> report_codes" "ocCode (cmdRepoMap ev args fs) \<in> report_codes"
  "ocCode (cmdMCP ev args fs) \<in> report_codes" "ocCode (cmdResourceScaffold ev args fs) \<in> report_codes"
  "ocCode (cmdProjectScaffold ev args fs) \<in> report_codes" "ocCode (cmdFxWire ev args fs) \<in> report_codes"
  "ocCode (cmdDBRoundTripAudit ev args fs) \<in> report_codes" "ocCode (cmdValidationAudit ev args fs) \<in> report_codes"
  "ocCode (cmdTemporalAudit ev args fs) \<in> report_codes" "ocCode (cmdLibVersionCheck ev args fs) \<in> report_codes"
proof -
  show "ocCode (cmdRules ev args fs) \<in> report_codes"
    unfolding cmdRules_def by (rule code_rule) (auto simp: Let_def split: sum.split)
  show "ocCode (cmdRepoMap ev args fs) \<in> report_codes"
    unfolding cmdRepoMap_def by (rule code_rule) (auto simp: Let_def print_as_code split: sum.split)
  show "ocCode (cmdMCP ev args fs) \<in> report_codes"
    unfolding cmdMCP_def by (rule code_rule) (auto split: option.split)
  show "ocCode (cmdResourceScaffold ev args fs) \<in> report_codes"
    unfolding cmdResourceScaffold_def
    by (rule code_rule) (use cli_finish_code in \<open>auto simp: Let_def split: sum.split option.split\<close>)
  show "ocCode (cmdProjectScaffold ev args fs) \<in> report_codes"
    unfolding cmdProjectScaffold_def
    by (rule code_rule) (use cli_finish_code in \<open>auto simp: Let_def split: sum.split option.split\<close>)
  show "ocCode (cmdFxWire ev args fs) \<in> report_codes"
    unfolding cmdFxWire_def
    by (rule code_rule) (auto simp: Let_def print_as_code split: sum.split prod.split)
qed (simp_all add: cmdDBRoundTripAudit_def cmdValidationAudit_def cmdTemporalAudit_def cmdLibVersionCheck_def
       audit_command_code)

lemma compareRoutes_code [simp]: "ocCode (compareRoutes ev path now format fs) \<in> gate_codes"
proof (cases "read_file fs path")
  case Inr
  then show ?thesis by (cases "evDecode (cvHost ev) (projr (read_file fs path))") (simp_all add: compareRoutes_def Let_def)
qed (simp add: compareRoutes_def)

lemma gate_commands_code:
  "ocCode (cmdLint ev args legacy fs) \<in> gate_codes" "ocCode (cmdRoutes ev args fs) \<in> gate_codes"
  "ocCode (cmdDocCheck ev args fs) \<in> gate_codes" "ocCode (cmdToolCatalog ev args fs) \<in> gate_codes"
  "ocCode (cmdKnowledge ev args fs) \<in> gate_codes"
proof -
  show "ocCode (cmdLint ev args legacy fs) \<in> gate_codes"
    unfolding cmdLint_def by (rule code_rule) (auto simp: Let_def split: sum.split)
  show "ocCode (cmdRoutes ev args fs) \<in> gate_codes"
    unfolding cmdRoutes_def
    by (rule code_rule)
      (simp_all add: Let_def split: sum.split prod.split option.split)
  have "ocCode (doc_outcome ev fl rp notice t) \<in> gate_codes" for fl rp notice t
    by (auto simp: doc_outcome_def split: sum.split)
  then show "ocCode (cmdDocCheck ev args fs) \<in> gate_codes"
    unfolding cmdDocCheck_def by (intro code_rule) (auto simp: Let_def split: sum.split prod.split option.split)
  show "ocCode (cmdToolCatalog ev args fs) \<in> gate_codes"
    unfolding cmdToolCatalog_def
    by (rule code_rule)
      (auto simp: Let_def check_catalog_def save_catalog_def split: sum.split prod.split option.split)
  show "ocCode (cmdKnowledge ev args fs) \<in> gate_codes"
    unfolding cmdKnowledge_def
    by (rule code_rule)
      (auto simp: Let_def check_knowledge_def save_knowledge_def split: sum.split prod.split option.split)
qed

text \<open>The commands that answer a yes-or-no question.\<close>

definition gates :: "string list" where
  "gates = [''lint'', ''legacy-audit'', ''routes'', ''doc-check'', ''tool-catalog'', ''knowledge'']"

lemma run_code: "ocCode (run ev (c # args) fs) \<in> (if c \<in> set gates then gate_codes else report_codes)"
  by (simp add: run_def gates_def report_commands_code gate_commands_code)

text \<open>The exit code of a run is 0, 1 or 2, as the usage text says; 1, a violation found, comes from the linters, the route
  comparison and the three checks of published documents only, so that no report, scaffold or wiring fails a build
  with it.\<close>

theorem exit_code_contract:
  "ocCode (run ev args fs) \<in> (if args \<noteq> [] \<and> hd args \<in> set gates then {0, 1, 2} else {0, 2})"
proof (cases args)
  case Nil
  then show ?thesis by (simp add: run_def exit_codes)
next
  case (Cons c rest)
  then show ?thesis
    using run_code [of ev c rest fs] by (auto simp: report_codes_def gate_codes_def exit_codes split: if_splits)
qed

section \<open>Flags of a run\<close>

lemma Parse_run_args:
  assumes "list_all (settable duration fl) nvs"
  shows "Parse duration fl (map flag_arg nvs) = Inr (fold (set_flag duration) nvs fl, [])"
  using Parse_args [OF assms, of "[]"] by simp

lemmas flag_eval =
  settable_def set_flag_def flag_name_def flag_string_def flag_bool_def flag_int_def

definition dry_text :: "bool \<Rightarrow> string" where
  "dry_text dry = (if dry then ''true'' else ''false'')"

lemma ParseBool_dry [simp]: "ParseBool (dry_text dry) = Some dry"
  by (simp add: ParseBool_def dry_text_def)

section \<open>The agent and the developer\<close>

lemma trim_by_eq_Nil: "trim_by p s = [] \<longleftrightarrow> (\<forall>c \<in> set s. p c)"
proof
  assume "trim_by p s = []"
  then have all: "\<forall>c \<in> set (dropWhile p s). p c"
    by (auto simp: trim_by_def trim_left_by_def trim_right_by_def dropWhile_eq_Nil_conv)
  have "dropWhile p s = []"
  proof (rule ccontr)
    assume ne: "dropWhile p s \<noteq> []"
    then show False using all hd_dropWhile [OF ne] by simp
  qed
  then show "\<forall>c \<in> set s. p c" by (simp add: dropWhile_eq_Nil_conv)
next
  assume "\<forall>c \<in> set s. p c"
  then show "trim_by p s = []"
    by (auto simp: trim_by_def trim_left_by_def trim_right_by_def dropWhile_eq_Nil_conv dest: set_dropWhileD)
qed

text \<open>An item of a comma-separated list.\<close>

definition list_item :: "string \<Rightarrow> bool" where
  "list_item s \<longleftrightarrow> s \<noteq> [] \<and> trim_space s = s \<and> CHR '','' \<notin> set s"

lemma splitList_join: "list_all list_item ss \<Longrightarrow> splitList (str_join '','' ss) = ss"
proof (cases ss)
  case (Cons s rest)
  assume ok: "list_all list_item ss"
  then have s: "s \<noteq> []" "trim_space s = s" using Cons by (auto simp: list_item_def)
  then have "hd s \<in> set s" "\<not> is_space (hd s)" using trim_by_hd [of is_space s] by auto
  moreover have "set s \<subseteq> set (str_join '','' ss)" using Cons by (cases rest) auto
  ultimately have "trim_space (str_join '','' ss) \<noteq> []" by (auto simp: trim_by_eq_Nil)
  moreover have "split_char (CHR '','') (str_join '','' ss) = ss"
    using ok Cons by (intro split_join_char) (auto simp: list_all_iff list_item_def)
  moreover have "map trim_space ss = ss" "filter (\<lambda>p. p \<noteq> []) ss = ss"
    using ok by (auto simp: list_all_iff list_item_def intro: map_idI filter_True)
  ultimately show ?thesis by (simp add: splitList_def)
qed (simp add: splitList_def)

definition lint_args :: "string \<Rightarrow> string list \<Rightarrow> string list \<Rightarrow> string list" where
  "lint_args root paths only =
     map flag_arg [(''root'', root), (''paths'', str_join '','' paths), (''only'', str_join '','' only)]"

lemma Parse_lint_args:
  "Parse duration lint_flags (lint_args root paths only) =
     Inr ([(''root'', FString root), (''paths'', FString (str_join '','' paths)), (''only'', FString (str_join '','' only)),
           (''format'', FString ''text''), (''quiet'', FBool False)], [])"
  unfolding lint_args_def by (subst Parse_run_args) (simp_all add: flag_eval lint_flags_def)

text \<open>C15: the agent and CI never disagree: for the same root, paths and rules the lint tools fail exactly when the command
  exits with 2, and else the command exits with 0 when the tool answers that all is well and with 1
  when it does not.\<close>

theorem agent_and_ci_agree:
  assumes "rootFor base req = Inr root" and "list_all list_item paths" and "list_all list_item only"
  shows "ocCode (run ev ((if legacy then ''legacy-audit'' else ''lint'') # lint_args root paths only) fs) =
    (case lintHandler (cvHost ev) base legacy req paths only of
       Inl _ \<Rightarrow> 2 | Inr out \<Rightarrow> if loOK out then 0 else 1)"
proof -
  have "run ev ((if legacy then ''legacy-audit'' else ''lint'') # lint_args root paths only) fs
      = cmdLint ev (lint_args root paths only) legacy fs"
    by (simp add: run_def)
  moreover have "ocCode (cmdLint ev (lint_args root paths only) legacy fs) =
      (case lintHandler (cvHost ev) base legacy req paths only of Inl _ \<Rightarrow> 2 | Inr out \<Rightarrow> if loOK out then 0 else 1)"
    unfolding cmdLint_def with_flags_Inr [OF Parse_lint_args]
    using assms(1)
    by (simp add: flag_eval format_ok_def lint_options_def splitList_join [OF assms(2)] splitList_join [OF assms(3)]
        lintHandler_def exit_codes Let_def split: sum.split) auto
  ultimately show ?thesis by simp
qed

theorem agent_and_ci_agree_witness:
  "\<forall>ev fs. ocCode (run ev [''legacy-audit'', ''--root=/srv/ws/api'', ''--paths=handler/user.go,main.go'', ''--only=''] fs) =
    (case lintHandler (cvHost ev) ''/srv/ws'' True ''api'' [''handler/user.go'', ''main.go''] [] of
       Inl _ \<Rightarrow> 2 | Inr out \<Rightarrow> if loOK out then 0 else 1)"
proof (intro allI)
  fix ev :: cli_env and fs :: tree
  have "rootFor ''/srv/ws'' ''api'' = Inr ''/srv/ws/api''" "list_all list_item [''handler/user.go'', ''main.go'']"
    "list_all list_item []" by code_simp+
  note t = agent_and_ci_agree [OF this, of ev True fs]
  have "lint_args ''/srv/ws/api'' [''handler/user.go'', ''main.go''] []
      = [''--root=/srv/ws/api'', ''--paths=handler/user.go,main.go'', ''--only='']" by code_simp
  then show "ocCode (run ev [''legacy-audit'', ''--root=/srv/ws/api'', ''--paths=handler/user.go,main.go'', ''--only=''] fs) =
      (case lintHandler (cvHost ev) ''/srv/ws'' True ''api'' [''handler/user.go'', ''main.go''] [] of
         Inl _ \<Rightarrow> 2 | Inr out \<Rightarrow> if loOK out then 0 else 1)"
    using t by simp
qed

definition scaffold_args :: "string \<Rightarrow> bool \<Rightarrow> string list" where
  "scaffold_args root dry = map flag_arg [(''root'', root), (''spec'', ''-''), (''dry-run'', dry_text dry)]"

lemma Parse_scaffold_args:
  "Parse duration scaffold_flags (scaffold_args root dry) =
     Inr ([(''root'', FString root), (''spec'', FString ''-''), (''dry-run'', FBool dry), (''format'', FString ''text'')], [])"
  unfolding scaffold_args_def by (subst Parse_run_args) (simp_all add: flag_eval scaffold_flags_def)

definition wire_args :: "string \<Rightarrow> string \<Rightarrow> string \<Rightarrow> bool \<Rightarrow> string list" where
  "wire_args root kind ctor dry =
     map flag_arg [(''root'', root), (''kind'', kind), (''ctor'', ctor), (''dry-run'', dry_text dry)]"

lemma Parse_wire_args:
  "Parse duration wire_flags (wire_args root kind ctor dry) =
     Inr ([(''root'', FString root), (''kind'', FString kind), (''ctor'', FString ctor), (''dry-run'', FBool dry),
           (''format'', FString ''text'')], [])"
  unfolding wire_args_def by (subst Parse_run_args) (simp_all add: flag_eval wire_flags_def)

text \<open>A run and a call that did the same: the same tree, and an exit code of 2 exactly for an error.\<close>

definition same_deed :: "outcome \<Rightarrow> ('e + 'a) \<times> tree \<Rightarrow> bool" where
  "same_deed r h \<longleftrightarrow> ocTree r = snd h \<and> ocCode r = (if isl (fst h) then exitError else exitOK)"

lemma cli_finish_agrees:
  assumes "flag_string fl ''root'' = root" "flag_string fl ''format'' = ''text''" "flag_bool fl ''dry-run'' = dry"
  shows "same_deed (cli_finish ev name fl issues res fs) (finish_scaffold (cvHost ev) root dry res fs)"
  using assms
  by (auto simp: same_deed_def cli_finish_def finish_scaffold_def print_as_code Let_def split: sum.split prod.split option.split)

lemma resource_agrees:
  assumes "rootFor base req = Inr root" "cvStdin ev = Inr body" "cvResource ev body = Inr s"
  shows "same_deed (run ev (''resource-scaffold'' # scaffold_args root dry) fs)
    (resourceScaffoldHandler (cvHost ev) base s req dry fs)"
proof -
  have "run ev (''resource-scaffold'' # scaffold_args root dry) fs = cmdResourceScaffold ev (scaffold_args root dry) fs"
    by (simp add: run_def)
  then show ?thesis
    unfolding cmdResourceScaffold_def with_flags_Inr [OF Parse_scaffold_args]
    using assms
    by (simp add: resourceScaffoldHandler_def validate_flags_def readSpec_def format_ok_def cli_finish_agrees flag_eval
        Let_def trim_by_eq_Nil is_space_def)
qed

lemma project_agrees:
  assumes "rootFor base req = Inr root" "cvStdin ev = Inr body" "cvProject ev body = Inr (p, s)"
  shows "same_deed (run ev (''project-scaffold'' # scaffold_args root dry) fs)
    (projectScaffoldHandler (cvHost ev) base p s req dry fs)"
proof -
  have "run ev (''project-scaffold'' # scaffold_args root dry) fs = cmdProjectScaffold ev (scaffold_args root dry) fs"
    by (simp add: run_def)
  then show ?thesis
    unfolding cmdProjectScaffold_def with_flags_Inr [OF Parse_scaffold_args]
    using assms
    by (simp add: projectScaffoldHandler_def validate_flags_def readSpec_def format_ok_def cli_finish_agrees flag_eval
        Let_def trim_by_eq_Nil is_space_def)
qed

lemma wire_agrees:
  assumes "rootFor base req = Inr root" "kind \<noteq> []" "ctor \<noteq> []"
  shows "same_deed (run ev (''fx-wire'' # wire_args root kind ctor dry) fs)
    (fxWireHandler (cvHost ev) base kind ctor req dry fs)"
proof -
  have "run ev (''fx-wire'' # wire_args root kind ctor dry) fs = cmdFxWire ev (wire_args root kind ctor dry) fs"
    by (simp add: run_def)
  moreover have "same_deed (cmdFxWire ev (wire_args root kind ctor dry) fs) (fxWireHandler (cvHost ev) base kind ctor req dry fs)"
    unfolding cmdFxWire_def with_flags_Inr [OF Parse_wire_args]
    using assms
    by (auto simp: same_deed_def fxWireHandler_def format_ok_def print_as_code flag_eval put_all_def Let_def
        split: sum.split prod.split)
  ultimately show ?thesis by simp
qed

text \<open>C16: a developer at the shell gets what the agent gets: resource-scaffold, project-scaffold and fx-wire leave the
  same tree behind as the tools do for the same specification, kind and constructor, dry run or not, and exit
  with 2 exactly when the tool answers with an error.\<close>

theorem shell_does_what_agent_does:
  assumes "rootFor base req = Inr root" and "cvStdin ev = Inr body"
    and "cvResource ev body = Inr s" and "cvProject ev body = Inr (p, t)" and "kind \<noteq> []" and "ctor \<noteq> []"
  shows "same_deed (run ev (''resource-scaffold'' # scaffold_args root dry) fs)
      (resourceScaffoldHandler (cvHost ev) base s req dry fs)
    \<and> same_deed (run ev (''project-scaffold'' # scaffold_args root dry) fs)
      (projectScaffoldHandler (cvHost ev) base p t req dry fs)
    \<and> same_deed (run ev (''fx-wire'' # wire_args root kind ctor dry) fs)
      (fxWireHandler (cvHost ev) base kind ctor req dry fs)"
  using resource_agrees [OF assms(1-3)] project_agrees [OF assms(1,2,4)] wire_agrees [OF assms(1,5,6)] by blast

section \<open>A saved baseline passes its own check\<close>

lemma Parse_routes_save:
  "Parse duration routes_flags [flag_arg (''save'', p)] =
     Inr ([(''root'', FString ''.''), (''save'', FString p), (''against'', FString []), (''format'', FString ''text'')], [])"
  by (subst Parse_arg) (simp_all add: flag_eval routes_flags_def)

lemma Parse_routes_against:
  "Parse duration routes_flags [flag_arg (''against'', p)] =
     Inr ([(''root'', FString ''.''), (''save'', FString []), (''against'', FString p), (''format'', FString ''text'')], [])"
  by (subst Parse_arg) (simp_all add: flag_eval routes_flags_def)

lemma writeInventory_ok:
  assumes "writeInventory host path iv fs = (None, fs')"
  obtains body where "evEncode host iv = Inr body" "fs' path = Some (body @ [CHR 0x0A])"
  using assms by (auto simp: writeInventory_def Let_def split: option.splits sum.splits if_splits)

text \<open>If decoding gives back the inventory that was encoded, a route inventory saved by one run is one a later run of
  the unchanged service compares with and finds nothing missing: it exits with 0.\<close>

theorem saved_routes_pass:
  assumes "\<forall>iv body. evEncode (cvHost ev) iv = Inr body \<longrightarrow> evDecode (cvHost ev) (body @ [CHR 0x0A]) = Inr iv"
    and "p \<noteq> []" and "ocCode (run ev [''routes'', flag_arg (''save'', p)] fs) = 0"
  shows "ocCode (run ev [''routes'', flag_arg (''against'', p)] (ocTree (run ev [''routes'', flag_arg (''save'', p)] fs))) = 0"
proof -
  have r: "run ev (''routes'' # args) t = cmdRoutes ev args t" for args t by (simp add: run_def)
  obtain ws where ws: "load_at (cvHost ev) ''.'' = Inr ws"
    using assms(3) unfolding r cmdRoutes_def with_flags_Inr [OF Parse_routes_save]
    by (cases "load_at (cvHost ev) ''.''") (auto simp: flag_eval exit_codes)
  obtain fs' where saved: "writeInventory (cvHost ev) p (Take ws) fs = (None, fs')"
    using assms(2,3) ws unfolding r cmdRoutes_def with_flags_Inr [OF Parse_routes_save]
    by (auto simp: flag_eval exit_codes Let_def split: prod.splits option.splits)
  have tree: "ocTree (run ev [''routes'', flag_arg (''save'', p)] fs) = fs'"
    using assms(2) ws saved unfolding r cmdRoutes_def with_flags_Inr [OF Parse_routes_save]
    by (simp add: flag_eval Let_def)
  obtain body where body: "evEncode (cvHost ev) (Take ws) = Inr body" "fs' p = Some (body @ [CHR 0x0A])"
    by (rule writeInventory_ok [OF saved])
  have "evDecode (cvHost ev) (body @ [CHR 0x0A]) = Inr (Take ws)" using assms(1) body(1) by blast
  moreover have "Compare (Take ws) (Take ws) = []"
    by (simp add: Compare_def filter_empty_conv came_across_self)
  ultimately show ?thesis
    using assms(2) ws body(2) unfolding tree unfolding r cmdRoutes_def with_flags_Inr [OF Parse_routes_against]
    by (simp add: flag_eval compareRoutes_def read_file_def print_as_code exit_codes Let_def)
qed

section \<open>Generated documents pass their own check\<close>

text \<open>A clean relative name below a directory: the directory decides a prefix, and the name follows.\<close>

definition dir_prefix :: "string \<Rightarrow> string" where
  "dir_prefix d =
     (if d = [] then []
      else (if IsAbs d then ''/'' else []) @ concat (map (\<lambda>s. s @ ''/'') (fold (clean_seg (IsAbs d)) (path_segs d) [])))"

lemma clean_plain_segs: "list_all plain_seg ss \<Longrightarrow> fold (clean_seg r) ss out = out @ ss"
  by (induction ss arbitrary: out) (simp_all add: clean_seg_def plain_seg_def)

lemma join_below: "ps \<noteq> [] \<Longrightarrow> str_join ''/'' (xs @ ps) = concat (map (\<lambda>s. s @ ''/'') xs) @ str_join ''/'' ps"
  by (induction xs) (simp_all add: str_join_Cons)

lemma Join_dir: "list_all plain_seg (path_segs p) \<Longrightarrow> Join [d, p] = dir_prefix d @ p"
proof -
  assume plain: "list_all plain_seg (path_segs p)"
  have pj: "str_join ''/'' (path_segs p) = p" by (rule join_split_char)
  have "p \<noteq> []" using plain by (auto simp: plain_seg_def)
  have rel: "\<not> IsAbs p" using plain by (cases p) (auto simp: IsAbs_def plain_seg_def split: if_splits)
  show ?thesis
  proof (cases "d = []")
    case True
    then have "Join [d, p] = Clean p" using \<open>p \<noteq> []\<close> by (simp add: Join_def)
    also have "\<dots> = p" using rel clean_plain_segs [OF plain] pj by (simp add: Clean_def)
    finally show ?thesis by (simp add: dir_prefix_def True)
  next
    case False
    define xs where "xs = fold (clean_seg (IsAbs d)) (path_segs d) []"
    have "path_segs p \<noteq> []" using pj \<open>p \<noteq> []\<close> by auto
    have "Join [d, p] = Clean (d @ CHR ''/'' # p)" using False by (simp add: Join_def)
    moreover have "IsAbs (d @ CHR ''/'' # p) = IsAbs d" using False by (cases d) (simp_all add: IsAbs_def)
    moreover have "fold (clean_seg (IsAbs d)) (path_segs (d @ CHR ''/'' # p)) [] = xs @ path_segs p"
      using clean_plain_segs [OF plain] by (simp add: split_prefix_append xs_def)
    moreover have "str_join ''/'' (xs @ path_segs p) = concat (map (\<lambda>s. s @ ''/'') xs) @ p"
      using join_below [of "path_segs p" xs] pj \<open>path_segs p \<noteq> []\<close> by simp
    moreover have "dir_prefix d = (if IsAbs d then ''/'' else []) @ concat (map (\<lambda>s. s @ ''/'') xs)"
      using False by (simp add: dir_prefix_def xs_def)
    ultimately show ?thesis using \<open>path_segs p \<noteq> []\<close> by (simp add: Clean_def Let_def)
  qed
qed

lemma write_catalog_ok:
  "write_catalog host files out fs = (None, out', fs') \<Longrightarrow> distinct (map fst files)
    \<Longrightarrow> (\<forall>pc \<in> set files. fs' (fst pc) = Some (snd pc)) \<and> (\<forall>q. q \<notin> fst ` set files \<longrightarrow> fs' q = fs q)"
proof (induction host files out fs rule: write_catalog.induct)
  case (2 host path body rest out fs)
  then have w: "evWrite host path = None"
    "write_catalog host rest (out @ text_lines [''wrote '' @ path]) (fs(path \<mapsto> body)) = (None, out', fs')"
    by (auto split: option.splits)
  have ih: "\<forall>pc \<in> set rest. fs' (fst pc) = Some (snd pc)" "\<forall>q. q \<notin> fst ` set rest \<longrightarrow> fs' q = (fs(path \<mapsto> body)) q"
    using "2.IH" [OF w] "2.prems"(2) by auto
  then have "fs' path = Some body" using "2.prems"(2) by auto
  then show ?case using ih by auto
qed simp

lemma write_knowledge_ok:
  "write_knowledge host out files fs = (None, fs') \<Longrightarrow> distinct (map (\<lambda>f. Join [out, kfPath f]) files)
    \<Longrightarrow> (\<forall>f \<in> set files. fs' (Join [out, kfPath f]) = Some (kfContent f))
      \<and> (\<forall>q. q \<notin> (\<lambda>f. Join [out, kfPath f]) ` set files \<longrightarrow> fs' q = fs q)"
proof (induction host out files fs rule: write_knowledge.induct)
  case (2 host out f rest fs)
  let ?path = "Join [out, kfPath f]"
  have w: "evMkdir host (path_dir ?path) = None" "evWrite host ?path = None"
    "write_knowledge host out rest (fs(?path \<mapsto> kfContent f)) = (None, fs')"
    using "2.prems"(1) by (auto simp: Let_def split: option.splits)
  have ih: "\<forall>g \<in> set rest. fs' (Join [out, kfPath g]) = Some (kfContent g)"
    "\<forall>q. q \<notin> (\<lambda>g. Join [out, kfPath g]) ` set rest \<longrightarrow> fs' q = (fs(?path \<mapsto> kfContent f)) q"
    using "2.IH" [OF refl w] "2.prems"(2) by auto
  then have "fs' ?path = Some (kfContent f)" using "2.prems"(2) by auto
  then show ?case using ih by auto
qed simp

text \<open>Two trees that differ in line endings only.\<close>

definition same_up_to_eol :: "tree \<Rightarrow> tree \<Rightarrow> bool" where
  "same_up_to_eol t t' \<longleftrightarrow> (\<forall>p. map_option ToLF (t p) = map_option ToLF (t' p))"

lemma not_stale: "t' p = Some b \<Longrightarrow> same_up_to_eol t t' \<Longrightarrow> \<not> stale t (p, b)"
proof -
  assume "t' p = Some b" "same_up_to_eol t t'"
  then have "map_option ToLF (t p) = Some (ToLF b)" by (simp add: same_up_to_eol_def)
  then show ?thesis by (auto simp: stale_def normaliseEOL_def)
qed

lemma Parse_check:
  "Parse duration catalog_flags [] = Inr (catalog_flags, [])" "Parse duration knowledge_flags [] = Inr (knowledge_flags, [])"
  "Parse duration catalog_flags [''--check''] = Inr ([(''out'', FString ''docs''), (''check'', FBool True)], [])"
  "Parse duration knowledge_flags [''--check''] =
     Inr ([(''docs'', FString ''../new-template''), (''out'', FString ''../packages/knowledge''), (''check'', FBool True)], [])"
  by (simp_all add: catalog_flags_def knowledge_flags_def flag_token_def cut_char_def index_char_None)

lemma catalog_names: "list_all plain_seg (path_segs ''tool-catalog.json'')" "list_all plain_seg (path_segs ''TOOL-CATALOG.md'')"
  by code_simp+

lemma catalog_paths_distinct: "distinct (map fst (catalog_files ev dir b m))"
  by (simp add: catalog_files_def Let_def Join_dir [OF catalog_names(1)] Join_dir [OF catalog_names(2)])

lemma catalog_passes:
  assumes "ocCode (run ev [''tool-catalog''] fs) = exitOK"
    and "same_up_to_eol t (ocTree (run ev [''tool-catalog''] fs))"
  shows "ocCode (run ev [''tool-catalog'', ''--check''] t) = exitOK"
proof -
  have r: "run ev (''tool-catalog'' # args) u = cmdToolCatalog ev args u" for args u by (simp add: run_def)
  note plain = r cmdToolCatalog_def with_flags_Inr [OF Parse_check(1)]
  obtain cat where cat: "catalog_Build (cvSchema ev) (cvVersion ev) (cvListed ev) = Inr cat" "Conformance cat = []"
    using assms(1) unfolding plain by (auto simp: exit_codes split: sum.splits if_splits)
  obtain body where body: "cat_JSON ev cat = Inr body"
    using assms(1) cat unfolding plain by (auto simp: exit_codes split: sum.splits)
  let ?files = "catalog_files ev ''docs'' body (Markdown (cvIndent ev) cat)"
  have saved: "run ev [''tool-catalog''] fs = save_catalog (cvHost ev) ''docs'' ?files cat fs"
    using cat body unfolding plain by (simp add: catalog_flags_def flag_eval Let_def)
  then obtain out fs' where w: "write_catalog (cvHost ev) ?files [] fs = (None, out, fs')"
    using assms(1) by (auto simp: save_catalog_def exit_codes failed_def split: option.splits prod.splits)
  then have "ocTree (run ev [''tool-catalog''] fs) = fs'"
    using assms(1) saved by (auto simp: save_catalog_def exit_codes failed_def split: option.splits)
  then have "\<not> stale t pc" if "pc \<in> set ?files" for pc
    using write_catalog_ok [OF w catalog_paths_distinct] that assms(2) not_stale [of fs' "fst pc" "snd pc" t] by auto
  then have "filter (stale t) ?files = []" by (simp add: filter_empty_conv)
  then show ?thesis
    unfolding r cmdToolCatalog_def with_flags_Inr [OF Parse_check(3)]
    using cat body by (simp add: flag_eval check_catalog_def Let_def)
qed

lemma LoadDoc_eol:
  assumes "map_option ToLF (t p) = map_option ToLF (t' p)"
  shows "LoadDoc (read_file t) digest p = LoadDoc (read_file t') digest p"
proof (cases "t p")
  case None
  then have "t' p = None" using assms by (cases "t' p") simp_all
  then show ?thesis using None by (simp add: LoadDoc_def read_file_def)
next
  case (Some a)
  then obtain b where "t' p = Some b" "ToLF b = ToLF a" using assms by (cases "t' p") simp_all
  then show ?thesis using Some by (simp add: LoadDoc_def read_file_def parse_doc_def doc_lines_def)
qed

lemma build_references_paths:
  "build_references load dir ws rules refs = Inr out \<Longrightarrow> map kfPath out = map (\<lambda>r. ''references/'' @ reSlug r @ ''.md'') refs"
  by (induction refs arbitrary: out) (auto split: sum.splits)

lemma kb_Build_paths:
  assumes "kb_Build files digest ws dir rules refs = Inr out"
  shows "mset (map kfPath out) = mset (''SKILL.md'' # map (\<lambda>r. ''references/'' @ reSlug r @ ''.md'') refs)"
proof -
  obtain built where b: "build_references (\<lambda>name. LoadDoc files digest (doc_path dir name)) dir ws rules refs = Inr built"
    "out = sort_key kfPath (built @ [\<lparr>kfPath = ''SKILL.md'', kfContent = renderIndex refs rules\<rparr>])"
    using assms by (auto simp: kb_Build_def split: sum.splits)
  have "mset (map kfPath out) = image_mset kfPath (mset out)" by simp
  also have "\<dots> = mset (map kfPath (built @ [\<lparr>kfPath = ''SKILL.md'', kfContent = renderIndex refs rules\<rparr>]))"
    unfolding b(2) by simp
  finally show ?thesis using build_references_paths [OF b(1)] by simp
qed

definition plain_references :: "Reference list \<Rightarrow> bool" where
  "plain_references refs \<longleftrightarrow> distinct (map reSlug refs) \<and> list_all (\<lambda>r. CHR ''/'' \<notin> set (reSlug r)) refs"

lemma reference_path_plain: "CHR ''/'' \<notin> set slug \<Longrightarrow> list_all plain_seg (path_segs (''references/'' @ slug @ ''.md''))"
proof -
  assume s: "CHR ''/'' \<notin> set slug"
  have "path_segs (''references/'' @ slug @ ''.md'') = path_segs (''references'' @ CHR ''/'' # (slug @ ''.md''))" by simp
  also have "\<dots> = [''references'', slug @ ''.md'']"
    unfolding split_prefix_append using s by (simp add: split_char_single)
  finally show ?thesis using s by (auto simp: plain_seg_def append_eq_Cons_conv)
qed

lemma knowledge_paths:
  assumes "plain_references refs" "kb_Build files digest ws dir rules refs = Inr out"
  shows "distinct (map kfPath out)" "f \<in> set out \<Longrightarrow> list_all plain_seg (path_segs (kfPath f))"
proof -
  note m = kb_Build_paths [OF assms(2)]
  have "''SKILL.md'' \<noteq> ''references/'' @ x" for x by simp
  then have "distinct (''SKILL.md'' # map (\<lambda>r. ''references/'' @ reSlug r @ ''.md'') refs)"
    using assms(1) by (auto simp: plain_references_def distinct_map inj_on_def)
  then show "distinct (map kfPath out)" using mset_eq_imp_distinct_iff [OF m] by blast
  assume "f \<in> set out"
  then have "kfPath f \<in> set (''SKILL.md'' # map (\<lambda>r. ''references/'' @ reSlug r @ ''.md'') refs)"
    using mset_eq_setD [OF m] by auto
  then consider "kfPath f = ''SKILL.md''" | r where "r \<in> set refs" "kfPath f = ''references/'' @ reSlug r @ ''.md''"
    by auto
  then show "list_all plain_seg (path_segs (kfPath f))"
  proof cases
    case 1
    have "list_all plain_seg (path_segs ''SKILL.md'')" by code_simp
    then show ?thesis unfolding 1 .
  next
    case 2
    have "CHR ''/'' \<notin> set (reSlug r)" using assms(1) 2(1) by (simp add: plain_references_def list_all_iff)
    then show ?thesis unfolding 2(2) by (rule reference_path_plain)
  qed
qed

definition kb_out :: string where
  "kb_out = ''../packages/knowledge''"

lemma knowledge_apart: "Join [kb_out, p] \<noteq> doc_path ''../new-template'' name" if "list_all plain_seg (path_segs p)"
proof -
  have "dir_prefix kb_out = ''../packages/knowledge/''" by code_simp
  then show ?thesis unfolding Join_dir [OF that] by (simp add: doc_path_def)
qed

lemma knowledge_passes:
  assumes refs: "plain_references (cvReferences ev)"
    and "ocCode (run ev [''knowledge''] fs) = exitOK"
    and "same_up_to_eol t (ocTree (run ev [''knowledge''] fs))"
  shows "ocCode (run ev [''knowledge'', ''--check''] t) = exitOK"
proof -
  have r: "run ev (''knowledge'' # args) u = cmdKnowledge ev args u" for args u by (simp add: run_def)
  let ?docs = "''../new-template''"
  obtain files where files: "knowledge_files ev ?docs fs = Inr files"
    using assms(2) unfolding r cmdKnowledge_def with_flags_Inr [OF Parse_check(2)]
    by (auto simp: exit_codes knowledge_flags_def flag_eval split: sum.splits)
  have saved: "run ev [''knowledge''] fs = save_knowledge (cvHost ev) kb_out files fs"
    using files unfolding r cmdKnowledge_def with_flags_Inr [OF Parse_check(2)]
    by (simp add: knowledge_flags_def flag_eval kb_out_def)
  then obtain fs' where w: "write_knowledge (cvHost ev) kb_out files fs = (None, fs')"
    using assms(2) by (auto simp: save_knowledge_def exit_codes split: option.splits prod.splits)
  then have tree: "ocTree (run ev [''knowledge''] fs) = fs'" using saved by (simp add: save_knowledge_def)
  note built = files [unfolded knowledge_files_def]
  note paths = knowledge_paths [OF refs built]
  have "distinct (map (\<lambda>f. dir_prefix kb_out @ kfPath f) files)" using paths(1) by (simp add: distinct_map inj_on_def)
  then have "distinct (map (\<lambda>f. Join [kb_out, kfPath f]) files)"
    using Join_dir [OF paths(2)] by (simp cong: map_cong)
  note written = write_knowledge_ok [OF w this]
  have "map_option ToLF (t (doc_path ?docs name)) = map_option ToLF (fs (doc_path ?docs name))" for name
  proof -
    have "doc_path ?docs name \<notin> (\<lambda>f. Join [kb_out, kfPath f]) ` set files"
    proof
      assume "doc_path ?docs name \<in> (\<lambda>f. Join [kb_out, kfPath f]) ` set files"
      then obtain f where f: "doc_path ?docs name = Join [kb_out, kfPath f]" "f \<in> set files" by (rule imageE)
      from knowledge_apart [OF paths(2) [OF f(2)], of name] f(1) [symmetric] show False by (rule notE)
    qed
    then show ?thesis using written assms(3) tree by (simp add: same_up_to_eol_def)
  qed
  then have "knowledge_files ev ?docs t = Inr files"
    using built LoadDoc_eol [of t _ fs] by (simp add: knowledge_files_def kb_Build_def)
  moreover have "\<not> stale t (Join [kb_out, kfPath f], kfContent f)" if "f \<in> set files" for f
    using written that assms(3) tree not_stale by blast
  then have "filter (\<lambda>f. stale t (Join [kb_out, kfPath f], kfContent f)) files = []" by (simp add: filter_empty_conv)
  ultimately show ?thesis
    unfolding r cmdKnowledge_def with_flags_Inr [OF Parse_check(4)]
    by (simp add: flag_eval check_knowledge_def kb_out_def)
qed

text \<open>Once a generated document has been written, its check comes to pass: a run of tool-catalog or of knowledge
  that exits with 0 leaves a tree on which the same command with check exits with 0, and it still does when the
  checkout has changed line endings.\<close>

theorem generated_documents_pass:
  assumes "plain_references (cvReferences ev)" and "c \<in> set [''tool-catalog'', ''knowledge'']"
    and "ocCode (run ev [c] fs) = 0" and "same_up_to_eol t (ocTree (run ev [c] fs))"
  shows "ocCode (run ev [c, ''--check''] t) = 0"
  using assms catalog_passes [of ev fs t] knowledge_passes [of ev fs t] by (auto simp: exitOK_def)

lemma with_flags_operand:
  "flag_token s = Operand \<Longrightarrow> with_flags ev name fl (s # rest) fs k = with_flags ev name fl [] fs k"
  by (simp add: with_flags_def)

text \<open>What stands behind an operand is not looked at: a command given an operand does what it does without any
  argument, whatever flags follow, so that a linter asked for one file lints the whole
  working directory, and in text whatever format is asked for behind it.\<close>

theorem operand_ends_arguments:
  assumes "flag_token s = Operand"
  shows "run ev (c # s # rest) fs = run ev [c] fs"
  by (simp add: run_def cmdLint_def cmdResourceScaffold_def cmdProjectScaffold_def cmdFxWire_def cmdRepoMap_def
      cmdRoutes_def cmdDBRoundTripAudit_def cmdValidationAudit_def cmdTemporalAudit_def cmdLibVersionCheck_def
      cmdDocCheck_def cmdToolCatalog_def cmdKnowledge_def cmdMCP_def cmdRules_def audit_command_def
      with_flags_operand [OF assms])

theorem operand_ends_arguments_witness:
  "\<forall>ev fs. run ev [''lint'', ''handler/user.go'', ''--format=json''] fs = run ev [''lint''] fs"
proof (intro allI)
  fix ev :: cli_env and fs :: tree
  have "flag_token ''handler/user.go'' = Operand" by code_simp
  then show "run ev [''lint'', ''handler/user.go'', ''--format=json''] fs = run ev [''lint''] fs"
    by (rule operand_ends_arguments)
qed

section \<open>A sample environment\<close>

definition demo_host :: mcp_env where
  "demo_host = demo_env\<lparr>evEncode := (\<lambda>iv. if iv = Take demo_ws then Inr ''{}'' else Inl ''other''),
     evDecode := (\<lambda>_. Inr (Take demo_ws))\<rparr>"

definition demo_cli :: cli_env where
  "demo_cli =
     \<lparr>cvHost = demo_host, cvVersion = ''v1'', cvStdin = Inr ''{}'', cvDuration = (\<lambda>_. None), cvFlagError = (\<lambda>_ _. []),
      cvJson = (\<lambda>_. Inr ''{}''), cvResource = (\<lambda>_. Inr x_id_spec), cvProject = (\<lambda>_. Inr (empty_project, x_id_spec)),
      cvManifest = (\<lambda>_. Inl ''manifest''), cvManifestJson = (\<lambda>_. Inr ''{}''), cvDigest = (\<lambda>s. s), cvReferences = [],
      cvSchema = sample_decode, cvListed = map sdk_listing repo_map_tool, cvIndent = (\<lambda>_. []),
      cvCatalogJson = (\<lambda>_. Inr ''{}''), cvJsonFirst = True, cvServe = (\<lambda>_. None), cvElapsed = 0\<rparr>"

lemma demo_host_load: "load_at demo_host root = Inr demo_ws"
  using demo_load by (simp add: load_at_def demo_host_def demo_env_def demo_outside_def demo_opts_def)

lemma demo_parts:
  "cvHost demo_cli = demo_host" "evMkdir demo_host d = None" "evWrite demo_host d = None" "evRename demo_host d = None"
  "cvCatalogJson demo_cli c = Inr ''{}''" "cvReferences demo_cli = []"
  by (simp_all add: demo_cli_def demo_host_def demo_env_def)

theorem shell_does_what_agent_does_witness:
  "same_deed (run demo_cli (''resource-scaffold'' # scaffold_args ''/srv/ws'' True) (\<lambda>_. None))
      (resourceScaffoldHandler demo_host ''/srv/ws'' x_id_spec [] True (\<lambda>_. None))
    \<and> same_deed (run demo_cli (''fx-wire'' # wire_args ''/srv/ws'' ''repo'' ''NewUserRepo'' False) (\<lambda>_. None))
      (fxWireHandler demo_host ''/srv/ws'' ''repo'' ''NewUserRepo'' [] False (\<lambda>_. None))"
proof -
  have hyps: "rootFor ''/srv/ws'' [] = Inr ''/srv/ws''" "cvStdin demo_cli = Inr ''{}''"
    "cvResource demo_cli ''{}'' = Inr x_id_spec" "cvProject demo_cli ''{}'' = Inr (empty_project, x_id_spec)"
    "''repo'' \<noteq> ''''" "''NewUserRepo'' \<noteq> ''''" "cvHost demo_cli = demo_host"
    by (simp_all add: rootFor_def demo_cli_def)
  note t = shell_does_what_agent_does [OF hyps(1-6), unfolded hyps(7)]
  show ?thesis using t [of True] t [of False] by blast
qed

theorem saved_routes_pass_witness:
  "ocCode (run demo_cli [''routes'', ''--against=base.json'']
     (ocTree (run demo_cli [''routes'', ''--save=base.json''] (\<lambda>_. None)))) = 0"
proof -
  have args: "flag_arg (''save'', ''base.json'') = ''--save=base.json''" "flag_arg (''against'', ''base.json'') = ''--against=base.json''"
    by (simp_all add: flag_arg_def)
  have rt: "\<forall>iv body. evEncode (cvHost demo_cli) iv = Inr body \<longrightarrow> evDecode (cvHost demo_cli) (body @ [CHR 0x0A]) = Inr iv"
    unfolding demo_parts by (simp add: demo_host_def)
  have "evEncode demo_host (Take demo_ws) = Inr ''{}''" by (simp add: demo_host_def)
  then have saved: "\<exists>t. writeInventory demo_host ''base.json'' (Take demo_ws) (\<lambda>_. None) = (None, t)"
    by (simp add: writeInventory_def demo_parts Let_def)
  have "run demo_cli [''routes'', flag_arg (''save'', ''base.json'')] (\<lambda>_. None) =
      cmdRoutes demo_cli [flag_arg (''save'', ''base.json'')] (\<lambda>_. None)"
    by (simp add: run_def)
  also have "ocCode \<dots> = 0"
    unfolding cmdRoutes_def with_flags_Inr [OF Parse_routes_save]
    using saved by (auto simp: flag_eval demo_parts demo_host_load print_as_code exit_codes Let_def)
  finally have "ocCode (run demo_cli [''routes'', flag_arg (''save'', ''base.json'')] (\<lambda>_. None)) = 0" .
  from saved_routes_pass [OF rt _ this] show ?thesis unfolding args by simp
qed

theorem generated_documents_pass_witness:
  "ocCode (run demo_cli [''tool-catalog'', ''--check''] (ocTree (run demo_cli [''tool-catalog''] (\<lambda>_. None)))) = 0"
proof -
  have refs: "plain_references (cvReferences demo_cli)" by (simp add: demo_parts plain_references_def)
  have "catalog_Build (cvSchema demo_cli) (cvVersion demo_cli) (cvListed demo_cli) =
      Inr (projr (catalog_Build sample_decode ''v1'' (map sdk_listing repo_map_tool)))"
    "Conformance (projr (catalog_Build sample_decode ''v1'' (map sdk_listing repo_map_tool))) = []"
    unfolding demo_cli_def by code_simp+
  then have "ocCode (cmdToolCatalog demo_cli [] (\<lambda>_. None)) = 0"
    unfolding cmdToolCatalog_def with_flags_Inr [OF Parse_check(1)]
    by (simp add: cat_JSON_def demo_parts catalog_flags_def flag_eval save_catalog_def catalog_files_def exit_codes Let_def)
  then have "ocCode (run demo_cli [''tool-catalog''] (\<lambda>_. None)) = 0" by (simp add: run_def)
  from generated_documents_pass [OF refs _ this] show ?thesis by (simp add: same_up_to_eol_def)
qed

end
