(* ===== verification/TransferEntry.thy ===== *)
theory TransferEntry
  imports Prelude "HOL-Library.Word"
begin

text \<open>
  Transfer entries of the accounts office (pao-back-end-development/): the table
  pao.transfer_entry, the three handlers that insert into it
  (CreateTransferEntryHandler, CreateTransferEntryDirectHandler and
  CreateTransferEntryDirectBRSHandler in handler/transferentry.go, with their
  repository calls in repo/postgres/transferentry.go), the rejection of an entry
  and the bulk verification that consumes budget before it marks the rows.

  Parameters of the model.  F holds the float64 operations the handlers use on amounts
  (the arithmetic and the comparisons of the hardware); V the predicates of
  the shared validation library; the answers of the database, of the office
  lookup and of the budget service are arguments.  A Go time.Time is its
  calendar fields, an int64 or uint64 a 64-bit word.
\<close>

subsection \<open>Amounts, dates and numbers\<close>

text \<open>The operations on float64 amounts the handlers use.\<close>
record 'f float64 =
  fzero :: 'f
  fadd :: "'f \<Rightarrow> 'f \<Rightarrow> 'f"
  fsub :: "'f \<Rightarrow> 'f \<Rightarrow> 'f"
  fmul :: "'f \<Rightarrow> 'f \<Rightarrow> 'f"
  fneg :: "'f \<Rightarrow> 'f"
  feq :: "'f \<Rightarrow> 'f \<Rightarrow> bool"
  fless :: "'f \<Rightarrow> 'f \<Rightarrow> bool"
  fint :: "int \<Rightarrow> 'f"

text \<open>The calendar fields of a time.Time.\<close>
record gtime =
  tYear :: int
  tMonth :: nat
  tDay :: nat
  tHour :: nat
  tMinute :: nat
  tSecond :: nat

text \<open>The verb %0wd of fmt on a number that is not negative.\<close>
definition zero_padded :: "nat \<Rightarrow> nat \<Rightarrow> string" where
  "zero_padded w n = replicate (w - length (itoa n)) (CHR ''0'') @ itoa n"

text \<open>The verb %d of fmt.\<close>
definition fmt_d :: "int \<Rightarrow> string" where
  "fmt_d i = (if i < 0 then ''-'' @ itoa (nat (- i)) else itoa (nat i))"

text \<open>Format("20060102150405").\<close>
definition stamp :: "gtime \<Rightarrow> string" where
  "stamp t = zero_padded 4 (nat (tYear t)) @ zero_padded 2 (tMonth t) @ zero_padded 2 (tDay t)
    @ zero_padded 2 (tHour t) @ zero_padded 2 (tMinute t) @ zero_padded 2 (tSecond t)"

text \<open>The time at midnight of the same day.\<close>
definition midnight :: "gtime \<Rightarrow> gtime" where
  "midnight t = t\<lparr>tHour := 0, tMinute := 0, tSecond := 0\<rparr>"

definition digits_value :: "string \<Rightarrow> nat" where
  "digits_value s = foldl (\<lambda>n c. 10 * n + (code c - 48)) 0 s"

definition days_in :: "nat \<Rightarrow> nat \<Rightarrow> nat" where
  "days_in y m = (if m = 2 then (if y mod 4 = 0 \<and> (y mod 100 \<noteq> 0 \<or> y mod 400 = 0) then 29 else 28)
    else if m \<in> {4, 6, 9, 11} then 30 else 31)"

text \<open>time.Parse("2006-01-02", s): four digits, a dash, two, a dash and two, with the ranges checked.\<close>
definition parse_date :: "string \<Rightarrow> gtime option" where
  "parse_date s = (if length s = 10 \<and> s ! 4 = CHR ''-'' \<and> s ! 7 = CHR ''-''
      \<and> list_all is_digit (take 4 s @ take 2 (drop 5 s) @ drop 8 s) then
     (let y = digits_value (take 4 s); m = digits_value (take 2 (drop 5 s)); d = digits_value (drop 8 s)
      in if 1 \<le> m \<and> m \<le> 12 \<and> 1 \<le> d \<and> d \<le> days_in y m
         then Some \<lparr>tYear = int y, tMonth = m, tDay = d, tHour = 0, tMinute = 0, tSecond = 0\<rparr>
         else None)
   else None)"

text \<open>getFinancialYear: the year the financial year of the date begins in, April to March.\<close>
definition getFinancialYear :: "gtime \<Rightarrow> string" where
  "getFinancialYear d = (if 4 \<le> tMonth d then fmt_d (tYear d) else fmt_d (tYear d - 1))"

definition safeConvertToUint64 :: "64 word \<Rightarrow> (string, 64 word) sum" where
  "safeConvertToUint64 v = (if sint v < 0 then Inl ''cannot convert negative int64 to uint64'' else Inr v)"

subsection \<open>Validation\<close>

definition ValidatePaocode :: "string \<Rightarrow> bool" where
  "ValidatePaocode s = (length s = 6 \<and> list_all is_digit s)"

definition ValidateDdocode :: "string \<Rightarrow> bool" where
  "ValidateDdocode s = (if length s \<noteq> 6 then False else list_all is_digit s)"

text \<open>The checks of the shared validation library, named by their tags.\<close>
record validators =
  v_head_of_account :: "string \<Rightarrow> bool"
  v_employee_id :: "64 word \<Rightarrow> bool"
  v_date :: "string \<Rightarrow> bool"
  v_max :: "nat \<Rightarrow> string \<Rightarrow> bool"

abbreviation given :: "string \<Rightarrow> bool" where
  "given s \<equiv> s \<noteq> []"

subsection \<open>Heads of account and the budget\<close>

definition shouldPostToBudget :: "string \<Rightarrow> bool" where
  "shouldPostToBudget hoa = (has_prefix hoa ''5201'' \<or> has_prefix hoa ''3201''
    \<or> has_prefix hoa ''7610'' \<or> has_prefix hoa ''801606101010500''
    \<or> has_prefix hoa ''801606101020500'' \<or> has_prefix hoa ''2552'' \<or> has_prefix hoa ''4552'')"

definition exemptedHoas :: "string list" where
  "exemptedHoas = [
    ''320101001010106'', ''320101001060106'', ''320101101010106'', ''320101101030106'',
    ''320101101040106'', ''320101101050106'', ''320101101060106'', ''320102003010106'',
    ''320102101010106'', ''320102102010106'', ''320102103060106'', ''320102104010106'',
    ''320103101010106'', ''320103101020106'', ''320103101030106'', ''320103101070106'',
    ''320103101080106'', ''320103101100106'', ''320104102010106'', ''320104102020106'',
    ''320105053030106'', ''320108102030106'']"

definition shouldCheckBudget :: "string \<Rightarrow> bool" where
  "shouldCheckBudget hoa =
    (if has_prefix hoa ''3201'' then
       (if length hoa < 2 then False
        else if drop (length hoa - 2) hoa \<in> set [''01'', ''04'', ''05'', ''07'', ''70''] then False
        else if hoa \<in> set exemptedHoas then False
        else True)
     else has_prefix hoa ''5201'' \<or> has_prefix hoa ''7610'' \<or> has_prefix hoa ''801606101010500''
       \<or> has_prefix hoa ''801606101020500'' \<or> has_prefix hoa ''2552'' \<or> has_prefix hoa ''4552'')"

lemma checked_heads_are_posted: "shouldCheckBudget hoa \<Longrightarrow> shouldPostToBudget hoa"
  by (auto simp: shouldCheckBudget_def shouldPostToBudget_def split: if_splits)

subsection \<open>The table\<close>

text \<open>A row of pao.transfer_entry; a column an insert does not name is null.\<close>
record 'f te_row =
  te_pao :: string
  te_ddo :: string
  te_hoa :: string
  te_amount :: 'f
  te_type :: string
  te_created_by :: "64 word"
  te_created_date :: gtime
  te_office :: string
  te_id :: string
  te_remarks :: string
  te_status :: string
  te_trans_date :: "gtime option"
  te_account :: "string option"
  te_verified_by :: "64 word option"
  te_verified_date :: "gtime option"
  te_approver_remarks :: "string option"
  te_hpfms :: "bool option"
  te_pfms_id :: "string option"
  te_pfms_flag :: "string option"
  te_pfms_error :: "string option"

text \<open>An UPDATE: the rows that satisfy the condition, in place.\<close>
definition update_where :: "('r \<Rightarrow> bool) \<Rightarrow> ('r \<Rightarrow> 'r) \<Rightarrow> 'r list \<Rightarrow> 'r list" where
  "update_where p f rows = map (\<lambda>r. if p r then f r else r) rows"

lemma length_update_where [simp]: "length (update_where p f rows) = length rows"
  by (simp add: update_where_def)

lemma nth_update_where:
  "i < length rows \<Longrightarrow> update_where p f rows ! i = (if p (rows ! i) then f (rows ! i) else rows ! i)"
  by (simp add: update_where_def)

lemma map_update_where:
  "(\<And>r. g (f r) = g r) \<Longrightarrow> map g (update_where p f rows) = map g rows"
  by (simp add: update_where_def)

text \<open>What a handler answers.\<close>
datatype reply =
    BindingError
  | ValidationError
  | DbError
  | ConversionError
  | Refused nat string string
  | ApiFailed string
  | Created "string list"
  | Updated
  | Submitted

subsection \<open>Debit against credit\<close>

text \<open>The loop that sums the amounts of type D and of type C, in the order of the lines.\<close>
definition add_line :: "'f float64 \<Rightarrow> 'f \<times> 'f \<Rightarrow> string \<times> 'f \<Rightarrow> 'f \<times> 'f" where
  "add_line F tot l =
    (if fst l = ''D'' then fadd F (fst tot) (snd l) else fst tot,
     if fst l = ''C'' then fadd F (snd tot) (snd l) else snd tot)"

definition totals :: "'f float64 \<Rightarrow> (string \<times> 'f) list \<Rightarrow> 'f \<times> 'f" where
  "totals F lines = foldl (add_line F) (fzero F, fzero F) lines"

definition balanced :: "'f float64 \<Rightarrow> (string \<times> 'f) list \<Rightarrow> bool" where
  "balanced F lines = feq F (snd (totals F lines)) (fst (totals F lines))"

lemma add_line_other: "fst l \<noteq> ''D'' \<Longrightarrow> fst l \<noteq> ''C'' \<Longrightarrow> add_line F tot l = tot"
  by (simp add: add_line_def)

text \<open>Lines of any other type do not take part in the comparison.\<close>
lemma totals_counted:
  "totals F lines = totals F (filter (\<lambda>l. fst l = ''D'' \<or> fst l = ''C'') lines)"
proof -
  have "foldl (add_line F) tot lines
      = foldl (add_line F) tot (filter (\<lambda>l. fst l = ''D'' \<or> fst l = ''C'') lines)" for tot
    by (induction lines arbitrary: tot) (auto simp: add_line_other)
  thus ?thesis by (simp add: totals_def)
qed

subsection \<open>Creating an entry\<close>

record 'f TransferEntryRequest =
  rqPaoCode :: string
  rqDdoCode :: string
  rqHoa :: string
  rqTransferAmount :: 'f
  rqTransferType :: string
  rqCreatedBy :: "64 word"
  rqCreatedDate :: string
  rqTeSourceOfficeType :: string
  rqRemarks :: string
  rqTransDate :: string

text \<open>The validate tags of the request.\<close>
definition TransferEntryRequest_ok :: "'f float64 \<Rightarrow> validators \<Rightarrow> 'f TransferEntryRequest \<Rightarrow> bool" where
  "TransferEntryRequest_ok F V r =
    (given (rqPaoCode r) \<and> ValidatePaocode (rqPaoCode r)
     \<and> given (rqDdoCode r) \<and> ValidateDdocode (rqDdoCode r)
     \<and> given (rqHoa r) \<and> v_head_of_account V (rqHoa r)
     \<and> \<not> feq F (rqTransferAmount r) (fzero F)
     \<and> given (rqTransferType r) \<and> v_max V 20 (rqTransferType r)
     \<and> rqCreatedBy r \<noteq> 0 \<and> v_employee_id V (rqCreatedBy r)
     \<and> given (rqCreatedDate r) \<and> v_date V (rqCreatedDate r)
     \<and> given (rqTeSourceOfficeType r) \<and> v_max V 50 (rqTeSourceOfficeType r)
     \<and> given (rqRemarks r) \<and> v_max V 255 (rqRemarks r)
     \<and> given (rqTransDate r) \<and> v_date V (rqTransDate r))"

definition entry_id :: "gtime \<Rightarrow> string \<Rightarrow> string" where
  "entry_id now pao = pao @ stamp now"

definition created_row :: "gtime \<Rightarrow> gtime option \<Rightarrow> 'f TransferEntryRequest \<Rightarrow> 'f te_row" where
  "created_row now date r = \<lparr>
    te_pao = rqPaoCode r, te_ddo = rqDdoCode r, te_hoa = rqHoa r, te_amount = rqTransferAmount r,
    te_type = rqTransferType r, te_created_by = rqCreatedBy r, te_created_date = now,
    te_office = rqTeSourceOfficeType r, te_id = entry_id now (rqPaoCode r),
    te_remarks = rqRemarks r, te_status = ''created'', te_trans_date = date, te_account = None,
    te_verified_by = None, te_verified_date = None, te_approver_remarks = None,
    te_hpfms = None, te_pfms_id = None, te_pfms_flag = None, te_pfms_error = None\<rparr>"

text \<open>TransferentryCreationRepo: one COPY of all lines; copied says whether it succeeds.\<close>
definition TransferentryCreationRepo ::
  "gtime \<Rightarrow> bool \<Rightarrow> 'f TransferEntryRequest list \<Rightarrow> 'f te_row list \<Rightarrow> (string list \<times> 'f te_row list) option"
where
  "TransferentryCreationRepo now copied request db =
    (case (case request of [] \<Rightarrow> Some None
           | r # _ \<Rightarrow> (case parse_date (rqTransDate r) of None \<Rightarrow> None | Some d \<Rightarrow> Some (Some d))) of
       None \<Rightarrow> None
     | Some date \<Rightarrow>
         if copied then Some (map (\<lambda>r. entry_id now (rqPaoCode r)) request,
                              db @ map (created_row now date) request)
         else None)"

definition CreateTransferEntryHandler ::
  "'f float64 \<Rightarrow> validators \<Rightarrow> gtime \<Rightarrow> bool \<Rightarrow> 'f TransferEntryRequest list option \<Rightarrow> 'f te_row list
    \<Rightarrow> reply \<times> 'f te_row list"
where
  "CreateTransferEntryHandler F V now copied body db =
    (case body of None \<Rightarrow> (BindingError, db)
     | Some req \<Rightarrow>
         if \<not> list_all (TransferEntryRequest_ok F V) req then (ValidationError, db)
         else if balanced F (map (\<lambda>r. (rqTransferType r, rqTransferAmount r)) req) then
           (case TransferentryCreationRepo now copied req db of
              None \<Rightarrow> (DbError, db)
            | Some (ids, db') \<Rightarrow> (Created ids, db'))
         else (Refused 500 ''500'' ''Internal Server Error'', db))"

subsection \<open>Entries the office makes directly, and those of the bank reconciliation\<close>

record 'f TransferEntryDirectRequest =
  dqPaoCode :: string
  dqDdoCode :: string
  dqHoa :: string
  dqTransferAmount :: 'f
  dqTransferType :: string
  dqCreatedBy :: "64 word"
  dqVerifiedBy :: "64 word"
  dqTeSourceOfficeType :: string
  dqRemarks :: string

definition TransferEntryDirectRequest_ok ::
  "'f float64 \<Rightarrow> validators \<Rightarrow> 'f TransferEntryDirectRequest \<Rightarrow> bool"
where
  "TransferEntryDirectRequest_ok F V r =
    (given (dqPaoCode r) \<and> ValidatePaocode (dqPaoCode r)
     \<and> given (dqDdoCode r) \<and> ValidateDdocode (dqDdoCode r)
     \<and> given (dqHoa r) \<and> v_head_of_account V (dqHoa r)
     \<and> \<not> feq F (dqTransferAmount r) (fzero F)
     \<and> given (dqTransferType r) \<and> v_max V 20 (dqTransferType r)
     \<and> dqCreatedBy r \<noteq> 0 \<and> v_employee_id V (dqCreatedBy r)
     \<and> dqVerifiedBy r \<noteq> 0 \<and> v_employee_id V (dqVerifiedBy r)
     \<and> given (dqTeSourceOfficeType r) \<and> v_max V 50 (dqTeSourceOfficeType r)
     \<and> given (dqRemarks r) \<and> v_max V 255 (dqRemarks r))"

text \<open>
  The row the COPY of TransferentryDirectCreationRepo writes for one line: its columns do not
  include verified_by and verified_date, which the handler fills in the request.
\<close>
definition direct_row ::
  "gtime \<Rightarrow> string \<Rightarrow> string \<Rightarrow> string \<Rightarrow> 'f TransferEntryDirectRequest \<Rightarrow> 'f te_row"
where
  "direct_row now status pao ddo r = \<lparr>
    te_pao = pao, te_ddo = ddo, te_hoa = dqHoa r, te_amount = dqTransferAmount r,
    te_type = dqTransferType r, te_created_by = dqCreatedBy r, te_created_date = now,
    te_office = ''PAO'', te_id = entry_id now pao, te_remarks = dqRemarks r,
    te_status = status, te_trans_date = Some (midnight now), te_account = None,
    te_verified_by = None, te_verified_date = None, te_approver_remarks = None,
    te_hpfms = Some False, te_pfms_id = None, te_pfms_flag = None, te_pfms_error = None\<rparr>"

text \<open>The part both handlers share once they have their rows: the comparison and the COPY.\<close>
definition store_direct ::
  "'f float64 \<Rightarrow> bool \<Rightarrow> 'f te_row list \<Rightarrow> 'f te_row list \<Rightarrow> reply \<times> 'f te_row list"
where
  "store_direct F copied rows db =
    (if balanced F (map (\<lambda>r. (te_type r, te_amount r)) rows) then
       (if copied then (Created (map te_id rows), db @ rows) else (DbError, db))
     else (Refused 500 ''422'' ''Internal Server Error'', db))"

definition CreateTransferEntryDirectHandler ::
  "'f float64 \<Rightarrow> validators \<Rightarrow> gtime \<Rightarrow> bool \<Rightarrow> 'f TransferEntryDirectRequest list option
    \<Rightarrow> 'f te_row list \<Rightarrow> reply \<times> 'f te_row list"
where
  "CreateTransferEntryDirectHandler F V now copied body db =
    (case body of None \<Rightarrow> (BindingError, db)
     | Some req \<Rightarrow>
         if \<not> list_all (TransferEntryDirectRequest_ok F V) req then (ValidationError, db)
         else store_direct F copied
                (map (\<lambda>r. direct_row now ''verified'' (dqPaoCode r) (dqDdoCode r) r) req) db)"

record 'f TransferEntryDirectBRSRequest =
  bqOfficeId :: "64 word"
  bqHoa :: string
  bqTransferAmount :: 'f
  bqTransferType :: string
  bqCreatedBy :: "64 word"
  bqVerifiedBy :: "64 word"
  bqTeSourceOfficeType :: string
  bqRemarks :: string

definition TransferEntryDirectBRSRequest_ok ::
  "'f float64 \<Rightarrow> validators \<Rightarrow> 'f TransferEntryDirectBRSRequest \<Rightarrow> bool"
where
  "TransferEntryDirectBRSRequest_ok F V r =
    (bqOfficeId r \<noteq> 0
     \<and> given (bqHoa r) \<and> v_head_of_account V (bqHoa r)
     \<and> \<not> feq F (bqTransferAmount r) (fzero F)
     \<and> given (bqTransferType r) \<and> v_max V 20 (bqTransferType r)
     \<and> bqCreatedBy r \<noteq> 0 \<and> v_employee_id V (bqCreatedBy r)
     \<and> v_employee_id V (bqVerifiedBy r)
     \<and> given (bqTeSourceOfficeType r) \<and> v_max V 50 (bqTeSourceOfficeType r)
     \<and> given (bqRemarks r) \<and> v_max V 255 (bqRemarks r))"

text \<open>The domain request the reconciliation handler builds once the office is known; its verifier stays 0.\<close>
definition brs_direct :: "string \<times> string \<Rightarrow> 'f TransferEntryDirectBRSRequest \<Rightarrow> 'f TransferEntryDirectRequest" where
  "brs_direct pd r = \<lparr>dqPaoCode = fst pd, dqDdoCode = snd pd, dqHoa = bqHoa r,
    dqTransferAmount = bqTransferAmount r, dqTransferType = bqTransferType r,
    dqCreatedBy = bqCreatedBy r, dqVerifiedBy = 0, dqTeSourceOfficeType = ''PAO'',
    dqRemarks = bqRemarks r\<rparr>"

text \<open>The answer of an office lookup: an error of the database, no such office, or its data.\<close>
datatype 'a lookup = LookupError | Absent | Present 'a

text \<open>The loop of the reconciliation handler: the first office that cannot be found ends it.\<close>
fun brs_rows ::
  "(64 word \<Rightarrow> (string \<times> string) lookup) \<Rightarrow> gtime \<Rightarrow> 'f TransferEntryDirectBRSRequest list
    \<Rightarrow> (reply, 'f te_row list) sum"
where
  "brs_rows office now [] = Inr []"
| "brs_rows office now (r # rs) =
    (case office (bqOfficeId r) of
       LookupError \<Rightarrow> Inl DbError
     | Absent \<Rightarrow> Inl (Refused 400 ''404'' (''Invalid Office ID '' @ emdash @ '' please verify and try again''))
     | Present pd \<Rightarrow>
         (case brs_rows office now rs of Inl e \<Rightarrow> Inl e
          | Inr rows \<Rightarrow> Inr (direct_row now ''created'' (fst pd) (snd pd) (brs_direct pd r) # rows)))"

definition CreateTransferEntryDirectBRSHandler ::
  "'f float64 \<Rightarrow> validators \<Rightarrow> (64 word \<Rightarrow> (string \<times> string) lookup) \<Rightarrow> gtime \<Rightarrow> bool
    \<Rightarrow> 'f TransferEntryDirectBRSRequest list option \<Rightarrow> 'f te_row list \<Rightarrow> reply \<times> 'f te_row list"
where
  "CreateTransferEntryDirectBRSHandler F V office now copied body db =
    (case body of None \<Rightarrow> (BindingError, db)
     | Some req \<Rightarrow>
         if \<not> list_all (TransferEntryDirectBRSRequest_ok F V) req then (ValidationError, db)
         else (case brs_rows office now req of
                 Inl e \<Rightarrow> (e, db)
               | Inr rows \<Rightarrow> store_direct F copied rows db))"

subsection \<open>Rejecting an entry\<close>

record TransferEntryRejectRequest =
  rjTransferEntryId :: string
  rjVerifiedBy :: "64 word"
  rjVerificationStatus :: string
  rjApproverRemarks :: string

definition TransferEntryRejectRequest_ok :: "validators \<Rightarrow> TransferEntryRejectRequest \<Rightarrow> bool" where
  "TransferEntryRejectRequest_ok V r =
    (given (rjTransferEntryId r) \<and> v_max V 30 (rjTransferEntryId r)
     \<and> rjVerifiedBy r \<noteq> 0 \<and> v_employee_id V (rjVerifiedBy r)
     \<and> rjVerificationStatus r \<in> set [''created'', ''verified'', ''deleted'']
     \<and> given (rjApproverRemarks r) \<and> v_max V 255 (rjApproverRemarks r))"

text \<open>The four columns a verification or a rejection sets.\<close>
definition mark_row :: "string \<Rightarrow> 64 word \<Rightarrow> gtime \<Rightarrow> string \<Rightarrow> 'f te_row \<Rightarrow> 'f te_row" where
  "mark_row status who time remarks r = r\<lparr>te_status := status, te_verified_by := Some who,
     te_verified_date := Some time, te_approver_remarks := Some remarks\<rparr>"

definition UpdateTransferEntryRejectHandler ::
  "validators \<Rightarrow> gtime \<Rightarrow> bool \<Rightarrow> TransferEntryRejectRequest option \<Rightarrow> 'f te_row list
    \<Rightarrow> reply \<times> 'f te_row list"
where
  "UpdateTransferEntryRejectHandler V now done body db =
    (case body of None \<Rightarrow> (BindingError, db)
     | Some r \<Rightarrow>
         if \<not> TransferEntryRejectRequest_ok V r then (ValidationError, db)
         else if done then
           (Updated, update_where (\<lambda>t. te_id t = rjTransferEntryId r)
              (mark_row (rjVerificationStatus r) (rjVerifiedBy r) now (rjApproverRemarks r)) db)
         else (DbError, db))"

subsection \<open>Bulk verification\<close>

record 'f TransferEntryVerifyRequest =
  vqDdoCode :: string
  vqHoa :: string
  vqTransferAmount :: 'f
  vqTransferType :: string
  vqCreatedDate :: gtime
  vqTransferEntryId :: string
  vqVerificationStatus :: string
  vqVerifiedBy :: "64 word"
  vqVerifiedDate :: gtime
  vqApproverRemarks :: string
  vqTransDate :: gtime

definition zero_time :: gtime where
  "zero_time = \<lparr>tYear = 1, tMonth = 1, tDay = 1, tHour = 0, tMinute = 0, tSecond = 0\<rparr>"

definition TransferEntryVerifyRequest_ok ::
  "'f float64 \<Rightarrow> validators \<Rightarrow> 'f TransferEntryVerifyRequest \<Rightarrow> bool"
where
  "TransferEntryVerifyRequest_ok F V r =
    (given (vqDdoCode r) \<and> ValidateDdocode (vqDdoCode r)
     \<and> given (vqHoa r) \<and> v_head_of_account V (vqHoa r)
     \<and> \<not> feq F (vqTransferAmount r) (fzero F)
     \<and> given (vqTransferType r) \<and> v_max V 20 (vqTransferType r)
     \<and> vqCreatedDate r \<noteq> zero_time
     \<and> given (vqTransferEntryId r) \<and> v_max V 30 (vqTransferEntryId r)
     \<and> vqVerificationStatus r \<in> set [''created'', ''verified'', ''deleted'']
     \<and> vqVerifiedBy r \<noteq> 0 \<and> v_employee_id V (vqVerifiedBy r)
     \<and> vqVerifiedDate r \<noteq> zero_time
     \<and> given (vqApproverRemarks r) \<and> v_max V 255 (vqApproverRemarks r)
     \<and> vqTransDate r \<noteq> zero_time)"

record 'f BudgetRequest =
  brFinancialYear :: string
  brOfficeId :: "64 word"
  brHoa :: string
  brConsumedAmount :: 'f
  brRemarks :: string
  brUpdatedBy :: "64 word"
  brTransactionOffice :: "64 word"
  brSourceModule :: string

text \<open>A credit gives budget back, anything else consumes it.\<close>
definition consumed :: "'f float64 \<Rightarrow> string \<Rightarrow> 'f \<Rightarrow> 'f" where
  "consumed F ty amount = (if ty = ''C'' then fneg F amount else amount)"

definition budget_line :: "'f float64 \<Rightarrow> 64 word \<Rightarrow> 'f TransferEntryVerifyRequest \<Rightarrow> 'f BudgetRequest" where
  "budget_line F office y = \<lparr>
    brFinancialYear = getFinancialYear (vqTransDate y), brOfficeId = office, brHoa = vqHoa y,
    brConsumedAmount = consumed F (vqTransferType y) (vqTransferAmount y),
    brRemarks = vqTransferEntryId y, brUpdatedBy = vqVerifiedBy y, brTransactionOffice = office,
    brSourceModule = ''PAO''\<rparr>"

text \<open>The loop that builds the budget request; an office that cannot be found ends the handler.\<close>
fun budget_scan ::
  "'f float64 \<Rightarrow> (string \<Rightarrow> 64 word lookup) \<Rightarrow> 'f TransferEntryVerifyRequest list
    \<Rightarrow> (reply, 'f BudgetRequest list) sum"
where
  "budget_scan F office [] = Inr []"
| "budget_scan F office (y # ys) =
    (if shouldPostToBudget (vqHoa y) then
       (case office (vqDdoCode y) of
          LookupError \<Rightarrow> Inl DbError
        | Absent \<Rightarrow> Inl (Refused 500 ''404'' ''Internal Server Error'')
        | Present u \<Rightarrow>
            (case budget_scan F office ys of Inl e \<Rightarrow> Inl e | Inr bs \<Rightarrow> Inr (budget_line F u y # bs)))
     else budget_scan F office ys)"

text \<open>What the budget service sends back: the success flag and the message, where present.\<close>
record budget_answer =
  ba_success :: "bool option"
  ba_message :: "string option"

text \<open>TransferentryVerifyRepo: one batch of updates, in the order of the lines.\<close>
definition TransferentryVerifyRepo ::
  "gtime \<Rightarrow> 'f TransferEntryVerifyRequest list \<Rightarrow> 'f te_row list \<Rightarrow> 'f te_row list"
where
  "TransferentryVerifyRepo now request db =
    fold (\<lambda>s. update_where (\<lambda>t. te_id t = vqTransferEntryId s)
      (mark_row (vqVerificationStatus s) (vqVerifiedBy s) now (vqApproverRemarks s))) request db"

text \<open>The last step of the handler, with the outcome of the batch.\<close>
definition mark_verified ::
  "gtime \<Rightarrow> bool \<Rightarrow> 'f TransferEntryVerifyRequest list \<Rightarrow> 'f te_row list \<Rightarrow> reply \<times> 'f te_row list"
where
  "mark_verified now done request db =
    (if done then (Updated, TransferentryVerifyRepo now request db) else (DbError, db))"

text \<open>
  UpdateTransferEntryVerifyHandler: the answer, the requests sent to the budget service,
  and the table afterwards.
\<close>
definition UpdateTransferEntryVerifyHandler ::
  "'f float64 \<Rightarrow> validators \<Rightarrow> (string \<Rightarrow> 64 word lookup)
    \<Rightarrow> ('f BudgetRequest list \<Rightarrow> (string, budget_answer) sum) \<Rightarrow> gtime \<Rightarrow> bool
    \<Rightarrow> 'f TransferEntryVerifyRequest list option \<Rightarrow> 'f te_row list
    \<Rightarrow> reply \<times> 'f BudgetRequest list list \<times> 'f te_row list"
where
  "UpdateTransferEntryVerifyHandler F V office budget now done body db =
    (case body of None \<Rightarrow> (BindingError, [], db)
     | Some req \<Rightarrow>
         if \<not> list_all (TransferEntryVerifyRequest_ok F V) req then (ValidationError, [], db)
         else (case budget_scan F office req of
                 Inl e \<Rightarrow> (e, [], db)
               | Inr [] \<Rightarrow> (case mark_verified now done req db of (a, db') \<Rightarrow> (a, [], db'))
               | Inr (b # bs) \<Rightarrow>
                   (case budget (b # bs) of
                      Inl e \<Rightarrow> (ApiFailed e, [b # bs], db)
                    | Inr ans \<Rightarrow>
                        if ba_success ans \<noteq> Some True then
                          (Refused 422 ''422''
                             (case ba_message ans of
                                None \<Rightarrow> ''Budget consumption error''
                              | Some m \<Rightarrow> if m \<noteq> [] then m else ''Budget consumption error''),
                           [b # bs], db)
                        else (case mark_verified now done req db of
                                (a, db') \<Rightarrow> (a, [b # bs], db')))))"

subsection \<open>What the operations guarantee\<close>

lemma TransferentryCreationRepo_Some:
  assumes "TransferentryCreationRepo now copied request db = Some (ids, db')"
  shows "copied"
    and "ids = map (\<lambda>r. entry_id now (rqPaoCode r)) request"
    and "\<exists>date. db' = db @ map (created_row now date) request
      \<and> (\<forall>r rs. request = r # rs \<longrightarrow> date = parse_date (rqTransDate r))"
  using assms by (auto simp: TransferentryCreationRepo_def split: list.splits option.splits if_splits)

text \<open>The lines that post to the budget, and whether the office of each of them is known.\<close>
definition posting :: "'f TransferEntryVerifyRequest list \<Rightarrow> 'f TransferEntryVerifyRequest list" where
  "posting ys = filter (\<lambda>y. shouldPostToBudget (vqHoa y)) ys"

definition office_known :: "(string \<Rightarrow> 64 word lookup) \<Rightarrow> 'f TransferEntryVerifyRequest \<Rightarrow> bool" where
  "office_known office y = (case office (vqDdoCode y) of Present _ \<Rightarrow> True | _ \<Rightarrow> False)"

definition office_of :: "(string \<Rightarrow> 64 word lookup) \<Rightarrow> 'f TransferEntryVerifyRequest \<Rightarrow> 64 word" where
  "office_of office y = (case office (vqDdoCode y) of Present u \<Rightarrow> u | _ \<Rightarrow> 0)"

lemma budget_scan_known:
  "list_all (office_known office) (posting ys) \<Longrightarrow>
    budget_scan F office ys = Inr (map (\<lambda>y. budget_line F (office_of office y) y) (posting ys))"
  by (induction ys) (auto simp: posting_def office_known_def office_of_def split: lookup.splits)

lemma budget_scan_unknown:
  "\<not> list_all (office_known office) (posting ys) \<Longrightarrow> \<exists>e. budget_scan F office ys = Inl e \<and> e \<noteq> Updated"
  by (induction ys) (auto simp: posting_def office_known_def split: lookup.splits sum.splits if_splits)

text \<open>A request of transfer entry lines is stored, every line or none, exactly when the body can be read,
  each line passes its tags, the credits add up to the debits, the transaction date of the first line is a date
  and the database takes the rows; the stored rows are the lines in their order, marked created, with the
  identifier of the line's office at that second and the date of the FIRST line; lines whose type is neither C
  nor D are stored but take no part in the comparison.\<close>

theorem create_stores_balanced_lines:
  "CreateTransferEntryHandler F V now copied body db =
    (case body of None \<Rightarrow> (BindingError, db)
     | Some req \<Rightarrow>
         if \<not> list_all (TransferEntryRequest_ok F V) req then (ValidationError, db)
         else if \<not> balanced F (filter (\<lambda>l. fst l = ''D'' \<or> fst l = ''C'')
                      (map (\<lambda>r. (rqTransferType r, rqTransferAmount r)) req))
           then (Refused 500 ''500'' ''Internal Server Error'', db)
         else if copied \<and> (req = [] \<or> parse_date (rqTransDate (hd req)) \<noteq> None)
           then (Created (map (\<lambda>r. rqPaoCode r @ stamp now) req),
                 db @ map (created_row now (if req = [] then None else parse_date (rqTransDate (hd req)))) req)
         else (DbError, db))"
proof -
  have "balanced F (filter (\<lambda>l. fst l = ''D'' \<or> fst l = ''C'') lines) = balanced F lines" for lines
    by (simp only: balanced_def totals_counted [symmetric])
  thus ?thesis
    by (auto simp: CreateTransferEntryHandler_def TransferentryCreationRepo_def entry_id_def
        split: option.splits list.splits)
qed

subsection \<open>Marking leaves the booking alone\<close>

text \<open>A row with the columns of its verification blanked: what was booked.\<close>
definition booked :: "'f te_row \<Rightarrow> 'f te_row" where
  "booked r = r\<lparr>te_status := [], te_verified_by := None, te_verified_date := None, te_approver_remarks := None\<rparr>"

lemma booked_mark_row [simp]: "booked (mark_row s w t m r) = booked r"
  by (simp add: booked_def mark_row_def)

lemma te_id_mark_row [simp]: "te_id (mark_row s w t m r) = te_id r"
  by (simp add: mark_row_def)

lemma booked_update_mark [simp]:
  "map booked (update_where p (mark_row s w t m) db) = map booked db"
  by (simp add: map_update_where)

lemma booked_TransferentryVerifyRepo: "map booked (TransferentryVerifyRepo now req db) = map booked db"
  by (induction req arbitrary: db) (simp_all add: TransferentryVerifyRepo_def)

lemma rejected_unchanged:
  "map booked (snd (UpdateTransferEntryRejectHandler V now done body db)) = map booked db"
  by (simp add: UpdateTransferEntryRejectHandler_def split: option.split)

lemma unnamed_unchanged:
  "filter (\<lambda>t. te_id t \<notin> vqTransferEntryId ` set req) (TransferentryVerifyRepo now req db)
    = filter (\<lambda>t. te_id t \<notin> vqTransferEntryId ` set req) db"
proof -
  have "filter (\<lambda>t. te_id t \<notin> vqTransferEntryId ` A) (TransferentryVerifyRepo now req db)
      = filter (\<lambda>t. te_id t \<notin> vqTransferEntryId ` A) db" if "set req \<subseteq> A" for A
    using that
  proof (induction req arbitrary: db)
    case (Cons s req)
    have "filter (\<lambda>t. te_id t \<notin> vqTransferEntryId ` A)
        (update_where (\<lambda>t. te_id t = vqTransferEntryId s) (mark_row a b c d) db)
      = filter (\<lambda>t. te_id t \<notin> vqTransferEntryId ` A) db" for a b c d
      using Cons.prems by (induction db) (auto simp: update_where_def)
    with Cons show ?case by (simp add: TransferentryVerifyRepo_def)
  qed (simp add: TransferentryVerifyRepo_def)
  thus ?thesis by blast
qed

text \<open>C20: the bulk verification asks the budget service before it marks a row: when it answers Updated, every line
  whose head of account posts to the budget was in the one request sent, credits negated and each under the office
  and the financial year of its own line, and the service said success; the rows marked are the rows of the
  identifiers named, and nothing of a booking but its verification columns changes.  Any other answer leaves the
  table as it was.\<close>

theorem verification_consumes_budget_first:
  assumes "UpdateTransferEntryVerifyHandler F V office budget now done body db = (answer, sent, db')"
  shows "if answer = Updated
    then (\<exists>req. body = Some req \<and> list_all (TransferEntryVerifyRequest_ok F V) req
      \<and> sent = (if posting req = [] then [] else [map (\<lambda>y. budget_line F (office_of office y) y) (posting req)])
      \<and> list_all (\<lambda>bs. \<exists>ans. budget bs = Inr ans \<and> ba_success ans = Some True) sent
      \<and> db' = TransferentryVerifyRepo now req db
      \<and> map booked db' = map booked db
      \<and> filter (\<lambda>t. te_id t \<notin> vqTransferEntryId ` set req) db' = filter (\<lambda>t. te_id t \<notin> vqTransferEntryId ` set req) db)
    else db' = db"
proof (cases "\<exists>req. body = Some req \<and> list_all (TransferEntryVerifyRequest_ok F V) req
    \<and> list_all (office_known office) (posting req)")
  case True
  then obtain req where "body = Some req" "list_all (TransferEntryVerifyRequest_ok F V) req"
    and known: "list_all (office_known office) (posting req)" by blast
  with assms budget_scan_known [OF known, of F] show ?thesis
    by (cases "posting req")
       (auto simp: UpdateTransferEntryVerifyHandler_def mark_verified_def booked_TransferentryVerifyRepo
          unnamed_unchanged split: sum.splits if_splits)
next
  case False
  with assms budget_scan_unknown [of office _ F] show ?thesis
    by (fastforce simp: UpdateTransferEntryVerifyHandler_def split: option.splits if_splits sum.splits)
qed

subsection \<open>A concrete verification\<close>

text \<open>Whole amounts, a library that accepts every value, one line that posts to the budget.\<close>
definition whole_amounts :: "int float64" where
  "whole_amounts = \<lparr>fzero = 0, fadd = (+), fsub = (-), fmul = (*), fneg = uminus,
    feq = (=), fless = (<), fint = id\<rparr>"

definition lenient :: validators where
  "lenient = \<lparr>v_head_of_account = \<lambda>_. True, v_employee_id = \<lambda>_. True, v_date = \<lambda>_. True, v_max = \<lambda>_ _. True\<rparr>"

definition sample_day :: gtime where
  "sample_day = \<lparr>tYear = 2026, tMonth = 2, tDay = 3, tHour = 4, tMinute = 5, tSecond = 6\<rparr>"

definition sample_verify :: "int TransferEntryVerifyRequest" where
  "sample_verify = \<lparr>vqDdoCode = ''100001'', vqHoa = ''320101001010101'', vqTransferAmount = 70,
    vqTransferType = ''C'', vqCreatedDate = sample_day, vqTransferEntryId = ''E1'',
    vqVerificationStatus = ''deleted'', vqVerifiedBy = 9, vqVerifiedDate = sample_day,
    vqApproverRemarks = ''no'', vqTransDate = sample_day\<rparr>"

lemma stamp_sample: "stamp sample_day = ''20260203040506''"
  by code_simp

lemma year_before_sample: "getFinancialYear sample_day = ''2025''"
  by code_simp

lemma sample_verify_ok: "TransferEntryVerifyRequest_ok whole_amounts lenient sample_verify"
  by (simp add: TransferEntryVerifyRequest_ok_def sample_verify_def whole_amounts_def lenient_def
      ValidateDdocode_def is_digit_def zero_time_def sample_day_def)

lemma posting_sample: "posting [sample_verify] = [sample_verify]"
  by (simp add: posting_def sample_verify_def shouldPostToBudget_def)

text \<open>A rejection sent through the bulk verification still moves the budget of its line.\<close>
lemma sample_verification:
  "UpdateTransferEntryVerifyHandler whole_amounts lenient (\<lambda>_. Present 5)
     (\<lambda>_. Inr \<lparr>ba_success = Some True, ba_message = None\<rparr>) sample_day True (Some [sample_verify]) db
    = (Updated, [[budget_line whole_amounts 5 sample_verify]],
       TransferentryVerifyRepo sample_day [sample_verify] db)"
  using budget_scan_known [of "\<lambda>_. Present 5" "[sample_verify]" whole_amounts]
  by (simp add: UpdateTransferEntryVerifyHandler_def sample_verify_ok mark_verified_def posting_sample
      office_known_def office_of_def)

lemma verification_consumes_budget_first_witness:
  "brConsumedAmount (budget_line whole_amounts 5 sample_verify) = -70
    \<and> brFinancialYear (budget_line whole_amounts 5 sample_verify) = ''2025''
    \<and> map booked (TransferentryVerifyRepo sample_day [sample_verify] ([] :: int te_row list)) = []"
  using verification_consumes_budget_first [OF sample_verification [of "[]"]]
  by (simp add: budget_line_def consumed_def year_before_sample whole_amounts_def) (simp add: sample_verify_def year_before_sample)

end
