(* ===== verification/TransferSaga.thy ===== *)
theory TransferSaga
  imports TransferEntry "HOL-Library.Monad_Syntax"
begin

text \<open>
  The verification of a transfer entry sent by the sub accounts
  (pao-back-end-development/): CreateSubaccountsTeVerifiedTempoHandler in
  handler/transferentry.go, which starts a workflow, and the workflow itself,
  TransferentryverificationWorkflow in repo/postgres/transferentry.go, which consumes
  budget, tells the sub accounts, gives the budget back when they fail, and posts
  the rows with an activity that is retried until it succeeds.

  The two Nexus services and the worker that runs the activity are arguments: what
  an operation answers, and what becomes of each attempt of the activity.  A
  run that never returns is None.
\<close>

subsection \<open>Messages\<close>

record 'f SubTeVerified =
  stPaoCode :: string
  stDdoCode :: string
  stTransId :: string
  stHoa :: string
  stAccountCode :: string
  stTransferAmount :: 'f
  stTransferType :: string
  stCreatedBy :: "64 word"
  stCreatedDate :: gtime
  stStatus :: string
  stApprovedBy :: "64 word"
  stApprovedDate :: gtime
  stApproverRemarks :: string
  stRemarksByCreator :: string
  stWorkflowId :: string
  stTransDate :: gtime

definition SubTeVerified_ok ::
  "'f float64 \<Rightarrow> validators \<Rightarrow> (string \<Rightarrow> bool) \<Rightarrow> 'f SubTeVerified \<Rightarrow> bool"
where
  "SubTeVerified_ok F V account t =
    (given (stPaoCode t) \<and> ValidatePaocode (stPaoCode t)
     \<and> given (stDdoCode t) \<and> ValidateDdocode (stDdoCode t)
     \<and> given (stTransId t) \<and> v_max V 30 (stTransId t)
     \<and> given (stHoa t) \<and> v_head_of_account V (stHoa t)
     \<and> given (stAccountCode t) \<and> account (stAccountCode t)
     \<and> \<not> feq F (stTransferAmount t) (fzero F)
     \<and> given (stTransferType t) \<and> v_max V 20 (stTransferType t)
     \<and> stCreatedBy t \<noteq> 0 \<and> v_employee_id V (stCreatedBy t)
     \<and> stCreatedDate t \<noteq> zero_time
     \<and> given (stStatus t) \<and> v_max V 20 (stStatus t)
     \<and> stApprovedBy t \<noteq> 0 \<and> v_employee_id V (stApprovedBy t)
     \<and> stApprovedDate t \<noteq> zero_time
     \<and> given (stApproverRemarks t) \<and> v_max V 255 (stApproverRemarks t)
     \<and> v_max V 255 (stRemarksByCreator t) \<and> v_max V 30 (stWorkflowId t))"

text \<open>convertSubTeVerifiedToSubTeVerified copies every field but the remarks of the creator.\<close>
definition convertSubTeVerified :: "'f SubTeVerified \<Rightarrow> 'f SubTeVerified" where
  "convertSubTeVerified t = t\<lparr>stRemarksByCreator := []\<rparr>"

text \<open>What the workflow sends to the budget service for one line.\<close>
record 'f BudgetInput =
  biFinancialYear :: string
  biOfficeId :: "64 word"
  biHoa :: string
  biConsumedAmount :: 'f
  biRemarks :: string
  biUpdatedBy :: "64 word"
  biTransactionOffice :: "64 word"
  biSourceModule :: string

definition budget_input :: "'f BudgetRequest \<Rightarrow> 'f BudgetInput" where
  "budget_input r = \<lparr>biFinancialYear = brFinancialYear r, biOfficeId = brOfficeId r, biHoa = brHoa r,
    biConsumedAmount = brConsumedAmount r, biRemarks = brRemarks r, biUpdatedBy = brUpdatedBy r,
    biTransactionOffice = brTransactionOffice r, biSourceModule = brSourceModule r\<rparr>"

text \<open>NewBudgetREquesttoBudgetTransferEntryVerificationInput: three conversions per request, the first failure ends it.\<close>
fun budget_inputs :: "'f BudgetRequest list \<Rightarrow> (string, 'f BudgetInput list) sum" where
  "budget_inputs [] = Inr []"
| "budget_inputs (r # rs) =
    (case safeConvertToUint64 (brOfficeId r) of Inl e \<Rightarrow> Inl e | Inr office \<Rightarrow>
     case safeConvertToUint64 (brUpdatedBy r) of Inl e \<Rightarrow> Inl e | Inr author \<Rightarrow>
     case safeConvertToUint64 (brTransactionOffice r) of Inl e \<Rightarrow> Inl e | Inr desk \<Rightarrow>
     case budget_inputs rs of Inl e \<Rightarrow> Inl e
     | Inr is \<Rightarrow> Inr (budget_input (r\<lparr>brOfficeId := office, brUpdatedBy := author, brTransactionOffice := desk\<rparr>) # is))"

text \<open>What the workflow sends to the sub accounts.\<close>
record SubAccountInput =
  siTransId :: string
  siWorkflowId :: string
  siStatus :: string
  siApprovedBy :: "64 word"
  siApprovedDate :: string
  siRemarks :: string

subsection \<open>The workflow\<close>

text \<open>A Nexus operation: it does not start, it starts and fails, or it answers.\<close>
datatype 'a nexus = NotStarted | Failed | Answered 'a

text \<open>One line of the budget answer; the identifier is the service's own.\<close>
record 'b BudgetConsumptionResponse =
  bcBudgetID :: 'b
  bcRemark :: string

text \<open>
  One attempt of the posting activity: nothing stored and an error, stored but the
  answer lost, stored and acknowledged, or the activity ended from outside.
\<close>
datatype attempt = Lost | Unacknowledged | Acknowledged | Aborted

datatype ('f, 'b) saga_event =
    ConsumeBudget "'f BudgetInput list"
  | UpdateSubaccounts SubAccountInput
  | ReverseBudget "'b list"
  | PostRows

text \<open>The row SubVerifiedTePostingTemporalRepoNew inserts for one line.\<close>
definition posted_row :: "gtime \<Rightarrow> 'f SubTeVerified \<Rightarrow> 'f te_row" where
  "posted_row now t = \<lparr>
    te_pao = stPaoCode t, te_ddo = stDdoCode t, te_hoa = stHoa t, te_amount = stTransferAmount t,
    te_type = stTransferType t, te_created_by = stCreatedBy t, te_created_date = stCreatedDate t,
    te_office = ''DDO'', te_id = stTransId t, te_remarks = stRemarksByCreator t,
    te_status = ''verified'', te_trans_date = Some (stTransDate t),
    te_account = Some (stAccountCode t), te_verified_by = Some (stApprovedBy t),
    te_verified_date = Some (midnight now), te_approver_remarks = Some (stApproverRemarks t),
    te_hpfms = None, te_pfms_id = None, te_pfms_flag = None, te_pfms_error = None\<rparr>"

definition post_rows :: "gtime \<Rightarrow> 'f SubTeVerified list \<Rightarrow> 'f te_row list \<Rightarrow> 'f te_row list" where
  "post_rows now ts db = db @ map (posted_row now) ts"

text \<open>The activity under its retry policy: any number of attempts, from the k-th on.\<close>
partial_function (option) post_retry ::
  "(nat \<Rightarrow> attempt) \<Rightarrow> gtime \<Rightarrow> 'f SubTeVerified list \<Rightarrow> nat \<Rightarrow> 'f te_row list
    \<Rightarrow> (bool \<times> 'f te_row list) option"
where
  "post_retry attempts now ts k db =
    (case attempts k of
       Acknowledged \<Rightarrow> Some (True, post_rows now ts db)
     | Unacknowledged \<Rightarrow> post_retry attempts now ts (Suc k) (post_rows now ts db)
     | Lost \<Rightarrow> post_retry attempts now ts (Suc k) db
     | Aborted \<Rightarrow> Some (False, db))"

text \<open>The first part: the budget.  Inl ends the workflow with its message and whether that is an error.\<close>
definition budget_step ::
  "('f BudgetInput list \<Rightarrow> 'b BudgetConsumptionResponse list nexus) \<Rightarrow> 'f BudgetInput list
    \<Rightarrow> (string \<times> bool, 'b list) sum \<times> ('f, 'b) saga_event list"
where
  "budget_step budget is =
    (if is = [] then (Inr [], [])
     else (case budget is of
             NotStarted \<Rightarrow> Inl (''Budget Nexus Initiation failed'', True)
           | Failed \<Rightarrow> Inl (''Budget Nexus call failed'', True)
           | Answered out \<Rightarrow>
               if 0 < length (filter (\<lambda>t. bcRemark t = ''Insufficient funds'') out)
               then Inl (''Insufficient funds'', False)
               else Inr (map bcBudgetID out),
           [ConsumeBudget is]))"

text \<open>The second part: the sub accounts, and the budget given back when they fail.\<close>
definition subaccounts_step ::
  "(SubAccountInput \<Rightarrow> string nexus) \<Rightarrow> ('b list \<Rightarrow> string nexus) \<Rightarrow> SubAccountInput \<Rightarrow> 'b list
    \<Rightarrow> (string \<times> bool) option \<times> ('f, 'b) saga_event list"
where
  "subaccounts_step sub reversal si ids =
    (case sub si of
       NotStarted \<Rightarrow> (Some (''Subaccounts Nexus Call Failed'', True), [UpdateSubaccounts si])
     | Answered _ \<Rightarrow> (None, [UpdateSubaccounts si])
     | Failed \<Rightarrow>
         if ids \<noteq> [] then
           (Some (case reversal ids of
                    NotStarted \<Rightarrow> ([], True)
                  | Failed \<Rightarrow> (''Budget reversal failed'', True)
                  | Answered _ \<Rightarrow> (''Subaccounts updation failed'', False)),
            [UpdateSubaccounts si, ReverseBudget ids])
         else (None, [UpdateSubaccounts si]))"

definition TransferentryverificationWorkflow ::
  "('f BudgetInput list \<Rightarrow> 'b BudgetConsumptionResponse list nexus)
    \<Rightarrow> (SubAccountInput \<Rightarrow> string nexus) \<Rightarrow> ('b list \<Rightarrow> string nexus) \<Rightarrow> (nat \<Rightarrow> attempt) \<Rightarrow> gtime
    \<Rightarrow> 'f BudgetInput list \<Rightarrow> SubAccountInput \<Rightarrow> 'f SubTeVerified list \<Rightarrow> 'f te_row list
    \<Rightarrow> ((string \<times> bool) \<times> ('f, 'b) saga_event list \<times> 'f te_row list) option"
where
  "TransferentryverificationWorkflow budget sub reversal attempts now is si ts db =
    (case budget_step budget is of
       (Inl res, tr) \<Rightarrow> Some (res, tr, db)
     | (Inr ids, tr) \<Rightarrow>
         (case subaccounts_step sub reversal si ids of
            (Some res, tr') \<Rightarrow> Some (res, tr @ tr', db)
          | (None, tr') \<Rightarrow>
              (case post_retry attempts now ts 0 db of
                 None \<Rightarrow> None
               | Some (ok, db') \<Rightarrow>
                   Some (if ok then (''Transfer Entry Successfully verified'', False)
                         else (''Transfer Entry posting failed'', True),
                         tr @ tr' @ [PostRows], db'))))"

subsection \<open>Starting the workflow\<close>

text \<open>Format("2006-01-02 15:04:05").\<close>
definition stamp_spaced :: "gtime \<Rightarrow> string" where
  "stamp_spaced t = zero_padded 4 (nat (tYear t)) @ ''-'' @ zero_padded 2 (tMonth t) @ ''-''
    @ zero_padded 2 (tDay t) @ '' '' @ zero_padded 2 (tHour t) @ '':''
    @ zero_padded 2 (tMinute t) @ '':'' @ zero_padded 2 (tSecond t)"

text \<open>The loop that keeps one line's fields for the whole request: those of the last line.\<close>
definition last_line :: "'f SubTeVerified list \<Rightarrow> SubAccountInput \<times> string \<times> gtime" where
  "last_line ts = fold (\<lambda>t _.
      (\<lparr>siTransId = stTransId t, siWorkflowId = [], siStatus = stStatus t, siApprovedBy = stApprovedBy t,
        siApprovedDate = [], siRemarks = stApproverRemarks t\<rparr>, stDdoCode t, stCreatedDate t)) ts
    (\<lparr>siTransId = [], siWorkflowId = [], siStatus = [], siApprovedBy = 0, siApprovedDate = [],
      siRemarks = []\<rparr>, [], zero_time)"

text \<open>The budget request of one line: the office and the date are those of the last line.\<close>
definition sub_budget_line ::
  "'f float64 \<Rightarrow> 64 word \<Rightarrow> gtime \<Rightarrow> 'f SubTeVerified \<Rightarrow> 'f BudgetRequest"
where
  "sub_budget_line F office date y = \<lparr>
    brFinancialYear = getFinancialYear date, brOfficeId = office, brHoa = stHoa y,
    brConsumedAmount = consumed F (stTransferType y) (stTransferAmount y), brRemarks = stTransId y,
    brUpdatedBy = stCreatedBy y, brTransactionOffice = office, brSourceModule = ''PAO''\<rparr>"

text \<open>The second loop: the same office is looked up for every line that posts to the budget.\<close>
fun sub_budget_scan ::
  "'f float64 \<Rightarrow> 64 word lookup \<Rightarrow> gtime \<Rightarrow> 'f SubTeVerified list \<Rightarrow> (reply, 'f BudgetRequest list) sum"
where
  "sub_budget_scan F office date [] = Inr []"
| "sub_budget_scan F office date (y # ys) =
    (if shouldPostToBudget (stHoa y) then
       (case office of
          LookupError \<Rightarrow> Inl DbError
        | Absent \<Rightarrow> Inl (Refused 500 ''404'' ''Internal Server Error'')
        | Present u \<Rightarrow>
            (case sub_budget_scan F office date ys of Inl e \<Rightarrow> Inl e
             | Inr bs \<Rightarrow> Inr (sub_budget_line F u date y # bs)))
     else sub_budget_scan F office date ys)"

text \<open>
  The handler: its answer and the arguments of the workflow it starts, if it starts one.
  saved is the outcome of storing the workflow's identifier with the sub accounts,
  started that of ExecuteWorkflow.
\<close>
definition CreateSubaccountsTeVerifiedTempoHandler ::
  "'f float64 \<Rightarrow> validators \<Rightarrow> (string \<Rightarrow> bool) \<Rightarrow> string \<Rightarrow> gtime \<Rightarrow> bool \<Rightarrow> (string \<Rightarrow> 64 word lookup) \<Rightarrow> bool
    \<Rightarrow> 'f SubTeVerified list option
    \<Rightarrow> reply \<times> ('f BudgetInput list \<times> SubAccountInput \<times> 'f SubTeVerified list) option"
where
  "CreateSubaccountsTeVerifiedTempoHandler F V account workflowid now saved office started body =
    (case body of None \<Rightarrow> (BindingError, None)
     | Some ts \<Rightarrow>
         if \<not> list_all (SubTeVerified_ok F V account) ts then (ValidationError, None)
         else
           let req = map (\<lambda>t. (convertSubTeVerified t)\<lparr>stWorkflowId := workflowid\<rparr>) ts;
               (si, ddocode, date) = last_line req
           in if \<not> saved then (DbError, None)
              else (case sub_budget_scan F (office ddocode) date req of
                      Inl e \<Rightarrow> (e, None)
                    | Inr bs \<Rightarrow>
                        (case budget_inputs bs of
                           Inl e \<Rightarrow> (DbError, None)
                         | Inr is \<Rightarrow>
                             if started then
                               (Submitted, Some (is, si\<lparr>siWorkflowId := workflowid,
                                                        siApprovedDate := stamp_spaced now\<rparr>, req))
                             else (DbError, None))))"

section \<open>What the workflow guarantees\<close>

text \<open>The rows of one posting, n times over.\<close>
definition posted_times :: "nat \<Rightarrow> gtime \<Rightarrow> 'f SubTeVerified list \<Rightarrow> 'f te_row list \<Rightarrow> 'f te_row list" where
  "posted_times n now ts db = db @ concat (replicate n (map (posted_row now) ts))"

lemma posted_times_0 [simp]: "posted_times 0 now ts db = db"
  by (simp add: posted_times_def)

lemma posted_times_post_rows [simp]:
  "posted_times n now ts (post_rows now ts db) = posted_times (Suc n) now ts db"
  by (simp add: posted_times_def post_rows_def)

lemma post_retry_result:
  assumes "post_retry attempts now ts k db = Some (ok, db')"
  shows "\<exists>n. db' = posted_times n now ts db \<and> (if ok then 0 < n else True)"
proof -
  have "\<exists>n. snd r = posted_times n now ts db \<and> (if fst r then 0 < n else True)"
    if "post_retry attempts now ts k db = Some r" for r
    using that
  proof (induction attempts now ts k db r rule: post_retry.raw_induct [rotated 1, consumes 1])
    case (1 rec attempts now ts k db r)
    have one: "post_rows now ts db = posted_times (Suc 0) now ts db" by (simp add: posted_times_def post_rows_def)
    from 1(2) show ?case
    proof (cases "attempts k")
      case Unacknowledged
      with 1 obtain n where "snd r = posted_times n now ts (post_rows now ts db)" "if fst r then 0 < n else True"
        by fastforce
      thus ?thesis by (intro exI [of _ "Suc n"]) simp
    next
      case Acknowledged
      with 1(2) one show ?thesis by (intro exI [of _ "Suc 0"]) auto
    next
      case Aborted
      with 1(2) show ?thesis by (intro exI [of _ 0]) auto
    qed (use 1 in auto)
  qed
  from this [OF assms] show ?thesis by simp
qed

lemma post_retry_reaches:
  assumes "attempts (k + n) = Acknowledged" and "\<And>j. j < n \<Longrightarrow> attempts (k + j) \<in> {Lost, Unacknowledged}"
  shows "post_retry attempts now ts k db =
    Some (True, posted_times (Suc (length (filter (\<lambda>j. attempts j = Unacknowledged) [k..<k + n]))) now ts db)"
  using assms
proof (induction n arbitrary: k db)
  case 0
  thus ?case by (simp add: post_retry.simps [of attempts now ts k] posted_times_def post_rows_def)
next
  case (Suc n)
  have rest: "post_retry attempts now ts (Suc k) d =
      Some (True, posted_times (Suc (length (filter (\<lambda>j. attempts j = Unacknowledged) [Suc k..<Suc k + n]))) now ts d)" for d
    using Suc.prems(1) Suc.prems(2) [of "Suc j" for j] by (intro Suc.IH) auto
  have "[k..<k + Suc n] = k # [Suc k..<Suc k + n]" by (simp add: upt_rec [of k])
  with Suc.prems(2) [of 0] rest show ?case
    by (auto simp: post_retry.simps [of attempts now ts k])
qed

lemma post_retry_never:
  assumes "\<And>j. attempts j \<in> {Lost, Unacknowledged}"
  shows "post_retry attempts now ts k db = None"
proof (rule ccontr)
  assume "post_retry attempts now ts k db \<noteq> None"
  then obtain r where "post_retry attempts now ts k db = Some r" by blast
  hence "\<exists>j. attempts j \<notin> {Lost, Unacknowledged}"
  proof (induction attempts now ts k db r rule: post_retry.raw_induct [rotated 1, consumes 1])
    case (1 rec attempts now ts k db r)
    thus ?case by (cases "attempts k") (auto intro: exI [of _ k])
  qed
  with assms show False by blast
qed

text \<open>The budget identifiers the first part hands to the second.\<close>
definition consumed_ids ::
  "('f BudgetInput list \<Rightarrow> 'b BudgetConsumptionResponse list nexus) \<Rightarrow> 'f BudgetInput list \<Rightarrow> 'b list"
where
  "consumed_ids budget is = (if is = [] then []
    else (case budget is of Answered out \<Rightarrow> map bcBudgetID out | _ \<Rightarrow> []))"

definition budget_granted ::
  "('f BudgetInput list \<Rightarrow> 'b BudgetConsumptionResponse list nexus) \<Rightarrow> 'f BudgetInput list \<Rightarrow> bool"
where
  "budget_granted budget is = (is = [] \<or> (\<exists>out. budget is = Answered out \<and>
     list_all (\<lambda>t. bcRemark t \<noteq> ''Insufficient funds'') out))"

lemma budget_step_granted:
  "budget_granted budget is \<Longrightarrow>
    budget_step budget is = (Inr (consumed_ids budget is), if is = [] then [] else [ConsumeBudget is])"
  by (auto simp: budget_granted_def budget_step_def consumed_ids_def list_all_iff filter_empty_conv)

lemma budget_step_refused:
  "\<not> budget_granted budget is \<Longrightarrow> \<exists>res. budget_step budget is = (Inl res, [ConsumeBudget is])
    \<and> res \<noteq> (''Transfer Entry Successfully verified'', False)"
  by (auto simp: budget_granted_def budget_step_def list_all_iff filter_empty_conv split: nexus.splits)

lemmas workflow_steps = TransferentryverificationWorkflow_def subaccounts_step_def

text \<open>C18: whatever the services and the worker do, a run that ends has kept to one of two courses: it posted,
  and then the budget was granted or not needed, nothing was given back, and the table grew by whole copies of the
  verified lines; or it did not post, and the table is as it was.  Budget is given back at most once, only after it
  was consumed and the sub accounts failed, and then with exactly the identifiers of the consumption.\<close>

theorem verification_posts_or_compensates:
  assumes "TransferentryverificationWorkflow budget sub reversal attempts now is si ts db = Some (res, tr, db')"
  shows "if PostRows \<in> set tr
    then budget_granted budget is
      \<and> tr = (if is = [] then [] else [ConsumeBudget is]) @ [UpdateSubaccounts si, PostRows]
      \<and> sub si \<noteq> NotStarted \<and> (sub si = Failed \<longrightarrow> consumed_ids budget is = [])
      \<and> (\<exists>n. db' = posted_times n now ts db
            \<and> (res = (''Transfer Entry Successfully verified'', False) \<longrightarrow> 0 < n))
    else db' = db \<and> res \<noteq> (''Transfer Entry Successfully verified'', False)
      \<and> (tr = [ConsumeBudget is]
        \<or> tr = (if is = [] then [] else [ConsumeBudget is]) @ [UpdateSubaccounts si]
        \<or> tr = [ConsumeBudget is, UpdateSubaccounts si, ReverseBudget (consumed_ids budget is)]
            \<and> budget_granted budget is \<and> sub si = Failed)"
proof (cases "budget_granted budget is")
  case False
  with assms budget_step_refused [OF False] show ?thesis
    by (auto simp: workflow_steps)
next
  case True
  show ?thesis
  proof (cases "post_retry attempts now ts 0 db")
    case None
    with assms True show ?thesis
      by (auto simp: workflow_steps budget_step_granted consumed_ids_def split: nexus.splits if_splits)
  next
    case (Some r)
    then obtain ok d where "post_retry attempts now ts 0 db = Some (ok, d)" by (cases r) auto
    with assms True post_retry_result [OF this] show ?thesis
      by (auto simp: workflow_steps budget_step_granted consumed_ids_def split: nexus.splits if_splits)
  qed
qed

text \<open>What a failure of the sub accounts does.  When their operation does not start, the workflow ends with an
  error and the budget it consumed stays consumed; when it starts and fails after budget was consumed, the budget is given
  back and nothing is posted; but when it starts and fails and no line of the entry posts to the budget, the failure
  is dropped: the run is the run of a success, and the entry is posted as verified.\<close>

theorem subaccounts_failure_handling:
  assumes "budget_granted budget is"
  shows "(sub si = NotStarted \<longrightarrow>
      TransferentryverificationWorkflow budget sub reversal attempts now is si ts db
        = Some ((''Subaccounts Nexus Call Failed'', True),
                (if is = [] then [] else [ConsumeBudget is]) @ [UpdateSubaccounts si], db))
    \<and> (sub si = Failed \<and> consumed_ids budget is \<noteq> [] \<longrightarrow>
      (\<exists>res. TransferentryverificationWorkflow budget sub reversal attempts now is si ts db
        = Some (res, [ConsumeBudget is, UpdateSubaccounts si, ReverseBudget (consumed_ids budget is)], db)))
    \<and> (sub si = Failed \<and> consumed_ids budget is = [] \<longrightarrow>
      TransferentryverificationWorkflow budget sub reversal attempts now is si ts db
        = TransferentryverificationWorkflow budget (\<lambda>_. Answered out) reversal attempts now is si ts db)"
  using budget_step_granted [OF assms]
  by (auto simp: workflow_steps consumed_ids_def split: nexus.splits if_splits)

text \<open>C19: the entry is posted in the end.  Once the budget is granted and the sub accounts have answered, the run
  succeeds as soon as one attempt of the activity is acknowledged, after any number of attempts that were lost or not
  acknowledged; the table then holds the lines once, and once more for every attempt whose acknowledgement was lost.
  With no such attempt ever, the run does not return.\<close>

theorem verified_entry_is_posted:
  assumes "budget_granted budget is" and "sub si = Answered out"
  shows "(\<forall>n. attempts n = Acknowledged \<and> (\<forall>j<n. attempts j \<in> {Lost, Unacknowledged}) \<longrightarrow>
      TransferentryverificationWorkflow budget sub reversal attempts now is si ts db
        = Some ((''Transfer Entry Successfully verified'', False),
            (if is = [] then [] else [ConsumeBudget is]) @ [UpdateSubaccounts si, PostRows],
            posted_times (Suc (length (filter (\<lambda>j. attempts j = Unacknowledged) [0..<n]))) now ts db))
    \<and> ((\<forall>j. attempts j \<in> {Lost, Unacknowledged}) \<longrightarrow>
      TransferentryverificationWorkflow budget sub reversal attempts now is si ts db = None)"
  using budget_step_granted [OF assms(1)] assms(2) post_retry_reaches [of attempts 0 _ now ts db]
    post_retry_never [of attempts now ts 0 db]
  by (auto simp: workflow_steps)

section \<open>What the handler starts\<close>

lemma last_line_append [simp]:
  "last_line (ts @ [t]) = (\<lparr>siTransId = stTransId t, siWorkflowId = [], siStatus = stStatus t,
    siApprovedBy = stApprovedBy t, siApprovedDate = [], siRemarks = stApproverRemarks t\<rparr>, stDdoCode t, stCreatedDate t)"
  by (simp add: last_line_def)

lemma sub_budget_scan_Present:
  "sub_budget_scan F (Present u) date ys
    = Inr (map (sub_budget_line F u date) (filter (\<lambda>y. shouldPostToBudget (stHoa y)) ys))"
  by (induction ys) auto

lemma sub_budget_scan_Inr:
  "sub_budget_scan F office date ys = Inr bs \<Longrightarrow>
    \<exists>u. bs = map (sub_budget_line F u date) (filter (\<lambda>y. shouldPostToBudget (stHoa y)) ys)
      \<and> (bs = [] \<or> office = Present u)"
proof (cases office)
  case (Present u)
  assume "sub_budget_scan F office date ys = Inr bs"
  with Present show ?thesis by (auto simp: sub_budget_scan_Present)
qed (induction ys; force split: if_splits)+

lemma safeConvertToUint64_Inr: "safeConvertToUint64 v = Inr w \<Longrightarrow> w = v \<and> 0 \<le> sint v"
  by (simp add: safeConvertToUint64_def split: if_splits)

lemma budget_inputs_Inr:
  "budget_inputs rs = Inr is \<Longrightarrow> is = map budget_input rs \<and> list_all (\<lambda>r. 0 \<le> sint (brUpdatedBy r)) rs"
  by (induction rs arbitrary: "is") (auto split: sum.splits dest!: safeConvertToUint64_Inr)

text \<open>The fields of the request that decide the budget survive the conversion to the domain.\<close>
lemma sub_budget_line_converted [simp]:
  "sub_budget_line F u date ((convertSubTeVerified t)\<lparr>stWorkflowId := w\<rparr>) = sub_budget_line F u date t"
  by (simp add: sub_budget_line_def convertSubTeVerified_def)

text \<open>When the sub-accounts handler starts the workflow, the budget part holds one input per line whose head of
  account posts to the budget, in their order, credits negated, all under the office and the financial year of the
  LAST line; the sub-accounts part is the last line's; and the lines to be posted are the validated ones under the
  new workflow identifier with the creator's remarks erased.\<close>

theorem started_workflow_covers_lines:
  assumes "CreateSubaccountsTeVerifiedTempoHandler F V account wid now saved office started (Some (ts @ [t]))
    = (answer, Some (is, si, req))"
  shows "answer = Submitted \<and> saved \<and> started \<and> list_all (SubTeVerified_ok F V account) (ts @ [t])
    \<and> (\<exists>u. is = map (\<lambda>y. budget_input (sub_budget_line F u (stCreatedDate t) y))
             (filter (\<lambda>y. shouldPostToBudget (stHoa y)) (ts @ [t]))
          \<and> (is = [] \<or> office (stDdoCode t) = Present u))
    \<and> si = \<lparr>siTransId = stTransId t, siWorkflowId = wid, siStatus = stStatus t, siApprovedBy = stApprovedBy t,
            siApprovedDate = stamp_spaced now, siRemarks = stApproverRemarks t\<rparr>
    \<and> req = map (\<lambda>y. y\<lparr>stRemarksByCreator := [], stWorkflowId := wid\<rparr>) (ts @ [t])"
  using assms
  by (auto simp: CreateSubaccountsTeVerifiedTempoHandler_def Let_def convertSubTeVerified_def filter_map
      comp_def sub_budget_line_def budget_input_def
      split: if_splits sum.splits dest!: budget_inputs_Inr sub_budget_scan_Inr)

section \<open>Concrete runs\<close>

definition sample_sub :: "int SubTeVerified" where
  "sample_sub = \<lparr>stPaoCode = ''200002'', stDdoCode = ''100001'', stTransId = ''T1'', stHoa = ''320101001010101'',
    stAccountCode = ''42'', stTransferAmount = 70, stTransferType = ''C'', stCreatedBy = 8,
    stCreatedDate = sample_day, stStatus = ''approved'', stApprovedBy = 9, stApprovedDate = sample_day,
    stApproverRemarks = ''ok'', stRemarksByCreator = ''moved'', stWorkflowId = ''w'', stTransDate = sample_day\<rparr>"

definition sample_input :: "int BudgetInput" where
  "sample_input = budget_input (sub_budget_line whole_amounts 5 sample_day sample_sub)"

definition sample_si :: SubAccountInput where
  "sample_si = \<lparr>siTransId = ''T1'', siWorkflowId = ''w7'', siStatus = ''approved'', siApprovedBy = 9,
    siApprovedDate = stamp_spaced sample_day, siRemarks = ''ok''\<rparr>"

definition granting :: "int BudgetInput list \<Rightarrow> nat BudgetConsumptionResponse list nexus" where
  "granting is = Answered [\<lparr>bcBudgetID = 31, bcRemark = ''consumed''\<rparr>]"

lemma granting_granted: "budget_granted granting is"
  by (simp add: budget_granted_def granting_def)

lemma granting_ids: "consumed_ids granting [i] = [31]"
  by (simp add: consumed_ids_def granting_def)

lemma compensated_run:
  "TransferentryverificationWorkflow granting (\<lambda>_. Failed) (\<lambda>_. Answered []) (\<lambda>_. Acknowledged) sample_day
     [sample_input] sample_si [sample_sub] []
    = Some ((''Subaccounts updation failed'', False),
        [ConsumeBudget [sample_input], UpdateSubaccounts sample_si, ReverseBudget [31]], [])"
  by (simp add: workflow_steps budget_step_granted [OF granting_granted] granting_ids)

lemma verification_posts_or_compensates_witness:
  "budget_granted granting [sample_input] \<and> consumed_ids granting [sample_input] = [31]"
  using verification_posts_or_compensates [OF compensated_run] by (simp add: granting_ids)

lemma subaccounts_failure_handling_witness:
  "TransferentryverificationWorkflow granting (\<lambda>_. NotStarted) (\<lambda>_. Answered []) (\<lambda>_. Acknowledged) sample_day
     [sample_input] sample_si [sample_sub] []
    = Some ((''Subaccounts Nexus Call Failed'', True), [ConsumeBudget [sample_input], UpdateSubaccounts sample_si], [])"
  using subaccounts_failure_handling [OF granting_granted [of "[sample_input]"],
      where sub = "\<lambda>_. NotStarted" and si = sample_si] by simp

lemma verified_entry_is_posted_witness:
  "TransferentryverificationWorkflow granting (\<lambda>_. Answered []) (\<lambda>_. Answered [])
     (\<lambda>j. if j = 0 then Unacknowledged else Acknowledged) sample_day [sample_input] sample_si [sample_sub] []
    = Some ((''Transfer Entry Successfully verified'', False),
        [ConsumeBudget [sample_input], UpdateSubaccounts sample_si, PostRows],
        posted_times 2 sample_day [sample_sub] [])"
  using verified_entry_is_posted [OF granting_granted [of "[sample_input]"], where sub = "\<lambda>_. Answered []"
      and si = sample_si and out = "[]" and reversal = "\<lambda>_. Answered []" and now = sample_day
      and attempts = "\<lambda>j. if j = 0 then Unacknowledged else Acknowledged" and ts = "[sample_sub]" and db = "[]",
      THEN conjunct1, THEN spec, of 1]
  by (simp add: numeral_2_eq_2)

lemma sample_sub_ok: "SubTeVerified_ok whole_amounts lenient (\<lambda>_. True) sample_sub"
  by (simp add: SubTeVerified_ok_def sample_sub_def whole_amounts_def lenient_def
      ValidatePaocode_def ValidateDdocode_def is_digit_def zero_time_def sample_day_def)

lemma sample_start:
  "CreateSubaccountsTeVerifiedTempoHandler whole_amounts lenient (\<lambda>_. True) ''w7'' sample_day True (\<lambda>_. Present 5) True
     (Some ([] @ [sample_sub]))
    = (Submitted, Some ([sample_input], sample_si,
        [sample_sub\<lparr>stRemarksByCreator := [], stWorkflowId := ''w7''\<rparr>]))"
  using sample_sub_ok
  by (simp add: CreateSubaccountsTeVerifiedTempoHandler_def last_line_def convertSubTeVerified_def
      safeConvertToUint64_def sub_budget_line_def sample_input_def sample_si_def budget_input_def)
     (simp add: sample_sub_def shouldPostToBudget_def)

lemma started_workflow_covers_lines_witness:
  "filter (\<lambda>y. shouldPostToBudget (stHoa y)) [sample_sub] = [sample_sub]"
  using started_workflow_covers_lines [OF sample_start] by (cases "shouldPostToBudget (stHoa sample_sub)") auto

end
