(* ===== verification/InterPao.thy ===== *)
theory InterPao
  imports TransferEntry
begin

text \<open>
  Transfer entries between accounts offices (pao-back-end-development/): the table
  pao.transfer_entry_interpao, whose rows carry the code of the office that made the entry
  (the master) and of the office each line belongs to, with the handlers
  CreateTransferEntryInterPaoHandler, UpdateInterPaoTransferEntryVerifyMasterHandler
  and UpdateInterPaoTransferEntryVerifyHandler of handler/transferentry.go and their
  repository calls in repo/postgres/transferentry.go.  The states a sequence of calls reaches
  are an inductive predicate over the handlers themselves.
\<close>

subsection \<open>The table and the requests\<close>

record 'f ip_row =
  ip_master :: string
  ip_pao :: string
  ip_ddo :: string
  ip_hoa :: string
  ip_amount :: 'f
  ip_type :: string
  ip_created_by :: "64 word"
  ip_created_date :: gtime
  ip_office :: string
  ip_id :: string
  ip_remarks :: string
  ip_status :: string
  ip_verified_by :: "64 word option"
  ip_verified_date :: "gtime option"
  ip_approver_remarks :: "string option"

record 'f TransferEntryInterPaoRequest =
  iqMasterPaoCode :: string
  iqPaoCode :: string
  iqDdoCode :: string
  iqHoa :: string
  iqTransferAmount :: 'f
  iqTransferType :: string
  iqCreatedBy :: "64 word"
  iqCreatedDate :: string
  iqTeSourceOfficeType :: string
  iqRemarks :: string

definition TransferEntryInterPaoRequest_ok ::
  "'f float64 \<Rightarrow> validators \<Rightarrow> 'f TransferEntryInterPaoRequest \<Rightarrow> bool"
where
  "TransferEntryInterPaoRequest_ok F V r =
    (given (iqMasterPaoCode r) \<and> ValidatePaocode (iqMasterPaoCode r)
     \<and> given (iqPaoCode r) \<and> ValidatePaocode (iqPaoCode r)
     \<and> given (iqDdoCode r) \<and> ValidateDdocode (iqDdoCode r)
     \<and> given (iqHoa r) \<and> v_head_of_account V (iqHoa r)
     \<and> \<not> feq F (iqTransferAmount r) (fzero F)
     \<and> given (iqTransferType r) \<and> v_max V 20 (iqTransferType r)
     \<and> iqCreatedBy r \<noteq> 0 \<and> v_employee_id V (iqCreatedBy r)
     \<and> given (iqCreatedDate r) \<and> v_date V (iqCreatedDate r)
     \<and> given (iqTeSourceOfficeType r) \<and> v_max V 50 (iqTeSourceOfficeType r)
     \<and> given (iqRemarks r) \<and> v_max V 255 (iqRemarks r))"

text \<open>The request of the master, and that of another office, which names itself.\<close>
record TransferEntryInterPaoMasterUpdateRequest =
  muTransferEntryId :: string
  muVerificationStatus :: string
  muVerifiedBy :: "64 word"
  muApproverRemarks :: string

record TransferEntryInterPaoUpdateRequest = TransferEntryInterPaoMasterUpdateRequest +
  ouPaoCode :: string

definition MasterUpdateRequest_ok ::
  "validators \<Rightarrow> 'm TransferEntryInterPaoMasterUpdateRequest_scheme \<Rightarrow> bool"
where
  "MasterUpdateRequest_ok V r =
    (given (muTransferEntryId r) \<and> v_max V 30 (muTransferEntryId r)
     \<and> muVerificationStatus r \<in> set [''verified'', ''deleted'']
     \<and> muVerifiedBy r \<noteq> 0 \<and> v_employee_id V (muVerifiedBy r)
     \<and> given (muApproverRemarks r) \<and> v_max V 255 (muApproverRemarks r))"

definition OfficeUpdateRequest_ok :: "validators \<Rightarrow> TransferEntryInterPaoUpdateRequest \<Rightarrow> bool" where
  "OfficeUpdateRequest_ok V r =
    (MasterUpdateRequest_ok V r \<and> given (ouPaoCode r) \<and> ValidatePaocode (ouPaoCode r))"

subsection \<open>The operations\<close>

text \<open>The COPY of TransferentryInterPaoCreationRepo; created_date is the date without the time.\<close>
definition interpao_row :: "gtime \<Rightarrow> 'f TransferEntryInterPaoRequest \<Rightarrow> 'f ip_row" where
  "interpao_row now r = \<lparr>
    ip_master = iqMasterPaoCode r, ip_pao = iqPaoCode r, ip_ddo = iqDdoCode r, ip_hoa = iqHoa r,
    ip_amount = iqTransferAmount r, ip_type = iqTransferType r, ip_created_by = iqCreatedBy r,
    ip_created_date = midnight now, ip_office = iqTeSourceOfficeType r,
    ip_id = entry_id now (iqMasterPaoCode r), ip_remarks = iqRemarks r, ip_status = ''initiated'',
    ip_verified_by = None, ip_verified_date = None, ip_approver_remarks = None\<rparr>"

definition CreateTransferEntryInterPaoHandler ::
  "'f float64 \<Rightarrow> validators \<Rightarrow> gtime \<Rightarrow> bool \<Rightarrow> 'f TransferEntryInterPaoRequest list option \<Rightarrow> 'f ip_row list
    \<Rightarrow> reply \<times> 'f ip_row list"
where
  "CreateTransferEntryInterPaoHandler F V now copied body db =
    (case body of None \<Rightarrow> (BindingError, db)
     | Some req \<Rightarrow>
         if \<not> list_all (TransferEntryInterPaoRequest_ok F V) req then (ValidationError, db)
         else if balanced F (map (\<lambda>r. (iqTransferType r, iqTransferAmount r)) req) then
           (if copied then (Created (map (\<lambda>r. entry_id now (iqMasterPaoCode r)) req), db @ map (interpao_row now) req)
            else (DbError, db))
         else (Refused 500 ''500'' ''Internal Server Error'', db))"

text \<open>The columns an approval or a rejection sets.\<close>
definition mark_ip ::
  "string \<Rightarrow> 'm TransferEntryInterPaoMasterUpdateRequest_scheme \<Rightarrow> gtime \<Rightarrow> 'f ip_row \<Rightarrow> 'f ip_row"
where
  "mark_ip status r now t = t\<lparr>ip_verified_by := Some (muVerifiedBy r), ip_verified_date := Some now,
     ip_approver_remarks := Some (muApproverRemarks r), ip_status := status\<rparr>"

text \<open>The fate of a batch of two statements, which the database runs in one transaction.\<close>
datatype batch = BatchDone | FirstFails | SecondFails

text \<open>
  TransferentryInterPaoMasterVerifyRepo: the master's own rows are verified, then the rows of the other
  offices are released to them.  Only the first statement's result is read, so the failure of the
  second is not reported.
\<close>
definition TransferentryInterPaoMasterVerifyRepo ::
  "gtime \<Rightarrow> batch \<Rightarrow> 'm TransferEntryInterPaoMasterUpdateRequest_scheme \<Rightarrow> 'f ip_row list \<Rightarrow> bool \<times> 'f ip_row list"
where
  "TransferentryInterPaoMasterVerifyRepo now outcome r db =
    (case outcome of
       FirstFails \<Rightarrow> (False, db)
     | SecondFails \<Rightarrow> (True, db)
     | BatchDone \<Rightarrow>
         (True,
          update_where (\<lambda>t. ip_id t = muTransferEntryId r \<and> ip_pao t \<noteq> ip_master t) (\<lambda>t. t\<lparr>ip_status := ''created''\<rparr>)
            (update_where (\<lambda>t. ip_id t = muTransferEntryId r \<and> ip_pao t = ip_master t)
               (mark_ip ''verified'' r now) db)))"

text \<open>TransferentryInterPaoRejectRepo: every row of the entry.\<close>
definition TransferentryInterPaoRejectRepo ::
  "gtime \<Rightarrow> bool \<Rightarrow> 'm TransferEntryInterPaoMasterUpdateRequest_scheme \<Rightarrow> 'f ip_row list \<Rightarrow> bool \<times> 'f ip_row list"
where
  "TransferentryInterPaoRejectRepo now done r db =
    (if done then (True, update_where (\<lambda>t. ip_id t = muTransferEntryId r) (mark_ip ''deleted'' r now) db)
     else (False, db))"

text \<open>TransferentryInterPaoVerifyRepo: the rows of the entry that carry the office's own code.\<close>
definition TransferentryInterPaoVerifyRepo ::
  "gtime \<Rightarrow> bool \<Rightarrow> TransferEntryInterPaoUpdateRequest \<Rightarrow> 'f ip_row list \<Rightarrow> bool \<times> 'f ip_row list"
where
  "TransferentryInterPaoVerifyRepo now done r db =
    (if done then
       (True, update_where (\<lambda>t. ip_id t = muTransferEntryId r \<and> ip_pao t = ouPaoCode r) (mark_ip ''verified'' r now) db)
     else (False, db))"

definition interpao_answer :: "bool \<times> 'f ip_row list \<Rightarrow> reply \<times> 'f ip_row list" where
  "interpao_answer p = (if fst p then Updated else DbError, snd p)"

definition UpdateInterPaoTransferEntryVerifyMasterHandler ::
  "validators \<Rightarrow> gtime \<Rightarrow> batch \<Rightarrow> TransferEntryInterPaoMasterUpdateRequest option \<Rightarrow> 'f ip_row list
    \<Rightarrow> reply \<times> 'f ip_row list"
where
  "UpdateInterPaoTransferEntryVerifyMasterHandler V now outcome body db =
    (case body of None \<Rightarrow> (BindingError, db)
     | Some r \<Rightarrow>
         if \<not> MasterUpdateRequest_ok V r then (ValidationError, db)
         else interpao_answer
           (if muVerificationStatus r = ''verified'' then TransferentryInterPaoMasterVerifyRepo now outcome r db
            else if muVerificationStatus r = ''deleted''
              then TransferentryInterPaoRejectRepo now (outcome \<noteq> FirstFails) r db
            else (True, db)))"

definition UpdateInterPaoTransferEntryVerifyHandler ::
  "validators \<Rightarrow> gtime \<Rightarrow> bool \<Rightarrow> TransferEntryInterPaoUpdateRequest option \<Rightarrow> 'f ip_row list
    \<Rightarrow> reply \<times> 'f ip_row list"
where
  "UpdateInterPaoTransferEntryVerifyHandler V now done body db =
    (case body of None \<Rightarrow> (BindingError, db)
     | Some r \<Rightarrow>
         if \<not> OfficeUpdateRequest_ok V r then (ValidationError, db)
         else interpao_answer
           (if muVerificationStatus r = ''verified'' then TransferentryInterPaoVerifyRepo now done r db
            else if muVerificationStatus r = ''deleted'' then TransferentryInterPaoRejectRepo now done r db
            else (True, db)))"

subsection \<open>The states that can be reached\<close>

inductive ip_reach :: "'f float64 \<Rightarrow> validators \<Rightarrow> 'f ip_row list \<Rightarrow> bool" for F V where
  start: "ip_reach F V []"
| create: "ip_reach F V db \<Longrightarrow> ip_reach F V (snd (CreateTransferEntryInterPaoHandler F V now copied body db))"
| master: "ip_reach F V db \<Longrightarrow> ip_reach F V (snd (UpdateInterPaoTransferEntryVerifyMasterHandler V now outcome mbody db))"
| office: "ip_reach F V db \<Longrightarrow> ip_reach F V (snd (UpdateInterPaoTransferEntryVerifyHandler V now done obody db))"

text \<open>What the columns of one row have to do with each other.\<close>
definition ip_row_ok :: "'f ip_row \<Rightarrow> bool" where
  "ip_row_ok r =
    (ValidatePaocode (ip_master r) \<and> ValidatePaocode (ip_pao r) \<and> has_prefix (ip_id r) (ip_master r)
     \<and> ip_status r \<in> set [''initiated'', ''created'', ''verified'', ''deleted'']
     \<and> (ip_status r = ''initiated'' \<longrightarrow> ip_verified_by r = None)
     \<and> (ip_status r = ''created'' \<longrightarrow> ip_pao r \<noteq> ip_master r)
     \<and> (ip_status r \<in> {''verified'', ''deleted''} \<longrightarrow> ip_verified_by r \<noteq> None))"

definition ip_line :: "'f ip_row \<Rightarrow> string \<times> 'f" where
  "ip_line r = (ip_type r, ip_amount r)"

text \<open>A row with the columns of its approval blanked.\<close>
definition ip_booked :: "'f ip_row \<Rightarrow> 'f ip_row" where
  "ip_booked r = r\<lparr>ip_status := [], ip_verified_by := None, ip_verified_date := None, ip_approver_remarks := None\<rparr>"

lemma ip_marks [simp]:
  "ip_row_ok r \<Longrightarrow> ip_row_ok (mark_ip ''verified'' q now r)"
  "ip_row_ok r \<Longrightarrow> ip_row_ok (mark_ip ''deleted'' q now r)"
  "ip_row_ok r \<Longrightarrow> ip_pao r \<noteq> ip_master r \<Longrightarrow> ip_row_ok (r\<lparr>ip_status := ''created''\<rparr>)"
  "ip_booked (mark_ip s q now r) = ip_booked r"
  "ip_booked (r\<lparr>ip_status := s\<rparr>) = ip_booked r"
  "ip_line (mark_ip s q now r) = ip_line r"
  "ip_line (r\<lparr>ip_status := s\<rparr>) = ip_line r"
  "ip_id (mark_ip s q now r) = ip_id r"
  "ip_pao (mark_ip s q now r) = ip_pao r"
  "ip_master (mark_ip s q now r) = ip_master r"
  "ip_status (mark_ip s q now r) = s"
  by (auto simp: ip_row_ok_def mark_ip_def ip_booked_def ip_line_def)

lemma list_all_update_where:
  "list_all P rows \<Longrightarrow> (\<And>r. P r \<Longrightarrow> p r \<Longrightarrow> P (f r)) \<Longrightarrow> list_all P (update_where p f rows)"
  by (auto simp: update_where_def list_all_iff)

lemmas interpao_ops =
  UpdateInterPaoTransferEntryVerifyMasterHandler_def UpdateInterPaoTransferEntryVerifyHandler_def
  TransferentryInterPaoMasterVerifyRepo_def TransferentryInterPaoRejectRepo_def
  TransferentryInterPaoVerifyRepo_def interpao_answer_def

text \<open>Both approvals rewrite rows in place, by marks that keep a row well formed and its booking.\<close>
lemma master_keeps:
  "list_all ip_row_ok db \<Longrightarrow>
     list_all ip_row_ok (snd (UpdateInterPaoTransferEntryVerifyMasterHandler V now outcome mbody db))"
  "map ip_booked (snd (UpdateInterPaoTransferEntryVerifyMasterHandler V now outcome mbody db)) = map ip_booked db"
  "map ip_line (snd (UpdateInterPaoTransferEntryVerifyMasterHandler V now outcome mbody db)) = map ip_line db"
  by (auto simp: interpao_ops map_update_where split: option.splits batch.splits intro!: list_all_update_where)

lemma office_keeps:
  "list_all ip_row_ok db \<Longrightarrow> list_all ip_row_ok (snd (UpdateInterPaoTransferEntryVerifyHandler V now done obody db))"
  "map ip_booked (snd (UpdateInterPaoTransferEntryVerifyHandler V now done obody db)) = map ip_booked db"
  "map ip_line (snd (UpdateInterPaoTransferEntryVerifyHandler V now done obody db)) = map ip_line db"
  by (auto simp: interpao_ops map_update_where split: option.splits intro!: list_all_update_where)

lemma interpao_row_ok: "TransferEntryInterPaoRequest_ok F V r \<Longrightarrow> ip_row_ok (interpao_row now r)"
  by (simp add: TransferEntryInterPaoRequest_ok_def ip_row_ok_def interpao_row_def entry_id_def)

lemma ip_line_row: "ip_line (interpao_row now r) = (iqTransferType r, iqTransferAmount r)"
  by (simp add: ip_line_def interpao_row_def)

text \<open>A creation leaves the table or appends one balanced batch of well-formed rows.\<close>
lemma create_appends:
  obtains (same) "snd (CreateTransferEntryInterPaoHandler F V now copied body db) = db"
  | (more) rows where "snd (CreateTransferEntryInterPaoHandler F V now copied body db) = db @ rows"
      "list_all ip_row_ok rows" "balanced F (map ip_line rows)"
proof (cases "snd (CreateTransferEntryInterPaoHandler F V now copied body db) = db")
  case False
  then obtain req where req: "body = Some req" "list_all (TransferEntryInterPaoRequest_ok F V) req"
      "balanced F (map (\<lambda>r. (iqTransferType r, iqTransferAmount r)) req)" copied
    by (auto simp: CreateTransferEntryInterPaoHandler_def split: option.splits if_splits)
  hence "list_all ip_row_ok (map (interpao_row now) req)"
    by (auto simp: list_all_iff intro: interpao_row_ok)
  with req show thesis
    by (intro more [of "map (interpao_row now) req"])
       (simp_all add: CreateTransferEntryInterPaoHandler_def comp_def ip_line_row)
qed (rule same)

text \<open>C21: whatever calls the offices make, in whatever order, the lines of the inter-office table are at all times the
  lines of batches that were balanced when they were accepted, in order and with their amounts; and every row carries
  office codes, an identifier that begins with its master's code, one of four states, no verifier while it is
  initiated and one once it is verified or deleted, and is never released to its own master.\<close>

theorem interpao_table_invariant:
  assumes "ip_reach F V db"
  shows "list_all ip_row_ok db
    \<and> (\<exists>batches. map ip_line db = concat batches \<and> list_all (balanced F) batches)"
  using assms
proof induction
  case start
  show ?case by (intro conjI exI [of _ "[]"]) simp_all
next
  case (create db now copied body)
  then obtain batches where b: "map ip_line db = concat batches" "list_all (balanced F) batches" by blast
  show ?case
  proof (cases rule: create_appends [of F V now copied body db])
    case same
    with create.IH show ?thesis by simp
  next
    case (more rows)
    with create.IH b show ?thesis
      by (auto intro!: exI [of _ "batches @ [map ip_line rows]"])
  qed
qed (simp_all add: master_keeps office_keeps)

text \<open>The approvals of several offices, one call after the other.\<close>
definition office_approvals ::
  "validators \<Rightarrow> gtime \<Rightarrow> TransferEntryInterPaoUpdateRequest list \<Rightarrow> 'f ip_row list \<Rightarrow> 'f ip_row list"
where
  "office_approvals V now qs db =
    fold (\<lambda>q d. snd (UpdateInterPaoTransferEntryVerifyHandler V now True (Some q) d)) qs db"

definition approval_of :: "validators \<Rightarrow> string \<Rightarrow> TransferEntryInterPaoUpdateRequest \<Rightarrow> bool" where
  "approval_of V e q = (OfficeUpdateRequest_ok V q \<and> muVerificationStatus q = ''verified'' \<and> muTransferEntryId q = e)"

lemma approval_step:
  "approval_of V e q \<Longrightarrow> snd (UpdateInterPaoTransferEntryVerifyHandler V now True (Some q) db)
    = update_where (\<lambda>t. ip_id t = e \<and> ip_pao t = ouPaoCode q) (mark_ip ''verified'' q now) db"
  by (simp add: approval_of_def interpao_ops)

lemma filter_update_where:
  "(\<And>r. p r \<Longrightarrow> \<not> P r \<and> \<not> P (f r)) \<Longrightarrow> filter P (update_where p f rows) = filter P rows"
  by (induction rows) (auto simp: update_where_def)

lemma master_step:
  "MasterUpdateRequest_ok V m \<Longrightarrow> muVerificationStatus m = ''verified'' \<Longrightarrow>
    snd (UpdateInterPaoTransferEntryVerifyMasterHandler V now BatchDone (Some m) db)
    = update_where (\<lambda>t. ip_id t = muTransferEntryId m \<and> ip_pao t \<noteq> ip_master t) (\<lambda>t. t\<lparr>ip_status := ''created''\<rparr>)
        (update_where (\<lambda>t. ip_id t = muTransferEntryId m \<and> ip_pao t = ip_master t) (mark_ip ''verified'' m now) db)"
  by (simp add: interpao_ops)

lemma office_approvals_effect:
  assumes "\<forall>q\<in>set qs. approval_of V e q"
    and "\<forall>r\<in>set db. ip_id r = e \<longrightarrow> ip_status r = ''verified'' \<or> ip_pao r \<in> ouPaoCode ` set qs"
  shows "(\<forall>r\<in>set (office_approvals V now qs db). ip_id r = e \<longrightarrow> ip_status r = ''verified'')
    \<and> filter (\<lambda>r. ip_id r \<noteq> e) (office_approvals V now qs db) = filter (\<lambda>r. ip_id r \<noteq> e) db
    \<and> map ip_booked (office_approvals V now qs db) = map ip_booked db"
  using assms
proof (induction qs arbitrary: db)
  case (Cons q qs)
  let ?db = "update_where (\<lambda>t. ip_id t = e \<and> ip_pao t = ouPaoCode q) (mark_ip ''verified'' q now) db"
  have "\<forall>r\<in>set ?db. ip_id r = e \<longrightarrow> ip_status r = ''verified'' \<or> ip_pao r \<in> ouPaoCode ` set qs"
  proof
    fix r' assume "r' \<in> set ?db"
    then obtain r where "r \<in> set db"
      and r': "r' = (if ip_id r = e \<and> ip_pao r = ouPaoCode q then mark_ip ''verified'' q now r else r)"
      unfolding update_where_def set_map by blast
    with Cons.prems(2) have "ip_id r = e \<longrightarrow> ip_status r = ''verified'' \<or> ip_pao r \<in> ouPaoCode ` set (q # qs)"
      by blast
    with r' show "ip_id r' = e \<longrightarrow> ip_status r' = ''verified'' \<or> ip_pao r' \<in> ouPaoCode ` set qs"
      by (simp, blast)
  qed
  moreover have "filter (\<lambda>r. ip_id r \<noteq> e) ?db = filter (\<lambda>r. ip_id r \<noteq> e) db"
    by (rule filter_update_where) simp
  moreover have "map ip_booked ?db = map ip_booked db"
    by (rule map_update_where) simp
  moreover have "office_approvals V now (q # qs) db = office_approvals V now qs ?db"
    using Cons.prems(1) by (simp add: office_approvals_def approval_step [of V e q])
  ultimately show ?case
    using Cons.IH [of ?db] Cons.prems(1) by simp
qed (simp add: office_approvals_def)

text \<open>C22: an inter-office entry gets through: once its master approves it and then every other office that has a line in
  it approves, in any order and possibly several times, every row of the entry is verified, while the rows of
  all other entries and all bookings are as they were.\<close>

theorem interpao_entry_completes:
  assumes "MasterUpdateRequest_ok V m" and "muVerificationStatus m = ''verified''"
    and "\<forall>q\<in>set qs. approval_of V (muTransferEntryId m) q"
    and "\<forall>r\<in>set db. ip_id r = muTransferEntryId m \<and> ip_pao r \<noteq> ip_master r \<longrightarrow> ip_pao r \<in> ouPaoCode ` set qs"
    and "final = office_approvals V now' qs
      (snd (UpdateInterPaoTransferEntryVerifyMasterHandler V now BatchDone (Some m) db))"
  shows "(\<forall>r\<in>set final. ip_id r = muTransferEntryId m \<longrightarrow> ip_status r = ''verified'')
    \<and> filter (\<lambda>r. ip_id r \<noteq> muTransferEntryId m) final = filter (\<lambda>r. ip_id r \<noteq> muTransferEntryId m) db
    \<and> map ip_booked final = map ip_booked db"
proof -
  let ?db = "snd (UpdateInterPaoTransferEntryVerifyMasterHandler V now BatchDone (Some m) db)"
  have "\<forall>r\<in>set ?db. ip_id r = muTransferEntryId m \<longrightarrow> ip_status r = ''verified'' \<or> ip_pao r \<in> ouPaoCode ` set qs"
    unfolding master_step [OF assms(1,2)] using assms(4) by (auto simp: update_where_def)
  moreover have "filter (\<lambda>r. ip_id r \<noteq> muTransferEntryId m) ?db = filter (\<lambda>r. ip_id r \<noteq> muTransferEntryId m) db"
    unfolding master_step [OF assms(1,2)]
    by (rule trans [OF filter_update_where filter_update_where]) simp_all
  ultimately show ?thesis
    using office_approvals_effect [OF assms(3), of ?db now'] master_keeps(2) [of V now BatchDone "Some m" db]
    by (simp add: assms(5))
qed

text \<open>No state is final and no office is checked: a rejection sent under any office code, one without a line in
  the entry included, deletes every row of it, the rows already verified by others as well; and an approval revives
  the rows of its office after that, and verifies them before the master has released the entry.\<close>

theorem interpao_rejection_and_revival:
  assumes "OfficeUpdateRequest_ok V q" and "muVerificationStatus q = ''deleted''"
    and "approval_of V (muTransferEntryId q) a"
  shows "UpdateInterPaoTransferEntryVerifyHandler V now True (Some q) db
      = (Updated, map (\<lambda>r. if ip_id r = muTransferEntryId q then mark_ip ''deleted'' q now r else r) db)
    \<and> (\<forall>r\<in>set db. ip_id r = muTransferEntryId q \<and> ip_pao r = ouPaoCode a \<longrightarrow>
        mark_ip ''verified'' a now r \<in> set (office_approvals V now [a] db))"
proof
  show "UpdateInterPaoTransferEntryVerifyHandler V now True (Some q) db
      = (Updated, map (\<lambda>r. if ip_id r = muTransferEntryId q then mark_ip ''deleted'' q now r else r) db)"
    using assms(1,2) by (simp add: interpao_ops update_where_def)
  show "\<forall>r\<in>set db. ip_id r = muTransferEntryId q \<and> ip_pao r = ouPaoCode a \<longrightarrow>
      mark_ip ''verified'' a now r \<in> set (office_approvals V now [a] db)"
    by (auto simp: office_approvals_def approval_step [OF assms(3)] update_where_def intro: image_eqI [rotated])
qed

subsection \<open>Concrete calls\<close>

definition ip_sample_line :: "string \<Rightarrow> string \<Rightarrow> int \<Rightarrow> int TransferEntryInterPaoRequest" where
  "ip_sample_line pao ty amount = \<lparr>iqMasterPaoCode = ''100001'', iqPaoCode = pao, iqDdoCode = ''300003'', iqHoa = ''5201'',
    iqTransferAmount = amount, iqTransferType = ty, iqCreatedBy = 7, iqCreatedDate = ''2026-02-03'',
    iqTeSourceOfficeType = ''PAO'', iqRemarks = ''moved''\<rparr>"

text \<open>A credit of the master against a debit of another office.\<close>
definition ip_sample :: "int TransferEntryInterPaoRequest list" where
  "ip_sample = [ip_sample_line ''100001'' ''C'' 70, ip_sample_line ''200002'' ''D'' 70]"

definition ip_sample_db :: "int ip_row list" where
  "ip_sample_db = map (interpao_row sample_day) ip_sample"

definition ip_sample_approval :: TransferEntryInterPaoMasterUpdateRequest where
  "ip_sample_approval = \<lparr>muTransferEntryId = ''10000120260203040506'', muVerificationStatus = ''verified'',
    muVerifiedBy = 9, muApproverRemarks = ''ok''\<rparr>"

definition ip_sample_office :: "string \<Rightarrow> string \<Rightarrow> TransferEntryInterPaoUpdateRequest" where
  "ip_sample_office pao status = \<lparr>muTransferEntryId = ''10000120260203040506'', muVerificationStatus = status,
    muVerifiedBy = 9, muApproverRemarks = ''ok'', ouPaoCode = pao\<rparr>"

lemma ip_sample_ids: "r \<in> set ip_sample_db \<Longrightarrow> ip_id r = ''10000120260203040506''"
  by (auto simp: ip_sample_db_def ip_sample_def ip_sample_line_def interpao_row_def entry_id_def stamp_sample)

lemma ip_sample_created:
  "CreateTransferEntryInterPaoHandler whole_amounts lenient sample_day True (Some ip_sample) []
    = (Created (map (\<lambda>r. entry_id sample_day (iqMasterPaoCode r)) ip_sample), ip_sample_db)"
proof -
  have "TransferEntryInterPaoRequest_ok whole_amounts lenient r" if "r \<in> set ip_sample" for r
    using that by (auto simp: ip_sample_def ip_sample_line_def TransferEntryInterPaoRequest_ok_def whole_amounts_def
        lenient_def ValidatePaocode_def ValidateDdocode_def is_digit_def)
  moreover have "balanced whole_amounts (map (\<lambda>r. (iqTransferType r, iqTransferAmount r)) ip_sample)"
    by (simp add: ip_sample_def ip_sample_line_def balanced_def totals_def add_line_def whole_amounts_def)
  ultimately show ?thesis
    by (simp add: CreateTransferEntryInterPaoHandler_def list_all_iff ip_sample_db_def)
qed

lemma ip_sample_reached: "ip_reach whole_amounts lenient ip_sample_db"
  using ip_reach.create [OF ip_reach.start, of whole_amounts lenient sample_day True "Some ip_sample"]
  by (simp add: ip_sample_created)

lemma interpao_table_invariant_witness: "\<exists>batches. map ip_line ip_sample_db = concat batches \<and> list_all (balanced whole_amounts) batches"
  using interpao_table_invariant [OF ip_sample_reached] by blast

lemma ip_sample_approval_ok: "MasterUpdateRequest_ok lenient ip_sample_approval"
  by (simp add: MasterUpdateRequest_ok_def ip_sample_approval_def lenient_def)

lemma ip_sample_office_ok:
  "status \<in> {''verified'', ''deleted''} \<Longrightarrow> OfficeUpdateRequest_ok lenient (ip_sample_office ''200002'' status)"
  by (auto simp: OfficeUpdateRequest_ok_def MasterUpdateRequest_ok_def ip_sample_office_def lenient_def
      ValidatePaocode_def is_digit_def)

lemma ip_sample_approves:
  "approval_of lenient ''10000120260203040506'' (ip_sample_office ''200002'' ''verified'')"
  using ip_sample_office_ok [of "''verified''"] by (simp add: approval_of_def) (simp add: ip_sample_office_def)

lemma ip_sample_offices:
  "\<forall>r\<in>set ip_sample_db. ip_id r = muTransferEntryId ip_sample_approval \<and> ip_pao r \<noteq> ip_master r \<longrightarrow>
      ip_pao r \<in> ouPaoCode ` set [ip_sample_office ''200002'' ''verified'']"
  by (simp add: ip_sample_db_def ip_sample_def ip_sample_line_def interpao_row_def ip_sample_office_def)

definition ip_sample_final :: "int ip_row list" where
  "ip_sample_final = office_approvals lenient sample_day [ip_sample_office ''200002'' ''verified'']
     (snd (UpdateInterPaoTransferEntryVerifyMasterHandler lenient sample_day BatchDone (Some ip_sample_approval)
        ip_sample_db))"

lemma interpao_entry_completes_witness:
  "filter (\<lambda>r. ip_id r = ''10000120260203040506'' \<and> ip_status r \<noteq> ''verified'') ip_sample_final = []"
proof -
  have ok: "muVerificationStatus ip_sample_approval = ''verified''"
      "\<forall>q\<in>set [ip_sample_office ''200002'' ''verified'']. approval_of lenient (muTransferEntryId ip_sample_approval) q"
      "muTransferEntryId ip_sample_approval = ''10000120260203040506''"
    using ip_sample_approves by (simp_all add: ip_sample_approval_def)
  from interpao_entry_completes [OF ip_sample_approval_ok ok(1,2) ip_sample_offices ip_sample_final_def]
  show ?thesis by (simp add: ok(3) filter_empty_conv)
qed

lemma interpao_rejection_and_revival_witness:
  "fst (UpdateInterPaoTransferEntryVerifyHandler lenient sample_day True (Some (ip_sample_office ''200002'' ''deleted''))
     ip_sample_db) = Updated"
  using interpao_rejection_and_revival [of lenient "ip_sample_office ''200002'' ''deleted''"
      "ip_sample_office ''200002'' ''verified''" sample_day ip_sample_db] ip_sample_office_ok [of "''deleted''"] ip_sample_approves
  by (simp add: ip_sample_office_def)

end
