(* ===== verification/PfmsReversal.thy ===== *)
theory PfmsReversal
  imports TransferEntry
begin

text \<open>
  Submission of transfer entries to the payment system PFMS and their reversal
  (pao-back-end-development/): the payload types of core/domain/paogen.go,
  ConvertToDetailsArray and BuildReversalPayload of handler/helper.go,
  GenerateRandomNumber of handler/paogen.go, and CreatePfmsTeHandler, ResetPFMSFlagHandler,
  CreateNegativePfmsTeHandler and FlipPayloadAmounts of handler/transferentry.go, with the
  repository calls they make in repo/postgres/transferentry.go.

  The service itself is an argument that answers each call with an error or with a JSON object; the
  object is a map from keys to a string or to the printed form of another value.  A panic of the
  code is a value of the answer.
\<close>

subsection \<open>Payloads\<close>

record 'f AccountingDetails =
  acDDOCode :: string
  acGrantNo :: string
  acFunctionalHead :: string
  acObjectHead :: string
  acCategory :: string
  acSign :: string
  acAmount :: 'f
  acRemarks :: string
  acTransfer :: string

record 'f TransferEntryDetail =
  tdUniqueIdentifier :: string
  tdRequestSource :: string
  tdPaoCode :: string
  tdFinancialYear :: int
  tdInstrumentType :: string
  tdRemarks :: string
  tdTEDate :: string
  tdAccountingDetails :: "'f AccountingDetails list"

text \<open>A Payload is the list of its transfer entry details.\<close>
type_synonym 'f Payload = "'f TransferEntryDetail list"

text \<open>The row a query returns, with its null columns.\<close>
record 'f AccountingDetail =
  adDdoOfficeID :: "string option"
  adFunctionalHead :: "string option"
  adObjectHead :: "string option"
  adGrantNo :: "string option"
  adCategory :: "string option"
  adRemarks :: "string option"
  adReceiptPayment :: "string option"
  adSign :: "string option"
  adAmount :: "'f option"

abbreviation filled :: "string option \<Rightarrow> bool" where
  "filled s \<equiv> s \<noteq> None \<and> s \<noteq> Some []"

definition complete_detail :: "'f float64 \<Rightarrow> 'f AccountingDetail \<Rightarrow> bool" where
  "complete_detail F d = (filled (adDdoOfficeID d) \<and> filled (adGrantNo d) \<and> filled (adFunctionalHead d)
    \<and> filled (adObjectHead d) \<and> filled (adCategory d) \<and> filled (adSign d)
    \<and> (case adAmount d of None \<Rightarrow> False | Some a \<Rightarrow> fless F (fzero F) a)
    \<and> filled (adRemarks d) \<and> filled (adReceiptPayment d))"

text \<open>ConvertToDetailsArray keeps the rows with every column filled and an amount above zero.\<close>
definition ConvertToDetailsArray :: "'f float64 \<Rightarrow> 'f AccountingDetail list \<Rightarrow> 'f AccountingDetails list" where
  "ConvertToDetailsArray F ds = map (\<lambda>d. \<lparr>
     acDDOCode = the (adDdoOfficeID d), acGrantNo = the (adGrantNo d), acFunctionalHead = the (adFunctionalHead d),
     acObjectHead = the (adObjectHead d), acCategory = the (adCategory d), acSign = the (adSign d),
     acAmount = the (adAmount d), acRemarks = the (adRemarks d), acTransfer = the (adReceiptPayment d)\<rparr>)
   (filter (complete_detail F) ds)"

definition flip_sign :: "string \<Rightarrow> string" where
  "flip_sign s = (if s = ''+'' then ''-'' else if s = ''-'' then ''+'' else s)"

text \<open>The loop of CreatePfmsTeHandler that makes a negative amount positive and flips its sign.\<close>
definition unsigned_detail :: "'f float64 \<Rightarrow> 'f AccountingDetail \<Rightarrow> 'f AccountingDetail" where
  "unsigned_detail F d = (case adAmount d of None \<Rightarrow> d
    | Some a \<Rightarrow> if fless F a (fzero F) then
        d\<lparr>adSign := (case adSign d of None \<Rightarrow> Some ''-'' | Some s \<Rightarrow> Some (flip_sign s)), adAmount := Some (fneg F a)\<rparr>
      else d)"

text \<open>
  GenerateRandomNumber, with the number drawn as an argument; None is the panic on a code that is not
  six characters long or a year that is not four.
\<close>
definition GenerateRandomNumber :: "nat \<Rightarrow> string \<Rightarrow> string \<Rightarrow> string option" where
  "GenerateRandomNumber drawn paoCode year =
    (if length paoCode \<noteq> 6 then None
     else if length year \<noteq> 4 then None
     else Some (''TE-'' @ paoCode @ year @ zero_padded 10 drawn))"

text \<open>strconv.Atoi on a year; the caller drops the error, which leaves 0.\<close>
definition year_number :: "string \<Rightarrow> int" where
  "year_number s =
    (let (neg, ds) = (case s of c # cs \<Rightarrow> if c = CHR ''-'' then (True, cs) else if c = CHR ''+'' then (False, cs) else (False, s)
                      | [] \<Rightarrow> (False, []))
     in if ds = [] \<or> \<not> list_all is_digit ds then 0
        else if neg then - int (digits_value ds) else int (digits_value ds))"

definition flip_line :: "'f AccountingDetails \<Rightarrow> 'f AccountingDetails" where
  "flip_line l = l\<lparr>acSign := flip_sign (acSign l)\<rparr>"

text \<open>BuildReversalPayload: the lines of the first entry with their signs flipped, under a new identifier.\<close>
definition BuildReversalPayload ::
  "nat \<Rightarrow> 'f Payload \<Rightarrow> string \<Rightarrow> string \<Rightarrow> string \<Rightarrow> ('f Payload \<times> string) option"
where
  "BuildReversalPayload drawn original paoCode finYear teDate =
    (case original of [] \<Rightarrow> None
     | d # _ \<Rightarrow>
         (case GenerateRandomNumber drawn paoCode finYear of None \<Rightarrow> None
          | Some uid \<Rightarrow>
              Some ([\<lparr>tdUniqueIdentifier = uid, tdRequestSource = ''POST'', tdPaoCode = paoCode,
                     tdFinancialYear = year_number finYear, tdInstrumentType = ''Others'',
                     tdRemarks = ''Reversal: DoP Daily Account'', tdTEDate = teDate,
                     tdAccountingDetails = map flip_line (tdAccountingDetails d)\<rparr>], uid)))"

text \<open>FlipPayloadAmounts: every amount negated and every sign flipped, in every entry.\<close>
definition FlipPayloadAmounts :: "'f float64 \<Rightarrow> 'f Payload \<Rightarrow> 'f Payload" where
  "FlipPayloadAmounts F payload = map (\<lambda>d. d\<lparr>tdAccountingDetails :=
     map (\<lambda>l. l\<lparr>acAmount := fneg F (acAmount l), acSign := flip_sign (acSign l)\<rparr>) (tdAccountingDetails d)\<rparr>) payload"

subsection \<open>What a line is worth\<close>

text \<open>The amount a line adds to its head: the sign applied to the amount.\<close>
definition line_value :: "'f float64 \<Rightarrow> 'f AccountingDetails \<Rightarrow> 'f" where
  "line_value F l = (if acSign l = ''-'' then fneg F (acAmount l) else acAmount l)"

definition signed_line :: "'f AccountingDetails \<Rightarrow> bool" where
  "signed_line l = (acSign l = ''+'' \<or> acSign l = ''-'')"

lemma flip_sign_flip_sign [simp]: "flip_sign (flip_sign s) = s"
  by (simp add: flip_sign_def)

lemma flip_line_flip_line [simp]: "flip_line (flip_line l) = l"
  by (simp add: flip_line_def)

lemma line_value_flip:
  "(\<And>x. fneg F (fneg F x) = x) \<Longrightarrow> signed_line l \<Longrightarrow> line_value F (flip_line l) = fneg F (line_value F l)"
  by (auto simp: line_value_def signed_line_def flip_line_def flip_sign_def)

text \<open>C23: the payload that reverses an accepted submission is worth the opposite, line by line: every line of its first
  entry with the value negated and nothing else of the line changed, under a fresh identifier that names the office, the year
  and the drawn number; and reversing the reversal restores the lines.\<close>

theorem reversal_negates_every_line:
  assumes "BuildReversalPayload drawn original pao year date = Some (payload, uid)"
    and "\<And>x. fneg F (fneg F x) = x"
    and "list_all signed_line (tdAccountingDetails (hd original))"
  shows "uid = ''TE-'' @ pao @ year @ zero_padded 10 drawn
    \<and> map tdUniqueIdentifier payload = [uid]
    \<and> map (line_value F) (tdAccountingDetails (hd payload))
        = map (\<lambda>l. fneg F (line_value F l)) (tdAccountingDetails (hd original))
    \<and> map (\<lambda>l. l\<lparr>acSign := []\<rparr>) (tdAccountingDetails (hd payload))
        = map (\<lambda>l. l\<lparr>acSign := []\<rparr>) (tdAccountingDetails (hd original))
    \<and> (\<exists>p. BuildReversalPayload drawn' payload pao year date' = Some p
          \<and> tdAccountingDetails (hd (fst p)) = tdAccountingDetails (hd original))"
proof -
  from assms(1) obtain d ds where original: "original = d # ds"
    and uid: "GenerateRandomNumber drawn pao year = Some uid"
    and payload: "tdAccountingDetails (hd payload) = map flip_line (tdAccountingDetails d)"
      "map tdUniqueIdentifier payload = [uid]" "payload \<noteq> []"
    by (auto simp: BuildReversalPayload_def split: list.splits option.splits)
  have again: "GenerateRandomNumber drawn' pao year \<noteq> None"
    using uid by (auto simp: GenerateRandomNumber_def split: if_splits)
  then obtain p where "BuildReversalPayload drawn' payload pao year date' = Some p"
    "tdAccountingDetails (hd (fst p)) = map flip_line (tdAccountingDetails (hd payload))"
    using payload(3) by (cases payload) (auto simp: BuildReversalPayload_def split: option.splits)
  moreover have "uid = ''TE-'' @ pao @ year @ zero_padded 10 drawn"
    using uid by (simp add: GenerateRandomNumber_def split: if_splits)
  moreover have "map (line_value F) (map flip_line (tdAccountingDetails d))
      = map (\<lambda>l. fneg F (line_value F l)) (tdAccountingDetails d)"
    using assms(3) line_value_flip [OF assms(2)] by (simp add: original list_all_iff)
  ultimately show ?thesis
    using payload by (auto simp: original comp_def flip_line_def)
qed


subsection \<open>Talking to the service\<close>

text \<open>A value of a decoded JSON object: a string, or any other value by its printed form.\<close>
datatype jval = JStr string | JOther string

definition printed :: "jval option \<Rightarrow> string" where
  "printed v = (case v of None \<Rightarrow> ''<nil>'' | Some (JStr s) \<Rightarrow> s | Some (JOther s) \<Rightarrow> s)"

datatype 'f pfms_call = AuthCall | LoginCall string | SendCall string "'f Payload" | StatusCall string string

type_synonym 'f pfms_api = "'f pfms_call \<Rightarrow> (string, string \<Rightarrow> jval option) sum"

text \<open>The type assertion to a string; None is its panic.\<close>
definition str_field :: "(string \<Rightarrow> jval option) \<Rightarrow> string \<Rightarrow> string option" where
  "str_field r k = (case r k of Some (JStr s) \<Rightarrow> Some s | _ \<Rightarrow> None)"

text \<open>How an attempt to send ends: a call fails, a step before the submission is refused, a type assertion
  panics, or the submission is answered.\<close>
datatype pfms_end = CallFailed string | StepRefused string | Panicked | Submission bool string

text \<open>The first two calls: the code and the login, with the token or how they end; the key of the first message differs
  from caller to caller.\<close>
definition pfms_login :: "string \<Rightarrow> 'f pfms_api \<Rightarrow> 'f pfms_call list \<times> (pfms_end, string) sum" where
  "pfms_login errkey api =
    (case api AuthCall of
       Inl e \<Rightarrow> ([AuthCall], Inl (CallFailed e))
     | Inr r1 \<Rightarrow>
     (case str_field r1 ''IsSuccess'' of
       None \<Rightarrow> ([AuthCall], Inl Panicked)
     | Some ok1 \<Rightarrow> if ok1 = ''0'' then ([AuthCall], Inl (StepRefused (printed (r1 errkey)))) else
     (case str_field r1 ''AuthCode'' of
       None \<Rightarrow> ([AuthCall], Inl Panicked)
     | Some authcode \<Rightarrow>
     (case api (LoginCall authcode) of
       Inl e \<Rightarrow> ([AuthCall, LoginCall authcode], Inl (CallFailed e))
     | Inr r2 \<Rightarrow>
     (case str_field r2 ''isSuccess'' of
       None \<Rightarrow> ([AuthCall, LoginCall authcode], Inl Panicked)
     | Some ok2 \<Rightarrow> if ok2 = ''0'' then ([AuthCall, LoginCall authcode], Inl (StepRefused (printed (r2 ''errorMessage'')))) else
     (case str_field r2 ''accessToken'' of
       None \<Rightarrow> ([AuthCall, LoginCall authcode], Inl Panicked)
     | Some token \<Rightarrow> ([AuthCall, LoginCall authcode], Inr token)))))))"

text \<open>The three calls in their order: code, login, submission; the calls made and how they end.\<close>
definition send_payload :: "'f pfms_api \<Rightarrow> 'f Payload \<Rightarrow> 'f pfms_call list \<times> pfms_end" where
  "send_payload api payload =
    (case pfms_login ''errorMessage'' api of
       (calls, Inl e) \<Rightarrow> (calls, e)
     | (calls, Inr token) \<Rightarrow>
         (calls @ [SendCall token payload],
          case api (SendCall token payload) of
            Inl e \<Rightarrow> CallFailed e
          | Inr r3 \<Rightarrow>
              (case str_field r3 ''isSuccess'' of
                 None \<Rightarrow> Panicked
               | Some ok3 \<Rightarrow> Submission (ok3 \<noteq> ''0'') (printed (r3 ''errorMessage'')))))"

subsection \<open>The tables\<close>

record te_data =
  dtTeId :: string
  dtTeDate :: string
  dtPaoCode :: string
  dtFinYear :: string

text \<open>A row of pao.pfms_submission.\<close>
record 'f submission =
  su_id :: string
  su_type :: string
  su_request :: "te_data list"
  su_business_date :: gtime
  su_data :: "'f Payload"
  su_status :: string
  su_error :: "string option"
  su_te_number :: "string option"
  su_original :: "string option"

text \<open>A row of pao.pfms_te_reversal.\<close>
record te_reversal =
  rv_original :: string
  rv_reversal :: string
  rv_te_number :: "string option"
  rv_business_date :: gtime
  rv_employee :: int
  rv_remark :: string
  rv_status :: string
  rv_error :: "string option"

record 'f pfms_db =
  pd_rows :: "'f te_row list"
  pd_submissions :: "'f submission list"
  pd_reversals :: "te_reversal list"

text \<open>The null an empty string becomes.\<close>
definition or_null :: "string \<Rightarrow> string option" where
  "or_null s = (if s \<noteq> [] then Some s else None)"

datatype pfms_reply =
    PBinding | PValidation | PDb | PPanic | PSilent
  | PError nat string
  | PCallFailed string
  | PSubmitted string
  | PReversed string string
  | PReset
  | PCreated
  | PUpdated

subsection \<open>Resetting the flags of a submission\<close>

definition reset_row :: "'f te_row \<Rightarrow> 'f te_row" where
  "reset_row r = r\<lparr>te_pfms_flag := Some ''false'', te_pfms_error := None, te_hpfms := Some False, te_pfms_id := None\<rparr>"

text \<open>ResetPFMSFlagByPfmsUniqueIdRepo, with the number of rows affected; None is an error of the database.\<close>
definition ResetPFMSFlagByPfmsUniqueIdRepo :: "bool \<Rightarrow> string \<Rightarrow> 'f te_row list \<Rightarrow> (nat \<times> 'f te_row list) option" where
  "ResetPFMSFlagByPfmsUniqueIdRepo done uid rows =
    (if done then Some (length (filter (\<lambda>r. te_pfms_id r = Some uid) rows),
                        update_where (\<lambda>r. te_pfms_id r = Some uid) reset_row rows)
     else None)"

definition ResetPFMSFlagHandler :: "bool \<Rightarrow> string option \<Rightarrow> 'f pfms_db \<Rightarrow> pfms_reply \<times> 'f pfms_db" where
  "ResetPFMSFlagHandler done uri db =
    (case uri of None \<Rightarrow> (PBinding, db)
     | Some uid \<Rightarrow>
         if \<not> given uid then (PValidation, db)
         else (case ResetPFMSFlagByPfmsUniqueIdRepo done uid (pd_rows db) of
                 None \<Rightarrow> (PDb, db)
               | Some (n, rows) \<Rightarrow>
                   if n = 0 then (PError 404 ''Transfer entry not found for the provided PFMS Unique ID'', db\<lparr>pd_rows := rows\<rparr>)
                   else (PReset, db\<lparr>pd_rows := rows\<rparr>)))"

subsection \<open>Submitting entries\<close>

definition TeData_ok :: "validators \<Rightarrow> (string \<Rightarrow> bool) \<Rightarrow> te_data \<Rightarrow> bool" where
  "TeData_ok V year r =
    (given (dtTeId r) \<and> v_max V 30 (dtTeId r) \<and> given (dtTeDate r) \<and> v_max V 30 (dtTeDate r)
     \<and> given (dtPaoCode r) \<and> ValidatePaocode (dtPaoCode r) \<and> given (dtFinYear r) \<and> year (dtFinYear r))"

text \<open>The year the financial year of a date ends in, which PFMS is told.\<close>
definition ending_year :: "gtime \<Rightarrow> int" where
  "ending_year d = (if 4 \<le> tMonth d then tYear d + 1 else tYear d)"

definition submitted_row :: "string \<Rightarrow> 'f te_row \<Rightarrow> 'f te_row" where
  "submitted_row uid r = r\<lparr>te_pfms_id := Some uid, te_hpfms := Some True, te_pfms_flag := Some ''Pending''\<rparr>"

text \<open>GetTePfmsUpdateStatusRepo: one update for each entry of the request.\<close>
definition GetTePfmsUpdateStatusRepo :: "te_data list \<Rightarrow> string \<Rightarrow> 'f te_row list \<Rightarrow> 'f te_row list" where
  "GetTePfmsUpdateStatusRepo cbds uid rows =
    fold (\<lambda>cb. update_where (\<lambda>r. te_id r = dtTeId cb) (submitted_row uid)) cbds rows"

definition submission_payload ::
  "'f float64 \<Rightarrow> string \<Rightarrow> string \<Rightarrow> int \<Rightarrow> string \<Rightarrow> 'f AccountingDetail list \<Rightarrow> 'f Payload"
where
  "submission_payload F uid pao year date details = [\<lparr>tdUniqueIdentifier = uid, tdRequestSource = ''POST'',
     tdPaoCode = pao, tdFinancialYear = year, tdInstrumentType = ''Others'', tdRemarks = ''DoP Daily Account'',
     tdTEDate = date, tdAccountingDetails = ConvertToDetailsArray F (map (unsigned_detail F) details)\<rparr>]"

text \<open>
  CreatePfmsTeHandler: the answer, the calls made to PFMS and the tables afterwards.  The details are what the
  aggregating query of GetPfmsteRepo returns, None on its error; marked and stored are the
  outcomes of the two writes.
\<close>
definition CreatePfmsTeHandler ::
  "'f float64 \<Rightarrow> validators \<Rightarrow> (string \<Rightarrow> bool) \<Rightarrow> nat \<Rightarrow> (te_data list \<Rightarrow> 'f AccountingDetail list option)
    \<Rightarrow> 'f pfms_api \<Rightarrow> bool \<Rightarrow> bool \<Rightarrow> te_data list option \<Rightarrow> 'f pfms_db
    \<Rightarrow> pfms_reply \<times> 'f pfms_call list \<times> 'f pfms_db"
where
  "CreatePfmsTeHandler F V year drawn details api marked stored body db =
    (case body of None \<Rightarrow> (PBinding, [], db)
     | Some cbds \<Rightarrow>
         if \<not> list_all (TeData_ok V year) cbds then (PValidation, [], db)
         else if \<not> list_all (\<lambda>r. parse_date (dtTeDate r) \<noteq> None) cbds then (PSilent, [], db)
         else (case details cbds of
           None \<Rightarrow> (PDb, [], db)
         | Some [] \<Rightarrow> (PDb, [], db)
         | Some (a # as) \<Rightarrow>
             if cbds = [] then (PSilent, [], db)
             else
               let pao = dtPaoCode (last cbds); date = the (parse_date (dtTeDate (last cbds)));
                   fin = ending_year date
               in (case GenerateRandomNumber drawn pao (fmt_d fin) of
                     None \<Rightarrow> (PPanic, [], db)
                   | Some uid \<Rightarrow>
                       let payload = submission_payload F uid pao fin (dtTeDate (last cbds)) (a # as)
                       in (case send_payload api payload of
                             (calls, CallFailed e) \<Rightarrow> (PCallFailed e, calls, db)
                           | (calls, StepRefused m) \<Rightarrow> (PError 400 m, calls, db)
                           | (calls, Panicked) \<Rightarrow> (PPanic, calls, db)
                           | (calls, Submission False m) \<Rightarrow> (PError 400 m, calls, db)
                           | (calls, Submission True _) \<Rightarrow>
                               if \<not> marked then (PDb, calls, db)
                               else (PSubmitted uid, calls,
                                 db\<lparr>pd_rows := GetTePfmsUpdateStatusRepo cbds uid (pd_rows db),
                                    pd_submissions := pd_submissions db @ (if stored then
                                      [\<lparr>su_id = uid, su_type = ''te'', su_request = cbds, su_business_date = date,
                                        su_data = payload, su_status = ''Pending'', su_error = None,
                                        su_te_number = None, su_original = None\<rparr>] else [])\<rparr>)))))"

subsection \<open>Reversing a submission\<close>

record reversal_request =
  rrPfmsUniqueId :: string
  rrRequestEmployeeID :: int
  rrRemark :: string

definition reversed_already :: "string \<Rightarrow> 'f submission list \<Rightarrow> bool" where
  "reversed_already uid subs =
    (0 < length (filter (\<lambda>s. su_original s = Some uid \<and> su_type s = ''terev'' \<and> su_status s = ''Success'') subs))"

definition with_identifier :: "string \<Rightarrow> 'f Payload \<Rightarrow> 'f Payload" where
  "with_identifier uid payload = (case payload of [] \<Rightarrow> [] | d # ds \<Rightarrow> d\<lparr>tdUniqueIdentifier := uid\<rparr> # ds)"

text \<open>The two rows that are written whatever PFMS answered to the submission.\<close>
definition record_reversal ::
  "bool \<Rightarrow> bool \<Rightarrow> reversal_request \<Rightarrow> 'f submission \<Rightarrow> string \<Rightarrow> 'f Payload \<Rightarrow> bool \<Rightarrow> string \<Rightarrow> 'f pfms_db \<Rightarrow> 'f pfms_db"
where
  "record_reversal stored audited req original uid payload ok err db =
    db\<lparr>pd_submissions := pd_submissions db @ (if stored then
         [\<lparr>su_id = uid, su_type = ''terev'', su_request = su_request original,
           su_business_date = su_business_date original, su_data = payload,
           su_status = (if ok then ''Success'' else ''Failed''), su_error = or_null (if ok then [] else err),
           su_te_number = None, su_original = Some (rrPfmsUniqueId req)\<rparr>] else []),
       pd_reversals := pd_reversals db @ (if audited then
         [\<lparr>rv_original = rrPfmsUniqueId req, rv_reversal = uid,
           rv_te_number = or_null (case su_te_number original of None \<Rightarrow> [] | Some n \<Rightarrow> n),
           rv_business_date = su_business_date original, rv_employee = rrRequestEmployeeID req,
           rv_remark = rrRemark req, rv_status = (if ok then ''Success'' else ''Failed''),
           rv_error = or_null (if ok then [] else err)\<rparr>] else [])\<rparr>"

text \<open>
  The first part of CreateNegativePfmsTeHandler: the original and the guards on it.  readable says whether
  the two queries succeed.
\<close>
definition reversible_original :: "bool \<Rightarrow> string \<Rightarrow> 'f submission list \<Rightarrow> (pfms_reply, 'f submission) sum" where
  "reversible_original readable uid subs =
    (if \<not> readable then Inl PDb else
     (case find (\<lambda>s. su_id s = uid) subs of
        None \<Rightarrow> Inl (PError 404 ''No submission found for given pfms_unique_id'')
      | Some original \<Rightarrow>
          if su_status original \<noteq> ''Success'' then Inl (PError 400 ''Only successful submissions can be reversed'')
          else if su_type original \<noteq> ''te'' then Inl (PError 400 ''Only TE type submissions can be reversed'')
          else if reversed_already uid subs then Inl (PError 400 ''This submission has already been reversed'')
          else Inr original))"

text \<open>The second part: the flipped payload, the calls and the rows that record the outcome.\<close>
definition send_negative ::
  "'f float64 \<Rightarrow> nat \<Rightarrow> 'f pfms_api \<Rightarrow> bool \<Rightarrow> bool \<Rightarrow> reversal_request \<Rightarrow> 'f submission \<Rightarrow> 'f pfms_db
    \<Rightarrow> pfms_reply \<times> 'f pfms_call list \<times> 'f pfms_db"
where
  "send_negative F drawn api stored audited req original db =
    (case su_data original of
       [] \<Rightarrow> (PPanic, [], db)
     | d # _ \<Rightarrow>
         (case GenerateRandomNumber drawn (tdPaoCode d) (fmt_d (tdFinancialYear d)) of
            None \<Rightarrow> (PPanic, [], db)
          | Some uid \<Rightarrow>
              let payload = with_identifier uid (FlipPayloadAmounts F (su_data original))
              in (case send_payload api payload of
                    (calls, CallFailed e) \<Rightarrow> (PCallFailed e, calls, db)
                  | (calls, StepRefused m) \<Rightarrow> (PError 400 m, calls, db)
                  | (calls, Panicked) \<Rightarrow> (PPanic, calls, db)
                  | (calls, Submission ok m) \<Rightarrow>
                      (if ok then PReversed (rrPfmsUniqueId req) uid else PError 400 m, calls,
                       record_reversal stored audited req original uid payload ok m db))))"

definition CreateNegativePfmsTeHandler ::
  "'f float64 \<Rightarrow> nat \<Rightarrow> 'f pfms_api \<Rightarrow> bool \<Rightarrow> bool \<Rightarrow> bool \<Rightarrow> reversal_request option \<Rightarrow> 'f pfms_db
    \<Rightarrow> pfms_reply \<times> 'f pfms_call list \<times> 'f pfms_db"
where
  "CreateNegativePfmsTeHandler F drawn api readable stored audited body db =
    (case body of None \<Rightarrow> (PBinding, [], db)
     | Some req \<Rightarrow>
         (case reversible_original readable (rrPfmsUniqueId req) (pd_submissions db) of
            Inl e \<Rightarrow> (e, [], db)
          | Inr original \<Rightarrow> send_negative F drawn api stored audited req original db))"

subsection \<open>What the handlers guarantee\<close>

lemma update_where_twice:
  assumes "\<And>r. q (f r) = q r" and "\<And>r. f (f r) = f r"
  shows "update_where q f (update_where p f rows) = update_where (\<lambda>r. p r \<or> q r) f rows"
  using assms by (induction rows) (auto simp: update_where_def)

lemma GetTePfmsUpdateStatusRepo_all:
  "GetTePfmsUpdateStatusRepo cbds uid rows
    = update_where (\<lambda>r. te_id r \<in> dtTeId ` set cbds) (submitted_row uid) rows"
proof (induction cbds arbitrary: rows)
  case Nil
  show ?case by (simp add: GetTePfmsUpdateStatusRepo_def update_where_def)
next
  case (Cons cb cbds)
  have "GetTePfmsUpdateStatusRepo (cb # cbds) uid rows
      = GetTePfmsUpdateStatusRepo cbds uid (update_where (\<lambda>r. te_id r = dtTeId cb) (submitted_row uid) rows)"
    by (simp add: GetTePfmsUpdateStatusRepo_def)
  also have "\<dots> = update_where (\<lambda>r. te_id r = dtTeId cb \<or> te_id r \<in> dtTeId ` set cbds) (submitted_row uid) rows"
    unfolding Cons.IH by (rule update_where_twice) (simp_all add: submitted_row_def)
  finally show ?case by (simp add: insert_iff eq_commute)
qed

lemma submitted_handler:
  assumes "CreatePfmsTeHandler F V year drawn details api marked stored body db = (PSubmitted uid, calls, db')"
  shows "\<exists>cbds. body = Some cbds \<and> list_all (TeData_ok V year) cbds \<and> uid \<noteq> []
    \<and> pd_rows db' = GetTePfmsUpdateStatusRepo cbds uid (pd_rows db)
    \<and> pd_reversals db' = pd_reversals db"
  using assms
  by (auto simp: CreatePfmsTeHandler_def Let_def GenerateRandomNumber_def
      split: option.splits if_splits list.splits prod.splits pfms_end.splits bool.splits)

text \<open>Resetting a submission undoes its marks and no others: after entries were submitted under an identifier no
  row carried before, the reset of that identifier puts exactly the rows of those entries back to not submitted and leaves
  every other row, the stored submission and the reversals as they were.\<close>

theorem reset_undoes_submission:
  assumes "CreatePfmsTeHandler F V year drawn details api marked stored (Some cbds) db = (PSubmitted uid, calls, db')"
    and "\<forall>r\<in>set (pd_rows db). te_pfms_id r \<noteq> Some uid"
    and "\<exists>r\<in>set (pd_rows db). te_id r \<in> dtTeId ` set cbds"
  shows "ResetPFMSFlagHandler True (Some uid) db'
    = (PReset, db'\<lparr>pd_rows := update_where (\<lambda>r. te_id r \<in> dtTeId ` set cbds) reset_row (pd_rows db)\<rparr>)"
proof -
  let ?new = "update_where (\<lambda>r. te_id r \<in> dtTeId ` set cbds) (submitted_row uid) (pd_rows db)"
  from submitted_handler [OF assms(1)] have uid: "uid \<noteq> []" and rows: "pd_rows db' = ?new"
    by (auto simp: GetTePfmsUpdateStatusRepo_all)
  have "reset_row (submitted_row uid r) = reset_row r" for r :: "'a te_row"
    by (simp add: reset_row_def submitted_row_def)
  moreover have "te_pfms_id (submitted_row uid r) = Some uid" for r :: "'a te_row"
    by (simp add: submitted_row_def)
  ultimately have "update_where (\<lambda>r. te_pfms_id r = Some uid) reset_row ?new
      = update_where (\<lambda>r. te_id r \<in> dtTeId ` set cbds) reset_row (pd_rows db)"
    and "\<exists>r\<in>set ?new. te_pfms_id r = Some uid"
    using assms(2,3) by (auto simp: update_where_def)
  thus ?thesis
    using uid by (auto simp: ResetPFMSFlagHandler_def ResetPFMSFlagByPfmsUniqueIdRepo_def rows filter_empty_conv)
qed

text \<open>The guards a negative submission has passed once it has called PFMS.\<close>
definition reversible :: "string \<Rightarrow> 'f submission list \<Rightarrow> 'f submission \<Rightarrow> bool" where
  "reversible uid subs s = (find (\<lambda>s. su_id s = uid) subs = Some s \<and> su_status s = ''Success'' \<and> su_type s = ''te''
    \<and> \<not> reversed_already uid subs)"

lemma reversible_original_Inr:
  "reversible_original readable uid subs = Inr s \<Longrightarrow> reversible uid subs s"
  by (auto simp: reversible_original_def reversible_def split: if_splits option.splits)

lemma reversible_original_Inl:
  "reversible_original readable uid subs = Inl e \<Longrightarrow> e \<noteq> PReversed u v"
  by (auto simp: reversible_original_def split: if_splits option.splits)

lemma send_negative_db:
  assumes "send_negative F drawn api stored audited req original db = (answer, calls, db')"
  shows "(\<exists>uid payload err ok. db' = record_reversal stored audited req original uid payload ok err db
        \<and> (if ok then answer = PReversed (rrPfmsUniqueId req) uid else \<forall>u v. answer \<noteq> PReversed u v))
    \<or> db' = db \<and> (\<forall>u v. answer \<noteq> PReversed u v)"
proof (cases "su_data original")
  case (Cons d ds)
  show ?thesis
  proof (cases "GenerateRandomNumber drawn (tdPaoCode d) (fmt_d (tdFinancialYear d))")
    case (Some uid)
    let ?payload = "with_identifier uid (FlipPayloadAmounts F (su_data original))"
    obtain made outcome where sent: "send_payload api ?payload = (made, outcome)" by fastforce
    show ?thesis
    proof (cases outcome)
      case (Submission ok m)
      with assms Cons Some sent have "db' = record_reversal stored audited req original uid ?payload ok m db"
        and "answer = (if ok then PReversed (rrPfmsUniqueId req) uid else PError 400 m)"
        by (simp_all add: send_negative_def Let_def)
      thus ?thesis by (intro disjI1 exI [of _ uid] exI [of _ ?payload] exI [of _ m] exI [of _ ok]) simp
    qed (use assms Cons Some sent in \<open>auto simp: send_negative_def Let_def\<close>)
  qed (use assms Cons in \<open>simp add: send_negative_def\<close>)
qed (use assms in \<open>simp add: send_negative_def\<close>)

lemma find_append_Some: "find p xs = Some x \<Longrightarrow> find p (xs @ ys) = Some x"
  by (induction xs) auto

text \<open>A stored successful reversal closes its submission.\<close>
lemma recorded_reversal_closes:
  assumes "reversible uid (pd_submissions db) s" and "rrPfmsUniqueId req = uid"
    and "db' = record_reversal True audited req s u payload True err db"
  shows "find (\<lambda>s. su_id s = uid) (pd_submissions db') = Some s \<and> reversed_already uid (pd_submissions db')"
  using assms by (auto simp: reversible_def record_reversal_def reversed_already_def find_append_Some)


subsection \<open>Concrete submissions\<close>

definition sample_detail :: "string \<Rightarrow> int \<Rightarrow> int AccountingDetails" where
  "sample_detail sign amount = \<lparr>acDDOCode = ''300003'', acGrantNo = ''13'', acFunctionalHead = ''3201'',
    acObjectHead = ''01'', acCategory = ''V'', acSign = sign, acAmount = amount, acRemarks = ''r'', acTransfer = ''T''\<rparr>"

definition sample_payload :: "int Payload" where
  "sample_payload = [\<lparr>tdUniqueIdentifier = ''TE-7'', tdRequestSource = ''POST'', tdPaoCode = ''100001'',
    tdFinancialYear = 2026, tdInstrumentType = ''Others'', tdRemarks = ''DoP Daily Account'', tdTEDate = ''2026-02-03'',
    tdAccountingDetails = [sample_detail ''+'' 70, sample_detail ''-'' 70]\<rparr>]"

lemma sample_lines: "tdAccountingDetails (hd sample_payload) = [sample_detail ''+'' 70, sample_detail ''-'' 70]"
  by (simp add: sample_payload_def)

lemma sample_reversal:
  "BuildReversalPayload 5 sample_payload ''100001'' ''2026'' ''2026-02-03'' =
    Some (the (BuildReversalPayload 5 sample_payload ''100001'' ''2026'' ''2026-02-03''))"
  by (simp add: BuildReversalPayload_def sample_payload_def GenerateRandomNumber_def)

lemma reversal_negates_every_line_witness:
  "map (line_value whole_amounts) (tdAccountingDetails (hd (fst
      (the (BuildReversalPayload 5 sample_payload ''100001'' ''2026'' ''2026-02-03''))))) = [-70, 70]"
proof -
  obtain payload uid where p: "the (BuildReversalPayload 5 sample_payload ''100001'' ''2026'' ''2026-02-03'') = (payload, uid)"
    by fastforce
  with sample_reversal have "BuildReversalPayload 5 sample_payload ''100001'' ''2026'' ''2026-02-03'' = Some (payload, uid)"
    by simp
  from reversal_negates_every_line [OF this, of whole_amounts] show ?thesis
    by (simp add: p sample_lines) (simp add: sample_detail_def signed_line_def line_value_def whole_amounts_def)
qed


text \<open>A service that accepts everything.\<close>
definition accepting :: "'f pfms_api" where
  "accepting c = Inr (\<lambda>_. Some (JStr ''1''))"

lemma send_accepted:
  "send_payload accepting payload = ([AuthCall, LoginCall ''1'', SendCall ''1'' payload], Submission True ''1'')"
  by (simp add: send_payload_def pfms_login_def accepting_def str_field_def printed_def)

definition sample_row :: "int te_row" where
  "sample_row = created_row sample_day (Some sample_day)
     \<lparr>rqPaoCode = ''100001'', rqDdoCode = ''300003'', rqHoa = ''5201'', rqTransferAmount = 70, rqTransferType = ''C'',
      rqCreatedBy = 7, rqCreatedDate = ''2026-02-03'', rqTeSourceOfficeType = ''PAO'', rqRemarks = ''moved'',
      rqTransDate = ''2026-02-03''\<rparr>"

definition sample_tables :: "int pfms_db" where
  "sample_tables = \<lparr>pd_rows = [sample_row], pd_submissions = [], pd_reversals = []\<rparr>"

definition sample_te :: te_data where
  "sample_te = \<lparr>dtTeId = ''10000120260203040506'', dtTeDate = ''2026-02-03'', dtPaoCode = ''100001'', dtFinYear = ''2026''\<rparr>"

definition sample_columns :: "int AccountingDetail" where
  "sample_columns = \<lparr>adDdoOfficeID = Some ''300003'', adFunctionalHead = Some ''3201'', adObjectHead = Some ''01'',
    adGrantNo = Some ''13'', adCategory = Some ''V'', adRemarks = Some ''r'', adReceiptPayment = Some ''T'',
    adSign = Some ''+'', adAmount = Some 70\<rparr>"

definition sample_uid :: string where
  "sample_uid = ''TE-1000012026'' @ zero_padded 10 5"

lemma sample_te_parse: "parse_date (dtTeDate sample_te)
    = Some \<lparr>tYear = 2026, tMonth = 2, tDay = 3, tHour = 0, tMinute = 0, tSecond = 0\<rparr>"
  by code_simp

lemma sample_te_ok: "TeData_ok lenient (\<lambda>_. True) sample_te"
  by (simp add: TeData_ok_def sample_te_def lenient_def ValidatePaocode_def is_digit_def)

lemma sample_year: "fmt_d 2026 = ''2026''"
  by code_simp

lemma sample_submission:
  "\<exists>calls db'. CreatePfmsTeHandler whole_amounts lenient (\<lambda>_. True) 5 (\<lambda>_. Some [sample_columns]) accepting True True
     (Some [sample_te]) sample_tables = (PSubmitted sample_uid, calls, db')"
proof -
  have "GenerateRandomNumber 5 (dtPaoCode sample_te) (fmt_d 2026) = Some sample_uid"
    by (simp add: sample_year) (simp add: GenerateRandomNumber_def sample_te_def sample_uid_def)
  thus ?thesis
    by (simp add: CreatePfmsTeHandler_def sample_te_ok sample_te_parse ending_year_def Let_def send_accepted)
qed

lemma sample_row_ids: "te_id sample_row = dtTeId sample_te" "te_pfms_id sample_row = None"
  by (simp_all add: sample_row_def created_row_def entry_id_def stamp_sample sample_te_def)

lemma reset_undoes_submission_witness:
  "\<exists>db'. fst (ResetPFMSFlagHandler True (Some sample_uid) db') = PReset \<and> pd_rows (db' :: int pfms_db) \<noteq> []"
proof -
  obtain calls db' where h: "CreatePfmsTeHandler whole_amounts lenient (\<lambda>_. True) 5 (\<lambda>_. Some [sample_columns])
      accepting True True (Some [sample_te]) sample_tables = (PSubmitted sample_uid, calls, db')"
    using sample_submission by blast
  hence "ResetPFMSFlagHandler True (Some sample_uid) db'
      = (PReset, db'\<lparr>pd_rows := update_where (\<lambda>r. te_id r \<in> dtTeId ` set [sample_te]) reset_row (pd_rows sample_tables)\<rparr>)"
    by (rule reset_undoes_submission) (simp_all add: sample_tables_def sample_row_ids)
  moreover have "pd_rows db' \<noteq> []"
    using submitted_handler [OF h]
    by (auto simp: GetTePfmsUpdateStatusRepo_all update_where_def sample_tables_def)
  ultimately show ?thesis by (intro exI [of _ db']) simp
qed

definition sample_submitted :: "int pfms_db" where
  "sample_submitted = sample_tables\<lparr>pd_submissions := [\<lparr>su_id = ''TE-7'', su_type = ''te'', su_request = [sample_te],
     su_business_date = sample_day, su_data = sample_payload, su_status = ''Success'', su_error = None,
     su_te_number = Some ''8'', su_original = None\<rparr>]\<rparr>"

definition sample_request :: reversal_request where
  "sample_request = \<lparr>rrPfmsUniqueId = ''TE-7'', rrRequestEmployeeID = 9, rrRemark = ''wrong head''\<rparr>"

lemma sample_negative:
  "\<exists>calls db'. CreateNegativePfmsTeHandler whole_amounts 5 accepting True True True (Some sample_request) sample_submitted
    = (PReversed ''TE-7'' sample_uid, calls, db')"
proof -
  have "reversible_original True (rrPfmsUniqueId sample_request) (pd_submissions sample_submitted)
      = Inr (hd (pd_submissions sample_submitted))"
    by (simp add: reversible_original_def sample_submitted_def sample_request_def reversed_already_def)
  moreover have "su_data (hd (pd_submissions sample_submitted)) = sample_payload"
    by (simp add: sample_submitted_def)
  moreover have "GenerateRandomNumber 5 ''100001'' (fmt_d 2026) = Some sample_uid"
    by (simp add: sample_year) (simp add: GenerateRandomNumber_def sample_uid_def)
  ultimately show ?thesis
    by (simp add: CreateNegativePfmsTeHandler_def send_negative_def sample_payload_def Let_def send_accepted sample_request_def)
qed


end
