(* ===== verification/Cashbook.thy ===== *)
theory Cashbook
  imports PfmsReversal
begin

text \<open>
  Submission of a day's cash book to PFMS and its reversal (pao-back-end-development/):
  FetchPfmsHandler, ProcessAmountAndSign, CalculateTotalsByDDO, PostNegativeEntryHandler and
  SubmitPayloadToPfms of handler/paogen.go, with TryStartSubmission and the other repository
  calls they make in repo/postgres/paogen.go.

  Queries over the cash books are arguments: the closing balances and the accounting lines they
  return.  Time is in seconds.  The totals of a request are kept in a map, whose order of
  iteration the language leaves open; it is an argument too.
\<close>

subsection \<open>The claim of a day\<close>

record cb_data =
  cdDdoCode :: string
  cdCbDate :: string
  cdPaoCode :: string
  cdFinYear :: string

definition CbData_ok :: "validators \<Rightarrow> (string \<Rightarrow> bool) \<Rightarrow> cb_data \<Rightarrow> bool" where
  "CbData_ok V year r =
    (length (cdDdoCode r) = 6 \<and> ValidateDdocode (cdDdoCode r)
     \<and> given (cdCbDate r) \<and> v_date V (cdCbDate r)
     \<and> given (cdPaoCode r) \<and> ValidatePaocode (cdPaoCode r)
     \<and> given (cdFinYear r) \<and> year (cdFinYear r))"

text \<open>A row of pao.pfms_main: one drawing office, one day.  A null flag reads as False, a null text as empty.\<close>
record 'f pm_row =
  pm_key :: string
  pm_pao :: string
  pm_ddo :: string
  pm_date :: gtime
  pm_start :: "nat option"
  pm_opening :: "'f option"
  pm_closing :: "'f option"
  pm_verified :: bool
  pm_verified_by :: "64 word option"
  pm_verified_at :: "gtime option"
  pm_uid :: "string option"
  pm_generated :: bool
  pm_flag :: string
  pm_error :: string
  pm_te_number :: string

definition claimable :: "nat \<Rightarrow> string \<Rightarrow> gtime \<Rightarrow> 'f pm_row \<Rightarrow> bool" where
  "claimable now ddo date r = (pm_ddo r = ddo \<and> pm_date r = date
    \<and> (case pm_start r of None \<Rightarrow> True | Some s \<Rightarrow> s + 50 < now))"

text \<open>TryStartSubmission: one atomic update, which succeeds when it hits a row.\<close>
definition TryStartSubmission :: "nat \<Rightarrow> string \<Rightarrow> gtime \<Rightarrow> 'f pm_row list \<Rightarrow> bool \<times> 'f pm_row list" where
  "TryStartSubmission now ddo date rows =
    (filter (claimable now ddo date) rows \<noteq> [],
     update_where (claimable now ddo date) (\<lambda>r. r\<lparr>pm_start := Some now\<rparr>) rows)"

text \<open>The first loop of FetchPfmsHandler: dates and claims, in the order of the request; what was claimed before a
  failure stays claimed.  ok says whether the database answers the claim.\<close>
fun claim_all ::
  "(cb_data \<Rightarrow> bool) \<Rightarrow> nat \<Rightarrow> cb_data list \<Rightarrow> 'f pm_row list \<Rightarrow> (pfms_reply, cb_data list) sum \<times> 'f pm_row list"
where
  "claim_all ok now [] rows = (Inr [], rows)"
| "claim_all ok now (r # rs) rows =
    (case parse_date (cdCbDate r) of
       None \<Rightarrow> (Inl PSilent, rows)
     | Some d \<Rightarrow>
         if \<not> ok r then (Inl PDb, rows)
         else (case TryStartSubmission now (cdDdoCode r) d rows of
                 (False, rows') \<Rightarrow> (Inl (PError 422 ''PFMS submission in progress for this DDO''), rows')
               | (True, rows') \<Rightarrow>
                   (case claim_all ok now rs rows' of
                      (Inl e, rows'') \<Rightarrow> (Inl e, rows'')
                    | (Inr reqs, rows'') \<Rightarrow> (Inr (r\<lparr>cdFinYear := fmt_d (ending_year d)\<rparr> # reqs), rows''))))"

subsection \<open>The lines and their balance\<close>

text \<open>ProcessAmountAndSign: like the transfer entries, but a missing sign stays missing.\<close>
definition processed_detail :: "'f float64 \<Rightarrow> 'f AccountingDetail \<Rightarrow> 'f AccountingDetail" where
  "processed_detail F d = (case adAmount d of None \<Rightarrow> d
    | Some a \<Rightarrow> if fless F a (fzero F) then
        d\<lparr>adSign := map_option flip_sign (adSign d), adAmount := Some (fneg F a)\<rparr>
      else d)"

definition ProcessAmountAndSign :: "'f float64 \<Rightarrow> 'f AccountingDetail list \<Rightarrow> 'f AccountingDetail list" where
  "ProcessAmountAndSign F ds = map (processed_detail F) ds"

text \<open>The totals of one office: receipts and payments.\<close>
type_synonym 'f ddo_totals = "string \<Rightarrow> ('f \<times> 'f) option"

definition total_step :: "'f float64 \<Rightarrow> 'f AccountingDetail \<Rightarrow> 'f ddo_totals \<Rightarrow> 'f ddo_totals" where
  "total_step F d m =
    (case (adDdoOfficeID d, adAmount d, adSign d, adReceiptPayment d) of
       (Some ddo, Some a, Some s, Some rp) \<Rightarrow>
         let amount = (if s = ''-'' then fneg F a else a);
             (r, p) = (case m ddo of None \<Rightarrow> (fzero F, fzero F) | Some t \<Rightarrow> t)
         in m(ddo \<mapsto> (if rp = ''T'' then (fadd F r amount, p)
                     else if rp = ''F'' then (r, fadd F p amount)
                     else (r, p)))
     | _ \<Rightarrow> m)"

definition CalculateTotalsByDDO :: "'f float64 \<Rightarrow> 'f AccountingDetail list \<Rightarrow> 'f ddo_totals" where
  "CalculateTotalsByDDO F ds = fold (total_step F) ds (\<lambda>_. None)"

text \<open>Receipts less payments less twice the closing balance.\<close>
definition equation_result :: "'f float64 \<Rightarrow> 'f \<times> 'f \<Rightarrow> 'f \<Rightarrow> 'f" where
  "equation_result F t closing = fsub F (fsub F (fst t) (snd t)) (fmul F (fint F 2) closing)"

definition f_ge :: "'f float64 \<Rightarrow> 'f \<Rightarrow> 'f \<Rightarrow> bool" where
  "f_ge F x y = (fless F y x \<or> feq F x y)"

text \<open>The line that takes up the difference.\<close>
definition cash_line :: "string \<Rightarrow> string \<Rightarrow> string \<Rightarrow> string \<Rightarrow> 'f \<Rightarrow> 'f AccountingDetail" where
  "cash_line ddo category remarks rp amount = \<lparr>
    adDdoOfficeID = Some ddo, adFunctionalHead = Some ''8671001020100'', adObjectHead = Some ''00'',
    adGrantNo = Some ''800'', adCategory = Some category, adRemarks = Some remarks,
    adReceiptPayment = Some rp, adSign = Some ''+'', adAmount = Some amount\<rparr>"

text \<open>The loop over the totals, in the order the map gives them.\<close>
fun adjust ::
  "'f float64 \<Rightarrow> (string \<Rightarrow> 'f option) \<Rightarrow> 'f ddo_totals \<Rightarrow> string list \<Rightarrow> 'f AccountingDetail list
    \<Rightarrow> 'f AccountingDetail list option"
where
  "adjust F closing tot [] ds = Some ds"
| "adjust F closing tot (ddo # ddos) ds =
    (case closing ddo of
       None \<Rightarrow> adjust F closing tot ddos ds
     | Some c \<Rightarrow>
         (let e = equation_result F (the (tot ddo)) c
          in if f_ge F e (fint F 100) then None
             else if fless F e (fzero F) then
               adjust F closing tot ddos (ds @ [cash_line ddo ''6'' ''Cash received'' ''T'' (fneg F e)])
             else if fless F (fzero F) e then
               adjust F closing tot ddos (ds @ [cash_line ddo ''7'' ''Cash sent'' ''F'' e])
             else adjust F closing tot ddos ds))"

text \<open>The closing balances the query returns, by office; a later row replaces an earlier one and a null one does not count.\<close>
definition closing_map :: "'f float64 \<Rightarrow> (string \<times> int option) list \<Rightarrow> string \<Rightarrow> 'f option" where
  "closing_map F cbs = fold (\<lambda>(ddo, b) m. case b of None \<Rightarrow> m | Some v \<Rightarrow> m(ddo \<mapsto> fint F v)) cbs (\<lambda>_. None)"

subsection \<open>Submitting the cash books of a day\<close>

text \<open>Format("2006-01-02") and TO_CHAR with the same pattern.\<close>
definition date_text :: "gtime \<Rightarrow> string" where
  "date_text t = zero_padded 4 (nat (tYear t)) @ ''-'' @ zero_padded 2 (tMonth t) @ ''-'' @ zero_padded 2 (tDay t)"

text \<open>A row of pao.pfms_submission for a cash book.\<close>
record 'f cb_submission =
  cs_id :: string
  cs_type :: string
  cs_request :: "cb_data list"
  cs_date :: string
  cs_data :: "'f Payload"
  cs_status :: string
  cs_error :: string
  cs_te_number :: string
  cs_original :: "string option"

text \<open>A row of pao.reversion, nulls read as empty strings.\<close>
record reversion =
  rn_office :: int
  rn_employee :: int
  rn_ddo :: string
  rn_from :: gtime
  rn_remark :: string
  rn_business_date :: gtime
  rn_type :: string
  rn_original_uid :: string
  rn_original_status :: string
  rn_original_te :: string
  rn_negative :: string
  rn_reversal_uid :: string
  rn_deletion :: string

text \<open>A row of pao.pfms_detail, with the accounts it is made of.\<close>
record 'f account_code =
  acCode :: string
  acDescription :: string
  acReceipt :: 'f
  acPayment :: 'f

record 'f pm_detail =
  pdKey :: string
  pdHoa :: string
  pdReceipt :: 'f
  pdPayment :: 'f
  pdCodes :: "'f account_code list"

text \<open>The columns of pao.transfer_entry that the answers of PFMS are written to.\<close>
record entry_status =
  es_uid :: "string option"
  es_flag :: string
  es_error :: string
  es_te_number :: string

text \<open>The tables: days, their details, submissions, reversions, transfer entries, and the cash books received by
  office and date.\<close>
record 'f cb_db =
  cb_main :: "'f pm_row list"
  cb_details :: "'f pm_detail list"
  cb_submissions :: "'f cb_submission list"
  cb_reversions :: "reversion list"
  cb_entries :: "entry_status list"
  cb_books :: "(int \<times> gtime) list"

text \<open>The calls of FetchPfmsHandler: an answer to the submission without a success flag is a failure.\<close>
definition send_cash_book :: "'f pfms_api \<Rightarrow> 'f Payload \<Rightarrow> 'f pfms_call list \<times> pfms_end" where
  "send_cash_book api payload =
    (case pfms_login ''ErrorMessage'' api of
       (calls, Inl e) \<Rightarrow> (calls, e)
     | (calls, Inr token) \<Rightarrow>
         (calls @ [SendCall token payload],
          case api (SendCall token payload) of
            Inl e \<Rightarrow> CallFailed e
          | Inr r3 \<Rightarrow>
              Submission (str_field r3 ''isSuccess'' \<noteq> None \<and> str_field r3 ''isSuccess'' \<noteq> Some ''0'')
                (if r3 ''errorMessage'' = None then ''Unknown error'' else printed (r3 ''errorMessage''))))"

text \<open>GetPfmsUpdateStatusRepo: one update per day of the request.\<close>
definition GetPfmsUpdateStatusRepo :: "cb_data list \<Rightarrow> string \<Rightarrow> 'f pm_row list \<Rightarrow> 'f pm_row list" where
  "GetPfmsUpdateStatusRepo cbds uid rows =
    fold (\<lambda>cb. update_where (\<lambda>r. pm_ddo r = cdDdoCode cb \<and> date_text (pm_date r) = cdCbDate cb)
      (\<lambda>r. r\<lparr>pm_uid := Some uid, pm_generated := True, pm_flag := ''Pending''\<rparr>)) cbds rows"

text \<open>A local variable that a loop sets: empty before, the last one after.\<close>
definition last_text :: "('a \<Rightarrow> string) \<Rightarrow> 'a list \<Rightarrow> string" where
  "last_text f xs = (if xs = [] then [] else f (last xs))"

definition Atoi_ok :: "string \<Rightarrow> bool" where
  "Atoi_ok s = (let ds = (case s of [] \<Rightarrow> [] | c # cs \<Rightarrow> if c = CHR ''-'' \<or> c = CHR ''+'' then cs else s)
    in ds \<noteq> [] \<and> list_all is_digit ds)"

text \<open>What both submissions do once the lines are adjusted: the payload, the calls and the two writes, whose outcomes
  are marked and stored.\<close>
definition submit_cash_book ::
  "'f float64 \<Rightarrow> nat \<Rightarrow> 'f pfms_api \<Rightarrow> bool \<Rightarrow> bool \<Rightarrow> cb_data list \<Rightarrow> string \<Rightarrow> string \<Rightarrow> string
    \<Rightarrow> 'f AccountingDetail list \<Rightarrow> 'f cb_db \<Rightarrow> pfms_reply \<times> 'f pfms_call list \<times> 'f cb_db"
where
  "submit_cash_book F drawn api marked stored requests pao date fin adjusted db =
    (if \<not> Atoi_ok fin then (PSilent, [], db)
     else case GenerateRandomNumber drawn pao fin of
       None \<Rightarrow> (PPanic, [], db)
     | Some uid \<Rightarrow>
         let payload = [\<lparr>tdUniqueIdentifier = uid, tdRequestSource = ''POST'', tdPaoCode = pao,
               tdFinancialYear = year_number fin, tdInstrumentType = ''Others'',
               tdRemarks = ''DoP Daily Account'', tdTEDate = date,
               tdAccountingDetails = ConvertToDetailsArray F adjusted\<rparr>]
         in (case send_cash_book api payload of
               (calls, CallFailed e) \<Rightarrow> (PCallFailed e, calls, db)
             | (calls, StepRefused m) \<Rightarrow> (PError 400 m, calls, db)
             | (calls, Panicked) \<Rightarrow> (PPanic, calls, db)
             | (calls, Submission False m) \<Rightarrow> (PError 400 m, calls, db)
             | (calls, Submission True _) \<Rightarrow>
                 if \<not> marked then (PDb, calls, db)
                 else (PSubmitted uid, calls,
                   db\<lparr>cb_main := GetPfmsUpdateStatusRepo requests uid (cb_main db),
                      cb_submissions := cb_submissions db @ (if stored then
                        [\<lparr>cs_id = uid, cs_type = ''cb'', cs_request = requests, cs_date = date,
                          cs_data = payload, cs_status = ''Pending'', cs_error = [], cs_te_number = [],
                          cs_original = None\<rparr>] else [])\<rparr>)))"

text \<open>
  FetchPfmsHandler.  balances and details are the queries over the cash books, None on an error; order is
  the iteration over the map of totals.
\<close>
definition FetchPfmsHandler ::
  "'f float64 \<Rightarrow> validators \<Rightarrow> (string \<Rightarrow> bool) \<Rightarrow> nat \<Rightarrow> nat \<Rightarrow> (cb_data \<Rightarrow> bool)
    \<Rightarrow> (cb_data list \<Rightarrow> (string \<times> int option) list option) \<Rightarrow> (cb_data list \<Rightarrow> 'f AccountingDetail list option)
    \<Rightarrow> ('f ddo_totals \<Rightarrow> string list) \<Rightarrow> 'f pfms_api \<Rightarrow> bool \<Rightarrow> bool \<Rightarrow> cb_data list option \<Rightarrow> 'f cb_db
    \<Rightarrow> pfms_reply \<times> 'f pfms_call list \<times> 'f cb_db"
where
  "FetchPfmsHandler F V year drawn now ok balances details order api marked stored body db =
    (case body of None \<Rightarrow> (PBinding, [], db)
     | Some cbds \<Rightarrow>
         if \<not> list_all (CbData_ok V year) cbds then (PValidation, [], db)
         else (case claim_all ok now cbds (cb_main db) of
           (Inl e, rows) \<Rightarrow> (e, [], db\<lparr>cb_main := rows\<rparr>)
         | (Inr requests, rows) \<Rightarrow>
             let db1 = db\<lparr>cb_main := rows\<rparr>
             in (case (balances requests, details requests) of
                   (None, _) \<Rightarrow> (PDb, [], db1)
                 | (_, None) \<Rightarrow> (PDb, [], db1)
                 | (_, Some []) \<Rightarrow> (PDb, [], db1)
                 | (Some cbs, Some (a # as)) \<Rightarrow>
                     let lines = ProcessAmountAndSign F (a # as); tot = CalculateTotalsByDDO F lines
                     in (case adjust F (closing_map F cbs) tot (order tot) lines of
                           None \<Rightarrow> (PDb, [], db1)
                         | Some adjusted \<Rightarrow> submit_cash_book F drawn api marked stored requests
                             (last_text cdPaoCode cbds) (last_text cdCbDate cbds) (last_text cdFinYear requests) adjusted db1))))"

subsection \<open>The negative entry of a reverted cash book\<close>

text \<open>SubmitPayloadToPfms: every failure before the answer to the submission is one error; a flag that is missing from
  that answer is not a refusal.\<close>
definition SubmitPayloadToPfms :: "'f pfms_api \<Rightarrow> 'f Payload \<Rightarrow> 'f pfms_call list \<times> pfms_end" where
  "SubmitPayloadToPfms api payload =
    (case pfms_login ''ErrorMessage'' api of
       (calls, Inl Panicked) \<Rightarrow> (calls, Panicked)
     | (calls, Inl _) \<Rightarrow> (calls, CallFailed [])
     | (calls, Inr token) \<Rightarrow>
         (calls @ [SendCall token payload],
          case api (SendCall token payload) of
            Inl e \<Rightarrow> CallFailed e
          | Inr r3 \<Rightarrow> Submission (str_field r3 ''isSuccess'' \<noteq> Some ''0'') (printed (r3 ''errorMessage''))))"

text \<open>The five guards and the office, with the status of each refusal.\<close>
definition negative_guards ::
  "string \<Rightarrow> 'f cb_db \<Rightarrow> (pfms_reply, reversion \<times> 'f cb_submission \<times> string) sum"
where
  "negative_guards uid db =
    (case find (\<lambda>r. rn_original_uid r = uid) (cb_reversions db) of
       None \<Rightarrow> Inl (PError 404 ''No reversion record found for this PFMS UID'')
     | Some rvn \<Rightarrow>
         if rn_type rvn \<noteq> ''with_pfms'' then
           Inl (PError 400 ''This entry has no PFMS submission. Negative entry not applicable.'')
         else if rn_negative rvn = ''YES'' then Inl (PError 409 ''Negative entry already posted for this date'')
         else (case find (\<lambda>s. cs_id s = uid) (cb_submissions db) of
                 None \<Rightarrow> Inl (PError 404 ''Original PFMS submission not found'')
               | Some s \<Rightarrow>
                   if cs_status s \<noteq> ''Success'' \<or> cs_te_number s = [] then
                     Inl (PError 422 ''PFMS te_number not yet received. Please wait.'')
                   else (case cs_request s of
                           [] \<Rightarrow> Inl (PError 500 ''PAO code missing in submission data'')
                         | c # _ \<Rightarrow>
                             if cdPaoCode c = [] then Inl (PError 500 ''PAO code missing in submission data'')
                             else Inr (rvn, s, cdPaoCode c))))"

text \<open>PostNegativeEntryHandler; a database that does not answer a query is readable being False.\<close>
definition PostNegativeEntryHandler ::
  "nat \<Rightarrow> 'f pfms_api \<Rightarrow> bool \<Rightarrow> bool \<Rightarrow> bool \<Rightarrow> string option \<Rightarrow> 'f cb_db
    \<Rightarrow> pfms_reply \<times> 'f pfms_call list \<times> 'f cb_db"
where
  "PostNegativeEntryHandler drawn api readable marked stored body db =
    (case body of None \<Rightarrow> (PBinding, [], db)
     | Some uid \<Rightarrow>
         if uid = [] then (PBinding, [], db)
         else if \<not> readable then (PError 500 ''Failed to fetch reversion record'', [], db)
         else (case negative_guards uid db of
           Inl e \<Rightarrow> (e, [], db)
         | Inr (rvn, s, pao) \<Rightarrow>
             (case BuildReversalPayload drawn (cs_data s) pao (fmt_d (ending_year (rn_business_date rvn)))
                     (date_text (rn_business_date rvn)) of
                None \<Rightarrow> (PPanic, [], db)
              | Some (payload, new) \<Rightarrow>
                  (case SubmitPayloadToPfms api payload of
                     (calls, Panicked) \<Rightarrow> (PPanic, calls, db)
                   | (calls, Submission True _) \<Rightarrow>
                       (PReversed uid new, calls,
                        db\<lparr>cb_reversions := (if marked then
                               update_where (\<lambda>r. rn_original_uid r = uid)
                                 (\<lambda>r. r\<lparr>rn_reversal_uid := new, rn_negative := ''YES''\<rparr>) (cb_reversions db)
                             else cb_reversions db),
                           cb_submissions := cb_submissions db @ (if stored then
                             [\<lparr>cs_id = new, cs_type = ''cb_reversal'', cs_request = cs_request s,
                               cs_date = date_text (rn_business_date rvn), cs_data = payload, cs_status = ''Pending'',
                               cs_error = [], cs_te_number = [], cs_original = Some uid\<rparr>] else [])\<rparr>)
                   | (calls, Submission False m) \<Rightarrow> (PError 502 (''PFMS rejected negative entry: '' @ m), calls, db)
                   | (calls, _) \<Rightarrow> (PError 502 ''Failed to post negative entry to PFMS'', calls, db)))))"

subsection \<open>What a submission guarantees\<close>

abbreviation totals_of :: "int AccountingDetail list \<Rightarrow> int ddo_totals" where
  "totals_of \<equiv> CalculateTotalsByDDO whole_amounts"

lemma totals_of_snoc: "totals_of (ds @ [d]) = total_step whole_amounts d (totals_of ds)"
  by (simp add: CalculateTotalsByDDO_def)

lemma whole_simps:
  "fzero whole_amounts = 0" "fadd whole_amounts x y = x + y" "fsub whole_amounts x y = x - y"
  "fmul whole_amounts x y = x * y" "fneg whole_amounts x = - x" "feq whole_amounts x y = (x = y)"
  "fless whole_amounts x y = (x < y)" "fint whole_amounts x = x" "f_ge whole_amounts x y = (y \<le> x)"
  by (auto simp: f_ge_def whole_amounts_def)

lemma whole_equation: "equation_result whole_amounts (r, p) c = r - p - 2 * c"
  by (simp add: equation_result_def whole_simps)

text \<open>The cash line of an office brings its totals to twice its closing balance and leaves the others.\<close>
lemma cash_line_totals:
  assumes "totals_of ds ddo = Some (r, p)"
  shows "totals_of (ds @ [cash_line ddo ''6'' ''Cash received'' ''T'' a]) = (totals_of ds)(ddo \<mapsto> (r + a, p))"
    and "totals_of (ds @ [cash_line ddo ''7'' ''Cash sent'' ''F'' a]) = (totals_of ds)(ddo \<mapsto> (r, p + a))"
  using assms by (simp_all add: totals_of_snoc total_step_def cash_line_def whole_simps)

definition settled :: "int AccountingDetail list \<Rightarrow> string \<Rightarrow> int \<Rightarrow> bool" where
  "settled ds ddo c = (\<exists>r p. totals_of ds ddo = Some (r, p) \<and> r - p = 2 * c)"

text \<open>One turn of the loop: the lines afterwards, when it does not stop.\<close>
lemma adjust_step:
  assumes "totals_of ds ddo = Some (r, p)" and "tot ddo = Some (r, p)" and "closing ddo = Some c"
  shows "if 100 \<le> r - p - 2 * c then adjust whole_amounts closing tot (ddo # ddos) ds = None
    else \<exists>cash. adjust whole_amounts closing tot (ddo # ddos) ds = adjust whole_amounts closing tot ddos (ds @ cash)
      \<and> length cash \<le> 1 \<and> settled (ds @ cash) ddo c
      \<and> (\<forall>x. x \<noteq> ddo \<longrightarrow> totals_of (ds @ cash) x = totals_of ds x)"
proof -
  let ?e = "r - p - 2 * c"
  have f: "equation_result whole_amounts (the (tot ddo)) c = ?e" by (simp add: assms(2) whole_equation)
  consider "100 \<le> ?e" | "?e < 0" | "0 < ?e" "?e < 100" | "?e = 0" by linarith
  thus ?thesis
  proof cases
    case 2
    with cash_line_totals(1) [OF assms(1), of "- ?e"] show ?thesis
      by (auto simp: assms(3) f whole_simps settled_def Let_def
          intro!: exI [of _ "[cash_line ddo ''6'' ''Cash received'' ''T'' (- ?e)]"])
  next
    case 3
    with cash_line_totals(2) [OF assms(1), of ?e] show ?thesis
      by (auto simp: assms(3) f whole_simps settled_def Let_def
          intro!: exI [of _ "[cash_line ddo ''7'' ''Cash sent'' ''F'' ?e]"])
  next
    case 4
    with assms(1) show ?thesis
      by (auto simp: assms(3) f whole_simps settled_def Let_def intro!: exI [of _ "[]"])
  qed (simp add: assms(3) f whole_simps Let_def)
qed

definition too_much :: "int AccountingDetail list \<Rightarrow> (string \<Rightarrow> int option) \<Rightarrow> string \<Rightarrow> bool" where
  "too_much ds closing ddo = (\<exists>r p c. totals_of ds ddo = Some (r, p) \<and> closing ddo = Some c \<and> 100 \<le> r - p - 2 * c)"

lemma adjust_effect:
  assumes "distinct order" and "\<And>x. x \<in> set order \<Longrightarrow> totals_of ds x = tot x \<and> tot x \<noteq> None"
  shows "case adjust whole_amounts closing tot order ds of
      None \<Rightarrow> \<exists>x\<in>set order. too_much ds closing x
    | Some ds' \<Rightarrow> (\<exists>cash. ds' = ds @ cash \<and> length cash \<le> length order)
        \<and> (\<forall>x\<in>set order. \<forall>c. closing x = Some c \<longrightarrow> settled ds' x c)
        \<and> (\<forall>x. x \<notin> set order \<longrightarrow> totals_of ds' x = totals_of ds x)"
  using assms
proof (induction order arbitrary: ds)
  case Nil
  show ?case by simp
next
  case (Cons ddo ddos)
  obtain r p where rp: "totals_of ds ddo = Some (r, p)" "tot ddo = Some (r, p)"
    using Cons.prems(2) [of ddo] by auto
  show ?case
  proof (cases "closing ddo")
    case None
    with Cons.IH [of ds] Cons.prems show ?thesis
      by (fastforce split: option.splits)
  next
    case (Some c)
    note step = adjust_step [of ds ddo r p tot closing c ddos, OF rp Some]
    show ?thesis
    proof (cases "100 \<le> r - p - 2 * c")
      case True
      with step rp(1) Some show ?thesis by (auto simp: too_much_def simp del: adjust.simps)
    next
      case False
      with step obtain cash where cash: "adjust whole_amounts closing tot (ddo # ddos) ds
            = adjust whole_amounts closing tot ddos (ds @ cash)"
          "length cash \<le> 1" "settled (ds @ cash) ddo c"
          "\<And>x. x \<noteq> ddo \<Longrightarrow> totals_of (ds @ cash) x = totals_of ds x"
        by (auto simp del: adjust.simps)
      have rest: "x \<in> set ddos \<Longrightarrow> totals_of (ds @ cash) x = tot x \<and> tot x \<noteq> None" for x
        using Cons.prems cash(4) [of x] by auto
      have fresh: "ddo \<notin> set ddos" "distinct ddos" using Cons.prems(1) by auto
      show ?thesis
      proof (cases "adjust whole_amounts closing tot ddos (ds @ cash)")
        case None
        with Cons.IH [OF fresh(2) rest] obtain x where "x \<in> set ddos" "too_much (ds @ cash) closing x" by auto
        moreover from this(1) fresh(1) have "x \<noteq> ddo" by blast
        ultimately have "too_much ds closing x" using cash(4) [of x] by (simp add: too_much_def)
        with None cash(1) \<open>x \<in> set ddos\<close> show ?thesis by (auto simp del: adjust.simps)
      next
        case (Some ds')
        with Cons.IH [OF fresh(2) rest] obtain cash' where tail: "ds' = (ds @ cash) @ cash'" "length cash' \<le> length ddos"
            "\<And>x k. x \<in> set ddos \<Longrightarrow> closing x = Some k \<Longrightarrow> settled ds' x k"
            "\<And>x. x \<notin> set ddos \<Longrightarrow> totals_of ds' x = totals_of (ds @ cash) x"
          by auto
        have "settled ds' ddo c"
          using cash(3) tail(4) [OF fresh(1)] by (simp add: settled_def)
        moreover have "\<exists>all. ds' = ds @ all \<and> length all \<le> length (ddo # ddos)"
          using tail(1,2) cash(2) by (intro exI [of _ "cash @ cash'"]) simp
        ultimately show ?thesis
          using Some cash(1,4) tail(3,4) \<open>closing ddo = Some c\<close> by (auto simp del: adjust.simps)
      qed
    qed
  qed
qed


subsection \<open>The claim is a lease\<close>

lemma claimable_claimed:
  "claimable now ddo date r \<Longrightarrow> claimable later ddo date (r\<lparr>pm_start := Some now\<rparr>) = (now + 50 < later)"
  by (simp add: claimable_def)

definition day_key :: "'f pm_row \<Rightarrow> string \<times> gtime" where
  "day_key r = (pm_ddo r, pm_date r)"

lemma GetPfmsUpdateStatusRepo_claims:
  "filter (claimable later ddo date) (GetPfmsUpdateStatusRepo cbds uid rows) = []
    \<longleftrightarrow> filter (claimable later ddo date) rows = []"
proof (induction cbds arbitrary: rows)
  case (Cons cb cbds)
  have step: "filter (claimable later ddo date)
        (update_where p (\<lambda>r. r\<lparr>pm_uid := u, pm_generated := g, pm_flag := f\<rparr>) rows) = []
      \<longleftrightarrow> filter (claimable later ddo date) rows = []" for p u g f
    by (induction rows) (auto simp: update_where_def claimable_def)
  have unfold: "GetPfmsUpdateStatusRepo (cb # cbds) uid rows = GetPfmsUpdateStatusRepo cbds uid
      (update_where (\<lambda>r. pm_ddo r = cdDdoCode cb \<and> date_text (pm_date r) = cdCbDate cb)
        (\<lambda>r. r\<lparr>pm_uid := Some uid, pm_generated := True, pm_flag := ''Pending''\<rparr>) rows)"
    by (simp add: GetPfmsUpdateStatusRepo_def)
  show ?case unfolding unfold Cons.IH step ..
qed (simp add: GetPfmsUpdateStatusRepo_def)

text \<open>C28: the claim on a day is a lease of 50 seconds and nothing more: once one is given, the next one on that day is
  refused for 50 seconds and given from then on, whether the submission it was given for is still under way or has
  been completed and recorded.\<close>

theorem claim_is_a_lease:
  assumes "distinct (map day_key rows)" and "TryStartSubmission now ddo date rows = (True, claimed)" and "now \<le> later"
  shows "fst (TryStartSubmission later ddo date claimed) = (now + 50 < later)
    \<and> fst (TryStartSubmission later ddo date (GetPfmsUpdateStatusRepo cbds uid claimed)) = (now + 50 < later)"
proof -
  from assms(2) obtain r where r: "r \<in> set rows" "claimable now ddo date r"
    and claimed: "claimed = update_where (claimable now ddo date) (\<lambda>r. r\<lparr>pm_start := Some now\<rparr>) rows"
    by (auto simp: TryStartSubmission_def filter_empty_conv)
  have only: "x = r" if "x \<in> set rows" "pm_ddo x = ddo" "pm_date x = date" for x
  proof -
    have "day_key x = day_key r" using r(2) that(2,3) by (simp add: day_key_def claimable_def)
    with assms(1) r(1) that(1) show ?thesis by (auto simp: distinct_map dest: inj_onD)
  qed
  have "(filter (claimable later ddo date) claimed \<noteq> []) = (now + 50 < later)"
  proof
    assume "filter (claimable later ddo date) claimed \<noteq> []"
    then obtain y where y: "y \<in> set claimed" "claimable later ddo date y"
      by (auto simp: filter_empty_conv)
    then obtain x where x: "x \<in> set rows" "y = (if claimable now ddo date x then x\<lparr>pm_start := Some now\<rparr> else x)"
      by (auto simp: claimed update_where_def)
    with y(2) have "x = r" using only [of x] by (auto simp: claimable_def split: if_splits)
    with x(2) y(2) r(2) show "now + 50 < later" by (simp add: claimable_claimed)
  next
    assume "now + 50 < later"
    with r have "claimable later ddo date (r\<lparr>pm_start := Some now\<rparr>)" by (simp add: claimable_claimed)
    moreover have "r\<lparr>pm_start := Some now\<rparr> \<in> set claimed"
      using r by (force simp: claimed update_where_def)
    ultimately show "filter (claimable later ddo date) claimed \<noteq> []"
      by (auto simp: filter_empty_conv)
  qed
  thus ?thesis by (simp add: TryStartSubmission_def GetPfmsUpdateStatusRepo_claims)
qed

subsection \<open>The negative entry is posted once, if that is recorded\<close>

lemma SubmitPayloadToPfms_calls: "AuthCall \<in> set (fst (SubmitPayloadToPfms api payload))"
  by (simp add: SubmitPayloadToPfms_def pfms_login_def split: sum.split option.split pfms_end.split)

lemma find_update_where:
  "(\<And>r. q (f r) = q r) \<Longrightarrow> find q (update_where p f xs) = map_option (\<lambda>r. if p r then f r else r) (find q xs)"
  by (induction xs) (auto simp: update_where_def)

lemma negative_guards_refusal: "negative_guards uid db = Inl e \<Longrightarrow> \<exists>n m. e = PError n m"
  by (auto simp: negative_guards_def split: if_splits option.splits list.splits)

lemma posted_handler:
  assumes "PostNegativeEntryHandler drawn api readable marked stored (Some uid) db = (PReversed uid new, calls, db')"
  shows "uid \<noteq> [] \<and> (\<exists>rvn s pao payload ns. negative_guards uid db = Inr (rvn, s, pao)
    \<and> BuildReversalPayload drawn (cs_data s) pao (fmt_d (ending_year (rn_business_date rvn)))
        (date_text (rn_business_date rvn)) = Some (payload, new)
    \<and> cb_reversions db' = (if marked then update_where (\<lambda>r. rn_original_uid r = uid)
        (\<lambda>r. r\<lparr>rn_reversal_uid := new, rn_negative := ''YES''\<rparr>) (cb_reversions db) else cb_reversions db)
    \<and> cb_submissions db' = cb_submissions db @ ns)"
proof (cases "negative_guards uid db")
  case (Inl e)
  then obtain n m where "e = PError n m" using negative_guards_refusal by blast
  with Inl assms show ?thesis by (simp add: PostNegativeEntryHandler_def split: if_splits)
next
  case (Inr g)
  then obtain rvn s pao where g: "negative_guards uid db = Inr (rvn, s, pao)" by (cases g) auto
  note handled = assms [unfolded PostNegativeEntryHandler_def option.case g sum.case prod.case]
  show ?thesis
  proof (cases "BuildReversalPayload drawn (cs_data s) pao (fmt_d (ending_year (rn_business_date rvn)))
        (date_text (rn_business_date rvn))")
    case None
    with handled show ?thesis by (simp split: if_splits)
  next
    case (Some p)
    then obtain payload uid' where p: "BuildReversalPayload drawn (cs_data s) pao (fmt_d (ending_year (rn_business_date rvn)))
        (date_text (rn_business_date rvn)) = Some (payload, uid')" by (cases p) auto
    obtain made outcome where sent: "SubmitPayloadToPfms api payload = (made, outcome)" by fastforce
    show ?thesis
    proof (cases outcome)
      case (Submission okay m)
      with handled p sent have "uid \<noteq> []" and okay and new: "uid' = new" and db': "db' = db\<lparr>cb_reversions :=
          (if marked then update_where (\<lambda>r. rn_original_uid r = uid)
            (\<lambda>r. r\<lparr>rn_reversal_uid := uid', rn_negative := ''YES''\<rparr>) (cb_reversions db) else cb_reversions db),
          cb_submissions := cb_submissions db @ (if stored then
            [\<lparr>cs_id = uid', cs_type = ''cb_reversal'', cs_request = cs_request s,
              cs_date = date_text (rn_business_date rvn), cs_data = payload, cs_status = ''Pending'', cs_error = [],
              cs_te_number = [], cs_original = Some uid\<rparr>] else [])\<rparr>"
        by (auto split: if_splits bool.splits)
      show ?thesis
      proof (intro conjI exI)
        show "uid \<noteq> []" by fact
        show "negative_guards uid db = Inr (rvn, s, pao)" by (fact g)
        show "BuildReversalPayload drawn (cs_data s) pao (fmt_d (ending_year (rn_business_date rvn)))
            (date_text (rn_business_date rvn)) = Some (payload, new)" by (simp add: p new)
      qed (simp_all add: db' new)
    qed (use handled p sent in \<open>simp_all split: if_splits\<close>)
  qed
qed

lemma BuildReversalPayload_draws:
  "BuildReversalPayload drawn original pao year date = Some p \<Longrightarrow>
    \<exists>q. BuildReversalPayload drawn' original pao year date = Some q"
  by (auto simp: BuildReversalPayload_def GenerateRandomNumber_def split: list.splits option.splits if_splits)

lemma find_append_found: "find p xs = Some x \<Longrightarrow> find p (xs @ ys) = Some x"
  by (induction xs) auto

text \<open>The guards read the reversion and the submission of the identifier, the first of each.\<close>
lemma negative_guards_again:
  assumes "negative_guards uid db = Inr (rvn, s, pao)" and "cb_submissions db' = cb_submissions db @ ns"
  shows "cb_reversions db' = cb_reversions db \<Longrightarrow> negative_guards uid db' = Inr (rvn, s, pao)"
    and "cb_reversions db' = update_where (\<lambda>r. rn_original_uid r = uid)
        (\<lambda>r. r\<lparr>rn_reversal_uid := new, rn_negative := ''YES''\<rparr>) (cb_reversions db) \<Longrightarrow>
      negative_guards uid db' = Inl (PError 409 ''Negative entry already posted for this date'')"
proof -
  from assms(1) have found: "find (\<lambda>r. rn_original_uid r = uid) (cb_reversions db) = Some rvn"
      "find (\<lambda>s. cs_id s = uid) (cb_submissions db) = Some s" and type: "rn_type rvn = ''with_pfms''"
    by (auto simp: negative_guards_def split: option.splits if_splits list.splits)
  show "negative_guards uid db' = Inr (rvn, s, pao)" if "cb_reversions db' = cb_reversions db"
  proof -
    have "negative_guards uid db' = negative_guards uid db"
      by (simp add: negative_guards_def that assms(2) found find_append_found)
    with assms(1) show ?thesis by simp
  qed
  show "negative_guards uid db' = Inl (PError 409 ''Negative entry already posted for this date'')"
    if *: "cb_reversions db' = update_where (\<lambda>r. rn_original_uid r = uid)
        (\<lambda>r. r\<lparr>rn_reversal_uid := new, rn_negative := ''YES''\<rparr>) (cb_reversions db)"
  proof -
    have "find (\<lambda>r. rn_original_uid r = uid) (cb_reversions db')
        = Some (rvn\<lparr>rn_reversal_uid := new, rn_negative := ''YES''\<rparr>)"
      unfolding * by (subst find_update_where) (use found(1) in \<open>auto simp: find_Some_iff\<close>)
    with type show ?thesis by (simp add: negative_guards_def)
  qed
qed

text \<open>C29: the negative entry of a reverted cash book is posted once, if its posting is recorded: after an accepted one
  the next request for the same submission is refused with a conflict and no call, provided the update of the
  reversion succeeded; where it failed, which is logged and not reported, the next request calls PFMS again.\<close>

theorem negative_entry_once_if_recorded:
  assumes "PostNegativeEntryHandler drawn api readable marked stored (Some uid) db = (PReversed uid new, calls, db')"
  shows "(\<exists>rvn s pao. negative_guards uid db = Inr (rvn, s, pao))
    \<and> (if marked
        then PostNegativeEntryHandler drawn' api' True marked' stored' (Some uid) db'
          = (PError 409 ''Negative entry already posted for this date'', [], db')
        else AuthCall \<in> set (fst (snd (PostNegativeEntryHandler drawn' api' True marked' stored' (Some uid) db'))))"
proof -
  from posted_handler [OF assms] obtain rvn s pao payload ns where uid: "uid \<noteq> []"
    and guards: "negative_guards uid db = Inr (rvn, s, pao)"
    and built: "BuildReversalPayload drawn (cs_data s) pao (fmt_d (ending_year (rn_business_date rvn)))
        (date_text (rn_business_date rvn)) = Some (payload, new)"
    and revs: "cb_reversions db' = (if marked then update_where (\<lambda>r. rn_original_uid r = uid)
        (\<lambda>r. r\<lparr>rn_reversal_uid := new, rn_negative := ''YES''\<rparr>) (cb_reversions db) else cb_reversions db)"
    and subs: "cb_submissions db' = cb_submissions db @ ns"
    by blast
  show ?thesis
  proof (cases marked)
    case True
    with negative_guards_again(2) [OF guards subs, of new] revs uid guards show ?thesis
      by (auto simp: PostNegativeEntryHandler_def)
  next
    case False
    with negative_guards_again(1) [OF guards subs] revs have again: "negative_guards uid db' = Inr (rvn, s, pao)" by simp
    obtain payload' new' where built': "BuildReversalPayload drawn' (cs_data s) pao
        (fmt_d (ending_year (rn_business_date rvn))) (date_text (rn_business_date rvn)) = Some (payload', new')"
      using BuildReversalPayload_draws [OF built, of drawn'] by auto
    obtain made outcome where sent: "SubmitPayloadToPfms api' payload' = (made, outcome)" by fastforce
    hence "AuthCall \<in> set made"
      using SubmitPayloadToPfms_calls [of api' payload'] by simp
    hence "AuthCall \<in> set (fst (snd (PostNegativeEntryHandler drawn' api' True marked' stored' (Some uid) db')))"
      using uid by (cases outcome) (auto simp: PostNegativeEntryHandler_def again built' sent split: bool.split)
    with False guards show ?thesis by auto
  qed
qed

subsection \<open>Concrete days\<close>

definition sample_line :: "string \<Rightarrow> int \<Rightarrow> int AccountingDetail" where
  "sample_line rp amount = sample_columns\<lparr>adReceiptPayment := Some rp, adAmount := Some amount\<rparr>"

lemma sample_totals:
  "totals_of [sample_line ''T'' 70, sample_line ''F'' 50] = [''300003'' \<mapsto> (70, 50)]"
  by (simp add: CalculateTotalsByDDO_def total_step_def sample_line_def sample_columns_def whole_simps)


definition sample_date :: gtime where
  "sample_date = \<lparr>tYear = 2026, tMonth = 2, tDay = 3, tHour = 0, tMinute = 0, tSecond = 0\<rparr>"

definition sample_main :: "int pm_row list" where
  "sample_main = [\<lparr>pm_key = ''30000320260203'', pm_pao = ''100001'', pm_ddo = ''300003'', pm_date = sample_date, pm_start = None,
    pm_opening = None, pm_closing = None, pm_verified = False, pm_verified_by = None, pm_verified_at = None,
    pm_uid = None, pm_generated = False, pm_flag = [], pm_error = [], pm_te_number = []\<rparr>]"

lemma claim_is_a_lease_witness:
  "map (\<lambda>t. fst (TryStartSubmission t ''300003'' sample_date
      (GetPfmsUpdateStatusRepo [] ''CB'' (snd (TryStartSubmission 100 ''300003'' sample_date sample_main))))) [110, 150, 151]
    = [False, False, True]"
proof -
  have claim: "TryStartSubmission 100 ''300003'' sample_date sample_main
      = (True, snd (TryStartSubmission 100 ''300003'' sample_date sample_main))"
    by (simp add: TryStartSubmission_def sample_main_def claimable_def)
  have "distinct (map day_key sample_main)" by (simp add: sample_main_def)
  note lease = claim_is_a_lease [OF this claim, of _ "[]" "''CB''", THEN conjunct2]
  show ?thesis using lease [of 110] lease [of 150] lease [of 151] by simp
qed

definition sample_reversion :: reversion where
  "sample_reversion = \<lparr>rn_office = 1, rn_employee = 7, rn_ddo = ''300003'', rn_from = sample_date, rn_remark = ''wrong day'',
    rn_business_date = sample_date, rn_type = ''with_pfms'', rn_original_uid = ''CB-7'', rn_original_status = ''Success'',
    rn_original_te = ''8'', rn_negative = ''NO'', rn_reversal_uid = [], rn_deletion = ''SUCCESS''\<rparr>"

definition sample_books :: "int cb_db" where
  "sample_books = \<lparr>cb_main = sample_main, cb_details = [],
    cb_submissions = [\<lparr>cs_id = ''CB-7'', cs_type = ''cb'',
      cs_request = [\<lparr>cdDdoCode = ''300003'', cdCbDate = ''2026-02-03'', cdPaoCode = ''100001'', cdFinYear = ''2026''\<rparr>],
      cs_date = ''2026-02-03'', cs_data = sample_payload, cs_status = ''Success'', cs_error = [], cs_te_number = ''8'',
      cs_original = None\<rparr>],
    cb_reversions = [sample_reversion], cb_entries = [], cb_books = []\<rparr>"

lemma sample_guards: "\<exists>rvn s. negative_guards ''CB-7'' sample_books = Inr (rvn, s, ''100001'')
    \<and> cs_data s = sample_payload \<and> rn_business_date rvn = sample_date"
  by (simp add: negative_guards_def sample_books_def sample_reversion_def)

lemma send_accepted_cash:
  "SubmitPayloadToPfms accepting payload = ([AuthCall, LoginCall ''1'', SendCall ''1'' payload], Submission True ''1'')"
  by (simp add: SubmitPayloadToPfms_def pfms_login_def accepting_def str_field_def printed_def)

lemma sample_ending: "length (fmt_d (ending_year sample_date)) = 4"
  by code_simp

lemma sample_negative_entry:
  "\<exists>new calls db'. PostNegativeEntryHandler 5 accepting True True True (Some ''CB-7'') sample_books
    = (PReversed ''CB-7'' new, calls, db')"
proof -
  obtain payload new where "BuildReversalPayload 5 sample_payload ''100001'' (fmt_d (ending_year sample_date))
      (date_text sample_date) = Some (payload, new)"
    by (auto simp: BuildReversalPayload_def sample_payload_def GenerateRandomNumber_def sample_ending)
  moreover obtain rvn s where "negative_guards ''CB-7'' sample_books = Inr (rvn, s, ''100001'')"
      "cs_data s = sample_payload" "rn_business_date rvn = sample_date"
    using sample_guards by blast
  ultimately show ?thesis
    by (simp add: PostNegativeEntryHandler_def send_accepted_cash)
qed

lemma negative_entry_once_if_recorded_witness:
  "\<exists>db'. PostNegativeEntryHandler 6 accepting True True True (Some ''CB-7'') (db' :: int cb_db)
    = (PError 409 ''Negative entry already posted for this date'', [], db')"
proof -
  obtain new calls db' where "PostNegativeEntryHandler 5 accepting True True True (Some ''CB-7'') sample_books
      = (PReversed ''CB-7'' new, calls, db')"
    using sample_negative_entry by blast
  from negative_entry_once_if_recorded [OF this, of 6 accepting True True] show ?thesis by auto
qed

end
