(* ===== verification/DayGate.thy ===== *)
theory DayGate
  imports Cashbook
begin

text \<open>
  Verification of a day's cash book (pao-back-end-development/): CreatePFMSVerificationHandler and
  CreateEmptyPFMSVerificationHandler of handler/paogen.go, with CheckPreviousCashbook,
  PostPfmsverifiedRepo and PostEmptyPfmsverifiedRepo of repo/postgres/paogen.go.

  The flag is sent to the database as text; \<open>as_bool\<close> is how the database reads it.  The statements of a
  verification are one batch, which is stored as a whole or not at all.  A business date is compared
  as the instant that was sent.
\<close>

subsection \<open>Requests\<close>

record 'f PfmsVerified =
  vrDdoCode :: string
  vrDate :: gtime
  vrClosing :: 'f
  vrOpening :: 'f
  vrBy :: "64 word"
  vrStatus :: string
  vrHoa :: string
  vrPayment :: 'f
  vrReceipt :: 'f
  vrCodes :: "'f account_code list"

definition CodeArray_ok :: "validators \<Rightarrow> (string \<Rightarrow> bool) \<Rightarrow> 'f account_code \<Rightarrow> bool" where
  "CodeArray_ok V account c = (given (acCode c) \<and> account (acCode c) \<and> v_max V 255 (acDescription c))"

text \<open>CreateEmptyPFMSVerificationHandler asks for less: no head of account and no accounts.\<close>
definition PfmsEmptyVerified_ok :: "validators \<Rightarrow> 'f PfmsVerified \<Rightarrow> bool" where
  "PfmsEmptyVerified_ok V r =
    (given (vrDdoCode r) \<and> ValidateDdocode (vrDdoCode r) \<and> vrDate r \<noteq> zero_time
     \<and> vrBy r \<noteq> 0 \<and> v_employee_id V (vrBy r) \<and> given (vrStatus r) \<and> v_max V 20 (vrStatus r))"

definition PfmsVerified_ok :: "validators \<Rightarrow> (string \<Rightarrow> bool) \<Rightarrow> 'f PfmsVerified \<Rightarrow> bool" where
  "PfmsVerified_ok V account r =
    (PfmsEmptyVerified_ok V r \<and> given (vrHoa r) \<and> v_head_of_account V (vrHoa r)
     \<and> list_all (CodeArray_ok V account) (vrCodes r))"

text \<open>The loop over the request: the first item that is not valid or not mapped to a head of account ends it.\<close>
fun request_refusal ::
  "validators \<Rightarrow> (string \<Rightarrow> bool) \<Rightarrow> 'f PfmsVerified list \<Rightarrow> pfms_reply option"
where
  "request_refusal V account [] = None"
| "request_refusal V account (r # rs) =
    (if \<not> PfmsVerified_ok V account r then Some PValidation
     else if vrHoa r = ''999999999999999'' then Some (PError 400 ''unmapped account code found in cashbook'')
     else request_refusal V account rs)"

subsection \<open>The day before\<close>

definition time_key :: "gtime \<Rightarrow> int \<times> nat \<times> nat \<times> nat \<times> nat \<times> nat" where
  "time_key t = (tYear t, tMonth t, tDay t, tHour t, tMinute t, tSecond t)"

text \<open>CheckPreviousCashbook: of the earlier days of the office the latest.\<close>
definition CheckPreviousCashbook :: "string \<Rightarrow> gtime \<Rightarrow> 'f pm_row list \<Rightarrow> 'f pm_row option" where
  "CheckPreviousCashbook ddo date rows =
    (let days = sort_key (\<lambda>r. time_key (pm_date r))
           (filter (\<lambda>r. pm_ddo r = ddo \<and> time_key (pm_date r) < time_key date) rows)
     in if days = [] then None else Some (last days))"

text \<open>What the day before is asked for, in the order of the handlers.  The third check compares a lower-case text
  with two that are not.\<close>
definition previous_refusal :: "'f float64 \<Rightarrow> 'f \<Rightarrow> 'f pm_row option \<Rightarrow> pfms_reply option" where
  "previous_refusal F opening day =
    (case day of None \<Rightarrow> None
     | Some p \<Rightarrow>
         if \<not> pm_verified p then Some (PError 409 ''Previous cashbooks pending for verification'')
         else if \<not> pm_generated p then Some (PError 409 ''Previous cashbooks pending for PFMS submission'')
         else if to_lower (pm_flag p) = ''Pending'' \<or> to_lower (pm_flag p) = ''Failed'' then
           Some (PError 409 ''Previous cashbook Failed or Pending'')
         else (case pm_closing p of
                 None \<Rightarrow> None
               | Some c \<Rightarrow> if feq F opening c then None
                   else Some (PError 409 ''Opening balance mismatch with previous cashbook'')))"

subsection \<open>Storing a verification\<close>

datatype pg_outcome = Stored | PgFailed string | OtherFailed

text \<open>The error is asserted to be one of the database's, and its code decides the answer.\<close>
fun stored_reply :: "pg_outcome \<Rightarrow> pfms_reply" where
  "stored_reply Stored = PCreated"
| "stored_reply (PgFailed c) =
    (if c = ''23503'' then PError 409 ''cashbook not received''
     else if c = ''23505'' then PError 409 ''cashbook already verified''
     else PDb)"
| "stored_reply OtherFailed = PPanic"

definition verified_row :: "gtime \<Rightarrow> bool \<Rightarrow> 'f PfmsVerified \<Rightarrow> 'f pm_row \<Rightarrow> 'f pm_row" where
  "verified_row now flag r row = row\<lparr>pm_closing := Some (vrClosing r), pm_opening := Some (vrOpening r),
     pm_verified_by := Some (vrBy r), pm_verified := flag, pm_verified_at := Some now\<rparr>"

definition is_day :: "'f PfmsVerified \<Rightarrow> 'f pm_row \<Rightarrow> bool" where
  "is_day r row = (pm_ddo row = vrDdoCode r \<and> pm_date row = vrDate r)"

text \<open>The key of a detail: the office and Format("20060102").\<close>
definition detail_row :: "'f PfmsVerified \<Rightarrow> 'f pm_detail" where
  "detail_row r = \<lparr>pdKey = vrDdoCode r @ zero_padded 4 (nat (tYear (vrDate r))) @ zero_padded 2 (tMonth (vrDate r))
       @ zero_padded 2 (tDay (vrDate r)),
     pdHoa = vrHoa r, pdReceipt = vrReceipt r, pdPayment = vrPayment r, pdCodes = vrCodes r\<rparr>"

text \<open>PostPfmsverifiedRepo: the day is that of the first item, r; the details are those of all items.\<close>
definition PostPfmsverifiedRepo ::
  "gtime \<Rightarrow> bool \<Rightarrow> 'f PfmsVerified \<Rightarrow> 'f PfmsVerified list \<Rightarrow> 'f cb_db \<Rightarrow> 'f cb_db"
where
  "PostPfmsverifiedRepo now flag r rs db =
    db\<lparr>cb_main := update_where (is_day r) (verified_row now flag r) (cb_main db),
       cb_details := cb_details db @ map detail_row rs\<rparr>"

text \<open>PostEmptyPfmsverifiedRepo: a day that opens and closes with nothing counts as submitted.\<close>
definition PostEmptyPfmsverifiedRepo ::
  "'f float64 \<Rightarrow> gtime \<Rightarrow> bool \<Rightarrow> 'f PfmsVerified \<Rightarrow> 'f cb_db \<Rightarrow> 'f cb_db"
where
  "PostEmptyPfmsverifiedRepo F now flag r db =
    db\<lparr>cb_main := update_where (is_day r)
         (\<lambda>row. let row' = verified_row now flag r row
           in if feq F (vrOpening r) (fzero F) \<and> feq F (vrClosing r) (fzero F) then row'\<lparr>pm_generated := True\<rparr> else row')
         (cb_main db)\<rparr>"

text \<open>What both handlers do with a valid request: the day before is asked, when the query for it is answered,
  and the verification of the first item is stored.\<close>
definition verify_day ::
  "'f float64 \<Rightarrow> (string \<Rightarrow> bool option) \<Rightarrow> bool \<Rightarrow> pg_outcome \<Rightarrow> (bool \<Rightarrow> 'f PfmsVerified \<Rightarrow> 'f cb_db \<Rightarrow> 'f cb_db)
    \<Rightarrow> 'f PfmsVerified list \<Rightarrow> 'f cb_db \<Rightarrow> pfms_reply \<times> 'f cb_db"
where
  "verify_day F as_bool asked stored wr rs db =
    (case rs of [] \<Rightarrow> (PPanic, db)
     | r # _ \<Rightarrow>
         if \<not> asked then (PDb, db)
         else (case previous_refusal F (vrOpening r) (CheckPreviousCashbook (vrDdoCode r) (vrDate r) (cb_main db)) of
             Some e \<Rightarrow> (e, db)
           | None \<Rightarrow>
               (case as_bool (vrStatus r) of
                  None \<Rightarrow> (PDb, db)
                | Some flag \<Rightarrow> (stored_reply stored, if stored = Stored then wr flag r db else db))))"

definition CreatePFMSVerificationHandler ::
  "'f float64 \<Rightarrow> validators \<Rightarrow> (string \<Rightarrow> bool) \<Rightarrow> (string \<Rightarrow> bool option) \<Rightarrow> bool \<Rightarrow> pg_outcome \<Rightarrow> gtime
    \<Rightarrow> 'f PfmsVerified list option \<Rightarrow> 'f cb_db \<Rightarrow> pfms_reply \<times> 'f cb_db"
where
  "CreatePFMSVerificationHandler F V account as_bool asked stored now body db =
    (case body of None \<Rightarrow> (PBinding, db)
     | Some rs \<Rightarrow>
         (case request_refusal V account rs of
            Some e \<Rightarrow> (e, db)
          | None \<Rightarrow> verify_day F as_bool asked stored (\<lambda>flag r. PostPfmsverifiedRepo now flag r rs) rs db))"

definition CreateEmptyPFMSVerificationHandler ::
  "'f float64 \<Rightarrow> validators \<Rightarrow> (string \<Rightarrow> bool option) \<Rightarrow> bool \<Rightarrow> pg_outcome \<Rightarrow> gtime
    \<Rightarrow> 'f PfmsVerified list option \<Rightarrow> 'f cb_db \<Rightarrow> pfms_reply \<times> 'f cb_db"
where
  "CreateEmptyPFMSVerificationHandler F V as_bool asked stored now body db =
    (case body of None \<Rightarrow> (PBinding, db)
     | Some rs \<Rightarrow>
         if \<not> list_all (PfmsEmptyVerified_ok V) rs then (PValidation, db)
         else verify_day F as_bool asked stored (PostEmptyPfmsverifiedRepo F now) rs db)"

subsection \<open>The latest of the earlier days\<close>

lemma time_key_inject: "time_key s = time_key t \<longleftrightarrow> s = t"
  by (cases s; cases t) (simp add: time_key_def)

lemma sort_key_map_eq: "sort_key k (map f xs) = map f (sort_key (\<lambda>x. k (f x)) xs)"
proof -
  have "insort_key k (f x) (map f ys) = map f (insort_key (\<lambda>x. k (f x)) x ys)" for x ys
    by (induction ys) auto
  thus ?thesis by (induction xs) simp_all
qed

lemma sort_key_Nil: "sort_key k xs = [] \<longleftrightarrow> xs = []"
  by (metis length_0_conv length_sort)

lemma last_sort_key:
  assumes "xs \<noteq> []"
  shows "last (sort_key k xs) \<in> set xs" and "x \<in> set xs \<Longrightarrow> k x \<le> k (last (sort_key k xs))"
proof -
  let ?ys = "sort_key k xs"
  have ne: "?ys \<noteq> []" using assms by (simp add: sort_key_Nil)
  have "set ?ys = set xs" by (rule set_sort)
  with last_in_set [OF ne] show "last ?ys \<in> set xs" by blast
  show "k x \<le> k (last ?ys)" if "x \<in> set xs"
  proof -
    from that have "x \<in> set ?ys" by simp
    then obtain i where i: "i < length ?ys" "?ys ! i = x" by (metis in_set_conv_nth)
    have "sorted (map k ?ys)" by simp
    from sorted_nth_mono [OF this, of i "length ?ys - 1"] i ne show ?thesis
      by (simp add: last_conv_nth)
  qed
qed

text \<open>A row is the previous day of a date: no row of the office lies between the two.\<close>
definition previous_day :: "string \<Rightarrow> gtime \<Rightarrow> 'f pm_row list \<Rightarrow> 'f pm_row \<Rightarrow> bool" where
  "previous_day ddo date rows p = (p \<in> set rows \<and> pm_ddo p = ddo \<and> time_key (pm_date p) < time_key date
    \<and> (\<forall>q\<in>set rows. pm_ddo q = ddo \<and> time_key (pm_date q) < time_key date \<longrightarrow> time_key (pm_date q) \<le> time_key (pm_date p)))"

lemma CheckPreviousCashbook_iff:
  assumes "distinct (map day_key rows)"
  shows "CheckPreviousCashbook ddo date rows = Some p \<longleftrightarrow> previous_day ddo date rows p"
proof -
  let ?earlier = "filter (\<lambda>r. pm_ddo r = ddo \<and> time_key (pm_date r) < time_key date) rows"
  show ?thesis
  proof (cases "?earlier = []")
    case True
    thus ?thesis
      by (auto simp: CheckPreviousCashbook_def previous_day_def filter_empty_conv)
  next
    case False
    note found = last_sort_key [OF False, where k = "\<lambda>r. time_key (pm_date r)"]
    let ?p = "last (sort_key (\<lambda>r. time_key (pm_date r)) ?earlier)"
    have nonempty: "sort_key (\<lambda>r. time_key (pm_date r)) ?earlier \<noteq> []"
      using False by (simp only: sort_key_Nil not_False_eq_True)
    have this_one: "previous_day ddo date rows ?p"
      unfolding previous_day_def
    proof (intro conjI ballI impI)
      show "time_key (pm_date q) \<le> time_key (pm_date ?p)"
        if "q \<in> set rows" "pm_ddo q = ddo \<and> time_key (pm_date q) < time_key date" for q
        by (rule found(2)) (use that in simp)
    qed (use found(1) in simp_all)
    have "p = ?p" if "previous_day ddo date rows p"
    proof -
      have "time_key (pm_date p) = time_key (pm_date ?p)"
      proof (rule order.antisym)
        show "time_key (pm_date p) \<le> time_key (pm_date ?p)"
          by (rule found(2)) (use that in \<open>simp add: previous_day_def\<close>)
        show "time_key (pm_date ?p) \<le> time_key (pm_date p)"
          using that this_one unfolding previous_day_def by blast
      qed
      moreover have "pm_ddo p = pm_ddo ?p" "p \<in> set rows" "?p \<in> set rows"
        using that this_one unfolding previous_day_def by simp_all
      ultimately show ?thesis
        using assms by (intro inj_onD [of day_key "set rows"]) (simp_all add: distinct_map day_key_def time_key_inject)
    qed
    with this_one nonempty show ?thesis
      by (auto simp: CheckPreviousCashbook_def Let_def)
  qed
qed

subsection \<open>What a verification guarantees\<close>

lemma previous_refusal_None:
  "previous_refusal F opening (Some p) = None \<Longrightarrow>
    pm_verified p \<and> pm_generated p \<and> (\<forall>c. pm_closing p = Some c \<longrightarrow> feq F opening c)"
  by (auto simp: previous_refusal_def split: if_splits option.splits)

lemma verify_day_created:
  "verify_day F as_bool asked stored wr rs db = (PCreated, db') \<Longrightarrow>
    \<exists>r rest flag. rs = r # rest \<and> as_bool (vrStatus r) = Some flag \<and> db' = wr flag r db
      \<and> previous_refusal F (vrOpening r) (CheckPreviousCashbook (vrDdoCode r) (vrDate r) (cb_main db)) = None"
  by (cases stored)
    (auto simp: verify_day_def previous_refusal_def split: list.splits option.splits if_splits)

lemma verify_day_refused:
  "verify_day F as_bool asked stored wr rs db = (answer, db') \<Longrightarrow> answer \<noteq> PCreated \<Longrightarrow> db' = db"
  by (cases stored) (auto simp: verify_day_def split: list.splits option.splits if_splits)

text \<open>Rows of other days stay, and a row of the day gets the balances of the request.\<close>
definition day_verified :: "'f PfmsVerified \<Rightarrow> bool \<Rightarrow> 'f pm_row \<Rightarrow> 'f pm_row \<Rightarrow> bool" where
  "day_verified r flag row row' =
    (if is_day r row then pm_opening row' = Some (vrOpening r) \<and> pm_closing row' = Some (vrClosing r)
        \<and> pm_verified row' = flag \<and> pm_uid row' = pm_uid row \<and> pm_flag row' = pm_flag row
        \<and> day_key row' = day_key row
     else row' = row)"

lemma request_refusal_ne_created: "request_refusal V account rs \<noteq> Some PCreated"
  by (induction rs) auto

text \<open>C30: a day is verified only after the one before it: when either handler answers that a verification was created,
  the previous day of the office, if there is one, is verified and submitted and closed with the balance the
  request opens with; the day gets the balances and the flag of the first item, every other day stays
  as it is, and the details of all items are added, or none for an empty day.  Any other answer changes nothing.\<close>

theorem verification_follows_previous:
  assumes "distinct (map day_key (cb_main db))"
    and "(CreatePFMSVerificationHandler F V account as_bool asked stored now (Some (r # rs)) db = (answer, db') \<and> new = map detail_row (r # rs))
      \<or> (CreateEmptyPFMSVerificationHandler F V as_bool asked stored now (Some (r # rs)) db = (answer, db') \<and> new = [])"
  shows "if answer = PCreated then
      (\<forall>p. previous_day (vrDdoCode r) (vrDate r) (cb_main db) p \<longrightarrow>
         pm_verified p \<and> pm_generated p \<and> (\<forall>c. pm_closing p = Some c \<longrightarrow> feq F (vrOpening r) c))
      \<and> list_all2 (day_verified r (as_bool (vrStatus r) = Some True)) (cb_main db) (cb_main db')
      \<and> cb_details db' = cb_details db @ new \<and> cb_submissions db' = cb_submissions db
    else db' = db"
proof -
  define wr where "wr = (if new = [] then PostEmptyPfmsverifiedRepo F now else (\<lambda>flag x. PostPfmsverifiedRepo now flag x (r # rs)))"
  have handled: "verify_day F as_bool asked stored wr (r # rs) db = (answer, db') \<or> answer \<noteq> PCreated \<and> db' = db"
    using assms(2) request_refusal_ne_created [of V account "r # rs"]
    by (auto simp: wr_def CreatePFMSVerificationHandler_def CreateEmptyPFMSVerificationHandler_def
        simp del: request_refusal.simps split: option.splits if_splits)
  show ?thesis
  proof (cases "answer = PCreated")
    case True
    with handled verify_day_created [of F as_bool asked stored wr "r # rs" db db'] obtain flag where
      day: "as_bool (vrStatus r) = Some flag" "db' = wr flag r db"
        "previous_refusal F (vrOpening r) (CheckPreviousCashbook (vrDdoCode r) (vrDate r) (cb_main db)) = None"
      by auto
    have "pm_verified p \<and> pm_generated p \<and> (\<forall>c. pm_closing p = Some c \<longrightarrow> feq F (vrOpening r) c)"
      if "previous_day (vrDdoCode r) (vrDate r) (cb_main db) p" for p
      using that day(3) by (simp add: CheckPreviousCashbook_iff [OF assms(1), symmetric] previous_refusal_None)
    moreover have "list_all2 (day_verified r flag) (cb_main db) (cb_main db')"
      by (simp add: day(2) wr_def PostPfmsverifiedRepo_def PostEmptyPfmsverifiedRepo_def update_where_def
          list_all2_map2 list.rel_refl day_verified_def verified_row_def day_key_def Let_def)
    moreover have "cb_details db' = cb_details db @ new \<and> cb_submissions db' = cb_submissions db"
      using assms(2) by (auto simp: day(2) wr_def PostPfmsverifiedRepo_def PostEmptyPfmsverifiedRepo_def)
    ultimately show ?thesis using True day(1) by (cases flag) simp_all
  next
    case False
    with handled verify_day_refused show ?thesis by fastforce
  qed
qed

subsection \<open>What a verification does not look at\<close>

text \<open>The table with other answers of PFMS in the rows of the days.\<close>
definition reflagged :: "(string \<times> gtime \<Rightarrow> string) \<Rightarrow> 'f cb_db \<Rightarrow> 'f cb_db" where
  "reflagged g db = db\<lparr>cb_main := map (\<lambda>r. r\<lparr>pm_flag := g (day_key r)\<rparr>) (cb_main db)\<rparr>"

lemma to_lower_capital: "to_lower s \<noteq> ''Pending''" "to_lower s \<noteq> ''Failed''"
proof -
  show "to_lower s \<noteq> ''Pending''"
  proof
    assume *: "to_lower s = ''Pending''"
    have "to_lower (to_lower s) = to_lower s" by simp
    thus False unfolding * by code_simp
  qed
  show "to_lower s \<noteq> ''Failed''"
  proof
    assume *: "to_lower s = ''Failed''"
    have "to_lower (to_lower s) = to_lower s" by simp
    thus False unfolding * by code_simp
  qed
qed

lemma previous_refusal_flag:
  "previous_refusal F opening (map_option (\<lambda>r. r\<lparr>pm_flag := g r\<rparr>) day) = previous_refusal F opening day"
  by (cases day) (simp_all add: previous_refusal_def to_lower_capital)

lemma CheckPreviousCashbook_flag:
  "CheckPreviousCashbook ddo date (map (\<lambda>r. r\<lparr>pm_flag := g r\<rparr>) rows)
    = map_option (\<lambda>r. r\<lparr>pm_flag := g r\<rparr>) (CheckPreviousCashbook ddo date rows)"
proof -
  let ?f = "\<lambda>r. r\<lparr>pm_flag := g r\<rparr>"
  have "sort_key (\<lambda>r. time_key (pm_date r)) (filter (\<lambda>r. pm_ddo r = ddo \<and> time_key (pm_date r) < time_key date) (map ?f rows))
      = map ?f (sort_key (\<lambda>r. time_key (pm_date r)) (filter (\<lambda>r. pm_ddo r = ddo \<and> time_key (pm_date r) < time_key date) rows))"
    by (simp add: filter_map comp_def sort_key_map_eq)
  thus ?thesis by (simp add: CheckPreviousCashbook_def Let_def last_map)
qed

lemma writes_keep_flags:
  "PostPfmsverifiedRepo now flag r rs (reflagged g db) = reflagged g (PostPfmsverifiedRepo now flag r rs db)"
  "PostEmptyPfmsverifiedRepo F now flag r (reflagged g db) = reflagged g (PostEmptyPfmsverifiedRepo F now flag r db)"
  by (simp_all add: PostPfmsverifiedRepo_def PostEmptyPfmsverifiedRepo_def reflagged_def update_where_def is_day_def
      verified_row_def day_key_def Let_def)

lemma verify_day_reflagged:
  assumes "\<And>flag r. wr flag r (reflagged g db) = reflagged g (wr flag r db)"
  shows "verify_day F as_bool asked stored wr rs (reflagged g db)
    = map_prod id (reflagged g) (verify_day F as_bool asked stored wr rs db)"
proof -
  have "previous_refusal F bal (CheckPreviousCashbook ddo date (cb_main (reflagged g db)))
      = previous_refusal F bal (CheckPreviousCashbook ddo date (cb_main db))" for bal ddo date
    by (simp add: reflagged_def CheckPreviousCashbook_flag previous_refusal_flag)
  thus ?thesis by (simp add: verify_day_def assms split: list.split option.split)
qed

text \<open>What PFMS answered to the submission of a day does not keep the next day from being verified: whatever status
  the rows of the days have, Pending and Failed included, both handlers give the same answer and make the same
  changes; the check that is meant to refuse such a day compares a lower-case text with capitalised ones.\<close>

theorem failed_submission_never_blocks:
  "CreatePFMSVerificationHandler F V account as_bool asked stored now body (reflagged g db)
      = map_prod id (reflagged g) (CreatePFMSVerificationHandler F V account as_bool asked stored now body db)
    \<and> CreateEmptyPFMSVerificationHandler F V as_bool asked stored now body (reflagged g db)
      = map_prod id (reflagged g) (CreateEmptyPFMSVerificationHandler F V as_bool asked stored now body db)"
  by (simp add: CreatePFMSVerificationHandler_def CreateEmptyPFMSVerificationHandler_def verify_day_reflagged
      writes_keep_flags split: option.split)

subsection \<open>Two concrete days\<close>

definition day_before :: "int pm_row" where
  "day_before = (hd sample_main)\<lparr>pm_date := sample_date\<lparr>tDay := 2\<rparr>, pm_closing := Some 30, pm_verified := True,
     pm_generated := True, pm_flag := ''Failed''\<rparr>"

definition two_days :: "int cb_db" where
  "two_days = sample_books\<lparr>cb_main := day_before # sample_main\<rparr>"

definition sample_verified :: "int PfmsVerified" where
  "sample_verified = \<lparr>vrDdoCode = ''300003'', vrDate = sample_date, vrClosing = 50, vrOpening = 30, vrBy = 7,
     vrStatus = ''true'', vrHoa = ''3201'', vrPayment = 0, vrReceipt = 20, vrCodes = []\<rparr>"

lemma two_days_main:
  "cb_main two_days = [day_before, hd sample_main]" "pm_ddo (hd sample_main) = ''300003''" "pm_date (hd sample_main) = sample_date"
  by (simp_all add: two_days_def sample_main_def)

lemma sample_previous: "CheckPreviousCashbook ''300003'' sample_date (cb_main two_days) = Some day_before"
  unfolding two_days_main
  by (simp add: CheckPreviousCashbook_def day_before_def two_days_main(2,3) time_key_def less_prod_simp sample_date_def)

lemma sample_day_before:
  "pm_verified day_before" "pm_generated day_before" "pm_closing day_before = Some 30"
  by (simp_all add: day_before_def)

lemma sample_refusal: "previous_refusal whole_amounts 30 (Some day_before) = None"
  using to_lower_capital [of "pm_flag day_before"] sample_day_before
  by (simp add: previous_refusal_def whole_simps)

lemma sample_verification_created:
  "\<exists>db'. CreatePFMSVerificationHandler whole_amounts lenient (\<lambda>_. True) (\<lambda>s. Some (s = ''true'')) True Stored sample_day
    (Some [sample_verified]) two_days = (PCreated, db')"
proof -
  have "PfmsVerified_ok lenient (\<lambda>_. True) sample_verified"
    by (simp add: PfmsVerified_ok_def PfmsEmptyVerified_ok_def sample_verified_def lenient_def ValidateDdocode_def
        is_digit_def sample_date_def zero_time_def)
  thus ?thesis
    by (simp add: CreatePFMSVerificationHandler_def verify_day_def sample_verified_def sample_previous sample_refusal)
qed

lemma verification_follows_previous_witness:
  "\<exists>db'. list_all2 (day_verified sample_verified True) (cb_main two_days) (cb_main (db' :: int cb_db))
    \<and> length (cb_details db') = 1"
proof -
  obtain db' where h: "CreatePFMSVerificationHandler whole_amounts lenient (\<lambda>_. True) (\<lambda>s. Some (s = ''true'')) True Stored
      sample_day (Some [sample_verified]) two_days = (PCreated, db')"
    using sample_verification_created by blast
  have "distinct (map day_key (cb_main two_days))"
    unfolding two_days_main by (simp add: day_key_def two_days_main(2,3) day_before_def) (simp add: sample_date_def)
  from verification_follows_previous [OF this, where as_bool = "\<lambda>s. Some (s = ''true'')", OF disjI1, OF conjI, OF h refl]
  show ?thesis
    by (intro exI [of _ db']) (simp add: sample_verified_def two_days_def sample_books_def)
qed

end
