(* ===== verification/PfmsStatus.thy ===== *)
theory PfmsStatus
  imports DayGate
begin

text \<open>
  The answers of PFMS to what was submitted, and submitting again (pao-back-end-development/):
  UpdatePfmsSubmissionStatusHandler, UpdatePfmsHandler and FetchPfmsReSubmissionHandler of
  handler/paogen.go, with UpdatePfmsSubmissionStatusRepo, GetPendingPfmsUniqueIdsRepo and
  GetCbRequestData of repo/postgres/paogen.go.

  Decoding the text of an answer is the parameter \<open>parse\<close>: an error or the statuses it lists.
\<close>

subsection \<open>Reading an answer\<close>

text \<open>RequestStatus, with the messages of its errors.\<close>
record RequestStatus =
  rsStatus :: string
  rsTENumber :: string
  rsErrors :: "string list"

type_synonym status_parser = "string \<Rightarrow> (string, RequestStatus list) sum"

text \<open>strings.ToUpper of the first byte: half of a longer character is replaced.\<close>
fun capital :: "string \<Rightarrow> string" where
  "capital [] = []"
| "capital (c # s) = (if code c < 128 then [upper_char c] else map char_of [0xEF, 0xBF, 0xBD :: nat]) @ s"

text \<open>The messages as sentences.\<close>
definition error_text :: "string list \<Rightarrow> string" where
  "error_text errs = (case filter given (map trim_space errs) of
      [] \<Rightarrow> []
    | m # ms \<Rightarrow> str_join ''. '' (capital m # ms) @ ''.'')"

text \<open>The status an answer gives to the one identifier that was asked for: the first it lists.  missing is what the
  handler does when the answer has no success flag.\<close>
definition read_status :: "pfms_reply \<Rightarrow> status_parser \<Rightarrow> (string \<Rightarrow> jval option) \<Rightarrow> (pfms_reply, RequestStatus) sum" where
  "read_status missing parse r3 =
    (case str_field r3 ''isSuccess'' of
       None \<Rightarrow> Inl missing
     | Some okay \<Rightarrow>
         if okay = ''0'' then Inl (PError 400 (printed (r3 ''errorMessage'')))
         else (case str_field r3 ''responseData'' of
                 None \<Rightarrow> Inl PPanic
               | Some text \<Rightarrow>
                   (case parse text of
                      Inl e \<Rightarrow> Inl (PCallFailed (''failed to parse responseData: '' @ e))
                    | Inr [] \<Rightarrow> Inl (PCallFailed ''no RequestStatus found in responseData'')
                    | Inr (st # _) \<Rightarrow> Inr st)))"

text \<open>Asking for one identifier.\<close>
definition ask_status ::
  "pfms_reply \<Rightarrow> status_parser \<Rightarrow> 'f pfms_api \<Rightarrow> string \<Rightarrow> string \<Rightarrow> (pfms_reply, RequestStatus) sum"
where
  "ask_status missing parse api token uid =
    (case api (StatusCall token uid) of Inl e \<Rightarrow> Inl (PCallFailed e) | Inr r3 \<Rightarrow> read_status missing parse r3)"

subsection \<open>Writing a status\<close>

definition te_number :: "RequestStatus \<Rightarrow> string" where
  "te_number st = (if rsStatus st = ''Success'' then rsTENumber st else [])"

definition day_answered :: "RequestStatus \<Rightarrow> 'f pm_row \<Rightarrow> 'f pm_row" where
  "day_answered st r = r\<lparr>pm_flag := rsStatus st, pm_error := error_text (rsErrors st), pm_te_number := te_number st\<rparr>"

definition entry_answered :: "RequestStatus \<Rightarrow> entry_status \<Rightarrow> entry_status" where
  "entry_answered st r = r\<lparr>es_flag := rsStatus st, es_error := error_text (rsErrors st), es_te_number := te_number st\<rparr>"

definition submission_answered :: "RequestStatus \<Rightarrow> 'f cb_submission \<Rightarrow> 'f cb_submission" where
  "submission_answered st s = s\<lparr>cs_status := rsStatus st, cs_error := error_text (rsErrors st), cs_te_number := te_number st\<rparr>"

text \<open>UpdatePfmsSubmissionStatusRepo: three statements of their own, of which the first \<open>finished\<close> succeed.\<close>
definition UpdatePfmsSubmissionStatusRepo :: "nat \<Rightarrow> string \<Rightarrow> RequestStatus \<Rightarrow> 'f cb_db \<Rightarrow> bool \<times> 'f cb_db" where
  "UpdatePfmsSubmissionStatusRepo finished uid st db =
    (3 \<le> finished,
     db\<lparr>cb_main := (if 1 \<le> finished then update_where (\<lambda>r. pm_uid r = Some uid) (day_answered st) (cb_main db) else cb_main db),
        cb_entries := (if 2 \<le> finished then update_where (\<lambda>r. es_uid r = Some uid) (entry_answered st) (cb_entries db)
          else cb_entries db),
        cb_submissions := (if 3 \<le> finished then update_where (\<lambda>s. cs_id s = uid) (submission_answered st) (cb_submissions db)
          else cb_submissions db)\<rparr>)"

definition UpdatePfmsSubmissionStatusHandler ::
  "validators \<Rightarrow> status_parser \<Rightarrow> 'f pfms_api \<Rightarrow> nat \<Rightarrow> string \<Rightarrow> 'f cb_db \<Rightarrow> pfms_reply \<times> 'f pfms_call list \<times> 'f cb_db"
where
  "UpdatePfmsSubmissionStatusHandler V parse api finished uid db =
    (if \<not> (given uid \<and> v_max V 50 uid) then (PValidation, [], db)
     else (case pfms_login ''errorMessage'' api of
       (calls, Inl Panicked) \<Rightarrow> (PPanic, calls, db)
     | (calls, Inl (StepRefused m)) \<Rightarrow> (PError 400 m, calls, db)
     | (calls, Inl (CallFailed e)) \<Rightarrow> (PCallFailed e, calls, db)
     | (calls, Inl (Submission _ m)) \<Rightarrow> (PPanic, calls, db)
     | (calls, Inr token) \<Rightarrow>
         let made = calls @ [StatusCall token uid]
         in (case ask_status PPanic parse api token uid of
               Inl e \<Rightarrow> (e, made, db)
             | Inr st \<Rightarrow>
                 (case UpdatePfmsSubmissionStatusRepo finished uid st db of
                    (okay, db') \<Rightarrow> (if okay then PUpdated else PDb, made, db')))))"

subsection \<open>Asking for what is pending\<close>

text \<open>The login of UpdatePfmsHandler: a missing flag is an answer, a missing code or token an empty one.\<close>
definition polite_login :: "'f pfms_api \<Rightarrow> 'f pfms_call list \<times> (pfms_reply, string) sum" where
  "polite_login api =
    (case api AuthCall of
       Inl e \<Rightarrow> ([AuthCall], Inl (PCallFailed e))
     | Inr r1 \<Rightarrow>
     (case str_field r1 ''IsSuccess'' of
       None \<Rightarrow> ([AuthCall], Inl (PError 502 ''PFMS GetAuthCode unreachable''))
     | Some ok1 \<Rightarrow> if ok1 = ''0'' then ([AuthCall], Inl (PError 400 (printed (r1 ''errorMessage'')))) else
       (let authcode = (case str_field r1 ''AuthCode'' of None \<Rightarrow> [] | Some s \<Rightarrow> s); made = [AuthCall, LoginCall authcode]
        in (case api (LoginCall authcode) of
              Inl e \<Rightarrow> (made, Inl (PCallFailed e))
            | Inr r2 \<Rightarrow>
            (case str_field r2 ''isSuccess'' of
              None \<Rightarrow> (made, Inl (PError 502 ''PFMS LogIn unreachable''))
            | Some ok2 \<Rightarrow> if ok2 = ''0'' then (made, Inl (PError 400 (printed (r2 ''errorMessage''))))
                else (made, Inr (case str_field r2 ''accessToken'' of None \<Rightarrow> [] | Some s \<Rightarrow> s)))))))"

text \<open>GetPendingPfmsUniqueIdsRepo: the five pending days of the office verified first, a null date last.\<close>
definition GetPendingPfmsUniqueIdsRepo :: "string \<Rightarrow> 'f pm_row list \<Rightarrow> string list" where
  "GetPendingPfmsUniqueIdsRepo pao rows =
    map (\<lambda>r. case pm_uid r of None \<Rightarrow> [] | Some u \<Rightarrow> u)
      (take 5 (sort_key (\<lambda>r. (pm_verified_at r = None, case pm_verified_at r of None \<Rightarrow> time_key zero_time | Some t \<Rightarrow> time_key t))
        (filter (\<lambda>r. pm_flag r = ''Pending'' \<and> pm_pao r = pao) rows)))"

fun poll ::
  "string \<Rightarrow> status_parser \<Rightarrow> 'f pfms_api \<Rightarrow> (string \<Rightarrow> nat) \<Rightarrow> string list \<Rightarrow> 'f cb_db
    \<Rightarrow> pfms_reply \<times> 'f pfms_call list \<times> 'f cb_db"
where
  "poll token parse api finished [] db = (PUpdated, [], db)"
| "poll token parse api finished (uid # uids) db =
    (case ask_status (PError 502 ''PFMS GetTransferEntryRequestStatus unreachable'') parse api token uid of
       Inl e \<Rightarrow> (e, [StatusCall token uid], db)
     | Inr st \<Rightarrow>
         (case UpdatePfmsSubmissionStatusRepo (finished uid) uid st db of
            (False, db') \<Rightarrow> (PDb, [StatusCall token uid], db')
          | (True, db') \<Rightarrow>
              (case poll token parse api finished uids db' of
                 (answer, made, db'') \<Rightarrow> (answer, StatusCall token uid # made, db''))))"

text \<open>UpdatePfmsHandler; asked says whether the query for what is pending is answered.\<close>
definition UpdatePfmsHandler ::
  "status_parser \<Rightarrow> 'f pfms_api \<Rightarrow> bool \<Rightarrow> (string \<Rightarrow> nat) \<Rightarrow> string option \<Rightarrow> 'f cb_db
    \<Rightarrow> pfms_reply \<times> 'f pfms_call list \<times> 'f cb_db"
where
  "UpdatePfmsHandler parse api asked finished body db =
    (case body of None \<Rightarrow> (PError 400 ''pao_code is required'', [], db)
     | Some pao \<Rightarrow>
         if pao = [] then (PError 400 ''pao_code is required'', [], db)
         else if \<not> asked then (PCallFailed [], [], db)
         else (case polite_login api of
                 (calls, Inl e) \<Rightarrow> (e, calls, db)
               | (calls, Inr token) \<Rightarrow>
                   (case poll token parse api finished (GetPendingPfmsUniqueIdsRepo pao (cb_main db)) db of
                      (answer, made, db') \<Rightarrow> (answer, calls @ made, db'))))"

subsection \<open>Submitting again\<close>

text \<open>The loop over the totals once more, without the limit on the difference.\<close>
fun adjust_freely ::
  "'f float64 \<Rightarrow> (string \<Rightarrow> 'f option) \<Rightarrow> 'f ddo_totals \<Rightarrow> string list \<Rightarrow> 'f AccountingDetail list \<Rightarrow> 'f AccountingDetail list"
where
  "adjust_freely F closing tot [] ds = ds"
| "adjust_freely F closing tot (ddo # ddos) ds =
    (case closing ddo of
       None \<Rightarrow> adjust_freely F closing tot ddos ds
     | Some c \<Rightarrow>
         (let e = equation_result F (the (tot ddo)) c
          in if fless F e (fzero F) then
               adjust_freely F closing tot ddos (ds @ [cash_line ddo ''6'' ''Cash received'' ''T'' (fneg F e)])
             else if fless F (fzero F) e then
               adjust_freely F closing tot ddos (ds @ [cash_line ddo ''7'' ''Cash sent'' ''F'' e])
             else adjust_freely F closing tot ddos ds))"

text \<open>GetCbRequestData: a submission that is not there is an error of the query, since the error for no rows is compared
  with that of another package.\<close>
definition GetCbRequestData :: "string \<Rightarrow> 'f cb_submission list \<Rightarrow> cb_data list option" where
  "GetCbRequestData uid submissions = map_option cs_request (find (\<lambda>s. cs_id s = uid \<and> cs_type s = ''cb'') submissions)"

definition FetchPfmsReSubmissionHandler ::
  "'f float64 \<Rightarrow> validators \<Rightarrow> nat
    \<Rightarrow> (cb_data list \<Rightarrow> (string \<times> int option) list option) \<Rightarrow> (cb_data list \<Rightarrow> 'f AccountingDetail list option)
    \<Rightarrow> ('f ddo_totals \<Rightarrow> string list) \<Rightarrow> 'f pfms_api \<Rightarrow> bool \<Rightarrow> bool \<Rightarrow> string \<Rightarrow> 'f cb_db
    \<Rightarrow> pfms_reply \<times> 'f pfms_call list \<times> 'f cb_db"
where
  "FetchPfmsReSubmissionHandler F V drawn balances details order api marked stored uid db =
    (if \<not> (given uid \<and> v_max V 50 uid) then (PValidation, [], db)
     else (case GetCbRequestData uid (cb_submissions db) of
       None \<Rightarrow> (PDb, [], db)
     | Some requests \<Rightarrow>
         (case (balances requests, details requests) of
            (None, _) \<Rightarrow> (PDb, [], db)
          | (_, None) \<Rightarrow> (PDb, [], db)
          | (_, Some []) \<Rightarrow> (PDb, [], db)
          | (Some cbs, Some (a # as)) \<Rightarrow>
              let lines = ProcessAmountAndSign F (a # as); tot = CalculateTotalsByDDO F lines
              in submit_cash_book F drawn api marked stored requests (last_text cdPaoCode requests)
                   (last_text cdCbDate requests) (last_text cdFinYear requests)
                   (adjust_freely F (closing_map F cbs) tot (order tot) lines) db)))"

subsection \<open>A status reaches every table\<close>

text \<open>A row that was answered, or one of another submission.\<close>
definition answered_or_other :: "('r \<Rightarrow> bool) \<Rightarrow> ('r \<Rightarrow> 'r) \<Rightarrow> 'r list \<Rightarrow> 'r list \<Rightarrow> bool" where
  "answered_or_other own answered rows rows' =
    list_all2 (\<lambda>r r'. if own r then r' = answered r else r' = r) rows rows'"

lemma answered_or_other_update: "answered_or_other own answered rows (update_where own answered rows)"
  by (simp add: answered_or_other_def update_where_def list_all2_map2 list.rel_refl)

lemma ask_status_refused: "missing \<noteq> PUpdated \<Longrightarrow> ask_status missing parse api token uid \<noteq> Inl PUpdated"
  by (auto simp: ask_status_def read_status_def split: option.splits sum.splits list.splits)

lemma status_handler_updated:
  assumes "UpdatePfmsSubmissionStatusHandler V parse api finished uid db = (answer, calls, db')"
  shows "db' = db \<and> answer \<noteq> PUpdated
    \<or> (\<exists>st. UpdatePfmsSubmissionStatusRepo finished uid st db = (answer = PUpdated, db') \<and> (answer = PUpdated \<or> answer = PDb))"
  using assms ask_status_refused [of PPanic parse api _ uid]
  by (fastforce simp: UpdatePfmsSubmissionStatusHandler_def UpdatePfmsSubmissionStatusRepo_def Let_def
      split: if_splits prod.splits sum.splits pfms_end.splits)

text \<open>The status of a submission reaches all tables or the submission keeps the one it has: when the handler answers that
  it updated, every day, transfer entry and submission of the identifier has the status, the message and the number of
  the one answer, and every other row is as it was; otherwise the submissions are untouched, though days and entries
  may have been answered before a statement failed, since the three statements are not one transaction.\<close>

theorem status_reaches_every_table:
  assumes "UpdatePfmsSubmissionStatusHandler V parse api finished uid db = (answer, calls, db')"
  shows "if answer = PUpdated then
      \<exists>st. answered_or_other (\<lambda>r. pm_uid r = Some uid) (day_answered st) (cb_main db) (cb_main db')
        \<and> answered_or_other (\<lambda>r. es_uid r = Some uid) (entry_answered st) (cb_entries db) (cb_entries db')
        \<and> answered_or_other (\<lambda>s. cs_id s = uid) (submission_answered st) (cb_submissions db) (cb_submissions db')
    else cb_submissions db' = cb_submissions db
      \<and> (db' = db \<or> (\<exists>st. answered_or_other (\<lambda>r. pm_uid r = Some uid) (day_answered st) (cb_main db) (cb_main db'))
        \<or> cb_main db' = cb_main db \<and> cb_entries db' = cb_entries db)"
proof (cases "db' = db \<and> answer \<noteq> PUpdated")
  case False
  with status_handler_updated [OF assms] obtain st
    where st: "UpdatePfmsSubmissionStatusRepo finished uid st db = (answer = PUpdated, db')" by blast
  have "answer = PUpdated \<longleftrightarrow> 3 \<le> finished" using st by (simp add: UpdatePfmsSubmissionStatusRepo_def)
  moreover have db': "db' = snd (UpdatePfmsSubmissionStatusRepo finished uid st db)" using st by simp
  moreover have "answered_or_other (\<lambda>r. pm_uid r = Some uid) (day_answered st) (cb_main db) (cb_main db')
      \<or> cb_main db' = cb_main db \<and> cb_entries db' = cb_entries db"
    unfolding db' by (cases "1 \<le> finished") (simp_all add: UpdatePfmsSubmissionStatusRepo_def answered_or_other_update)
  ultimately show ?thesis
    by (cases "3 \<le> finished")
      (auto simp: UpdatePfmsSubmissionStatusRepo_def intro!: exI [of _ st] answered_or_other_update)
qed auto

subsection \<open>Polling stops at the first failure\<close>

text \<open>The row after the identifiers \<open>good\<close> were answered, each as \<open>ask\<close> says.\<close>
definition polled_row :: "(string \<Rightarrow> (pfms_reply, RequestStatus) sum) \<Rightarrow> string set \<Rightarrow> 'f pm_row \<Rightarrow> 'f pm_row" where
  "polled_row ask good r = (case pm_uid r of None \<Rightarrow> r | Some u \<Rightarrow> if u \<in> good then day_answered (projr (ask u)) r else r)"

lemma day_answered_simps [simp]:
  "pm_uid (day_answered st r) = pm_uid r" "day_answered st (day_answered st' r) = day_answered st r"
  by (simp_all add: day_answered_def)

lemma polled_row_none [simp]: "map (polled_row ask {}) rows = rows"
  by (rule map_idI) (simp add: polled_row_def split: option.split)

lemma polled_row_insert:
  "ask u = Inr st \<Longrightarrow> polled_row ask good (if pm_uid r = Some u then day_answered st r else r) = polled_row ask (insert u good) r"
  by (auto simp: polled_row_def split: option.split)

lemma poll_effect:
  fixes parse :: status_parser and api :: "'f pfms_api" and token :: string
  defines "ask \<equiv> ask_status (PError 502 ''PFMS GetTransferEntryRequestStatus unreachable'') parse api token"
  assumes "\<And>u. u \<in> set uids \<Longrightarrow> 3 \<le> finished u"
  shows "case poll token parse api finished uids db of
    (answer, made, db') \<Rightarrow>
      (answer = PUpdated) = (takeWhile (\<lambda>u. \<not> isl (ask u)) uids = uids)
      \<and> cb_main db' = map (polled_row ask (set (takeWhile (\<lambda>u. \<not> isl (ask u)) uids))) (cb_main db)"
  using assms(2)
proof (induction uids arbitrary: db)
  case Nil
  show ?case by simp
next
  case (Cons u uids)
  show ?case
  proof (cases "ask u")
    case (Inl e)
    have "e \<noteq> PUpdated"
      using Inl ask_status_refused [of "PError 502 ''PFMS GetTransferEntryRequestStatus unreachable''" parse api token u]
      by (auto simp: ask_def)
    with Inl show ?thesis by (simp add: ask_def)
  next
    case (Inr st)
    obtain db1 where db1: "UpdatePfmsSubmissionStatusRepo (finished u) u st db = (True, db1)"
        "cb_main db1 = update_where (\<lambda>r. pm_uid r = Some u) (day_answered st) (cb_main db)"
      using Cons.prems [of u] by (simp add: UpdatePfmsSubmissionStatusRepo_def)
    let ?good = "set (takeWhile (\<lambda>u. \<not> isl (ask u)) uids)"
    have "map (polled_row ask ?good) (cb_main db1) = map (polled_row ask (insert u ?good)) (cb_main db)"
      by (simp add: db1(2) update_where_def comp_def polled_row_insert [of ask, OF Inr])
    with Cons.IH [of db1] Cons.prems Inr db1(1) show ?thesis
      by (auto simp: ask_def split: prod.splits)
  qed
qed

text \<open>C31: polling takes the pending submissions in order and stops at the first one PFMS gives no status for: the rows of those
  before it are answered, no other row changes, and the answer is an update only when all were answered; so as long as
  the oldest is not answered, none of the others ever is, however often the handler is called.\<close>

theorem polling_stops_at_first_failure:
  fixes parse :: status_parser and api :: "'f pfms_api" and token :: string and db :: "'f cb_db"
  defines "ask \<equiv> ask_status (PError 502 ''PFMS GetTransferEntryRequestStatus unreachable'') parse api token"
  assumes "polite_login api = (calls, Inr token)" and "given pao" and "\<And>u. 3 \<le> finished u"
    and "uids = GetPendingPfmsUniqueIdsRepo pao (cb_main db)"
  shows "(case UpdatePfmsHandler parse api True finished (Some pao) db of
      (answer, made, db') \<Rightarrow> (answer = PUpdated) = list_all (\<lambda>u. \<not> isl (ask u)) uids
        \<and> cb_main db' = map (polled_row ask (set (takeWhile (\<lambda>u. \<not> isl (ask u)) uids))) (cb_main db))
    \<and> (uids \<noteq> [] \<and> isl (ask (hd uids)) \<longrightarrow>
        ((\<lambda>d. snd (snd (UpdatePfmsHandler parse api True finished (Some pao) d))) ^^ n) db = db)"
proof (intro conjI impI)
  have "list_all (\<lambda>u. \<not> isl (ask u)) uids = (takeWhile (\<lambda>u. \<not> isl (ask u)) uids = uids)"
    by (simp add: takeWhile_eq_all_conv list_all_iff)
  with poll_effect [where uids = uids and finished = finished and token = token and parse = parse and api = api and db = db] assms(2-5)
  show "case UpdatePfmsHandler parse api True finished (Some pao) db of
      (answer, made, db') \<Rightarrow> (answer = PUpdated) = list_all (\<lambda>u. \<not> isl (ask u)) uids
        \<and> cb_main db' = map (polled_row ask (set (takeWhile (\<lambda>u. \<not> isl (ask u)) uids))) (cb_main db)"
    by (auto simp: UpdatePfmsHandler_def ask_def split: prod.splits)
next
  assume *: "uids \<noteq> [] \<and> isl (ask (hd uids))"
  then obtain u us e where u: "uids = u # us" "ask u = Inl e"
    by (cases uids; cases "ask (hd uids)") auto
  hence stuck: "snd (snd (UpdatePfmsHandler parse api True finished (Some pao) db)) = db"
    using assms(2-5) by (simp add: UpdatePfmsHandler_def ask_def)
  show "((\<lambda>d. snd (snd (UpdatePfmsHandler parse api True finished (Some pao) d))) ^^ n) db = db"
    by (induction n) (simp_all add: stuck)
qed

subsection \<open>Submitting again is submitting without the limit\<close>

definition exceeds :: "'f float64 \<Rightarrow> (string \<Rightarrow> 'f option) \<Rightarrow> 'f ddo_totals \<Rightarrow> string \<Rightarrow> bool" where
  "exceeds F closing tot ddo = (case closing ddo of None \<Rightarrow> False
    | Some c \<Rightarrow> f_ge F (equation_result F (the (tot ddo)) c) (fint F 100))"

lemma adjust_adjust_freely:
  "adjust F closing tot order ds =
    (if list_ex (exceeds F closing tot) order then None else Some (adjust_freely F closing tot order ds))"
  by (induction order arbitrary: ds) (auto simp: exceeds_def Let_def split: option.split)

lemma claim_all_requests:
  "claim_all ok now cbds rows = (Inr requests, rows') \<Longrightarrow>
    map cdPaoCode requests = map cdPaoCode cbds \<and> map cdCbDate requests = map cdCbDate cbds"
  by (induction cbds arbitrary: rows requests rows')
    (auto split: option.splits prod.splits bool.splits sum.splits if_splits)

lemma last_text_map: "last_text f xs = (if map f xs = [] then [] else last (map f xs))"
  by (simp add: last_text_def last_map)

definition over_limit ::
  "'f float64 \<Rightarrow> (cb_data list \<Rightarrow> (string \<times> int option) list option) \<Rightarrow> (cb_data list \<Rightarrow> 'f AccountingDetail list option)
    \<Rightarrow> ('f ddo_totals \<Rightarrow> string list) \<Rightarrow> cb_data list \<Rightarrow> bool"
where
  "over_limit F balances details order requests =
    (case (balances requests, details requests) of
       (Some cbs, Some (a # as)) \<Rightarrow>
         let tot = CalculateTotalsByDDO F (ProcessAmountAndSign F (a # as))
         in list_ex (exceeds F (closing_map F cbs) tot) (order tot)
     | _ \<Rightarrow> False)"

text \<open>Submitting again does what the first submission does without its two guards: for the cash books of a stored
  submission, whatever its status is, a first submission that gets its claims answers, calls and writes exactly as
  the resubmission, except that it is refused when the difference of some office reaches 100; the
  resubmission takes no claim and sends those books too, with a line that makes up the difference.\<close>

theorem resubmission_skips_the_limit:
  assumes "list_all (CbData_ok V year) cbds" and "claim_all ok now cbds (cb_main db) = (Inr requests, rows)"
    and "GetCbRequestData uid (cb_submissions db) = Some requests" and "given uid" and "v_max V 50 uid"
  shows "FetchPfmsHandler F V year drawn now ok balances details order api marked stored (Some cbds) db =
    (if over_limit F balances details order requests then (PDb, [], db\<lparr>cb_main := rows\<rparr>)
     else FetchPfmsReSubmissionHandler F V drawn balances details order api marked stored uid (db\<lparr>cb_main := rows\<rparr>))"
proof -
  have "last_text cdPaoCode requests = last_text cdPaoCode cbds" "last_text cdCbDate requests = last_text cdCbDate cbds"
    using claim_all_requests [OF assms(2)] by (simp_all only: last_text_map)
  with assms show ?thesis
    by (simp add: FetchPfmsHandler_def FetchPfmsReSubmissionHandler_def over_limit_def adjust_adjust_freely Let_def
        split: option.split list.split)
qed

subsection \<open>Concrete answers\<close>

definition sample_answer :: RequestStatus where
  "sample_answer = \<lparr>rsStatus = ''Failed'', rsTENumber = [], rsErrors = [''wrong head'']\<rparr>"

lemma sample_status_handled:
  "\<exists>calls db'. UpdatePfmsSubmissionStatusHandler lenient (\<lambda>_. Inr [sample_answer]) accepting 3 ''CB-7'' sample_books
    = (PUpdated, calls, db')"
  by (simp add: UpdatePfmsSubmissionStatusHandler_def UpdatePfmsSubmissionStatusRepo_def ask_status_def read_status_def
      pfms_login_def accepting_def str_field_def lenient_def)

lemma status_reaches_every_table_witness:
  "\<exists>st. \<exists>db' :: int cb_db. answered_or_other (\<lambda>s. cs_id s = ''CB-7'') (submission_answered st) (cb_submissions sample_books)
    (cb_submissions db')"
proof -
  obtain calls db' where "UpdatePfmsSubmissionStatusHandler lenient (\<lambda>_. Inr [sample_answer]) accepting 3 ''CB-7'' sample_books
      = (PUpdated, calls, db')"
    using sample_status_handled by blast
  from status_reaches_every_table [OF this] show ?thesis by auto
qed

definition pending_books :: "int cb_db" where
  "pending_books = sample_books\<lparr>cb_main := map (\<lambda>r. r\<lparr>pm_uid := Some ''CB-7'', pm_flag := ''Pending''\<rparr>) sample_main\<rparr>"

lemma pending_sample: "GetPendingPfmsUniqueIdsRepo ''100001'' (cb_main pending_books) = [''CB-7'']"
  by (simp add: GetPendingPfmsUniqueIdsRepo_def pending_books_def sample_main_def)

lemma polling_stops_at_first_failure_witness:
  "((\<lambda>d. snd (snd (UpdatePfmsHandler (\<lambda>_. Inl ''bad text'') accepting True (\<lambda>_. 3) (Some ''100001'') d))) ^^ 9) pending_books
    = pending_books"
proof -
  have "polite_login (accepting :: int pfms_api) = ([AuthCall, LoginCall ''1''], Inr ''1'')"
    by (simp add: polite_login_def accepting_def str_field_def Let_def)
  from polling_stops_at_first_failure [OF this, where pao = "''100001''" and finished = "\<lambda>_. 3" and db = pending_books
      and uids = "[''CB-7'']" and parse = "\<lambda>_. Inl ''bad text''" and n = 9]
  show ?thesis
    by (simp add: pending_sample ask_status_def read_status_def accepting_def str_field_def)
qed

definition sample_cb_data :: cb_data where
  "sample_cb_data = \<lparr>cdDdoCode = ''300003'', cdCbDate = ''2026-02-03'', cdPaoCode = ''100001'', cdFinYear = ''2026''\<rparr>"

lemma sample_cb_date: "parse_date ''2026-02-03'' = Some sample_date"
  by code_simp

lemma sample_fin_year: "fmt_d (ending_year sample_date) = ''2026''"
  by code_simp

lemma sample_claim:
  "claim_all (\<lambda>_. True) 100 [sample_cb_data] (cb_main sample_books)
    = (Inr [sample_cb_data], snd (TryStartSubmission 100 ''300003'' sample_date sample_main))"
  by (simp add: sample_cb_data_def sample_cb_date sample_fin_year sample_books_def TryStartSubmission_def sample_main_def claimable_def)

text \<open>Lines that exceed the balance by 240: the submission is refused.\<close>
lemma resubmission_skips_the_limit_witness:
  "fst (FetchPfmsHandler whole_amounts lenient (\<lambda>_. True) 5 100 (\<lambda>_. True) (\<lambda>_. Some [(''300003'', Some 30)])
      (\<lambda>_. Some [sample_line ''T'' 300]) (\<lambda>_. [''300003'']) accepting True True (Some [sample_cb_data]) sample_books) = PDb"
proof -
  have lines: "ProcessAmountAndSign whole_amounts [sample_line ''T'' 300] = [sample_line ''T'' 300]"
    by (simp add: ProcessAmountAndSign_def processed_detail_def sample_line_def whole_simps)
  have tot: "CalculateTotalsByDDO whole_amounts [sample_line ''T'' 300] = [''300003'' \<mapsto> (300, 0)]"
    by (simp add: CalculateTotalsByDDO_def total_step_def sample_line_def sample_columns_def whole_simps)
  have "over_limit whole_amounts (\<lambda>_. Some [(''300003'', Some 30)]) (\<lambda>_. Some [sample_line ''T'' 300]) (\<lambda>_. [''300003'']) [sample_cb_data]"
    by (simp add: over_limit_def lines tot exceeds_def closing_map_def whole_equation whole_simps)
  moreover have "list_all (CbData_ok lenient (\<lambda>_. True)) [sample_cb_data]"
    by (simp add: CbData_ok_def sample_cb_data_def lenient_def ValidateDdocode_def ValidatePaocode_def is_digit_def)
  moreover have "GetCbRequestData ''CB-7'' (cb_submissions sample_books) = Some [sample_cb_data]"
    by (simp add: GetCbRequestData_def sample_books_def sample_cb_data_def)
  ultimately show ?thesis
    using resubmission_skips_the_limit [OF _ sample_claim, where V = lenient and year = "\<lambda>_. True" and uid = "''CB-7''"
        and F = whole_amounts and balances = "\<lambda>_. Some [(''300003'', Some 30)]" and details = "\<lambda>_. Some [sample_line ''T'' 300]"
        and order = "\<lambda>_. [''300003'']"]
    by (simp add: lenient_def)
qed

end
