(* ===== verification/Objection.thy ===== *)
theory Objection
  imports TransferEntry
begin

text \<open>
  Objections (pao-back-end-development/): the tables pao.objection, raised by an accounts
  office against a drawing office, and pao.objection_prao, raised by the principal office
  against an accounts office; the handlers of handler/objection.go that create an objection,
  comment on it and close it, with their repository calls in repo/postgres/objection.go.
  The two tables have the same columns but for the names of the two offices, and are rows of one
  record here; the handlers differ and are modelled one by one.  The listings are queries and not modelled.

  A statement that returns the updated rows goes through a library that decides, from
  how many there are, whether the call succeeded; that decision is an argument.
\<close>

subsection \<open>Rows\<close>

record remark =
  rk_data :: string
  rk_by :: "64 word"
  rk_date :: gtime
  rk_office :: "64 word"
  rk_file :: string
  rk_sender :: string

record objection_row =
  ob_owner :: string
  ob_office :: string
  ob_description :: string
  ob_id :: string
  ob_created_by :: "64 word"
  ob_created_date :: gtime
  ob_remarks :: "remark list"
  ob_status :: string
  ob_updated_by :: "64 word option"
  ob_updated_date :: "gtime option"

definition statuses :: "string list" where
  "statuses = [''created'', ''paoupdated'', ''rejected'', ''ddoupdated'', ''closed'']"

text \<open>
  generateObjectionID: the number drawn is below 9999, is raised by 1000, and only the first four of its
  digits are kept.
\<close>
definition generateObjectionID :: "gtime \<Rightarrow> nat \<Rightarrow> string \<Rightarrow> string" where
  "generateObjectionID now drawn ddoCode = ''OBJ'' @ ddoCode @ stamp now @ take 4 (zero_padded 4 (drawn + 1000))"

subsection \<open>Creating\<close>

record ObjectionRequest =
  oqOwner :: string
  oqOffice :: string
  oqDescription :: string
  oqObjectionId :: string
  oqCreatedBy :: "64 word"
  oqCreatedDate :: gtime
  oqRemarks :: "remark list"
  oqStatusFlag :: string

text \<open>The checks the library makes on the optional fields of a remark.\<close>
record remark_checks =
  rc_office_id :: "64 word \<Rightarrow> bool"
  rc_datetime :: "gtime \<Rightarrow> bool"

text \<open>ObjectionRemarkcreate: every field optional.\<close>
definition ObjectionRemarkcreate_ok :: "validators \<Rightarrow> remark_checks \<Rightarrow> remark \<Rightarrow> bool" where
  "ObjectionRemarkcreate_ok V C r =
    ((rk_data r = [] \<or> v_max V 255 (rk_data r))
     \<and> (rk_by r = 0 \<or> v_employee_id V (rk_by r))
     \<and> (rk_office r = 0 \<or> rc_office_id C (rk_office r))
     \<and> (rk_file r = [] \<or> v_max V 255 (rk_file r)) \<and> (rk_sender r = [] \<or> v_max V 255 (rk_sender r)))"

text \<open>ObjectionRemark: text and author required.\<close>
definition ObjectionRemark_ok :: "validators \<Rightarrow> remark_checks \<Rightarrow> remark \<Rightarrow> bool" where
  "ObjectionRemark_ok V C r =
    (given (rk_data r) \<and> v_max V 255 (rk_data r)
     \<and> rk_by r \<noteq> 0 \<and> v_employee_id V (rk_by r)
     \<and> (rk_office r = 0 \<or> rc_office_id C (rk_office r))
     \<and> (rk_file r = [] \<or> v_max V 255 (rk_file r)) \<and> (rk_sender r = [] \<or> v_max V 255 (rk_sender r)))"

definition ObjectionRequest_ok :: "validators \<Rightarrow> remark_checks \<Rightarrow> ObjectionRequest \<Rightarrow> bool" where
  "ObjectionRequest_ok V C r =
    (given (oqOwner r) \<and> ValidatePaocode (oqOwner r)
     \<and> given (oqOffice r) \<and> ValidateDdocode (oqOffice r)
     \<and> given (oqDescription r) \<and> v_max V 255 (oqDescription r)
     \<and> oqCreatedBy r \<noteq> 0 \<and> v_employee_id V (oqCreatedBy r)
     \<and> (oqCreatedDate r = zero_time \<or> rc_datetime C (oqCreatedDate r))
     \<and> list_all (ObjectionRemarkcreate_ok V C) (oqRemarks r)
     \<and> oqStatusFlag r \<in> set statuses)"

definition ObjectionPraoRequest_ok :: "validators \<Rightarrow> remark_checks \<Rightarrow> ObjectionRequest \<Rightarrow> bool" where
  "ObjectionPraoRequest_ok V C r =
    (given (oqOwner r) \<and> v_max V 10 (oqOwner r)
     \<and> given (oqOffice r) \<and> ValidatePaocode (oqOffice r)
     \<and> given (oqDescription r) \<and> v_max V 255 (oqDescription r)
     \<and> (oqObjectionId r = [] \<or> v_max V 30 (oqObjectionId r))
     \<and> oqCreatedBy r \<noteq> 0 \<and> v_employee_id V (oqCreatedBy r)
     \<and> oqCreatedDate r \<noteq> zero_time
     \<and> list_all (ObjectionRemarkcreate_ok V C) (oqRemarks r)
     \<and> oqStatusFlag r \<in> set statuses)"

text \<open>The insert of both creations: the identifier and the date of the request are replaced.\<close>
definition objection_created :: "gtime \<Rightarrow> nat \<Rightarrow> ObjectionRequest \<Rightarrow> objection_row" where
  "objection_created now drawn r = \<lparr>
    ob_owner = oqOwner r, ob_office = oqOffice r, ob_description = oqDescription r,
    ob_id = generateObjectionID now drawn (oqOffice r), ob_created_by = oqCreatedBy r,
    ob_created_date = midnight now, ob_remarks = oqRemarks r, ob_status = oqStatusFlag r,
    ob_updated_by = None, ob_updated_date = None\<rparr>"

definition CreateObjectionHandler ::
  "validators \<Rightarrow> remark_checks \<Rightarrow> gtime \<Rightarrow> nat \<Rightarrow> bool \<Rightarrow> ObjectionRequest option \<Rightarrow> objection_row list
    \<Rightarrow> reply \<times> objection_row list"
where
  "CreateObjectionHandler V C now drawn stored body db =
    (case body of None \<Rightarrow> (BindingError, db)
     | Some r \<Rightarrow>
         if \<not> ObjectionRequest_ok V C r then (ValidationError, db)
         else if stored then (Created [ob_id (objection_created now drawn r)], db @ [objection_created now drawn r])
         else (DbError, db))"

definition CreateObjectionPraoHandler ::
  "validators \<Rightarrow> remark_checks \<Rightarrow> gtime \<Rightarrow> nat \<Rightarrow> bool \<Rightarrow> ObjectionRequest option \<Rightarrow> objection_row list
    \<Rightarrow> reply \<times> objection_row list"
where
  "CreateObjectionPraoHandler V C now drawn stored body db =
    (case body of None \<Rightarrow> (BindingError, db)
     | Some r \<Rightarrow>
         if \<not> ObjectionPraoRequest_ok V C r then (ValidationError, db)
         else if stored then (Created [ob_id (objection_created now drawn r)], db @ [objection_created now drawn r])
         else (DbError, db))"

subsection \<open>Commenting and closing\<close>

text \<open>
  The body of a comment and of a closure; the identifier is optional, since the one of the path is
  there before the body is read and the body's replaces it.
\<close>
record comment_body =
  cbObjectionId :: "string option"
  cbRemark :: remark
  cbBy :: "64 word"
  cbDate :: gtime
  cbStatusFlag :: string

definition comment_id :: "string \<Rightarrow> comment_body \<Rightarrow> string" where
  "comment_id uri b = (case cbObjectionId b of None \<Rightarrow> uri | Some s \<Rightarrow> s)"

definition Objectioncomment_ok ::
  "validators \<Rightarrow> remark_checks \<Rightarrow> string list \<Rightarrow> string \<Rightarrow> comment_body \<Rightarrow> bool"
where
  "Objectioncomment_ok V C allowed i b =
    (given i \<and> v_max V 30 i \<and> ObjectionRemark_ok V C (cbRemark b)
     \<and> cbBy b \<noteq> 0 \<and> v_employee_id V (cbBy b) \<and> cbStatusFlag b \<in> set allowed)"

definition ObjectionClosure_ok :: "validators \<Rightarrow> remark_checks \<Rightarrow> string \<Rightarrow> comment_body \<Rightarrow> bool" where
  "ObjectionClosure_ok V C i b =
    (Objectioncomment_ok V C statuses i b \<and> (cbDate b = zero_time \<or> rc_datetime C (cbDate b)))"

text \<open>The one update of all four repository calls: an open row gets the remark, the author, the time and the status.\<close>
definition open_row :: "objection_row \<Rightarrow> bool" where
  "open_row r = (ob_status r \<noteq> ''closed'' \<and> ob_status r \<noteq> ''rejected'')"

definition commented :: "gtime \<Rightarrow> comment_body \<Rightarrow> objection_row \<Rightarrow> objection_row" where
  "commented now b r = r\<lparr>ob_remarks := ob_remarks r @ [(cbRemark b)\<lparr>rk_date := now\<rparr>],
     ob_updated_by := Some (cbBy b), ob_updated_date := Some now, ob_status := cbStatusFlag b\<rparr>"

definition ObjectionUpdateRepo ::
  "(nat \<Rightarrow> bool) \<Rightarrow> gtime \<Rightarrow> string \<Rightarrow> comment_body \<Rightarrow> objection_row list \<Rightarrow> reply \<times> objection_row list"
where
  "ObjectionUpdateRepo returned now i b db =
    (let hit = (\<lambda>r. ob_id r = i \<and> open_row r)
     in (if returned (length (filter hit db)) then Updated else DbError, update_where hit (commented now b) db))"

text \<open>The path parameter is bound first and must not be empty.\<close>
definition UpdateObjectionHandler ::
  "validators \<Rightarrow> remark_checks \<Rightarrow> (nat \<Rightarrow> bool) \<Rightarrow> gtime \<Rightarrow> string \<Rightarrow> comment_body option \<Rightarrow> objection_row list
    \<Rightarrow> reply \<times> objection_row list"
where
  "UpdateObjectionHandler V C returned now uri body db =
    (if uri = [] then (BindingError, db)
     else case body of None \<Rightarrow> (BindingError, db)
     | Some b \<Rightarrow>
         if \<not> Objectioncomment_ok V C statuses (comment_id uri b) b then (ValidationError, db)
         else ObjectionUpdateRepo returned now (comment_id uri b) b db)"

text \<open>The closure validates the path parameter, where the other handlers validate the body.\<close>
definition UpdateObjectionClosureHandler ::
  "validators \<Rightarrow> remark_checks \<Rightarrow> (nat \<Rightarrow> bool) \<Rightarrow> gtime \<Rightarrow> string \<Rightarrow> comment_body option \<Rightarrow> objection_row list
    \<Rightarrow> reply \<times> objection_row list"
where
  "UpdateObjectionClosureHandler V C returned now uri body db =
    (if uri = [] then (BindingError, db)
     else case body of None \<Rightarrow> (BindingError, db)
     | Some b \<Rightarrow>
         if \<not> (given uri \<and> v_max V 30 uri) then (ValidationError, db)
         else ObjectionUpdateRepo returned now (comment_id uri b) b db)"

definition UpdateObjectionPraoHandler ::
  "validators \<Rightarrow> remark_checks \<Rightarrow> (nat \<Rightarrow> bool) \<Rightarrow> gtime \<Rightarrow> string \<Rightarrow> comment_body option \<Rightarrow> objection_row list
    \<Rightarrow> reply \<times> objection_row list"
where
  "UpdateObjectionPraoHandler V C returned now uri body db =
    (if uri = [] then (BindingError, db)
     else case body of None \<Rightarrow> (BindingError, db)
     | Some b \<Rightarrow>
         if \<not> Objectioncomment_ok V C (''praoupdated'' # statuses) (comment_id uri b) b then (ValidationError, db)
         else ObjectionUpdateRepo returned now (comment_id uri b) b db)"

definition UpdateObjectionClosurePraoHandler ::
  "validators \<Rightarrow> remark_checks \<Rightarrow> (nat \<Rightarrow> bool) \<Rightarrow> gtime \<Rightarrow> string \<Rightarrow> comment_body option \<Rightarrow> objection_row list
    \<Rightarrow> reply \<times> objection_row list"
where
  "UpdateObjectionClosurePraoHandler V C returned now uri body db =
    (if uri = [] then (BindingError, db)
     else case body of None \<Rightarrow> (BindingError, db)
     | Some b \<Rightarrow>
         if \<not> ObjectionClosure_ok V C (comment_id uri b) b then (ValidationError, db)
         else ObjectionUpdateRepo returned now (comment_id uri b) b db)"

subsection \<open>Histories of a table\<close>

text \<open>
  Rows that are only appended or changed upwards in an order: what every statement keeps for its rows holds for
  the table along every sequence of statements.
\<close>
locale row_history =
  fixes le :: "'r \<Rightarrow> 'r \<Rightarrow> bool"
  assumes le_refl: "le r r"
    and le_trans: "le r s \<Longrightarrow> le s t \<Longrightarrow> le r t"
begin

definition grows :: "'r list \<Rightarrow> 'r list \<Rightarrow> bool" where
  "grows xs ys = (\<exists>zs more. ys = zs @ more \<and> list_all2 le xs zs)"

lemma grows_refl: "grows xs xs"
  unfolding grows_def by (intro exI [of _ xs] exI [of _ "[]"]) (simp add: list_all2_refl le_refl)

lemma grows_append: "grows xs (xs @ ns)"
  unfolding grows_def by (intro exI [of _ xs] exI [of _ ns]) (simp add: list_all2_refl le_refl)

lemma grows_update: "(\<And>r. p r \<Longrightarrow> le r (f r)) \<Longrightarrow> grows xs (update_where p f xs)"
  unfolding grows_def
  by (intro exI [of _ "update_where p f xs"] exI [of _ "[]"])
     (auto simp: list_all2_conv_all_nth nth_update_where le_refl)

lemma grows_trans:
  assumes "grows xs ys" and "grows ys ws"
  shows "grows xs ws"
proof -
  obtain zs more vs rest where ys: "ys = zs @ more" "list_all2 le xs zs"
    and ws: "ws = vs @ rest" "list_all2 le (zs @ more) vs"
    using assms unfolding grows_def by blast
  then obtain us more' where "vs = us @ more'" "list_all2 le zs us"
    by (auto simp: list_all2_append1)
  moreover have "list_all2 le xs us"
    by (rule list_all2_trans [OF _ ys(2) \<open>list_all2 le zs us\<close>]) (rule le_trans)
  ultimately show ?thesis
    unfolding grows_def ws(1) by (intro exI [of _ us] exI [of _ "more' @ rest"]) simp
qed

lemma grows_keeps:
  assumes "grows xs ys" and "i < length xs"
  shows "i < length ys \<and> le (xs ! i) (ys ! i)"
  using assms unfolding grows_def by (auto simp: list_all2_conv_all_nth nth_append)

end

text \<open>What later states of an objection have in common with it.\<close>
definition objection_le :: "objection_row \<Rightarrow> objection_row \<Rightarrow> bool" where
  "objection_le r r' =
    (ob_owner r' = ob_owner r \<and> ob_office r' = ob_office r \<and> ob_description r' = ob_description r
     \<and> ob_id r' = ob_id r \<and> ob_created_by r' = ob_created_by r \<and> ob_created_date r' = ob_created_date r
     \<and> (\<exists>more. ob_remarks r' = ob_remarks r @ more)
     \<and> (open_row r \<or> r' = r))"

interpretation oh: row_history objection_le
proof
  show "objection_le r r" for r by (simp add: objection_le_def)
  show "objection_le r t" if "objection_le r s" "objection_le s t" for r s t
    using that by (auto simp: objection_le_def)
qed

lemma commented_le: "open_row r \<Longrightarrow> objection_le r (commented now b r)"
  by (simp add: objection_le_def commented_def)

lemma update_repo_grows: "oh.grows db (snd (ObjectionUpdateRepo returned now i b db))"
  by (auto simp: ObjectionUpdateRepo_def Let_def intro!: oh.grows_update commented_le)

subsection \<open>Sequences of calls\<close>

record objections =
  objs :: "objection_row list"
  prao_objs :: "objection_row list"

inductive objection_calls :: "validators \<Rightarrow> remark_checks \<Rightarrow> (nat \<Rightarrow> bool) \<Rightarrow> objections \<Rightarrow> objections \<Rightarrow> bool" for V C returned where
  no_call: "objection_calls V C returned s s"
| create: "objection_calls V C returned s t \<Longrightarrow>
    objection_calls V C returned s (t\<lparr>objs := snd (CreateObjectionHandler V C now drawn stored body (objs t))\<rparr>)"
| comment: "objection_calls V C returned s t \<Longrightarrow>
    objection_calls V C returned s (t\<lparr>objs := snd (UpdateObjectionHandler V C returned now uri cbody (objs t))\<rparr>)"
| closure: "objection_calls V C returned s t \<Longrightarrow>
    objection_calls V C returned s (t\<lparr>objs := snd (UpdateObjectionClosureHandler V C returned now uri cbody (objs t))\<rparr>)"
| create_prao: "objection_calls V C returned s t \<Longrightarrow>
    objection_calls V C returned s (t\<lparr>prao_objs := snd (CreateObjectionPraoHandler V C now drawn stored body (prao_objs t))\<rparr>)"
| comment_prao: "objection_calls V C returned s t \<Longrightarrow>
    objection_calls V C returned s (t\<lparr>prao_objs := snd (UpdateObjectionPraoHandler V C returned now uri cbody (prao_objs t))\<rparr>)"
| closure_prao: "objection_calls V C returned s t \<Longrightarrow>
    objection_calls V C returned s (t\<lparr>prao_objs := snd (UpdateObjectionClosurePraoHandler V C returned now uri cbody (prao_objs t))\<rparr>)"

lemma calls_grow:
  "oh.grows db (snd (CreateObjectionHandler V C now drawn stored body db))"
  "oh.grows db (snd (UpdateObjectionHandler V C returned now uri cbody db))"
  "oh.grows db (snd (UpdateObjectionClosureHandler V C returned now uri cbody db))"
  "oh.grows db (snd (CreateObjectionPraoHandler V C now drawn stored body db))"
  "oh.grows db (snd (UpdateObjectionPraoHandler V C returned now uri cbody db))"
  "oh.grows db (snd (UpdateObjectionClosurePraoHandler V C returned now uri cbody db))"
  by (auto simp: CreateObjectionHandler_def UpdateObjectionHandler_def UpdateObjectionClosureHandler_def
      CreateObjectionPraoHandler_def UpdateObjectionPraoHandler_def UpdateObjectionClosurePraoHandler_def
      intro: oh.grows_refl oh.grows_append update_repo_grows split: option.split)

lemma objection_calls_grow:
  "objection_calls V C returned s t \<Longrightarrow> oh.grows (objs s) (objs t) \<and> oh.grows (prao_objs s) (prao_objs t)"
  by (induction rule: objection_calls.induct) (auto intro: oh.grows_refl oh.grows_trans calls_grow)

text \<open>C26: the record of an objection can only grow: whatever sequence of creations, comments and closures follows, every
  objection stays where it is with its offices, description, identifier and creation, its remarks are extended but never
  rewritten, and once it is closed or rejected it does not change at all.\<close>

theorem objection_record_only_grows:
  assumes "objection_calls V C returned s t" and "i < length (objs s)" and "j < length (prao_objs s)"
  shows "i < length (objs t) \<and> objection_le (objs s ! i) (objs t ! i)
    \<and> (\<not> open_row (objs s ! i) \<longrightarrow> objs t ! i = objs s ! i)
    \<and> j < length (prao_objs t) \<and> objection_le (prao_objs s ! j) (prao_objs t ! j)
    \<and> (\<not> open_row (prao_objs s ! j) \<longrightarrow> prao_objs t ! j = prao_objs s ! j)"
  using oh.grows_keeps [of "objs s" "objs t" i] oh.grows_keeps [of "prao_objs s" "prao_objs t" j]
    objection_calls_grow [OF assms(1)] assms(2,3)
  by (auto simp: objection_le_def)

text \<open>The closure of an objection checks the path and not the body: whatever status, remark and author the body has,
  it is stored in every open objection of the identifier the body names, while the closure for the principal office refuses
  a status that is not one of the five.\<close>

theorem closure_skips_validation:
  assumes "uri \<noteq> []" and "v_max V 30 uri"
  shows "UpdateObjectionClosureHandler V C returned now uri (Some b) db
      = (if returned (length (filter (\<lambda>r. ob_id r = comment_id uri b \<and> open_row r) db)) then Updated else DbError,
         update_where (\<lambda>r. ob_id r = comment_id uri b \<and> open_row r) (commented now b) db)
    \<and> (cbStatusFlag b \<notin> set statuses \<longrightarrow>
        UpdateObjectionClosurePraoHandler V C returned now uri (Some b) db = (ValidationError, db))"
  using assms
  by (auto simp: UpdateObjectionClosureHandler_def UpdateObjectionClosurePraoHandler_def ObjectionUpdateRepo_def
      Let_def ObjectionClosure_ok_def Objectioncomment_ok_def)

subsection \<open>A concrete objection\<close>

definition sample_objection :: objection_row where
  "sample_objection = \<lparr>ob_owner = ''100001'', ob_office = ''300003'', ob_description = ''missing voucher'',
    ob_id = ''OBJ1'', ob_created_by = 7, ob_created_date = midnight sample_day, ob_remarks = [],
    ob_status = ''created'', ob_updated_by = None, ob_updated_date = None\<rparr>"

definition sample_comment :: comment_body where
  "sample_comment = \<lparr>cbObjectionId = None,
    cbRemark = \<lparr>rk_data = [], rk_by = 0, rk_date = zero_time, rk_office = 0, rk_file = [], rk_sender = []\<rparr>,
    cbBy = 0, cbDate = zero_time, cbStatusFlag = ''reopened''\<rparr>"

definition sample_checks :: remark_checks where
  "sample_checks = \<lparr>rc_office_id = \<lambda>_. True, rc_datetime = \<lambda>_. True\<rparr>"

text \<open>A closure with no remark, no author and a status that does not exist is stored.\<close>
lemma closure_skips_validation_witness:
  "map ob_status (snd (UpdateObjectionClosureHandler lenient sample_checks (\<lambda>n. n = 1) sample_day ''OBJ1''
      (Some sample_comment) [sample_objection])) = [''reopened'']"
  using closure_skips_validation [of "''OBJ1''" lenient sample_checks "\<lambda>n. n = 1" sample_day sample_comment
      "[sample_objection]"]
  by (simp add: lenient_def comment_id_def sample_comment_def sample_objection_def open_row_def commented_def update_where_def)

definition sample_tables_before :: objections where
  "sample_tables_before = \<lparr>objs = [sample_objection\<lparr>ob_status := ''closed''\<rparr>], prao_objs = [sample_objection]\<rparr>"

lemma objection_record_only_grows_witness:
  "objs (sample_tables_before\<lparr>objs := snd (UpdateObjectionClosureHandler lenient sample_checks (\<lambda>n. n = 1) sample_day
      ''OBJ1'' (Some sample_comment) (objs sample_tables_before))\<rparr>) ! 0 = sample_objection\<lparr>ob_status := ''closed''\<rparr>"
  using objection_record_only_grows [OF objection_calls.closure [OF objection_calls.no_call],
      of 0 sample_tables_before 0 lenient sample_checks "\<lambda>n. n = 1" sample_day "''OBJ1''" "Some sample_comment"]
  by (simp add: sample_tables_before_def open_row_def)

end
