(* ===== verification/CashRevert.thy ===== *)
theory CashRevert
  imports PfmsStatus Objection
begin

text \<open>
  Reversion of the cash books of an office from a date on (pao-back-end-development/):
  RevertCashbookPostHandler of handler/paogen.go, with GetAllDatesForReversionRepo,
  GetPfmsSubmissionByDateRepo, RevertCashbookRepo, BulkInsertReversionRepo and
  GetReversionPendingRepo of repo/postgres/paogen.go; and what holds along every sequence of calls
  of the handlers that write the tables of the cash books.

  The table of offices is the argument \<open>office_at\<close> (an error, no row, or the office), and the service of
  the sub accounts, which deletes its own books, the argument \<open>subaccounts\<close> (an error or a status).
\<close>

subsection \<open>The days and their submissions\<close>

record CashbookRevertRequest =
  crOffice :: string
  crEmployee :: string
  crDdoCode :: string
  crFromDate :: string
  crRemark :: string

definition since_day :: "gtime \<Rightarrow> gtime \<Rightarrow> bool" where
  "since_day since t = (time_key since \<le> time_key (midnight t))"

text \<open>GetAllDatesForReversionRepo: the days on which books were received or which are in the main table, each once.\<close>
definition GetAllDatesForReversionRepo :: "int \<Rightarrow> string \<Rightarrow> gtime \<Rightarrow> 'f cb_db \<Rightarrow> gtime list" where
  "GetAllDatesForReversionRepo office ddo since db =
    sort_key time_key (remdups
      (map (\<lambda>b. midnight (snd b)) (filter (\<lambda>b. fst b = office \<and> since_day since (snd b)) (cb_books db))
       @ map (\<lambda>r. midnight (pm_date r)) (filter (\<lambda>r. pm_ddo r = ddo \<and> since_day since (pm_date r)) (cb_main db))))"

text \<open>GetPfmsSubmissionByDateRepo: the last submission with that business date whose request names the office.\<close>
definition GetPfmsSubmissionByDateRepo :: "string \<Rightarrow> gtime \<Rightarrow> 'f cb_submission list \<Rightarrow> 'f cb_submission option" where
  "GetPfmsSubmissionByDateRepo ddo date submissions =
    (case filter (\<lambda>s. list_ex (\<lambda>c. cdDdoCode c = ddo) (cs_request s) \<and> cs_date s = date_text date \<and> cs_type s = ''cb'')
        submissions of
       [] \<Rightarrow> None
     | ss \<Rightarrow> Some (last ss))"

text \<open>The row of a day, before the outcome of the deletion is known; the conversions of the two numbers drop their errors.\<close>
definition reversion_row ::
  "CashbookRevertRequest \<Rightarrow> gtime \<Rightarrow> string \<Rightarrow> gtime \<Rightarrow> 'f cb_submission option \<Rightarrow> reversion"
where
  "reversion_row req since deletion date submitted = \<lparr>
    rn_office = year_number (crOffice req), rn_employee = year_number (crEmployee req), rn_ddo = crDdoCode req,
    rn_from = since, rn_remark = crRemark req, rn_business_date = date,
    rn_type = (case submitted of None \<Rightarrow> ''local_only''
      | Some s \<Rightarrow> if cs_status s = ''Success'' \<or> cs_status s = ''Pending'' then ''with_pfms'' else ''local_only''),
    rn_original_uid = (case submitted of None \<Rightarrow> [] | Some s \<Rightarrow> cs_id s),
    rn_original_status = (case submitted of None \<Rightarrow> [] | Some s \<Rightarrow> cs_status s),
    rn_original_te = (case submitted of None \<Rightarrow> [] | Some s \<Rightarrow> cs_te_number s),
    rn_negative = (case submitted of None \<Rightarrow> []
      | Some s \<Rightarrow> if cs_status s = ''Success'' \<or> cs_status s = ''Pending'' then
          (if cs_status s = ''Success'' \<and> given (cs_te_number s) then ''NO'' else ''WAIT'') else []),
    rn_reversal_uid = [], rn_deletion = deletion\<rparr>"

subsection \<open>Deleting\<close>

text \<open>RevertCashbookRepo: four statements of their own (the third only reads), of which the first \<open>finished\<close> succeed.\<close>
definition RevertCashbookRepo :: "nat \<Rightarrow> int \<Rightarrow> string \<Rightarrow> gtime \<Rightarrow> 'f cb_db \<Rightarrow> bool \<times> 'f cb_db" where
  "RevertCashbookRepo finished office ddo since db =
    (let own = (\<lambda>r. pm_ddo r = ddo \<and> since_day since (pm_date r))
     in (4 \<le> finished,
         db\<lparr>cb_books := (if 1 \<le> finished then filter (\<lambda>b. \<not> (fst b = office \<and> since_day since (snd b))) (cb_books db)
              else cb_books db),
            cb_details := (if 2 \<le> finished then
                filter (\<lambda>d. \<not> list_ex (\<lambda>r. own r \<and> pm_key r = pdKey d) (cb_main db)) (cb_details db)
              else cb_details db),
            cb_main := (if 4 \<le> finished then filter (\<lambda>r. \<not> own r) (cb_main db) else cb_main db)\<rparr>))"

definition RevertCashbookPostHandler ::
  "(string \<Rightarrow> int option option) \<Rightarrow> bool \<Rightarrow> (gtime \<Rightarrow> bool) \<Rightarrow> (int \<times> string \<Rightarrow> string option) \<Rightarrow> nat \<Rightarrow> bool
    \<Rightarrow> CashbookRevertRequest option \<Rightarrow> 'f cb_db \<Rightarrow> pfms_reply \<times> (int \<times> string) list \<times> 'f cb_db"
where
  "RevertCashbookPostHandler office_at asked found subaccounts finished inserted body db =
    (case body of None \<Rightarrow> (PBinding, [], db)
     | Some req \<Rightarrow>
         if crOffice req = [] \<or> crEmployee req = [] \<or> crDdoCode req = [] \<or> crFromDate req = [] \<or> crRemark req = [] then
           (PBinding, [], db)
         else (case office_at (crDdoCode req) of
           None \<Rightarrow> (PError 500 ''Failed to get DDO office ID'', [], db)
         | Some None \<Rightarrow> (PError 400 ''DDO code not found'', [], db)
         | Some (Some office) \<Rightarrow>
             (case parse_date (crFromDate req) of
                None \<Rightarrow> (PError 400 ''Invalid date format. Use YYYY-MM-DD'', [], db)
              | Some since \<Rightarrow>
                  if \<not> asked then (PError 500 ''Failed to fetch reversion dates'', [], db)
                  else
                    let dates = GetAllDatesForReversionRepo office (crDdoCode req) since db
                    in if dates = [] then (PError 400 ''No cashbook data found from selected date'', [], db)
                       else (case find (\<lambda>d. \<not> found d) dates of
                         Some d \<Rightarrow> (PError 500 (''Failed to check PFMS submission for date '' @ date_text d), [], db)
                       | None \<Rightarrow>
                           (case subaccounts (office, date_text since) of
                              None \<Rightarrow> (PError 500 ''Failed to call subaccounts API'', [(office, date_text since)], db)
                            | Some status \<Rightarrow>
                                if status \<noteq> ''200'' then
                                  (PError 409 ''Failed to revert cashbook in subaccounts'', [(office, date_text since)], db)
                                else (case RevertCashbookRepo finished office (crDdoCode req) since db of
                                  (deleted, db') \<Rightarrow>
                                    if inserted then
                                      (PUpdated, [(office, date_text since)],
                                       db'\<lparr>cb_reversions := cb_reversions db' @
                                         map (\<lambda>d. reversion_row req since (if deleted then ''SUCCESS'' else ''FAILED'') d
                                           (GetPfmsSubmissionByDateRepo (crDdoCode req) d (cb_submissions db))) dates\<rparr>)
                                    else (PError 500 ''Failed to store reversal records'', [(office, date_text since)], db')))))))"

text \<open>GetReversionPendingRepo: the reversions an accounts office still has to post a negative entry for.\<close>
definition GetReversionPendingRepo :: "(string \<Rightarrow> string option) \<Rightarrow> string \<Rightarrow> reversion list \<Rightarrow> reversion list" where
  "GetReversionPendingRepo pao_of pao rows =
    sort_key rn_ddo (rev (sort_key (\<lambda>r. time_key (rn_business_date r))
      (filter (\<lambda>r. pao_of (rn_ddo r) = Some pao \<and> rn_type r = ''with_pfms'' \<and> rn_negative r = ''NO'') (rev rows))))"

subsection \<open>A reversion accounts for every day\<close>

lemma revert_updated:
  assumes "RevertCashbookPostHandler office_at asked found subaccounts finished inserted (Some req) db = (PUpdated, calls, db')"
  shows "\<exists>office since. office_at (crDdoCode req) = Some (Some office) \<and> parse_date (crFromDate req) = Some since
    \<and> calls = [(office, date_text since)] \<and> subaccounts (office, date_text since) = Some ''200''
    \<and> db' = (snd (RevertCashbookRepo finished office (crDdoCode req) since db))\<lparr>cb_reversions := cb_reversions db @
        map (\<lambda>d. reversion_row req since (if 4 \<le> finished then ''SUCCESS'' else ''FAILED'') d
          (GetPfmsSubmissionByDateRepo (crDdoCode req) d (cb_submissions db)))
        (GetAllDatesForReversionRepo office (crDdoCode req) since db)\<rparr>"
  using assms
  by (simp add: RevertCashbookPostHandler_def RevertCashbookRepo_def Let_def split: if_splits option.splits)

lemma reversion_row_simps [simp]:
  "rn_ddo (reversion_row req since deletion d sub) = crDdoCode req"
  "rn_business_date (reversion_row req since deletion d sub) = d"
  "rn_deletion (reversion_row req since deletion d sub) = deletion"
  by (simp_all add: reversion_row_def)

lemma reversion_row_type:
  "rn_type (reversion_row req since deletion d sub) = ''with_pfms'' \<longleftrightarrow>
    (\<exists>s. sub = Some s \<and> cs_status s \<in> {''Success'', ''Pending''})"
  "rn_negative (reversion_row req since deletion d sub) = ''NO'' \<longleftrightarrow>
    (\<exists>s. sub = Some s \<and> cs_status s = ''Success'' \<and> given (cs_te_number s))"
  by (auto simp: reversion_row_def split: option.split)

lemma dates_spec:
  "set (GetAllDatesForReversionRepo office ddo since db)
     = {midnight d | d. (office, d) \<in> set (cb_books db) \<and> since_day since d}
       \<union> {midnight (pm_date r) | r. r \<in> set (cb_main db) \<and> pm_ddo r = ddo \<and> since_day since (pm_date r)}"
  "distinct (GetAllDatesForReversionRepo office ddo since db)"
  by (force simp: GetAllDatesForReversionRepo_def, simp add: GetAllDatesForReversionRepo_def)

text \<open>C32: a reversion accounts for every day it removes: when the handler answers that it updated, the sub accounts have
  deleted their books from that date on, and the reversions got exactly one row for each day from it on of which books were
  received or the main table had a row; a row asks for a negative entry only when the last submission of the office
  and the day is pending or successful, at once only when it has its number; the days of other offices and the
  submissions stay, and the own ones from the date on are gone if the row says so.\<close>

theorem reversion_accounts_for_days:
  assumes "RevertCashbookPostHandler office_at asked found subaccounts finished inserted (Some req) db = (PUpdated, calls, db')"
  shows "\<exists>office since new. calls = [(office, date_text since)] \<and> subaccounts (office, date_text since) = Some ''200''
    \<and> cb_reversions db' = cb_reversions db @ new \<and> distinct (map rn_business_date new)
    \<and> rn_business_date ` set new = {midnight d | d. (office, d) \<in> set (cb_books db) \<and> since_day since d}
        \<union> {midnight (pm_date r) | r. r \<in> set (cb_main db) \<and> pm_ddo r = crDdoCode req \<and> since_day since (pm_date r)}
    \<and> (\<forall>r\<in>set new.
        (rn_type r = ''with_pfms'') = (\<exists>s. GetPfmsSubmissionByDateRepo (crDdoCode req) (rn_business_date r) (cb_submissions db) = Some s
           \<and> cs_status s \<in> {''Success'', ''Pending''})
      \<and> (rn_negative r = ''NO'') = (\<exists>s. GetPfmsSubmissionByDateRepo (crDdoCode req) (rn_business_date r) (cb_submissions db) = Some s
           \<and> cs_status s = ''Success'' \<and> given (cs_te_number s))
      \<and> (rn_deletion r = ''SUCCESS'' \<longrightarrow> cb_main db' = filter (\<lambda>r. \<not> (pm_ddo r = crDdoCode req \<and> since_day since (pm_date r))) (cb_main db)
           \<and> cb_books db' = filter (\<lambda>b. \<not> (fst b = office \<and> since_day since (snd b))) (cb_books db)))
    \<and> filter (\<lambda>r. pm_ddo r \<noteq> crDdoCode req \<or> \<not> since_day since (pm_date r)) (cb_main db')
        = filter (\<lambda>r. pm_ddo r \<noteq> crDdoCode req \<or> \<not> since_day since (pm_date r)) (cb_main db)
    \<and> cb_submissions db' = cb_submissions db"
proof -
  from revert_updated [OF assms] obtain office since where
    base: "calls = [(office, date_text since)]" "subaccounts (office, date_text since) = Some ''200''"
    and db': "db' = (snd (RevertCashbookRepo finished office (crDdoCode req) since db))\<lparr>cb_reversions := cb_reversions db @
        map (\<lambda>d. reversion_row req since (if 4 \<le> finished then ''SUCCESS'' else ''FAILED'') d
          (GetPfmsSubmissionByDateRepo (crDdoCode req) d (cb_submissions db)))
        (GetAllDatesForReversionRepo office (crDdoCode req) since db)\<rparr>"
    by blast
  let ?row = "\<lambda>d. reversion_row req since (if 4 \<le> finished then ''SUCCESS'' else ''FAILED'') d
          (GetPfmsSubmissionByDateRepo (crDdoCode req) d (cb_submissions db))"
  let ?dates = "GetAllDatesForReversionRepo office (crDdoCode req) since db"
  have "rn_business_date ` set (map ?row ?dates) = set ?dates" by force
  moreover have "map rn_business_date (map ?row ?dates) = ?dates" by (simp add: comp_def)
  ultimately show ?thesis
    using base
    by (intro exI [of _ office] exI [of _ since] exI [of _ "map ?row ?dates"])
      (auto simp: db' RevertCashbookRepo_def Let_def reversion_row_type dates_spec split: if_splits intro!: filter_cong)
qed

subsection \<open>A reverted submission can be reversed\<close>

lemma find_append_not_found: "(\<And>x. x \<in> set xs \<Longrightarrow> \<not> p x) \<Longrightarrow> find p (xs @ ys) = find p ys"
  by (induction xs) auto

lemma GetPfmsSubmissionByDateRepo_Some:
  assumes "GetPfmsSubmissionByDateRepo ddo date submissions = Some s"
  shows "s \<in> set submissions \<and> cs_date s = date_text date \<and> cs_type s = ''cb'' \<and> (\<exists>c\<in>set (cs_request s). cdDdoCode c = ddo)"
proof -
  let ?hits = "filter (\<lambda>s. list_ex (\<lambda>c. cdDdoCode c = ddo) (cs_request s) \<and> cs_date s = date_text date \<and> cs_type s = ''cb'') submissions"
  from assms have "?hits \<noteq> []" "s = last ?hits"
    by (auto simp: GetPfmsSubmissionByDateRepo_def split: list.splits)
  with last_in_set [of ?hits] have "s \<in> set ?hits" by simp
  thus ?thesis by (auto simp: list_ex_iff)
qed

lemma find_own_id:
  assumes "distinct (map cs_id submissions)" and "s \<in> set submissions"
  shows "find (\<lambda>x. cs_id x = cs_id s) submissions = Some s"
  using assms by (induction submissions) (auto simp: image_iff)

lemma reversion_row_uid:
  "given u \<Longrightarrow> rn_original_uid (reversion_row req since deletion d sub) = u \<longleftrightarrow> (\<exists>s. sub = Some s \<and> cs_id s = u)"
  by (auto simp: reversion_row_def split: option.split)

text \<open>C33: what a reversion marks for a negative entry can get one: when the last submission of a reverted day succeeded
  with a number, had no reversion before, and its request names an accounts office, then after the reversion the handler
  of negative entries finds it and its reversion, and once PFMS accepts the payload built from it the answer is that it was
  reversed.\<close>

theorem reverted_submission_can_be_reversed:
  assumes "RevertCashbookPostHandler office_at asked found subaccounts finished inserted (Some req) db = (PUpdated, calls, db')"
    and "office_at (crDdoCode req) = Some (Some office)" and "parse_date (crFromDate req) = Some since"
    and "date \<in> set (GetAllDatesForReversionRepo office (crDdoCode req) since db)"
    and "GetPfmsSubmissionByDateRepo (crDdoCode req) date (cb_submissions db) = Some s"
    and "cs_status s = ''Success''" and "given (cs_te_number s)" and "given (cs_id s)"
    and "distinct (map cs_id (cb_submissions db))" and "cs_id s \<notin> rn_original_uid ` set (cb_reversions db)"
    and "cs_request s = c # cs" and "given (cdPaoCode c)"
  shows "\<exists>row. negative_guards (cs_id s) db' = Inr (row, s, cdPaoCode c) \<and> date_text (rn_business_date row) = cs_date s
    \<and> (BuildReversalPayload drawn (cs_data s) (cdPaoCode c) (fmt_d (ending_year (rn_business_date row))) (cs_date s)
          = Some (payload, new) \<and> SubmitPayloadToPfms api payload = (made, Submission True m) \<longrightarrow>
        fst (PostNegativeEntryHandler drawn api True marked stored (Some (cs_id s)) db') = PReversed (cs_id s) new)"
proof -
  let ?row = "\<lambda>d. reversion_row req since (if 4 \<le> finished then ''SUCCESS'' else ''FAILED'') d
          (GetPfmsSubmissionByDateRepo (crDdoCode req) d (cb_submissions db))"
  let ?dates = "GetAllDatesForReversionRepo office (crDdoCode req) since db"
  from revert_updated [OF assms(1)] assms(2,3)
  have db': "cb_reversions db' = cb_reversions db @ map ?row ?dates" "cb_submissions db' = cb_submissions db"
    by (auto simp: RevertCashbookRepo_def Let_def)
  have "rn_original_uid (?row date) = cs_id s"
    using assms(5) by (simp add: reversion_row_uid [OF assms(8)])
  with assms(4) have "\<exists>x\<in>set (map ?row ?dates). rn_original_uid x = cs_id s"
    by (intro bexI [of _ "?row date"]) simp_all
  hence "find (\<lambda>r. rn_original_uid r = cs_id s) (map ?row ?dates) \<noteq> None"
    by (auto simp: find_None_iff)
  moreover have "find (\<lambda>r. rn_original_uid r = cs_id s) (cb_reversions db') = find (\<lambda>r. rn_original_uid r = cs_id s) (map ?row ?dates)"
    unfolding db' by (rule find_append_not_found) (use assms(10) in \<open>metis image_eqI\<close>)
  ultimately obtain row where row: "find (\<lambda>r. rn_original_uid r = cs_id s) (cb_reversions db') = Some row"
      "find (\<lambda>r. rn_original_uid r = cs_id s) (map ?row ?dates) = Some row"
    by auto
  from row(2) have "row \<in> set (map ?row ?dates)" "rn_original_uid row = cs_id s"
    by (auto simp: find_Some_iff)
  then obtain d where d: "row = ?row d" "rn_original_uid (?row d) = cs_id s" by auto
  then obtain s' where s': "GetPfmsSubmissionByDateRepo (crDdoCode req) d (cb_submissions db) = Some s'" "cs_id s' = cs_id s"
    by (auto simp: reversion_row_uid [OF assms(8)])
  have mem: "s \<in> set (cb_submissions db)" "s' \<in> set (cb_submissions db)" "cs_date s' = date_text d"
    using GetPfmsSubmissionByDateRepo_Some [OF assms(5)] GetPfmsSubmissionByDateRepo_Some [OF s'(1)] by auto
  have "s' = s" using assms(9) mem s'(2) by (auto simp: distinct_map dest: inj_onD)
  with s'(1) have own: "GetPfmsSubmissionByDateRepo (crDdoCode req) d (cb_submissions db) = Some s" by simp
  have "rn_type row = ''with_pfms''" "rn_negative row = ''NO''" "date_text (rn_business_date row) = cs_date s"
    using mem(3) \<open>s' = s\<close> assms(6,7) by (auto simp: d(1) reversion_row_type own)
  moreover have "find (\<lambda>x. cs_id x = cs_id s) (cb_submissions db') = Some s"
    using find_own_id [OF assms(9) mem(1)] by (simp add: db'(2))
  ultimately have guards: "negative_guards (cs_id s) db' = Inr (row, s, cdPaoCode c)"
    using row(1) assms(6,7,11,12) by (simp add: negative_guards_def)
  show ?thesis
    by (intro exI [of _ row]) (simp add: guards \<open>date_text (rn_business_date row) = cs_date s\<close> PostNegativeEntryHandler_def assms(8))
qed

subsection \<open>Every sequence of calls\<close>

text \<open>What later states of a submission and of a reversion have in common with them.\<close>
definition submission_le :: "'f cb_submission \<Rightarrow> 'f cb_submission \<Rightarrow> bool" where
  "submission_le s s' = (cs_id s' = cs_id s \<and> cs_type s' = cs_type s \<and> cs_request s' = cs_request s
    \<and> cs_date s' = cs_date s \<and> cs_data s' = cs_data s \<and> cs_original s' = cs_original s)"

definition reversion_le :: "reversion \<Rightarrow> reversion \<Rightarrow> bool" where
  "reversion_le r r' = (r' = r \<or> rn_negative r' = ''YES'' \<and> r' = r\<lparr>rn_negative := rn_negative r', rn_reversal_uid := rn_reversal_uid r'\<rparr>)"

interpretation sh: row_history submission_le
proof
  show "submission_le s s" for s :: "'f cb_submission" by (simp add: submission_le_def)
  show "submission_le s u" if "submission_le s t" "submission_le t u" for s t u :: "'f cb_submission"
    using that by (simp add: submission_le_def)
qed

interpretation rh: row_history reversion_le
proof
  show "reversion_le r r" for r by (simp add: reversion_le_def)
  show "reversion_le r t" if "reversion_le r s" "reversion_le s t" for r s t
  proof (cases "t = s")
    case False
    with that(2) have t: "rn_negative t = ''YES''" "t = s\<lparr>rn_negative := rn_negative t, rn_reversal_uid := rn_reversal_uid t\<rparr>"
      by (auto simp: reversion_le_def)
    from that(1) obtain n u where "s = r\<lparr>rn_negative := n, rn_reversal_uid := u\<rparr>"
      unfolding reversion_le_def by (metis reversion.surjective reversion.update_convs(11,12))
    hence "s\<lparr>rn_negative := rn_negative t, rn_reversal_uid := rn_reversal_uid t\<rparr>
        = r\<lparr>rn_negative := rn_negative t, rn_reversal_uid := rn_reversal_uid t\<rparr>" by simp
    with t show ?thesis unfolding reversion_le_def by metis
  qed (use that(1) in simp)
qed

text \<open>A submission has a number only after it succeeded.\<close>
definition numbered_successes :: "'f cb_submission list \<Rightarrow> bool" where
  "numbered_successes submissions = list_all (\<lambda>s. given (cs_te_number s) \<longrightarrow> cs_status s = ''Success'') submissions"

definition kept :: "'f cb_db \<Rightarrow> 'f cb_db \<Rightarrow> bool" where
  "kept db db' = (sh.grows (cb_submissions db) (cb_submissions db') \<and> rh.grows (cb_reversions db) (cb_reversions db')
    \<and> (numbered_successes (cb_submissions db) \<longrightarrow> numbered_successes (cb_submissions db')))"

lemma kept_trans: "kept db db' \<Longrightarrow> kept db' db'' \<Longrightarrow> kept db db''"
  by (auto simp: kept_def intro: sh.grows_trans rh.grows_trans)

lemma keptI:
  assumes "cb_submissions db' = cb_submissions db @ ss" and "cb_reversions db' = cb_reversions db @ rs"
    and "list_all (\<lambda>s. cs_te_number s = []) ss"
  shows "kept db db'"
  using assms by (auto simp: kept_def numbered_successes_def list_all_iff intro: sh.grows_append rh.grows_append)

lemma kept_same: "cb_submissions db' = cb_submissions db \<Longrightarrow> cb_reversions db' = cb_reversions db \<Longrightarrow> kept db db'"
  by (rule keptI [where ss = "[]" and rs = "[]"]) simp_all

lemma verify_day_kept:
  assumes "\<And>flag r. cb_submissions (wr flag r db) = cb_submissions db \<and> cb_reversions (wr flag r db) = cb_reversions db"
  shows "kept db (snd (verify_day F as_bool asked stored wr rs db))"
  using assms by (auto simp: verify_day_def intro!: kept_same split: list.split option.split)

lemma verification_kept:
  "kept db (snd (CreatePFMSVerificationHandler F V account as_bool asked stored now body db))"
  "kept db (snd (CreateEmptyPFMSVerificationHandler F V as_bool asked stored now body db))"
  by (auto simp: CreatePFMSVerificationHandler_def CreateEmptyPFMSVerificationHandler_def
      PostPfmsverifiedRepo_def PostEmptyPfmsverifiedRepo_def
      intro!: verify_day_kept kept_same split: option.split)

lemma submit_cash_book_kept:
  "kept db (snd (snd (submit_cash_book F drawn api marked stored requests pao date fin adjusted db)))"
proof (cases "GenerateRandomNumber drawn pao fin")
  case (Some uid)
  let ?payload = "[\<lparr>tdUniqueIdentifier = uid, tdRequestSource = ''POST'', tdPaoCode = pao,
       tdFinancialYear = year_number fin, tdInstrumentType = ''Others'', tdRemarks = ''DoP Daily Account'', tdTEDate = date,
       tdAccountingDetails = ConvertToDetailsArray F adjusted\<rparr>]"
  obtain made outcome where sent: "send_cash_book api ?payload = (made, outcome)" by fastforce
  note simps = submit_cash_book_def Some sent Let_def
  show ?thesis
  proof (cases "Atoi_ok fin \<and> marked \<and> stored \<and> (\<exists>m. outcome = Submission True m)")
    case True
    hence "snd (snd (submit_cash_book F drawn api marked stored requests pao date fin adjusted db))
      = db\<lparr>cb_main := GetPfmsUpdateStatusRepo requests uid (cb_main db),
          cb_submissions := cb_submissions db @ [\<lparr>cs_id = uid, cs_type = ''cb'', cs_request = requests, cs_date = date,
            cs_data = ?payload, cs_status = ''Pending'', cs_error = [], cs_te_number = [], cs_original = None\<rparr>]\<rparr>"
      by (auto simp: simps)
    thus ?thesis by - (rule keptI [where rs = "[]"], simp, simp, simp)
  next
    case False
    thus ?thesis
      by (cases outcome) (auto simp: simps intro!: kept_same split: bool.split)
  qed
qed (simp add: submit_cash_book_def kept_same)

lemma submission_kept:
  "kept db (snd (snd (FetchPfmsHandler F V year drawn now ok balances details order api marked stored body db)))"
  "kept db (snd (snd (FetchPfmsReSubmissionHandler F V drawn balances details order api marked stored uid db)))"
proof -
  have claimed: "kept db (db\<lparr>cb_main := rows\<rparr>)" for rows by (rule kept_same) simp_all
  show "kept db (snd (snd (FetchPfmsHandler F V year drawn now ok balances details order api marked stored body db)))"
    by (auto simp: FetchPfmsHandler_def Let_def intro: claimed kept_same kept_trans [OF claimed submit_cash_book_kept]
        split: option.split prod.split sum.split list.split)
  show "kept db (snd (snd (FetchPfmsReSubmissionHandler F V drawn balances details order api marked stored uid db)))"
    by (auto simp: FetchPfmsReSubmissionHandler_def Let_def intro: kept_same submit_cash_book_kept
        split: option.split prod.split list.split)
qed

lemma update_status_kept: "kept db (snd (UpdatePfmsSubmissionStatusRepo finished uid st db))"
  by (auto simp: kept_def UpdatePfmsSubmissionStatusRepo_def numbered_successes_def update_where_def list_all_iff
      submission_answered_def te_number_def
      intro: sh.grows_refl rh.grows_refl sh.grows_update [unfolded update_where_def] simp: submission_le_def)

lemma status_kept:
  "kept db (snd (snd (UpdatePfmsSubmissionStatusHandler V parse api finished uid db)))"
proof -
  obtain answer calls db' where h: "UpdatePfmsSubmissionStatusHandler V parse api finished uid db = (answer, calls, db')"
    by (cases "UpdatePfmsSubmissionStatusHandler V parse api finished uid db") auto
  from status_handler_updated [OF h] consider "db' = db" | st where "db' = snd (UpdatePfmsSubmissionStatusRepo finished uid st db)"
    by (metis snd_conv)
  thus ?thesis using update_status_kept by cases (auto simp: h intro: kept_same)
qed

lemma poll_kept: "kept db (snd (snd (poll token parse api finished uids db)))"
proof (induction uids arbitrary: db)
  case (Cons u us)
  have "kept db (snd (snd (poll token parse api finished us db')))"
    if "UpdatePfmsSubmissionStatusRepo (finished u) u st db = (b, db')" for st b db'
    using kept_trans [OF update_status_kept Cons.IH, of db "finished u" u st] that by simp
  moreover have "kept db db'" if "UpdatePfmsSubmissionStatusRepo (finished u) u st db = (b, db')" for st b db'
    using update_status_kept [of db "finished u" u st] that by simp
  ultimately show ?case
    by (fastforce simp: kept_same split: sum.split prod.split bool.split)
qed (simp add: kept_same)

lemma polling_kept: "kept db (snd (snd (UpdatePfmsHandler parse api asked finished body db)))"
proof (cases "polite_login api")
  case (Pair calls end')
  show ?thesis
  proof (cases end')
    case (Inr token)
    obtain pao where pao: "pao = the body" by blast
    obtain answer made db' where p: "poll token parse api finished (GetPendingPfmsUniqueIdsRepo pao (cb_main db)) db = (answer, made, db')"
      by (cases "poll token parse api finished (GetPendingPfmsUniqueIdsRepo pao (cb_main db)) db") auto
    with poll_kept [of db token parse api finished "GetPendingPfmsUniqueIdsRepo pao (cb_main db)"] have "kept db db'" by simp
    with Pair Inr p pao show ?thesis by (auto simp: UpdatePfmsHandler_def kept_same split: option.split)
  qed (auto simp: UpdatePfmsHandler_def Pair kept_same split: option.split)
qed

lemma negative_kept: "kept db (snd (snd (PostNegativeEntryHandler drawn api readable marked stored body db)))"
proof -
  obtain answer calls db' where h: "PostNegativeEntryHandler drawn api readable marked stored body db = (answer, calls, db')"
    by (cases "PostNegativeEntryHandler drawn api readable marked stored body db") auto
  have "rh.grows (cb_reversions db) (update_where p (\<lambda>r. r\<lparr>rn_reversal_uid := u, rn_negative := ''YES''\<rparr>) (cb_reversions db))" for p u
    by (rule rh.grows_update) (simp add: reversion_le_def)
  hence "kept db db'"
    using h
    by (auto simp: PostNegativeEntryHandler_def kept_def numbered_successes_def list_all_iff
        intro: sh.grows_refl rh.grows_refl sh.grows_append
        split: option.splits if_splits sum.splits prod.splits pfms_end.splits bool.splits)
  thus ?thesis by (simp add: h)
qed

lemma revert_kept:
  "kept db (snd (snd (RevertCashbookPostHandler office_at asked found subaccounts finished inserted body db)))"
proof -
  have repo: "cb_reversions (snd (RevertCashbookRepo n office ddo since db)) = cb_reversions db"
      "cb_submissions (snd (RevertCashbookRepo n office ddo since db)) = cb_submissions db" for n office ddo since
    by (simp_all add: RevertCashbookRepo_def Let_def)
  have "kept db ((snd (RevertCashbookRepo n office ddo since db))\<lparr>cb_reversions := cb_reversions db @ rs\<rparr>)"
      "kept db (snd (RevertCashbookRepo n office ddo since db))" for n office ddo since rs
    by (rule keptI [where ss = "[]" and rs = rs], simp_all add: repo, rule kept_same, simp_all add: repo)
  moreover have "kept db db" by (rule kept_same) simp_all
  ultimately show ?thesis
    by (simp add: RevertCashbookPostHandler_def Let_def case_prod_beta repo split: option.split)
qed

subsection \<open>The history of the tables\<close>

inductive cash_calls :: "'f float64 \<Rightarrow> validators \<Rightarrow> 'f cb_db \<Rightarrow> 'f cb_db \<Rightarrow> bool" for F V where
  no_call: "cash_calls F V s s"
| verification: "cash_calls F V s t \<Longrightarrow>
    cash_calls F V s (snd (CreatePFMSVerificationHandler F V account as_bool asked stored now body t))"
| empty_verification: "cash_calls F V s t \<Longrightarrow>
    cash_calls F V s (snd (CreateEmptyPFMSVerificationHandler F V as_bool asked stored now body t))"
| submission: "cash_calls F V s t \<Longrightarrow>
    cash_calls F V s (snd (snd (FetchPfmsHandler F V year drawn start okay balances details order api marked kept_row cbds t)))"
| resubmission: "cash_calls F V s t \<Longrightarrow>
    cash_calls F V s (snd (snd (FetchPfmsReSubmissionHandler F V drawn balances details order api marked kept_row uid t)))"
| status: "cash_calls F V s t \<Longrightarrow>
    cash_calls F V s (snd (snd (UpdatePfmsSubmissionStatusHandler V parse api finished uid t)))"
| polling: "cash_calls F V s t \<Longrightarrow>
    cash_calls F V s (snd (snd (UpdatePfmsHandler parse api asked finishes pao t)))"
| negative: "cash_calls F V s t \<Longrightarrow>
    cash_calls F V s (snd (snd (PostNegativeEntryHandler drawn api readable marked kept_row original t)))"
| reversal: "cash_calls F V s t \<Longrightarrow>
    cash_calls F V s (snd (snd (RevertCashbookPostHandler office_at asked found subaccounts finished inserted req t)))"

lemma cash_calls_kept: "cash_calls F V s t \<Longrightarrow> kept s t"
proof (induction rule: cash_calls.induct)
  case (no_call s)
  show ?case by (rule kept_same) simp_all
qed (blast intro: kept_trans verification_kept submission_kept status_kept polling_kept negative_kept revert_kept)+

lemma GetReversionPendingRepo_NO: "r \<in> set (GetReversionPendingRepo pao_of pao rows) \<Longrightarrow> rn_negative r = ''NO''"
  by (simp add: GetReversionPendingRepo_def)


subsection \<open>A concrete reversion\<close>

definition sample_revert :: CashbookRevertRequest where
  "sample_revert = \<lparr>crOffice = ''1'', crEmployee = ''7'', crDdoCode = ''300003'', crFromDate = ''2026-02-03'', crRemark = ''wrong day''\<rparr>"

definition unreverted_books :: "int cb_db" where
  "unreverted_books = sample_books\<lparr>cb_reversions := []\<rparr>"

lemma sample_midnight: "midnight sample_date = sample_date"
  by (simp add: midnight_def sample_date_def)

lemma sample_dates: "GetAllDatesForReversionRepo 1 ''300003'' sample_date unreverted_books = [sample_date]"
  by (simp add: GetAllDatesForReversionRepo_def unreverted_books_def sample_books_def sample_main_def since_day_def sample_midnight)

lemma sample_reverted:
  "\<exists>calls db'. RevertCashbookPostHandler (\<lambda>_. Some (Some 1)) True (\<lambda>_. True) (\<lambda>_. Some ''200'') 4 True (Some sample_revert) unreverted_books
    = (PUpdated, calls, db')"
  by (simp add: RevertCashbookPostHandler_def sample_revert_def sample_cb_date sample_dates RevertCashbookRepo_def Let_def)

lemma reversion_accounts_for_days_witness:
  "\<exists>new. \<exists>db' :: int cb_db. cb_reversions db' = cb_reversions unreverted_books @ new \<and> distinct (map rn_business_date new)"
proof -
  obtain calls db' where "RevertCashbookPostHandler (\<lambda>_. Some (Some 1)) True (\<lambda>_. True) (\<lambda>_. Some ''200'') 4 True (Some sample_revert)
      unreverted_books = (PUpdated, calls, db')"
    using sample_reverted by blast
  from reversion_accounts_for_days [OF this] show ?thesis by blast
qed

lemma date_text_sample: "date_text sample_date = ''2026-02-03''"
  by code_simp

definition sample_stored :: "int cb_submission" where
  "sample_stored = hd (cb_submissions sample_books)"

lemma stored_sample:
  "cb_submissions unreverted_books = [sample_stored]" "cs_id sample_stored = ''CB-7''" "cs_status sample_stored = ''Success''"
  "cs_te_number sample_stored = ''8''" "cs_request sample_stored = [sample_cb_data]" "cs_date sample_stored = ''2026-02-03''"
  "cs_type sample_stored = ''cb''" "cb_reversions unreverted_books = []"
  by (simp_all add: sample_stored_def unreverted_books_def sample_books_def sample_cb_data_def)

lemma reverted_submission_can_be_reversed_witness:
  "\<exists>row. \<exists>db' :: int cb_db. negative_guards ''CB-7'' db' = Inr (row, sample_stored, ''100001'')"
proof -
  obtain calls db' where h: "RevertCashbookPostHandler (\<lambda>_. Some (Some 1)) True (\<lambda>_. True) (\<lambda>_. Some ''200'') 4 True (Some sample_revert)
      unreverted_books = (PUpdated, calls, db')"
    using sample_reverted by blast
  have office: "(\<lambda>_. Some (Some 1)) (crDdoCode sample_revert) = Some (Some (1 :: int))" by simp
  have since: "parse_date (crFromDate sample_revert) = Some sample_date" by (simp add: sample_revert_def sample_cb_date)
  have ddo: "crDdoCode sample_revert = ''300003''" by (simp add: sample_revert_def)
  have day: "sample_date \<in> set (GetAllDatesForReversionRepo 1 (crDdoCode sample_revert) sample_date unreverted_books)"
    by (simp add: ddo sample_dates)
  have sub: "GetPfmsSubmissionByDateRepo (crDdoCode sample_revert) sample_date (cb_submissions unreverted_books) = Some sample_stored"
    by (simp add: ddo GetPfmsSubmissionByDateRepo_def stored_sample date_text_sample) (simp add: sample_cb_data_def)
  note reversed = reverted_submission_can_be_reversed [OF h office since day sub, where c = sample_cb_data and cs = "[]"]
  have "\<exists>row. negative_guards (cs_id sample_stored) db' = Inr (row, sample_stored, cdPaoCode sample_cb_data)"
  proof -
    have "given (cdPaoCode sample_cb_data)" by (simp add: sample_cb_data_def)
    with reversed show ?thesis by (fastforce simp: stored_sample)
  qed
  thus ?thesis by (auto simp: stored_sample sample_cb_data_def)
qed

definition waiting_books :: "int cb_db" where
  "waiting_books = sample_books\<lparr>cb_reversions := [sample_reversion\<lparr>rn_negative := ''WAIT''\<rparr>]\<rparr>"


end
