(* ===== verification/MonthlyAccounts.thy ===== *)
theory MonthlyAccounts
  imports DayGate
begin

text \<open>
  Monthly cash accounts and broad sheets (pao-back-end-development/): UpdateDdoMonthlyHandler,
  CreatePfmsMonthlyVerifiedHandler, CreatePraoAccountHandler and CashAccountReversionHandler of
  handler/paogen.go, ValidatePeriod of handler/paogenvalidation.go, and the functions of
  repo/postgres/paogen.go they call.

  The primary keys and the foreign key of the tables (db/ddl) are part of the model: a statement that breaks one
  has the code of the database as its error.  A batch is stored as a whole or not at all; \<open>trouble\<close> is what
  else may befall it.  The cast of a month to a number is \<open>year_number\<close>, which agrees with the database on
  every month that ValidatePeriod accepts.  Amounts are computed with the operations F, those of the columns.
\<close>

subsection \<open>Requests\<close>

definition ValidatePeriod :: "string \<Rightarrow> bool" where
  "ValidatePeriod s = (length s = 6
    \<and> Atoi_ok (take 2 s) \<and> 0 \<le> year_number (take 2 s) \<and> year_number (take 2 s) \<le> 12
    \<and> Atoi_ok (drop 2 s) \<and> 1900 \<le> year_number (drop 2 s) \<and> year_number (drop 2 s) \<le> 2100)"

record 'f PfmsVerifiedMonthly =
  vmDdoCode :: string
  vmPeriod :: string
  vmClosing :: 'f
  vmOpening :: 'f
  vmBy :: "64 word"
  vmStatus :: string
  vmHoa :: string
  vmPayment :: 'f
  vmReceipt :: 'f
  vmTePayment :: 'f
  vmTeReceipt :: 'f
  vmCodes :: "'f account_code list"

definition PfmsVerifiedMonthly_ok :: "validators \<Rightarrow> (string \<Rightarrow> bool) \<Rightarrow> 'f PfmsVerifiedMonthly \<Rightarrow> bool" where
  "PfmsVerifiedMonthly_ok V account r =
    (given (vmDdoCode r) \<and> ValidateDdocode (vmDdoCode r) \<and> given (vmPeriod r) \<and> ValidatePeriod (vmPeriod r)
     \<and> vmBy r \<noteq> 0 \<and> v_employee_id V (vmBy r) \<and> given (vmStatus r) \<and> v_max V 20 (vmStatus r)
     \<and> given (vmHoa r) \<and> v_head_of_account V (vmHoa r) \<and> list_all (CodeArray_ok V account) (vmCodes r))"

subsection \<open>Tables\<close>

text \<open>A row of pao.pfms_monthly_main: one office, one month.  A null flag reads as False.\<close>
record 'f mm_row =
  mm_key :: string
  mm_pao :: string
  mm_ddo :: string
  mm_name :: string
  mm_received :: bool
  mm_verified :: bool
  mm_verified_at :: "gtime option"
  mm_period :: string
  mm_opening :: "'f option"
  mm_closing :: "'f option"
  mm_verified_by :: "64 word option"

text \<open>A row of pao.pfms_monthly_detail.\<close>
record 'f md_row =
  mdKey :: string
  mdHoa :: string
  mdReceipt :: 'f
  mdPayment :: 'f
  mdCodes :: "'f account_code list"
  mdTePayment :: 'f
  mdTeReceipt :: 'f

text \<open>A row of pao.broad_sheet.\<close>
record 'f sheet =
  bsMonth :: string
  bsHoa :: string
  bsDdo :: string
  bsOpening :: 'f
  bsCredit :: 'f
  bsDebit :: 'f
  bsClosing :: 'f
  bsCreated :: gtime
  bsBy :: "64 word"

text \<open>A row of pao.ddo_master.\<close>
record ddo_office =
  doDdo :: string
  doName :: string
  doOffice :: int
  doPao :: string

text \<open>The rows sent to the principal accounts office, one for each head, with the shares of the offices.\<close>
record 'f prao_share =
  psDdo :: string
  psReceipt :: 'f
  psPayment :: 'f
  psTeReceipt :: 'f
  psTePayment :: 'f

record 'f PaoPraoAccount =
  ppPao :: string
  ppHoa :: string
  ppPeriod :: string
  ppPayment :: 'f
  ppReceipt :: 'f
  ppShares :: "'f prao_share list"

text \<open>A row of pao.cashacc_reversion.\<close>
record month_reversion =
  mrOffice :: int
  mrEmployee :: int
  mrDdo :: string
  mrPeriod :: string
  mrRemark :: string
  mrSubaccounts :: string
  mrKafka :: string
  mrDetail :: string
  mrMain :: string
  mrBroad :: string
  mrFinal :: string

record 'f ma_db =
  ma_received :: "(int \<times> string) list"
  ma_offices :: "ddo_office list"
  ma_main :: "'f mm_row list"
  ma_details :: "'f md_row list"
  ma_sheets :: "'f sheet list"
  ma_prao_details :: "'f PaoPraoAccount list"
  ma_prao_main :: "(string \<times> string) list"
  ma_reversions :: "month_reversion list"

definition detail_key :: "'f md_row \<Rightarrow> string \<times> string" where
  "detail_key d = (mdKey d, mdHoa d)"

definition sheet_key :: "'f sheet \<Rightarrow> string \<times> string \<times> string" where
  "sheet_key t = (bsMonth t, bsHoa t, bsDdo t)"

definition prao_key :: "'f PaoPraoAccount \<Rightarrow> string \<times> string \<times> string" where
  "prao_key p = (ppPao p, ppHoa p, ppPeriod p)"

subsection \<open>Receiving the accounts of a month\<close>

definition received_row :: "ddo_office \<Rightarrow> string \<Rightarrow> 'f mm_row" where
  "received_row d period = \<lparr>mm_key = doDdo d @ period, mm_pao = doPao d, mm_ddo = doDdo d, mm_name = doName d,
    mm_received = True, mm_verified = False, mm_verified_at = None, mm_period = period,
    mm_opening = None, mm_closing = None, mm_verified_by = None\<rparr>"

text \<open>GetDDOlistMonthlyupdateRepo: one statement, for the accounts that have arrived and have no row yet.\<close>
definition received_rows :: "string \<Rightarrow> string \<Rightarrow> 'f ma_db \<Rightarrow> 'f mm_row list" where
  "received_rows pao period db =
    (let mine = map doOffice (filter (\<lambda>d. doPao d = pao) (ma_offices db));
         arrived = concat (map (\<lambda>(office, p). map (\<lambda>d. received_row d period)
             (filter (\<lambda>d. doOffice d = office \<and> office \<in> set mine \<and> filter (\<lambda>c. c \<noteq> CHR ''-'') p = period) (ma_offices db)))
           (ma_received db))
     in filter (\<lambda>r. \<not> list_ex (\<lambda>m. mm_ddo m = mm_ddo r \<and> mm_period m = mm_period r) (ma_main db)) arrived)"

definition GetDDOlistMonthlyupdateRepo :: "string \<Rightarrow> string \<Rightarrow> 'f ma_db \<Rightarrow> pg_outcome \<times> 'f ma_db" where
  "GetDDOlistMonthlyupdateRepo pao period db =
    (let rows = ma_main db @ received_rows pao period db
     in if distinct (map mm_key rows) then (Stored, db\<lparr>ma_main := rows\<rparr>) else (PgFailed ''23505'', db))"

definition UpdateDdoMonthlyHandler :: "pg_outcome \<Rightarrow> string \<Rightarrow> string \<Rightarrow> 'f ma_db \<Rightarrow> pfms_reply \<times> 'f ma_db" where
  "UpdateDdoMonthlyHandler trouble pao period db =
    (if length pao \<noteq> 6 \<or> given period \<and> length period \<noteq> 6 then (PBinding, db)
     else if \<not> (ValidatePaocode pao \<and> given period \<and> ValidatePeriod period) then (PValidation, db)
     else if trouble \<noteq> Stored then (PDb, db)
     else (case GetDDOlistMonthlyupdateRepo pao period db of
             (Stored, db') \<Rightarrow> (PUpdated, db')
           | (_, db') \<Rightarrow> (PDb, db')))"

subsection \<open>The statements of a verification\<close>

type_synonym 'd statement = "'d \<Rightarrow> (string, 'd) sum"

text \<open>SendBatch: the statements in order, up to the first that fails.\<close>
fun run_batch :: "'d statement list \<Rightarrow> 'd \<Rightarrow> (string, 'd) sum" where
  "run_batch [] db = Inr db"
| "run_batch (s # ss) db = (case s db of Inl e \<Rightarrow> Inl e | Inr db' \<Rightarrow> run_batch ss db')"

definition SendBatch :: "pg_outcome \<Rightarrow> 'd statement list \<Rightarrow> 'd \<Rightarrow> pg_outcome \<times> 'd" where
  "SendBatch trouble ss db =
    (if trouble \<noteq> Stored then (trouble, db)
     else (case run_batch ss db of Inl c \<Rightarrow> (PgFailed c, db) | Inr db' \<Rightarrow> (Stored, db')))"

definition insert_row :: "('r \<Rightarrow> 'k) \<Rightarrow> 'r \<Rightarrow> 'r list \<Rightarrow> (string, 'r list) sum" where
  "insert_row key r rows = (if key r \<in> key ` set rows then Inl ''23505'' else Inr (rows @ [r]))"

definition verified_month :: "gtime \<Rightarrow> bool \<Rightarrow> 'f PfmsVerifiedMonthly \<Rightarrow> 'f mm_row \<Rightarrow> 'f mm_row" where
  "verified_month now flag r row = row\<lparr>mm_key := vmDdoCode r @ vmPeriod r, mm_closing := Some (vmClosing r),
     mm_opening := Some (vmOpening r), mm_verified_by := Some (vmBy r), mm_verified := flag, mm_verified_at := Some now\<rparr>"

definition is_month :: "'f PfmsVerifiedMonthly \<Rightarrow> 'f mm_row \<Rightarrow> bool" where
  "is_month r row = (mm_ddo row = vmDdoCode r \<and> mm_period row = vmPeriod r)"

text \<open>The update of the main row; the key stays unique and keeps the rows that refer to it.\<close>
definition update_month ::
  "(string \<Rightarrow> bool option) \<Rightarrow> gtime \<Rightarrow> 'f PfmsVerifiedMonthly \<Rightarrow> 'f ma_db statement"
where
  "update_month as_bool now r db =
    (case as_bool (vmStatus r) of
       None \<Rightarrow> Inl ''22P02''
     | Some flag \<Rightarrow>
         (let rows = update_where (is_month r) (verified_month now flag r) (ma_main db)
          in if \<not> distinct (map mm_key rows) then Inl ''23505''
             else if \<not> list_all (\<lambda>d. mdKey d \<in> mm_key ` set rows) (ma_details db) then Inl ''23503''
             else Inr (db\<lparr>ma_main := rows\<rparr>)))"

definition month_detail :: "'f PfmsVerifiedMonthly \<Rightarrow> 'f md_row" where
  "month_detail t = \<lparr>mdKey = vmDdoCode t @ vmPeriod t, mdHoa = vmHoa t, mdReceipt = vmReceipt t, mdPayment = vmPayment t,
     mdCodes = vmCodes t, mdTePayment = vmTePayment t, mdTeReceipt = vmTeReceipt t\<rparr>"

definition insert_detail :: "'f PfmsVerifiedMonthly \<Rightarrow> 'f ma_db statement" where
  "insert_detail t db =
    (case insert_row detail_key (month_detail t) (ma_details db) of
       Inl e \<Rightarrow> Inl e
     | Inr rows \<Rightarrow>
         if mdKey (month_detail t) \<notin> mm_key ` set (ma_main db) then Inl ''23503''
         else Inr (db\<lparr>ma_details := rows\<rparr>))"

subsection \<open>The broad sheet\<close>

text \<open>The first four characters of a head that have a sheet.\<close>
definition sheet_heads :: "string list" where
  "sheet_heads = [''8782'', ''8661'', ''8001'', ''8002'', ''8553'', ''8446'', ''8670'', ''8677'']"

text \<open>The closing balance from the one before, the credit and the debit.\<close>
definition sheet_balance :: "'f float64 \<Rightarrow> string \<Rightarrow> ('f \<Rightarrow> 'f \<Rightarrow> 'f \<Rightarrow> 'f) option" where
  "sheet_balance F head =
    (if head = ''8782'' \<or> head = ''8553'' then Some (\<lambda>prev credit debit. fadd F (fsub F prev credit) debit)
     else if head = ''8001'' \<or> head = ''8002'' \<or> head = ''8446'' then
       Some (\<lambda>prev credit debit. fsub F (fadd F prev credit) debit)
     else if head = ''8661'' then Some (\<lambda>prev credit debit. fadd F (fadd F prev credit) debit)
     else if head = ''8670'' then Some (\<lambda>prev credit debit. fadd F prev credit)
     else if head = ''8677'' then Some (\<lambda>prev credit debit. fadd F prev debit)
     else None)"

definition sheet_row :: "'f float64 \<Rightarrow> gtime \<Rightarrow> 'f PfmsVerifiedMonthly \<Rightarrow> 'f sheet" where
  "sheet_row F now b = \<lparr>bsMonth = vmPeriod b, bsHoa = vmHoa b, bsDdo = vmDdoCode b, bsOpening = fzero F,
     bsCredit = vmReceipt b, bsDebit = vmPayment b, bsClosing = fzero F, bsCreated = now, bsBy = vmBy b\<rparr>"

definition insert_sheet :: "'f float64 \<Rightarrow> gtime \<Rightarrow> 'f PfmsVerifiedMonthly \<Rightarrow> 'f ma_db statement" where
  "insert_sheet F now b db =
    map_sum id (\<lambda>rows. db\<lparr>ma_sheets := rows\<rparr>) (insert_row sheet_key (sheet_row F now b) (ma_sheets db))"

definition month_number :: "'f sheet \<Rightarrow> int" where
  "month_number t = year_number (bsMonth t)"

text \<open>The subquery: for each month of the head and office up to one, the closing balance of the month before it in the
  order of the numbers, 0 for the first.\<close>
definition lag_closing :: "'f float64 \<Rightarrow> int \<Rightarrow> string \<Rightarrow> string \<Rightarrow> 'f sheet list \<Rightarrow> (string \<times> 'f) list" where
  "lag_closing F latest hoa ddo sheets =
    (let ts = sort_key month_number (filter (\<lambda>t. bsHoa t = hoa \<and> bsDdo t = ddo \<and> month_number t \<le> latest) sheets)
     in zip (map bsMonth ts) (fzero F # map bsClosing ts))"

definition carry_sheet ::
  "('f \<Rightarrow> 'f \<Rightarrow> 'f \<Rightarrow> 'f) \<Rightarrow> (string \<times> 'f) list \<Rightarrow> 'f PfmsVerifiedMonthly \<Rightarrow> 'f sheet \<Rightarrow> 'f sheet"
where
  "carry_sheet bal lag b t =
    (if bsHoa t = vmHoa b \<and> bsDdo t = vmDdoCode b \<and> month_number t = year_number (vmPeriod b) then
       (case map_of lag (bsMonth t) of None \<Rightarrow> t
        | Some prev \<Rightarrow> t\<lparr>bsOpening := prev, bsClosing := bal prev (bsCredit t) (bsDebit t)\<rparr>)
     else t)"

definition carry_forward ::
  "'f float64 \<Rightarrow> int \<Rightarrow> ('f \<Rightarrow> 'f \<Rightarrow> 'f \<Rightarrow> 'f) \<Rightarrow> 'f PfmsVerifiedMonthly \<Rightarrow> 'f ma_db statement"
where
  "carry_forward F latest bal b db =
    Inr (db\<lparr>ma_sheets := map (carry_sheet bal (lag_closing F latest (vmHoa b) (vmDdoCode b) (ma_sheets db)) b) (ma_sheets db)\<rparr>)"

text \<open>The loop over the heads.\<close>
definition sheet_statements :: "'f float64 \<Rightarrow> gtime \<Rightarrow> int \<Rightarrow> 'f PfmsVerifiedMonthly \<Rightarrow> 'f ma_db statement list" where
  "sheet_statements F now latest b =
    (if take 4 (vmHoa b) \<in> set sheet_heads then [insert_sheet F now b] else [])
    @ (case sheet_balance F (take 4 (vmHoa b)) of None \<Rightarrow> [] | Some bal \<Rightarrow> [carry_forward F latest bal b])"

subsection \<open>Verifying a month\<close>

text \<open>PostPfmsMonthlyverifiedRepo: None is a panic, of an empty request or of a head shorter than four characters.\<close>
definition PostPfmsMonthlyverifiedRepo ::
  "'f float64 \<Rightarrow> (string \<Rightarrow> bool option) \<Rightarrow> pg_outcome \<Rightarrow> gtime \<Rightarrow> 'f PfmsVerifiedMonthly list \<Rightarrow> 'f ma_db
    \<Rightarrow> (pg_outcome \<times> 'f ma_db) option"
where
  "PostPfmsMonthlyverifiedRepo F as_bool trouble now rs db =
    (case rs of [] \<Rightarrow> None
     | r # _ \<Rightarrow>
         if \<not> Atoi_ok (vmPeriod r) then Some (OtherFailed, db)
         else if \<not> list_all (\<lambda>b. 4 \<le> length (vmHoa b)) rs then None
         else Some (SendBatch trouble
           ([update_month as_bool now r] @ map insert_detail rs
            @ concat (map (sheet_statements F now (year_number (vmPeriod r))) rs)) db))"

definition PostEmptyPfmsMonthlyverifiedRepo ::
  "(string \<Rightarrow> bool option) \<Rightarrow> pg_outcome \<Rightarrow> gtime \<Rightarrow> 'f PfmsVerifiedMonthly \<Rightarrow> 'f ma_db \<Rightarrow> pg_outcome \<times> 'f ma_db"
where
  "PostEmptyPfmsMonthlyverifiedRepo as_bool trouble now r db = SendBatch trouble [update_month as_bool now r] db"

text \<open>The error is asserted to be one of the database's, and its code decides the answer.\<close>
fun month_reply :: "pg_outcome \<Rightarrow> pfms_reply" where
  "month_reply Stored = PCreated"
| "month_reply (PgFailed c) =
    (if c = ''23503'' then PError 409 ''cashaccount not received''
     else if c = ''23505'' then PError 409 ''cashaccount already verified''
     else PDb)"
| "month_reply OtherFailed = PPanic"

text \<open>The head that marks a month without accounts.\<close>
definition empty_head :: string where
  "empty_head = ''000000000000000''"

definition CreatePfmsMonthlyVerifiedHandler ::
  "'f float64 \<Rightarrow> validators \<Rightarrow> (string \<Rightarrow> bool) \<Rightarrow> (string \<Rightarrow> bool option) \<Rightarrow> pg_outcome \<Rightarrow> gtime
    \<Rightarrow> 'f PfmsVerifiedMonthly list option \<Rightarrow> 'f ma_db \<Rightarrow> pfms_reply \<times> 'f ma_db"
where
  "CreatePfmsMonthlyVerifiedHandler F V account as_bool trouble now body db =
    (case body of None \<Rightarrow> (PBinding, db)
     | Some rs \<Rightarrow>
         if \<not> list_all (PfmsVerifiedMonthly_ok V account) rs then (PValidation, db)
         else if length rs = 1 \<and> vmHoa (hd rs) = empty_head then
           map_prod month_reply id (PostEmptyPfmsMonthlyverifiedRepo as_bool trouble now (hd rs) db)
         else (case PostPfmsMonthlyverifiedRepo F as_bool trouble now rs db of
                 None \<Rightarrow> (PPanic, db)
               | Some outcome \<Rightarrow> map_prod month_reply id outcome))"

subsection \<open>Sending the accounts on\<close>

definition PraoAccountSubmissionRequest_ok :: "string \<Rightarrow> string \<Rightarrow> bool" where
  "PraoAccountSubmissionRequest_ok pao period =
    (given pao \<and> ValidatePaocode pao \<and> given period \<and> ValidatePeriod period)"

definition of_pao :: "string \<Rightarrow> string \<Rightarrow> 'f mm_row list \<Rightarrow> 'f mm_row list" where
  "of_pao pao period rows = filter (\<lambda>a. mm_pao a = pao \<and> mm_period a = period) rows"

text \<open>CheckCashAccountVerificationRepo: there are accounts, and all are verified.\<close>
definition CheckCashAccountVerificationRepo :: "string \<Rightarrow> string \<Rightarrow> 'f ma_db \<Rightarrow> bool" where
  "CheckCashAccountVerificationRepo pao period db =
    (let rows = of_pao pao period (ma_main db)
     in length rows \<noteq> 0 \<and> length rows = length (filter mm_verified rows))"

definition total_receipt :: "'f float64 \<Rightarrow> 'f md_row \<Rightarrow> 'f" where
  "total_receipt F d = fadd F (mdReceipt d) (mdTeReceipt d)"

definition total_payment :: "'f float64 \<Rightarrow> 'f md_row \<Rightarrow> 'f" where
  "total_payment F d = fadd F (mdPayment d) (mdTePayment d)"

text \<open>The join of the accounts with their details, less the details that are nothing; an account without details is
  joined with zeros, and so is not there either.\<close>
definition account_lines :: "'f float64 \<Rightarrow> string \<Rightarrow> string \<Rightarrow> 'f ma_db \<Rightarrow> ('f mm_row \<times> 'f md_row) list" where
  "account_lines F pao period db =
    filter (\<lambda>(a, d). \<not> (feq F (total_receipt F d) (fzero F) \<and> feq F (total_payment F d) (fzero F)))
      (concat (map (\<lambda>a. map (Pair a) (filter (\<lambda>d. mdKey d = mm_key a) (ma_details db))) (of_pao pao period (ma_main db))))"

definition sum_of :: "'f float64 \<Rightarrow> 'f list \<Rightarrow> 'f" where
  "sum_of F xs = foldl (fadd F) (fzero F) xs"

definition prao_row :: "'f float64 \<Rightarrow> string \<Rightarrow> string \<Rightarrow> ('f mm_row \<times> 'f md_row) list \<Rightarrow> string \<Rightarrow> 'f PaoPraoAccount" where
  "prao_row F pao period ls hoa =
    (let mine = filter (\<lambda>l. mdHoa (snd l) = hoa) ls
     in \<lparr>ppPao = pao, ppHoa = hoa, ppPeriod = period,
         ppPayment = sum_of F (map (total_payment F \<circ> snd) mine),
         ppReceipt = sum_of F (map (total_receipt F \<circ> snd) mine),
         ppShares = map (\<lambda>(a, d). \<lparr>psDdo = mm_ddo a, psReceipt = mdReceipt d, psPayment = mdPayment d,
           psTeReceipt = mdTeReceipt d, psTePayment = mdTePayment d\<rparr>) mine\<rparr>)"

text \<open>GetPostPraoAccountRepo: one row for each head; the order of the groups is open, here it is that of their first lines.\<close>
definition GetPostPraoAccountRepo :: "'f float64 \<Rightarrow> string \<Rightarrow> string \<Rightarrow> 'f ma_db \<Rightarrow> 'f PaoPraoAccount list" where
  "GetPostPraoAccountRepo F pao period db =
    (let ls = account_lines F pao period db
     in map (prao_row F pao period ls) (remdups (map (mdHoa \<circ> snd) ls)))"

text \<open>PostPraoAccountRepo: a copy of all rows, then, as a statement of its own, the row of the submission.  copied and
  recorded are the troubles of the two.\<close>
definition PostPraoAccountRepo ::
  "pg_outcome \<Rightarrow> pg_outcome \<Rightarrow> 'f PaoPraoAccount list \<Rightarrow> 'f ma_db \<Rightarrow> pg_outcome \<times> 'f ma_db"
where
  "PostPraoAccountRepo copied recorded us db =
    (if copied \<noteq> Stored then (copied, db)
     else let rows = ma_prao_details db @ us
       in if \<not> distinct (map prao_key rows) then (PgFailed ''23505'', db)
          else let db' = db\<lparr>ma_prao_details := rows\<rparr>; key = (ppPao (hd us), ppPeriod (hd us))
            in if recorded \<noteq> Stored then (recorded, db')
               else (case insert_row id key (ma_prao_main db) of
                       Inl c \<Rightarrow> (PgFailed c, db')
                     | Inr main \<Rightarrow> (Stored, db'\<lparr>ma_prao_main := main\<rparr>)))"

fun prao_reply :: "pg_outcome \<Rightarrow> pfms_reply" where
  "prao_reply Stored = PCreated"
| "prao_reply (PgFailed c) = (if c = ''23505'' then PError 409 ''prao account already submitted'' else PDb)"
| "prao_reply OtherFailed = PPanic"

text \<open>asked says whether the two queries are answered.\<close>
definition CreatePraoAccountHandler ::
  "'f float64 \<Rightarrow> bool \<Rightarrow> pg_outcome \<Rightarrow> pg_outcome \<Rightarrow> (string \<times> string) option \<Rightarrow> 'f ma_db \<Rightarrow> pfms_reply \<times> 'f ma_db"
where
  "CreatePraoAccountHandler F asked copied recorded body db =
    (case body of None \<Rightarrow> (PBinding, db)
     | Some (pao, period) \<Rightarrow>
         if length pao \<noteq> 6 then (PBinding, db)
         else if \<not> PraoAccountSubmissionRequest_ok pao period then (PValidation, db)
         else if \<not> asked then (PDb, db)
         else if \<not> CheckCashAccountVerificationRepo pao period db then
           (PError 422 ''not all cash accounts are verified for the given PAO code and period'', db)
         else (case GetPostPraoAccountRepo F pao period db of
                 [] \<Rightarrow> (PCreated, db)
               | u # us \<Rightarrow> map_prod prao_reply id (PostPraoAccountRepo copied recorded (u # us) db)))"

subsection \<open>Reverting a month\<close>

record CashAccountReversionRequest =
  caOfficeID :: int
  caRequestEmployeeID :: int
  caDDOCode :: string
  caPeriod :: string
  caRemark :: string

text \<open>time.Parse("01-2006") followed by Format("012006").\<close>
definition parse_month :: "string \<Rightarrow> string option" where
  "parse_month s =
    (if length s = 7 \<and> s ! 2 = CHR ''-'' \<and> list_all is_digit (take 2 s @ drop 3 s)
        \<and> 1 \<le> digits_value (take 2 s) \<and> digits_value (take 2 s) \<le> 12
     then Some (take 2 s @ drop 3 s) else None)"

text \<open>The status of the i-th of the deletions, of which the first \<open>finished\<close> succeed.\<close>
definition deletion_status :: "nat \<Rightarrow> nat \<Rightarrow> bool \<Rightarrow> string" where
  "deletion_status finished i hit =
    (if finished \<le> i then ''FAILED'' else if hit then ''SUCCESS'' else ''NOT_FOUND'')"

text \<open>DeletePAOCashAccountRepoTracked: four deletions in a transaction and its commit, of which the first \<open>finished\<close>
  succeed; the statuses are those of the deletions.\<close>
definition DeletePAOCashAccountRepoTracked ::
  "nat \<Rightarrow> int \<Rightarrow> string \<Rightarrow> string \<Rightarrow> 'f ma_db \<Rightarrow> bool \<times> (string \<times> string \<times> string \<times> string) \<times> 'f ma_db"
where
  "DeletePAOCashAccountRepoTracked finished office ddo monthYear db =
    (case parse_month monthYear of
       None \<Rightarrow> (False, (''FAILED'', ''FAILED'', ''FAILED'', ''FAILED''), db)
     | Some period \<Rightarrow>
         let arrived = (\<lambda>k. k = (office, monthYear)); key = ddo @ period;
             ofSheet = (\<lambda>t. bsDdo t = ddo \<and> bsMonth t = period)
         in (5 \<le> finished,
             (deletion_status finished 0 (list_ex arrived (ma_received db)),
              deletion_status finished 1 (list_ex (\<lambda>d. mdKey d = key) (ma_details db)),
              deletion_status finished 2 (list_ex (\<lambda>m. mm_key m = key) (ma_main db)),
              deletion_status finished 3 (list_ex ofSheet (ma_sheets db))),
             if 5 \<le> finished then
               db\<lparr>ma_received := filter (Not \<circ> arrived) (ma_received db),
                  ma_details := filter (\<lambda>d. mdKey d \<noteq> key) (ma_details db),
                  ma_main := filter (\<lambda>m. mm_key m \<noteq> key) (ma_main db),
                  ma_sheets := filter (Not \<circ> ofSheet) (ma_sheets db)\<rparr>
             else db))"

text \<open>What the service of the sub accounts answers, read as the handler does.\<close>
definition subaccounts_status :: "string option \<Rightarrow> string" where
  "subaccounts_status answer =
    (if answer = Some ''200'' then ''SUCCESS'' else if answer = Some ''404'' then ''NOT_FOUND'' else ''FAILED'')"

text \<open>The service is asked, whatever it answers the deletion is tried, whatever comes of it a row is kept when the
  insertion succeeds, and the answer is the same.  None is an answer without a status that is a text.\<close>
definition CashAccountReversionHandler ::
  "(int \<times> string \<Rightarrow> string option) \<Rightarrow> nat \<Rightarrow> bool \<Rightarrow> CashAccountReversionRequest option \<Rightarrow> 'f ma_db
    \<Rightarrow> pfms_reply \<times> (int \<times> string) list \<times> 'f ma_db"
where
  "CashAccountReversionHandler subaccounts finished inserted body db =
    (case body of None \<Rightarrow> (PBinding, [], db)
     | Some req \<Rightarrow>
         if caOfficeID req = 0 \<or> caRequestEmployeeID req = 0 \<or> \<not> given (caDDOCode req) \<or> \<not> given (caPeriod req) then
           (PValidation, [], db)
         else if parse_month (caPeriod req) = None then (PError 400 ''Invalid period format. Use MM-YYYY'', [], db)
         else
           let answer = subaccounts (caOfficeID req, caPeriod req);
               (deleted, (kafka, detail, main, broad), db') =
                 DeletePAOCashAccountRepoTracked finished (caOfficeID req) (caDDOCode req) (caPeriod req) db
           in (PUpdated, [(caOfficeID req, caPeriod req)],
               if inserted then db'\<lparr>ma_reversions := ma_reversions db' @
                 [\<lparr>mrOffice = caOfficeID req, mrEmployee = caRequestEmployeeID req, mrDdo = caDDOCode req,
                   mrPeriod = caPeriod req, mrRemark = caRemark req, mrSubaccounts = subaccounts_status answer,
                   mrKafka = kafka, mrDetail = detail, mrMain = main, mrBroad = broad,
                   mrFinal = (if deleted then ''SUCCESS'' else ''FAILED'')\<rparr>]\<rparr>
               else db'))"

subsection \<open>What a batch does\<close>

lemma run_batch_append:
  "run_batch (ss @ ts) db = (case run_batch ss db of Inl e \<Rightarrow> Inl e | Inr db' \<Rightarrow> run_batch ts db')"
  by (induction ss arbitrary: db) (auto split: sum.splits)

lemma run_batch_concat:
  "run_batch (concat (map f (x # xs))) db =
    (case run_batch (f x) db of Inl e \<Rightarrow> Inl e | Inr db' \<Rightarrow> run_batch (concat (map f xs)) db')"
  by (simp add: run_batch_append)

text \<open>The main table has the key of a month in the form both handlers give it.\<close>
definition keyed :: "'f ma_db \<Rightarrow> bool" where
  "keyed db = (distinct (map mm_key (ma_main db)) \<and> list_all (\<lambda>m. mm_key m = mm_ddo m @ mm_period m) (ma_main db)
    \<and> list_all (\<lambda>d. mdKey d \<in> mm_key ` set (ma_main db)) (ma_details db))"

lemma month_keys:
  "list_all (\<lambda>m. mm_key m = mm_ddo m @ mm_period m) rows \<Longrightarrow>
    map mm_key (update_where (is_month r) (verified_month now flag r) rows) = map mm_key rows"
  by (induction rows) (auto simp: update_where_def verified_month_def is_month_def)

definition month_updated :: "gtime \<Rightarrow> bool \<Rightarrow> 'f PfmsVerifiedMonthly \<Rightarrow> 'f ma_db \<Rightarrow> 'f ma_db" where
  "month_updated now flag r db = db\<lparr>ma_main := update_where (is_month r) (verified_month now flag r) (ma_main db)\<rparr>"

lemma update_month_keyed:
  assumes "keyed db"
  shows "update_month as_bool now r db =
    (case as_bool (vmStatus r) of None \<Rightarrow> Inl ''22P02'' | Some flag \<Rightarrow> Inr (month_updated now flag r db))"
  and "keyed (month_updated now flag r db)"
proof -
  let ?rows = "\<lambda>flag. update_where (is_month r) (verified_month now flag r) (ma_main db)"
  have keys: "map mm_key (?rows flag) = map mm_key (ma_main db)" for flag
    using assms by (intro month_keys) (simp add: keyed_def)
  hence key_set: "mm_key ` set (?rows flag) = mm_key ` set (ma_main db)" for flag
    by (metis set_map)
  show "update_month as_bool now r db =
      (case as_bool (vmStatus r) of None \<Rightarrow> Inl ''22P02'' | Some flag \<Rightarrow> Inr (month_updated now flag r db))"
    using assms by (simp add: update_month_def month_updated_def keyed_def keys key_set Let_def split: option.split)
  have "list_all (\<lambda>m. mm_key m = mm_ddo m @ mm_period m) (?rows flag)"
    using assms by (auto simp: keyed_def list_all_iff update_where_def verified_month_def is_month_def)
  thus "keyed (month_updated now flag r db)"
    using assms by (simp add: keyed_def month_updated_def keys key_set)
qed

text \<open>All items are of one office and one month, as in the list that is shown for verification.\<close>
definition same_month :: "'f PfmsVerifiedMonthly list \<Rightarrow> bool" where
  "same_month rs = list_all (\<lambda>b. vmDdoCode b = vmDdoCode (hd rs) \<and> vmPeriod b = vmPeriod (hd rs)) rs"

abbreviation request_key :: "'f PfmsVerifiedMonthly \<Rightarrow> string" where
  "request_key b \<equiv> vmDdoCode b @ vmPeriod b"

text \<open>The details of a request go in when their month has been received and none of their heads is there.\<close>
lemma insert_details:
  assumes "keyed db" and "distinct (map detail_key (ma_details db))"
    and "list_all (\<lambda>b. request_key b \<in> mm_key ` set (ma_main db)) rs"
  shows "run_batch (map insert_detail rs) db =
    (if distinct (map detail_key (ma_details db @ map month_detail rs)) then
       Inr (db\<lparr>ma_details := ma_details db @ map month_detail rs\<rparr>)
     else Inl ''23505'')"
  using assms
proof (induction rs arbitrary: db)
  case (Cons b rs)
  let ?db = "db\<lparr>ma_details := ma_details db @ [month_detail b]\<rparr>"
  have received: "mdKey (month_detail b) \<in> mm_key ` set (ma_main db)"
    using Cons.prems(3) by (simp add: month_detail_def)
  show ?case
  proof (cases "detail_key (month_detail b) \<in> detail_key ` set (ma_details db)")
    case True
    thus ?thesis by (auto simp: insert_detail_def insert_row_def)
  next
    case False
    have "insert_detail b db = Inr ?db"
      using False received by (simp add: insert_detail_def insert_row_def)
    moreover have "keyed ?db" "distinct (map detail_key (ma_details ?db))"
      using Cons.prems(1,2) False received by (auto simp: keyed_def)
    ultimately show ?thesis using Cons.IH [of ?db] Cons.prems(3) by simp
  qed
qed simp

lemma insert_details_unreceived:
  assumes "keyed db" and "request_key b \<notin> mm_key ` set (ma_main db)"
  shows "run_batch (map insert_detail (b # rs)) db = Inl ''23503''"
proof -
  have "detail_key (month_detail b) \<notin> detail_key ` set (ma_details db)"
    using assms by (auto simp: keyed_def list_all_iff detail_key_def month_detail_def)
  thus ?thesis using assms(2) by (simp add: insert_detail_def insert_row_def month_detail_def)
qed

subsection \<open>What the statements of a sheet do\<close>

abbreviation has_sheet :: "'f PfmsVerifiedMonthly \<Rightarrow> bool" where
  "has_sheet b \<equiv> take 4 (vmHoa b) \<in> set sheet_heads"

lemma sheet_balance_iff: "(sheet_balance F head = None) = (head \<notin> set sheet_heads)"
  by (auto simp: sheet_balance_def sheet_heads_def)

text \<open>The closing balance follows from the others by the rule of the head.\<close>
definition sheet_balanced :: "'f float64 \<Rightarrow> 'f sheet \<Rightarrow> bool" where
  "sheet_balanced F t = (case sheet_balance F (take 4 (bsHoa t)) of None \<Rightarrow> False
    | Some bal \<Rightarrow> bsClosing t = bal (bsOpening t) (bsCredit t) (bsDebit t))"

text \<open>The sheets after the statements of an item.\<close>
definition sheets_after :: "'f float64 \<Rightarrow> gtime \<Rightarrow> int \<Rightarrow> 'f PfmsVerifiedMonthly \<Rightarrow> 'f sheet list \<Rightarrow> 'f sheet list" where
  "sheets_after F now n b ts =
    (case sheet_balance F (take 4 (vmHoa b)) of None \<Rightarrow> ts
     | Some bal \<Rightarrow> (let ts' = ts @ [sheet_row F now b]
         in map (carry_sheet bal (lag_closing F n (vmHoa b) (vmDdoCode b) ts') b) ts'))"

lemma sheet_statements_run:
  "run_batch (sheet_statements F now n b) db =
    (if has_sheet b \<and> sheet_key (sheet_row F now b) \<in> sheet_key ` set (ma_sheets db) then Inl ''23505''
     else Inr (db\<lparr>ma_sheets := sheets_after F now n b (ma_sheets db)\<rparr>))"
  using sheet_balance_iff [of F "take 4 (vmHoa b)"]
  by (auto simp: sheet_statements_def sheets_after_def insert_sheet_def insert_row_def carry_forward_def Let_def
      split: option.splits)

lemma carry_sheet_keeps [simp]:
  "sheet_key (carry_sheet bal lag b t) = sheet_key t" "bsCredit (carry_sheet bal lag b t) = bsCredit t"
  "bsDebit (carry_sheet bal lag b t) = bsDebit t" "bsMonth (carry_sheet bal lag b t) = bsMonth t"
  "bsHoa (carry_sheet bal lag b t) = bsHoa t" "bsDdo (carry_sheet bal lag b t) = bsDdo t"
  by (simp_all add: carry_sheet_def sheet_key_def split: option.split)

lemma map_carry_sheet [simp]:
  "map sheet_key (map (carry_sheet bal lag b) ts) = map sheet_key ts"
  by (simp add: comp_def)

lemma sheet_key_row [simp]: "sheet_key (sheet_row F now b) = (vmPeriod b, vmHoa b, vmDdoCode b)"
  by (simp add: sheet_key_def sheet_row_def)

lemma sheets_after_keys:
  "map sheet_key (sheets_after F now n b ts) =
    map sheet_key ts @ (if has_sheet b then [(vmPeriod b, vmHoa b, vmDdoCode b)] else [])"
  using sheet_balance_iff [of F "take 4 (vmHoa b)"]
  by (auto simp: sheets_after_def Let_def comp_def split: option.split)

text \<open>The statements of all items.\<close>
lemma sheet_statements_run_all:
  "run_batch (concat (map (sheet_statements F now n) rs)) db =
    (if distinct (map sheet_key (ma_sheets db) @ map (\<lambda>b. (vmPeriod b, vmHoa b, vmDdoCode b)) (filter has_sheet rs)) then
       Inr (db\<lparr>ma_sheets := fold (sheets_after F now n) rs (ma_sheets db)\<rparr>)
     else Inl ''23505'')"
  if "distinct (map sheet_key (ma_sheets db))"
  using that
proof (induction rs arbitrary: db)
  case (Cons b rs)
  let ?db = "db\<lparr>ma_sheets := sheets_after F now n b (ma_sheets db)\<rparr>"
  show ?case
  proof (cases "has_sheet b \<and> sheet_key (sheet_row F now b) \<in> sheet_key ` set (ma_sheets db)")
    case True
    have bad: "\<not> distinct (map sheet_key (ma_sheets db) @ map (\<lambda>b. (vmPeriod b, vmHoa b, vmDdoCode b)) (filter has_sheet (b # rs)))"
      using True by auto
    thus ?thesis using True Cons.prems by (simp only: run_batch_concat sheet_statements_run) simp
  next
    case False
    have "distinct (map sheet_key (ma_sheets ?db))"
      using Cons.prems False by (auto simp: sheets_after_keys)
    note Cons.IH [OF this]
    thus ?thesis using False Cons.prems
      by (simp only: run_batch_concat sheet_statements_run) (auto simp: sheets_after_keys)
  qed
qed simp


lemma lag_closing_months:
  "map fst (lag_closing F n hoa ddo ts) =
    map bsMonth (sort_key month_number (filter (\<lambda>t. bsHoa t = hoa \<and> bsDdo t = ddo \<and> month_number t \<le> n) ts))"
  by (simp add: lag_closing_def Let_def map_fst_zip_take)

lemma sheets_after_balanced:
  assumes "list_all (sheet_balanced F) ts" and "year_number (vmPeriod b) = n"
  shows "list_all (sheet_balanced F) (sheets_after F now n b ts)"
proof (cases "sheet_balance F (take 4 (vmHoa b))")
  case (Some bal)
  let ?ts = "ts @ [sheet_row F now b]"
  let ?lag = "lag_closing F n (vmHoa b) (vmDdoCode b) ?ts"
  have "sheet_balanced F (carry_sheet bal ?lag b t)" if "t \<in> set ts" for t
    using assms(1) that Some by (auto simp: list_all_iff carry_sheet_def sheet_balanced_def split: option.split)
  moreover have "vmPeriod b \<in> set (map fst ?lag)"
    unfolding lag_closing_months using assms(2)
    by (auto simp: sheet_row_def month_number_def intro!: image_eqI [of _ bsMonth "sheet_row F now b"])
  hence "map_of ?lag (vmPeriod b) \<noteq> None" by (simp add: map_of_eq_None_iff)
  hence "sheet_balanced F (carry_sheet bal ?lag b (sheet_row F now b))"
    using Some assms(2) by (auto simp: carry_sheet_def sheet_row_def sheet_balanced_def month_number_def)
  ultimately show ?thesis
    by (auto simp: sheets_after_def Some Let_def list_all_iff)
qed (use assms in \<open>simp add: sheets_after_def\<close>)

subsection \<open>The sheet of one head in one office\<close>

definition book :: "string \<Rightarrow> string \<Rightarrow> 'f sheet list \<Rightarrow> 'f sheet list" where
  "book hoa ddo ts = filter (\<lambda>t. bsHoa t = hoa \<and> bsDdo t = ddo) ts"

text \<open>The closing balance of the latest month of a book up to n, in the order of the numbers.\<close>
definition latest_closing :: "'f float64 \<Rightarrow> int \<Rightarrow> 'f sheet list \<Rightarrow> 'f" where
  "latest_closing F n bk = (let ts = sort_key month_number (filter (\<lambda>t. month_number t \<le> n) bk)
    in if ts = [] then fzero F else bsClosing (last ts))"

lemma insort_key_snoc: "k x \<le> k y \<Longrightarrow> insort_key k x (zs @ [y]) = insort_key k x zs @ [y]"
  by (induction zs) auto

lemma sort_key_snoc: "\<forall>x\<in>set xs. k x \<le> k y \<Longrightarrow> sort_key k (xs @ [y]) = sort_key k xs @ [y]"
  by (induction xs) (auto simp: insort_key_snoc)

lemma map_of_lag:
  "m r \<notin> m ` set ts \<Longrightarrow>
    map_of (zip (map m (ts @ [r])) (z # map c (ts @ [r]))) (m r) = Some (if ts = [] then z else c (last ts))"
  by (induction ts arbitrary: z) auto

lemma lag_of_last:
  assumes "\<forall>t\<in>set (book (bsHoa r) (bsDdo r) ts). month_number t \<noteq> month_number r"
  shows "map_of (lag_closing F (month_number r) (bsHoa r) (bsDdo r) (ts @ [r])) (bsMonth r) =
    Some (latest_closing F (month_number r) (book (bsHoa r) (bsDdo r) ts))"
proof -
  let ?up = "filter (\<lambda>t. month_number t \<le> month_number r) (book (bsHoa r) (bsDdo r) ts)"
  have "filter (\<lambda>t. bsHoa t = bsHoa r \<and> bsDdo t = bsDdo r \<and> month_number t \<le> month_number r) (ts @ [r]) = ?up @ [r]"
    by (simp add: book_def conj_ac)
  moreover have "sort_key month_number (?up @ [r]) = sort_key month_number ?up @ [r]"
    by (rule sort_key_snoc) simp
  moreover have new: "bsMonth r \<notin> bsMonth ` set (sort_key month_number ?up)"
    using assms by (auto simp: month_number_def)
  note map_of_lag [OF new, of "fzero F" bsClosing]
  ultimately show ?thesis
    unfolding lag_closing_def latest_closing_def Let_def by simp
qed

lemma book_after_other:
  "vmHoa b \<noteq> hoa \<or> vmDdoCode b \<noteq> ddo \<Longrightarrow> book hoa ddo (sheets_after F now n b ts) = book hoa ddo ts"
proof -
  assume other: "vmHoa b \<noteq> hoa \<or> vmDdoCode b \<noteq> ddo"
  have "book hoa ddo (map (carry_sheet bal lag b) xs) = book hoa ddo xs" for bal lag xs
    using other by (induction xs) (auto simp: book_def carry_sheet_def split: option.split)
  moreover have "book hoa ddo (xs @ [sheet_row F now b]) = book hoa ddo xs" for xs
    using other by (simp add: book_def sheet_row_def)
  ultimately show ?thesis by (simp add: sheets_after_def Let_def split: option.split del: map_append)
qed

text \<open>The row of an item, carried forward from the book it joins.\<close>
definition carried_row :: "'f float64 \<Rightarrow> gtime \<Rightarrow> 'f PfmsVerifiedMonthly \<Rightarrow> 'f sheet list \<Rightarrow> 'f sheet" where
  "carried_row F now b bk =
    (let prev = latest_closing F (year_number (vmPeriod b)) bk
     in (sheet_row F now b)\<lparr>bsOpening := prev,
          bsClosing := (case sheet_balance F (take 4 (vmHoa b)) of None \<Rightarrow> fzero F
            | Some bal \<Rightarrow> bal prev (vmReceipt b) (vmPayment b))\<rparr>)"

lemma book_after_own:
  assumes "has_sheet b" and "\<forall>t\<in>set (book (vmHoa b) (vmDdoCode b) ts). month_number t \<noteq> year_number (vmPeriod b)"
  shows "book (vmHoa b) (vmDdoCode b) (sheets_after F now (year_number (vmPeriod b)) b ts) =
    book (vmHoa b) (vmDdoCode b) ts @ [carried_row F now b (book (vmHoa b) (vmDdoCode b) ts)]"
proof -
  obtain bal where bal: "sheet_balance F (take 4 (vmHoa b)) = Some bal"
    using assms(1) sheet_balance_iff [of F "take 4 (vmHoa b)"] by auto
  let ?r = "sheet_row F now b"
  have r: "bsHoa ?r = vmHoa b" "bsDdo ?r = vmDdoCode b" "month_number ?r = year_number (vmPeriod b)" "bsMonth ?r = vmPeriod b"
    by (simp_all add: sheet_row_def month_number_def)
  let ?lag = "lag_closing F (year_number (vmPeriod b)) (vmHoa b) (vmDdoCode b) (ts @ [?r])"
  have "map_of ?lag (vmPeriod b) = Some (latest_closing F (year_number (vmPeriod b)) (book (vmHoa b) (vmDdoCode b) ts))"
    using lag_of_last [of ?r ts F] assms(2) by (simp add: r)
  hence "carry_sheet bal ?lag b ?r = carried_row F now b (book (vmHoa b) (vmDdoCode b) ts)"
    by (simp add: carry_sheet_def carried_row_def r bal Let_def) (simp add: sheet_row_def)
  moreover have "book (vmHoa b) (vmDdoCode b) (map (carry_sheet bal lag b) ts) = book (vmHoa b) (vmDdoCode b) ts" for lag
    using assms(2) by (induction ts) (auto simp: book_def carry_sheet_def split: if_splits option.split)
  ultimately show ?thesis
    by (simp add: sheets_after_def bal Let_def) (simp add: book_def r carried_row_def Let_def)
qed

subsection \<open>Periods\<close>

lemma foldl_digits: "foldl (\<lambda>n c. 10 * n + f c) m t = m * 10 ^ length t + foldl (\<lambda>n c. 10 * n + f c) (0::nat) t"
  by (induction t rule: rev_induct) (simp_all add: add_mult_distrib2)

lemma digits_value_append: "digits_value (s @ t) = digits_value s * 10 ^ length t + digits_value t"
  unfolding digits_value_def foldl_append by (rule foldl_digits)

lemma digits_value_less: "list_all is_digit s \<Longrightarrow> digits_value s < 10 ^ length s"
proof (induction s rule: rev_induct)
  case (snoc c s)
  hence "digits_value s + 1 \<le> 10 ^ length s" by simp
  moreover have "code c - 48 \<le> 9" using snoc.prems by (auto simp: is_digit_def)
  moreover have "digits_value [c] = code c - 48" by (simp add: digits_value_def)
  ultimately show ?case by (simp add: digits_value_append)
qed (simp add: digits_value_def)

text \<open>The month may carry a sign, the year may not.\<close>
lemma ValidatePeriod_digits:
  assumes "ValidatePeriod s"
  shows "length s = 6" and "Atoi_ok s"
proof -
  show six: "length s = 6" using assms by (simp add: ValidatePeriod_def)
  obtain a b rest where s: "s = a # b # rest" "length rest = 4"
    using six by (auto simp: length_Suc_conv numeral_eq_Suc)
  have year: "Atoi_ok rest" "1900 \<le> year_number rest" and month: "Atoi_ok [a, b]"
    using assms by (auto simp: ValidatePeriod_def s)
  have "list_all is_digit rest"
  proof (cases rest)
    case (Cons c cs)
    show ?thesis
    proof (cases "c = CHR ''-'' \<or> c = CHR ''+''")
      case True
      have "list_all is_digit cs" "length cs = 3"
        using True year(1) s(2) by (auto simp: Cons Atoi_ok_def Let_def)
      hence "digits_value cs < 1000" using digits_value_less [of cs] by simp
      hence "year_number rest < 1900" using True by (auto simp: Cons year_number_def Let_def)
      thus ?thesis using year(2) by simp
    qed (use year(1) in \<open>simp add: Cons Atoi_ok_def\<close>)
  qed (use s in simp)
  thus "Atoi_ok s" using month by (auto simp: s Atoi_ok_def Let_def split: if_splits)
qed

text \<open>The number of a period orders the months of a year, and puts every January before every February.\<close>
lemma period_number:
  assumes "list_all is_digit p" and "length p = 6"
  shows "year_number p = 10000 * int (digits_value (take 2 p)) + int (digits_value (drop 2 p))"
proof -
  obtain c cs where p: "p = c # cs" using assms(2) by (cases p) auto
  have "c \<noteq> CHR ''-'' \<and> c \<noteq> CHR ''+''" using assms(1) by (auto simp: p is_digit_def)
  hence "year_number p = int (digits_value p)" using assms(1) by (auto simp: p year_number_def Let_def)
  also have "digits_value p = digits_value (take 2 p @ drop 2 p)" by simp
  also have "\<dots> = digits_value (take 2 p) * 10 ^ length (drop 2 p) + digits_value (drop 2 p)"
    by (rule digits_value_append)
  finally show ?thesis using assms(2) by simp
qed

subsection \<open>What a verification stores\<close>

definition sheet_line :: "'f sheet \<Rightarrow> (string \<times> string) \<times> 'f \<times> 'f" where
  "sheet_line t = ((bsDdo t @ bsMonth t, bsHoa t), bsCredit t, bsDebit t)"

definition detail_line :: "'f md_row \<Rightarrow> (string \<times> string) \<times> 'f \<times> 'f" where
  "detail_line d = (detail_key d, mdReceipt d, mdPayment d)"

definition sheet_details :: "'f md_row list \<Rightarrow> 'f md_row list" where
  "sheet_details ds = filter (\<lambda>d. take 4 (mdHoa d) \<in> set sheet_heads) ds"

text \<open>Beside the constraints of the database: the sheets are the details of their heads, in the same order, and every
  sheet balances.\<close>
definition monthly_ok :: "'f float64 \<Rightarrow> 'f ma_db \<Rightarrow> bool" where
  "monthly_ok F db = (keyed db \<and> distinct (map detail_key (ma_details db)) \<and> distinct (map sheet_key (ma_sheets db))
    \<and> map sheet_line (ma_sheets db) = map detail_line (sheet_details (ma_details db))
    \<and> list_all (\<lambda>t. length (bsMonth t) = 6) (ma_sheets db) \<and> list_all (sheet_balanced F) (ma_sheets db)
    \<and> distinct (map prao_key (ma_prao_details db)) \<and> distinct (ma_prao_main db))"

definition stored_month ::
  "'f float64 \<Rightarrow> gtime \<Rightarrow> bool \<Rightarrow> 'f PfmsVerifiedMonthly list \<Rightarrow> 'f ma_db \<Rightarrow> 'f ma_db"
where
  "stored_month F now flag rs db =
    (month_updated now flag (hd rs) db)\<lparr>ma_details := ma_details db @ map month_detail rs,
       ma_sheets := fold (sheets_after F now (year_number (vmPeriod (hd rs)))) rs (ma_sheets db)\<rparr>"

abbreviation fresh_details :: "'f PfmsVerifiedMonthly list \<Rightarrow> 'f ma_db \<Rightarrow> bool" where
  "fresh_details rs db \<equiv> distinct (map detail_key (ma_details db @ map month_detail rs))"

lemma detail_key_request [simp]: "detail_key (month_detail b) = (request_key b, vmHoa b)"
  by (simp add: detail_key_def month_detail_def)

lemma fresh_sheets:
  assumes "monthly_ok F db" and "fresh_details rs db"
  shows "distinct (map sheet_key (ma_sheets db) @ map (\<lambda>b. (vmPeriod b, vmHoa b, vmDdoCode b)) (filter has_sheet rs))"
proof -
  have "sheet_key t \<noteq> (vmPeriod b, vmHoa b, vmDdoCode b)" if "t \<in> set (ma_sheets db)" "b \<in> set rs" for t b
  proof
    assume "sheet_key t = (vmPeriod b, vmHoa b, vmDdoCode b)"
    hence "fst (sheet_line t) = (request_key b, vmHoa b)" by (simp add: sheet_key_def sheet_line_def)
    moreover have "sheet_line t \<in> set (map detail_line (sheet_details (ma_details db)))"
      using assms(1) that(1) unfolding monthly_ok_def by (metis image_eqI set_map)
    ultimately have "detail_key (month_detail b) \<in> detail_key ` set (ma_details db)"
      by (force simp: detail_line_def sheet_details_def)
    thus False using assms(2) that(2) by auto
  qed
  moreover have "distinct (map (\<lambda>b. (vmPeriod b, vmHoa b, vmDdoCode b)) (filter has_sheet rs))"
    using assms(2) by (induction rs) (auto simp: distinct_map)
  ultimately show ?thesis
    using assms(1) by (fastforce simp: monthly_ok_def)
qed

lemma PostPfmsMonthlyverifiedRepo_eq:
  assumes "monthly_ok F db" and "same_month rs" and "rs \<noteq> []" and "Atoi_ok (vmPeriod (hd rs))"
    and "list_all (\<lambda>b. 4 \<le> length (vmHoa b)) rs"
  shows "PostPfmsMonthlyverifiedRepo F as_bool Stored now rs db = Some
    (case as_bool (vmStatus (hd rs)) of
       None \<Rightarrow> (PgFailed ''22P02'', db)
     | Some flag \<Rightarrow>
         if request_key (hd rs) \<notin> mm_key ` set (ma_main db) then (PgFailed ''23503'', db)
         else if fresh_details rs db then (Stored, stored_month F now flag rs db)
         else (PgFailed ''23505'', db))"
proof -
  obtain r rest where rs: "rs = r # rest" using assms(3) by (cases rs) auto
  let ?n = "year_number (vmPeriod r)"
  let ?sheets = "concat (map (sheet_statements F now ?n) rs)"
  have repo: "PostPfmsMonthlyverifiedRepo F as_bool Stored now rs db = Some
      (SendBatch Stored (update_month as_bool now r # map insert_detail rs @ ?sheets) db)"
    using assms(4,5) by (simp add: PostPfmsMonthlyverifiedRepo_def rs)
  show ?thesis
  proof (cases "as_bool (vmStatus r)")
    case None
    thus ?thesis unfolding repo by (simp add: SendBatch_def update_month_def rs)
  next
    case (Some flag)
    let ?db = "month_updated now flag r db"
    have keyed: "keyed db" using assms(1) by (simp add: monthly_ok_def)
    have db: "keyed ?db" "update_month as_bool now r db = Inr ?db" "ma_details ?db = ma_details db" "ma_sheets ?db = ma_sheets db"
      using update_month_keyed(1) [OF keyed, where as_bool = as_bool and now = now and r = r] update_month_keyed(2) [OF keyed] Some
      by (simp_all add: month_updated_def)
    have "map mm_key (ma_main ?db) = map mm_key (ma_main db)"
      using keyed by (simp add: month_updated_def month_keys keyed_def)
    hence key_set: "mm_key ` set (ma_main ?db) = mm_key ` set (ma_main db)" by (metis set_map)
    show ?thesis
    proof (cases "request_key r \<in> mm_key ` set (ma_main db)")
      case False
      hence "run_batch (map insert_detail rs) ?db = Inl ''23503''"
        unfolding rs by (intro insert_details_unreceived) (simp_all add: db key_set)
      thus ?thesis using False Some unfolding repo by (simp add: SendBatch_def db run_batch_append) (simp add: rs)
    next
      case True
      have "list_all (\<lambda>b. request_key b \<in> mm_key ` set (ma_main ?db)) rs"
        using assms(2) True unfolding key_set by (simp add: same_month_def rs list_all_iff)
      with db(1) assms(1) have details: "run_batch (map insert_detail rs) ?db =
          (if fresh_details rs db then Inr (?db\<lparr>ma_details := ma_details db @ map month_detail rs\<rparr>) else Inl ''23505'')"
        by (subst insert_details) (simp_all add: db monthly_ok_def)
      show ?thesis
      proof (cases "fresh_details rs db")
        case False
        thus ?thesis using True Some details unfolding repo
          by (simp add: SendBatch_def db run_batch_append del: map_append) (simp add: rs)
      next
        case fresh: True
        let ?db2 = "?db\<lparr>ma_details := ma_details db @ map month_detail rs\<rparr>"
        have "distinct (map sheet_key (ma_sheets ?db2))"
          using assms(1) by (simp add: db monthly_ok_def)
        from sheet_statements_run_all [OF this, of F now ?n rs] fresh_sheets [OF assms(1) fresh]
        have "run_batch ?sheets ?db2 = Inr (stored_month F now flag rs db)"
          by (simp add: db stored_month_def rs del: map_append)
        thus ?thesis using True Some details fresh unfolding repo
          by (simp add: SendBatch_def db run_batch_append del: map_append) (simp add: rs)
      qed
    qed
  qed
qed

lemma fold_sheets_map:
  assumes "\<And>bal lag b t. g (carry_sheet bal lag b t) = g t"
  shows "map g (fold (sheets_after F now n) rs ts) = map g ts @ map (g \<circ> sheet_row F now) (filter has_sheet rs)"
proof (induction rs arbitrary: ts)
  case (Cons b rs)
  have "map g (sheets_after F now n b ts) = map g ts @ (if has_sheet b then [g (sheet_row F now b)] else [])"
    using sheet_balance_iff [of F "take 4 (vmHoa b)"]
    by (auto simp: sheets_after_def Let_def comp_def assms split: option.split)
  with Cons.IH show ?case by simp
qed simp

lemma fold_sheets_balanced:
  "list_all (sheet_balanced F) ts \<Longrightarrow> list_all (\<lambda>b. year_number (vmPeriod b) = n) rs \<Longrightarrow>
    list_all (sheet_balanced F) (fold (sheets_after F now n) rs ts)"
  by (induction rs arbitrary: ts) (auto intro: sheets_after_balanced)

lemma sheet_lines_stored:
  "map sheet_line (fold (sheets_after F now n) rs ts) =
    map sheet_line ts @ map detail_line (sheet_details (map month_detail rs))"
proof -
  have "sheet_line (carry_sheet bal lag b t) = sheet_line t" for bal :: "'a \<Rightarrow> 'a \<Rightarrow> 'a \<Rightarrow> 'a" and lag b t
    by (simp add: sheet_line_def)
  note fold_sheets_map [of sheet_line, OF this]
  moreover have "map (sheet_line \<circ> sheet_row F now) (filter has_sheet rs) = map detail_line (sheet_details (map month_detail rs))"
    by (induction rs) (simp_all add: sheet_details_def sheet_line_def detail_line_def sheet_row_def,
      simp_all add: month_detail_def)
  ultimately show ?thesis by simp
qed

lemma stored_month_ok:
  assumes ok: "monthly_ok F db" and rs: "same_month rs" "list_all (\<lambda>b. length (vmPeriod b) = 6) rs"
    and received: "request_key (hd rs) \<in> mm_key ` set (ma_main db)" and fresh: "fresh_details rs db"
  shows "monthly_ok F (stored_month F now flag rs db)"
proof -
  let ?db = "month_updated now flag (hd rs) db"
  let ?n = "year_number (vmPeriod (hd rs))"
  let ?ts = "fold (sheets_after F now ?n) rs (ma_sheets db)"
  have main: "map mm_key (ma_main ?db) = map mm_key (ma_main db)"
    using ok by (simp add: month_updated_def month_keys keyed_def monthly_ok_def)
  have "keyed ?db" using ok update_month_keyed(2) unfolding monthly_ok_def by blast
  moreover have "list_all (\<lambda>d. mdKey d \<in> mm_key ` set (ma_main ?db)) (map month_detail rs)"
    using rs(1) received arg_cong [OF main, of set] by (auto simp: same_month_def list_all_iff month_detail_def)
  ultimately have "keyed (stored_month F now flag rs db)"
    by (simp add: keyed_def stored_month_def) (simp add: month_updated_def)
  moreover have "map sheet_key ?ts = map sheet_key (ma_sheets db) @ map (\<lambda>b. (vmPeriod b, vmHoa b, vmDdoCode b)) (filter has_sheet rs)"
    by (subst fold_sheets_map) (simp_all add: comp_def)
  hence "distinct (map sheet_key ?ts)" using fresh_sheets [OF ok fresh] by (simp only: )
  moreover have "map bsMonth ?ts = map bsMonth (ma_sheets db) @ map vmPeriod (filter has_sheet rs)"
    by (subst fold_sheets_map) (simp_all add: comp_def sheet_row_def)
  hence "list_all (\<lambda>m. length m = 6) (map bsMonth ?ts)"
    using ok rs(2) by (auto simp: monthly_ok_def list_all_iff)
  hence "list_all (\<lambda>t. length (bsMonth t) = 6) ?ts" by (simp add: list.pred_map comp_def)
  moreover have "list_all (\<lambda>b. year_number (vmPeriod b) = ?n) rs"
    using rs(1) by (simp add: same_month_def list_all_iff)
  hence "list_all (sheet_balanced F) ?ts"
    using ok by (intro fold_sheets_balanced) (simp_all add: monthly_ok_def)
  moreover have "map sheet_line ?ts = map detail_line (sheet_details (ma_details db @ map month_detail rs))"
    using ok by (simp add: sheet_lines_stored monthly_ok_def sheet_details_def)
  ultimately show ?thesis
    using ok fresh by (simp add: monthly_ok_def stored_month_def) (simp add: month_updated_def)
qed

abbreviation empty_month :: "'f PfmsVerifiedMonthly list \<Rightarrow> bool" where
  "empty_month rs \<equiv> length rs = 1 \<and> vmHoa (hd rs) = empty_head"

lemma SendBatch_stored: "SendBatch trouble ss db = (Stored, db') \<Longrightarrow> trouble = Stored \<and> run_batch ss db = Inr db'"
  by (auto simp: SendBatch_def split: if_splits sum.splits)

lemma SendBatch_refused: "SendBatch trouble ss db = (outcome, db') \<Longrightarrow> outcome \<noteq> Stored \<Longrightarrow> db' = db"
  by (auto simp: SendBatch_def split: if_splits sum.splits)

lemma post_refused:
  "PostPfmsMonthlyverifiedRepo F as_bool trouble now rs db = Some (outcome, db') \<Longrightarrow> outcome \<noteq> Stored \<Longrightarrow> db' = db"
  by (auto simp: PostPfmsMonthlyverifiedRepo_def dest: SendBatch_refused split: list.splits if_splits)

lemma post_stored:
  "PostPfmsMonthlyverifiedRepo F as_bool trouble now rs db = Some (Stored, db') \<Longrightarrow>
    trouble = Stored \<and> rs \<noteq> [] \<and> Atoi_ok (vmPeriod (hd rs)) \<and> list_all (\<lambda>b. 4 \<le> length (vmHoa b)) rs"
  by (auto simp: PostPfmsMonthlyverifiedRepo_def dest: SendBatch_stored split: list.splits if_splits)

lemma month_reply_created: "month_reply outcome = PCreated \<longleftrightarrow> outcome = Stored"
  by (cases outcome) auto

lemma monthly_not_created:
  assumes "CreatePfmsMonthlyVerifiedHandler F V account as_bool trouble now body db = (answer, db')" and "answer \<noteq> PCreated"
  shows "db' = db"
proof (cases body)
  case (Some rs)
  consider (refused) "db' = db" | (empty) outcome where
      "SendBatch trouble [update_month as_bool now (hd rs)] db = (outcome, db')" "month_reply outcome = answer"
    | (post) outcome where "PostPfmsMonthlyverifiedRepo F as_bool trouble now rs db = Some (outcome, db')" "month_reply outcome = answer"
    using assms(1) unfolding Some CreatePfmsMonthlyVerifiedHandler_def PostEmptyPfmsMonthlyverifiedRepo_def
    by (auto simp: map_prod_def split: if_splits option.splits prod.splits)
  thus ?thesis
    using assms(2) by cases (auto dest: SendBatch_refused post_refused simp: month_reply_created [symmetric])
qed (use assms in \<open>simp add: CreatePfmsMonthlyVerifiedHandler_def\<close>)

text \<open>What is stored when a verification of a month is created.\<close>
lemma monthly_created:
  assumes ok: "monthly_ok F db" and uniform: "same_month rs"
    and created: "CreatePfmsMonthlyVerifiedHandler F V account as_bool trouble now (Some rs) db = (PCreated, db')"
  shows "\<exists>flag. as_bool (vmStatus (hd rs)) = Some flag \<and> list_all (PfmsVerifiedMonthly_ok V account) rs \<and> rs \<noteq> []
    \<and> (if empty_month rs then db' = month_updated now flag (hd rs) db
       else request_key (hd rs) \<in> mm_key ` set (ma_main db) \<and> fresh_details rs db
         \<and> db' = stored_month F now flag rs db)"
proof -
  have valid: "list_all (PfmsVerifiedMonthly_ok V account) rs"
    using created by (simp add: CreatePfmsMonthlyVerifiedHandler_def split: if_splits)
  show ?thesis
  proof (cases "empty_month rs")
    case True
    hence "SendBatch trouble [update_month as_bool now (hd rs)] db = (Stored, db')"
      using created valid
      by (auto simp: CreatePfmsMonthlyVerifiedHandler_def PostEmptyPfmsMonthlyverifiedRepo_def map_prod_def month_reply_created
          split: prod.splits)
    hence "update_month as_bool now (hd rs) db = Inr db'"
      by (auto dest!: SendBatch_stored split: sum.splits)
    moreover have "keyed db" using ok by (simp add: monthly_ok_def)
    ultimately show ?thesis using True valid by (auto simp: update_month_keyed split: option.splits)
  next
    case False
    hence post: "PostPfmsMonthlyverifiedRepo F as_bool trouble now rs db = Some (Stored, db')"
      using created valid
      by (auto simp: CreatePfmsMonthlyVerifiedHandler_def map_prod_def month_reply_created split: option.splits prod.splits)
    note conds = post_stored [OF post]
    with post PostPfmsMonthlyverifiedRepo_eq [OF ok uniform, of as_bool now] False valid show ?thesis
      by (auto split: option.splits if_splits simp del: map_append)
  qed
qed

subsection \<open>All sequences of calls\<close>

text \<open>The states the handlers lead to, from tables without accounts; accounts and offices come in from outside.\<close>
inductive monthly_reach :: "'f float64 \<Rightarrow> validators \<Rightarrow> 'f ma_db \<Rightarrow> bool" for F V where
  start: "ma_main db = [] \<Longrightarrow> ma_details db = [] \<Longrightarrow> ma_sheets db = [] \<Longrightarrow> ma_prao_details db = [] \<Longrightarrow>
    ma_prao_main db = [] \<Longrightarrow> monthly_reach F V db"
| arrive: "monthly_reach F V db \<Longrightarrow> monthly_reach F V (db\<lparr>ma_received := received, ma_offices := offices\<rparr>)"
| receive: "monthly_reach F V db \<Longrightarrow> monthly_reach F V (snd (UpdateDdoMonthlyHandler trouble pao period db))"
| verify: "monthly_reach F V db \<Longrightarrow> same_month rs \<Longrightarrow>
    monthly_reach F V (snd (CreatePfmsMonthlyVerifiedHandler F V account as_bool trouble now (Some rs) db))"
| send: "monthly_reach F V db \<Longrightarrow> monthly_reach F V (snd (CreatePraoAccountHandler F asked copied recorded request db))"
| revert: "monthly_reach F V db \<Longrightarrow>
    monthly_reach F V (snd (snd (CashAccountReversionHandler subaccounts finished inserted reversion db)))"

lemma received_rows_keyed: "r \<in> set (received_rows pao period db) \<Longrightarrow> mm_key r = mm_ddo r @ mm_period r"
  by (auto simp: received_rows_def Let_def received_row_def)

lemma receive_ok:
  assumes "monthly_ok F db"
  shows "monthly_ok F (snd (UpdateDdoMonthlyHandler trouble pao period db))"
proof (cases "snd (UpdateDdoMonthlyHandler trouble pao period db) = db")
  case False
  let ?rows = "ma_main db @ received_rows pao period db"
  have "distinct (map mm_key ?rows) \<and> snd (UpdateDdoMonthlyHandler trouble pao period db) = db\<lparr>ma_main := ?rows\<rparr>"
    using False by (auto simp: UpdateDdoMonthlyHandler_def GetDDOlistMonthlyupdateRepo_def Let_def split: if_splits)
  thus ?thesis
    using assms by (auto simp: monthly_ok_def keyed_def list_all_iff received_rows_keyed)
qed (use assms in simp)

lemma verify_ok:
  assumes "monthly_ok F db" and "same_month rs"
  shows "monthly_ok F (snd (CreatePfmsMonthlyVerifiedHandler F V account as_bool trouble now (Some rs) db))"
proof -
  obtain answer db' where h: "CreatePfmsMonthlyVerifiedHandler F V account as_bool trouble now (Some rs) db = (answer, db')"
    by fastforce
  show ?thesis
  proof (cases "answer = PCreated")
    case True
    from monthly_created [OF assms h [unfolded True]] obtain flag where
      stored: "list_all (PfmsVerifiedMonthly_ok V account) rs" and
      db': "if empty_month rs then db' = month_updated now flag (hd rs) db
       else request_key (hd rs) \<in> mm_key ` set (ma_main db) \<and> fresh_details rs db \<and> db' = stored_month F now flag rs db"
      by blast
    have six: "list_all (\<lambda>b. length (vmPeriod b) = 6) rs"
      using stored by (auto simp: list_all_iff PfmsVerifiedMonthly_ok_def ValidatePeriod_digits)
    have "monthly_ok F (month_updated now flag (hd rs) db)"
      using assms(1) update_month_keyed(2) [of db now flag "hd rs"]
      by (simp add: monthly_ok_def) (simp add: month_updated_def)
    thus ?thesis
      using db' stored_month_ok [OF assms six] by (auto simp: h split: if_splits)
  next
    case False
    with h assms show ?thesis using monthly_not_created by fastforce
  qed
qed

lemma send_ok:
  assumes "monthly_ok F db"
  shows "monthly_ok F (snd (CreatePraoAccountHandler F asked copied recorded request db))"
proof -
  have "monthly_ok F (snd (PostPraoAccountRepo copied recorded us db))" for us
    using assms by (auto simp: PostPraoAccountRepo_def monthly_ok_def keyed_def insert_row_def Let_def split: sum.splits)
  thus ?thesis
    using assms by (simp add: CreatePraoAccountHandler_def map_prod_def split_beta split: option.split prod.split list.split)
qed

lemma parse_month_length: "parse_month s = Some period \<Longrightarrow> length period = 6"
  by (auto simp: parse_month_def split: if_splits)

lemma delete_ok:
  assumes "monthly_ok F db"
  shows "monthly_ok F (snd (snd (DeletePAOCashAccountRepoTracked finished office ddo monthYear db)))"
proof (cases "parse_month monthYear")
  case (Some period)
  let ?main = "filter (\<lambda>m. mm_key m \<noteq> ddo @ period) (ma_main db)"
  let ?details = "filter (\<lambda>d. mdKey d \<noteq> ddo @ period) (ma_details db)"
  let ?sheets = "filter (\<lambda>t. \<not> (bsDdo t = ddo \<and> bsMonth t = period)) (ma_sheets db)"
  have same: "(bsDdo t = ddo \<and> bsMonth t = period) = (bsDdo t @ bsMonth t = ddo @ period)" if "t \<in> set (ma_sheets db)" for t
    using assms that parse_month_length [OF Some] by (auto simp: monthly_ok_def list_all_iff append_eq_append_conv)
  have "?sheets = filter (\<lambda>t. bsDdo t @ bsMonth t \<noteq> ddo @ period) (ma_sheets db)"
    by (rule filter_cong) (simp_all add: same)
  hence "map sheet_line ?sheets = filter (\<lambda>l. fst (fst l) \<noteq> ddo @ period) (map sheet_line (ma_sheets db))"
    by (simp add: filter_map comp_def sheet_line_def)
  also have "\<dots> = map detail_line (sheet_details ?details)"
    using assms by (simp add: monthly_ok_def filter_map comp_def detail_line_def detail_key_def sheet_details_def conj_commute)
  finally have "map sheet_line ?sheets = map detail_line (sheet_details ?details)" .
  moreover have "distinct (map mm_key ?main)" "distinct (map detail_key ?details)" "distinct (map sheet_key ?sheets)"
    using assms by (simp_all add: monthly_ok_def keyed_def distinct_map_filter)
  ultimately show ?thesis
    using assms by (auto simp: DeletePAOCashAccountRepoTracked_def Some Let_def monthly_ok_def keyed_def list_all_iff comp_def)
qed (use assms in \<open>simp add: DeletePAOCashAccountRepoTracked_def\<close>)

lemma revert_ok:
  assumes "monthly_ok F db"
  shows "monthly_ok F (snd (snd (CashAccountReversionHandler subaccounts finished inserted reversion db)))"
proof -
  have "monthly_ok F (db'\<lparr>ma_reversions := rs\<rparr>) = monthly_ok F db'" for db' rs
    by (simp add: monthly_ok_def keyed_def)
  thus ?thesis
    using assms delete_ok [OF assms]
    by (auto simp: CashAccountReversionHandler_def Let_def split_beta split: option.split)
qed

lemma monthly_reach_ok: "monthly_reach F V db \<Longrightarrow> monthly_ok F db"
proof (induction rule: monthly_reach.induct)
  case (arrive db received offices)
  thus ?case by (simp add: monthly_ok_def keyed_def)
qed (simp_all add: receive_ok verify_ok send_ok revert_ok, simp add: monthly_ok_def keyed_def sheet_details_def)

end
