(* ===== verification/MonthlyProps.thy ===== *)
theory MonthlyProps
  imports MonthlyAccounts
begin

text \<open>
  What holds of the monthly cash accounts: the broad sheet mirrors the accounts along every sequence of
  calls, what the answers of a verification mean, how balances are carried from month to month and where they
  are not, what is sent to the principal accounts office, and what a reversion removes.
\<close>

subsection \<open>Sheets and accounts\<close>


subsection \<open>The answers of a verification\<close>

text \<open>C36: what the answer of a monthly verification means: unless the request is the mark of an empty month, it is created
  exactly when the account of the office and month has been received and none of its heads has a detail yet
  or is in the request twice, it says not received exactly when the account is not there, and already
  verified otherwise; an empty month is always created, received or not, and adds no detail and no sheet.
  Without being created nothing changes.\<close>

theorem monthly_verification_answers:
  assumes "monthly_reach F V db" and "same_month rs" and "rs \<noteq> []"
    and "list_all (PfmsVerifiedMonthly_ok V account) rs" and "list_all (\<lambda>b. 4 \<le> length (vmHoa b)) rs"
    and "as_bool (vmStatus (hd rs)) = Some flag"
    and "CreatePfmsMonthlyVerifiedHandler F V account as_bool Stored now (Some rs) db = (answer, db')"
  shows "answer =
      (if length rs = 1 \<and> vmHoa (hd rs) = empty_head then PCreated
       else if vmDdoCode (hd rs) @ vmPeriod (hd rs) \<notin> mm_key ` set (ma_main db) then PError 409 ''cashaccount not received''
       else if distinct (map detail_key (ma_details db @ map month_detail rs)) then PCreated
       else PError 409 ''cashaccount already verified'')
    \<and> (if answer = PCreated then
         ma_main db' = update_where (is_month (hd rs)) (verified_month now flag (hd rs)) (ma_main db)
         \<and> ma_details db' = ma_details db @ (if length rs = 1 \<and> vmHoa (hd rs) = empty_head then [] else map month_detail rs)
         \<and> ma_prao_details db' = ma_prao_details db \<and> ma_prao_main db' = ma_prao_main db
       else db' = db)"
proof -
  note ok = monthly_reach_ok [OF assms(1)]
  have keyed: "keyed db" using ok by (simp add: monthly_ok_def)
  have "PfmsVerifiedMonthly_ok V account (hd rs)" using assms(3,4) by (cases rs) auto
  hence atoi: "Atoi_ok (vmPeriod (hd rs))" by (simp add: PfmsVerifiedMonthly_ok_def ValidatePeriod_digits)
  show ?thesis
  proof (cases "empty_month rs")
    case True
    thus ?thesis using assms(4,6,7)
      by (auto simp: CreatePfmsMonthlyVerifiedHandler_def PostEmptyPfmsMonthlyverifiedRepo_def SendBatch_def
          update_month_keyed(1) [OF keyed] month_updated_def)
  next
    case False
    thus ?thesis
      using assms(4,6,7) PostPfmsMonthlyverifiedRepo_eq [OF ok assms(2,3) atoi assms(5), of as_bool now]
      by (auto simp: CreatePfmsMonthlyVerifiedHandler_def stored_month_def month_updated_def split: if_splits simp del: map_append)
  qed
qed

subsection \<open>Carrying balances forward\<close>

lemma book_after_all:
  assumes "distinct (map vmHoa rs)" and "list_all (\<lambda>b. vmPeriod b = period \<and> vmDdoCode b = ddo) rs" and "b \<in> set rs"
    and "has_sheet b" and "\<forall>t\<in>set (book (vmHoa b) ddo ts). month_number t \<noteq> year_number period"
  shows "book (vmHoa b) ddo (fold (sheets_after F now (year_number period)) rs ts) =
    book (vmHoa b) ddo ts @ [carried_row F now b (book (vmHoa b) ddo ts)]"
  using assms
proof (induction rs arbitrary: ts)
  case (Cons x xs)
  have others: "book hoa ddo (fold (sheets_after F now (year_number period)) xs ts') = book hoa ddo ts'"
    if "\<forall>y\<in>set xs. vmHoa y \<noteq> hoa" for hoa ts'
    using that by (induction xs arbitrary: ts') (simp_all add: book_after_other)
  show ?case
  proof (cases "x = b")
    case True
    have "vmPeriod b = period" "vmDdoCode b = ddo" using Cons.prems(2) True by auto
    moreover have "vmHoa b \<notin> vmHoa ` set xs" using Cons.prems(1) True by simp
    hence "\<forall>y\<in>set xs. vmHoa y \<noteq> vmHoa b" by (metis image_eqI)
    ultimately show ?thesis
      using Cons.prems True book_after_own [of b ts F now] others [of "vmHoa b"] by simp
  next
    case False
    have "vmHoa x \<noteq> vmHoa b" using False Cons.prems(1,3) by auto
    hence "book (vmHoa b) ddo (sheets_after F now (year_number period) x ts) = book (vmHoa b) ddo ts"
      by (intro book_after_other) simp
    with Cons.IH [of "sheets_after F now (year_number period) x ts"] Cons.prems False show ?thesis by simp
  qed
qed simp

lemma fresh_hoas:
  assumes "fresh_details rs db" and "same_month rs"
  shows "distinct (map vmHoa rs)"
proof -
  have "map detail_key (map month_detail rs) = map (Pair (request_key (hd rs))) (map vmHoa rs)"
    using assms(2) by (simp add: same_month_def list_all_iff)
  hence "distinct (map (Pair (request_key (hd rs))) (map vmHoa rs))"
    using assms(1) by (metis distinct_append map_append)
  thus ?thesis by (rule distinct_map [THEN iffD1, THEN conjunct1])
qed

lemma created_book:
  assumes "monthly_ok F db" and "same_month rs" and "b \<in> set rs" and "has_sheet b"
    and "CreatePfmsMonthlyVerifiedHandler F V account as_bool trouble now (Some rs) db = (PCreated, db')"
    and "\<forall>t\<in>set (book (vmHoa b) (vmDdoCode b) (ma_sheets db)). month_number t \<noteq> year_number (vmPeriod b)"
  shows "book (vmHoa b) (vmDdoCode b) (ma_sheets db') = book (vmHoa b) (vmDdoCode b) (ma_sheets db)
    @ [carried_row F now b (book (vmHoa b) (vmDdoCode b) (ma_sheets db))]"
proof -
  have "\<not> empty_month rs"
    using assms(3,4) by (cases rs) (auto simp: empty_head_def sheet_heads_def)
  with monthly_created [OF assms(1,2,5)] obtain flag where
    stored: "fresh_details rs db" "db' = stored_month F now flag rs db" by auto
  have "vmPeriod b = vmPeriod (hd rs)" "vmDdoCode b = vmDdoCode (hd rs)"
    and same: "list_all (\<lambda>x. vmPeriod x = vmPeriod (hd rs) \<and> vmDdoCode x = vmDdoCode (hd rs)) rs"
    using assms(2,3) by (auto simp: same_month_def list_all_iff)
  with book_after_all [OF fresh_hoas [OF stored(1) assms(2)] same assms(3,4)] assms(6) show ?thesis
    by (simp add: stored(2) stored_month_def)
qed

text \<open>The latest month of a book below n.\<close>
definition month_before :: "int \<Rightarrow> 'f sheet list \<Rightarrow> 'f sheet \<Rightarrow> bool" where
  "month_before n bk p = (p \<in> set bk \<and> month_number p < n
    \<and> (\<forall>q\<in>set bk. month_number q < n \<longrightarrow> month_number q \<le> month_number p))"

lemma latest_closing_before:
  assumes "\<forall>t\<in>set bk. month_number t \<noteq> n"
  shows "if \<exists>t\<in>set bk. month_number t < n then \<exists>p. month_before n bk p \<and> latest_closing F n bk = bsClosing p
    else latest_closing F n bk = fzero F"
proof -
  have "\<forall>t\<in>set bk. (month_number t \<le> n) = (month_number t < n)" using assms by fastforce
  hence eq: "filter (\<lambda>t. month_number t \<le> n) bk = filter (\<lambda>t. month_number t < n) bk" by (intro filter_cong) simp_all
  show ?thesis
  proof (cases "filter (\<lambda>t. month_number t < n) bk = []")
    case False
    note found = last_sort_key [OF False, where k = month_number]
    have "month_before n bk (last (sort_key month_number (filter (\<lambda>t. month_number t < n) bk)))"
      unfolding month_before_def using found(1) found(2) by auto
    moreover have "sort_key month_number (filter (\<lambda>t. month_number t < n) bk) \<noteq> []"
      using False by (simp only: sort_key_Nil not_False_eq_True)
    moreover have "\<exists>t\<in>set bk. month_number t < n" using False by (auto simp: filter_empty_conv)
    ultimately show ?thesis by (auto simp: latest_closing_def Let_def eq)
  qed (auto simp: latest_closing_def Let_def eq filter_empty_conv)
qed

text \<open>C37: a verification carries the balance forward: for each item of the eight groups of heads the sheet of its head and
  office gets one row, for the month of the request with its receipt and payment; the row opens with the closing
  balance of the latest earlier month, in the order of the months read as numbers, or with 0 when there is
  none, and closes by the rule of its group.  Rows that were there stay as they are.\<close>

theorem broad_sheet_carries_forward:
  assumes "monthly_reach F V db" and "same_month rs" and "b \<in> set rs" and "take 4 (vmHoa b) \<in> set sheet_heads"
    and "CreatePfmsMonthlyVerifiedHandler F V account as_bool trouble now (Some rs) db = (PCreated, db')"
    and "bk = book (vmHoa b) (vmDdoCode b) (ma_sheets db)"
    and "\<forall>t\<in>set bk. month_number t \<noteq> year_number (vmPeriod b)"
  shows "\<exists>t bal. book (vmHoa b) (vmDdoCode b) (ma_sheets db') = bk @ [t]
    \<and> bsMonth t = vmPeriod b \<and> bsCredit t = vmReceipt b \<and> bsDebit t = vmPayment b
    \<and> sheet_balance F (take 4 (vmHoa b)) = Some bal \<and> bsClosing t = bal (bsOpening t) (vmReceipt b) (vmPayment b)
    \<and> (if \<exists>p\<in>set bk. month_number p < year_number (vmPeriod b) then
         \<exists>p. month_before (year_number (vmPeriod b)) bk p \<and> bsOpening t = bsClosing p
       else bsOpening t = fzero F)"
proof -
  obtain bal where bal: "sheet_balance F (take 4 (vmHoa b)) = Some bal"
    using assms(4) sheet_balance_iff [of F "take 4 (vmHoa b)"] by auto
  let ?t = "carried_row F now b bk"
  have rows: "book (vmHoa b) (vmDdoCode b) (ma_sheets db') = bk @ [?t]"
    using created_book [OF monthly_reach_ok [OF assms(1)] assms(2-5)] assms(6,7) by simp
  have "bsMonth ?t = vmPeriod b" "bsCredit ?t = vmReceipt b" "bsDebit ?t = vmPayment b"
    and closing: "bsClosing ?t = bal (bsOpening ?t) (vmReceipt b) (vmPayment b)"
    by (simp_all add: carried_row_def bal Let_def) (simp_all add: sheet_row_def)
  moreover have opens: "bsOpening ?t = latest_closing F (year_number (vmPeriod b)) bk"
    by (simp add: carried_row_def Let_def)
  note latest_closing_before [OF assms(7), of F, folded opens]
  ultimately show ?thesis
    by (intro exI [of _ ?t] exI [of _ bal] conjI rows bal closing)
qed


subsection \<open>What is sent on\<close>

lemma sum_of_whole: "sum_of whole_amounts xs = sum_list xs"
  by (induction xs rule: rev_induct) (simp_all add: sum_of_def whole_amounts_def)

lemma sum_by_group:
  "finite A \<Longrightarrow> f ` set xs \<subseteq> A \<Longrightarrow> (\<Sum>h\<in>A. sum_list (map g (filter (\<lambda>x. f x = h) xs))) = (sum_list (map g xs) :: int)"
proof (induction xs)
  case (Cons x xs)
  have "(\<Sum>h\<in>A. sum_list (map g (filter (\<lambda>y. f y = h) (x # xs))))
      = (\<Sum>h\<in>A. (if h = f x then g x else 0) + sum_list (map g (filter (\<lambda>y. f y = h) xs)))"
    by (rule sum.cong) auto
  also have "\<dots> = g x + sum_list (map g xs)"
    using Cons by (simp add: sum.distrib)
  finally show ?case by simp
qed simp

text \<open>All details of the accounts of an office of accounts, with nothing left out.\<close>
definition details_of :: "string \<Rightarrow> string \<Rightarrow> 'f ma_db \<Rightarrow> 'f md_row list" where
  "details_of pao period db =
    concat (map (\<lambda>a. filter (\<lambda>d. mdKey d = mm_key a) (ma_details db)) (of_pao pao period (ma_main db)))"

lemma account_lines_details:
  assumes "\<And>d. feq F (total_receipt F d) (fzero F) \<Longrightarrow> feq F (total_payment F d) (fzero F) \<Longrightarrow> g d = (0::int)"
  shows "sum_list (map (g \<circ> snd) (account_lines F pao period db)) = sum_list (map g (details_of pao period db))"
proof -
  have drop: "sum_list (map (g \<circ> snd) (filter (\<lambda>(a, d). \<not> (feq F (total_receipt F d) (fzero F) \<and> feq F (total_payment F d) (fzero F))) ls))
      = sum_list (map (g \<circ> snd) ls)" for ls :: "('a mm_row \<times> 'a md_row) list"
    by (induction ls) (auto simp: assms)
  have "map snd (concat (map (\<lambda>a. map (Pair a) (h a)) rows)) = concat (map h rows)"
    for h :: "'a mm_row \<Rightarrow> 'a md_row list" and rows
    by (induction rows) (simp_all add: comp_def)
  thus ?thesis unfolding account_lines_def drop details_of_def by (simp flip: map_map)
qed

lemma prao_sums:
  assumes "\<And>h. g (prao_row whole_amounts pao period ls h) = sum_list (map (k \<circ> snd) (filter (\<lambda>l. mdHoa (snd l) = h) ls))"
  shows "sum_list (map g (map (prao_row whole_amounts pao period ls) (remdups (map (mdHoa \<circ> snd) ls)))) = (sum_list (map (k \<circ> snd) ls) :: int)"
proof -
  have "sum_list (map g (map (prao_row whole_amounts pao period ls) (remdups (map (mdHoa \<circ> snd) ls))))
      = (\<Sum>h\<in>set (map (mdHoa \<circ> snd) ls). sum_list (map (k \<circ> snd) (filter (\<lambda>l. mdHoa (snd l) = h) ls)))"
    by (simp add: assms comp_def sum_list_distinct_conv_sum_set)
  also have "\<dots> = sum_list (map (k \<circ> snd) ls)"
    by (rule sum_by_group) auto
  finally show ?thesis .
qed

lemma prao_reply_created: "prao_reply outcome = PCreated \<longleftrightarrow> outcome = Stored"
  by (cases outcome) auto

lemma PostPraoAccountRepo_stored:
  "PostPraoAccountRepo copied recorded us db = (Stored, db') \<Longrightarrow>
    (ppPao (hd us), ppPeriod (hd us)) \<notin> set (ma_prao_main db)
    \<and> db' = db\<lparr>ma_prao_details := ma_prao_details db @ us,
        ma_prao_main := ma_prao_main db @ [(ppPao (hd us), ppPeriod (hd us))]\<rparr>"
  by (auto simp: PostPraoAccountRepo_def insert_row_def Let_def split: if_splits)

text \<open>C39: what is sent to the principal accounts office loses nothing: when the submission of a month is created, there
  are accounts and all are verified; one row is stored for each head, and the receipts and payments of the rows
  add up to those of all details of all accounts of the office of accounts, transfer entries included; the
  submission is recorded once, unless there is no row.\<close>

theorem prao_accounts_lose_nothing:
  assumes "CreatePraoAccountHandler whole_amounts asked copied recorded (Some (pao, period)) db = (PCreated, db')"
  shows "of_pao pao period (ma_main db) \<noteq> [] \<and> list_all mm_verified (of_pao pao period (ma_main db))
    \<and> (\<exists>us. ma_prao_details db' = ma_prao_details db @ us \<and> distinct (map ppHoa us)
        \<and> sum_list (map ppReceipt us) = (\<Sum>d\<leftarrow>details_of pao period db. mdReceipt d + mdTeReceipt d)
        \<and> sum_list (map ppPayment us) = (\<Sum>d\<leftarrow>details_of pao period db. mdPayment d + mdTePayment d)
        \<and> ma_prao_main db' = ma_prao_main db @ (if us = [] then [] else [(pao, period)])
        \<and> (us = [] \<or> (pao, period) \<notin> set (ma_prao_main db)))"
proof -
  let ?us = "GetPostPraoAccountRepo whole_amounts pao period db"
  let ?ls = "account_lines whole_amounts pao period db"
  have checked: "CheckCashAccountVerificationRepo pao period db"
    and posted: "if ?us = [] then db' = db else PostPraoAccountRepo copied recorded ?us db = (Stored, db')"
    using assms by (auto simp: CreatePraoAccountHandler_def map_prod_def prao_reply_created split: if_splits list.splits prod.splits)
  have verified: "of_pao pao period (ma_main db) \<noteq> [] \<and> list_all mm_verified (of_pao pao period (ma_main db))"
    using checked by (simp add: CheckCashAccountVerificationRepo_def Let_def list_all_iff) (metis length_filter_less nat_neq_iff)
  have us: "?us = map (prao_row whole_amounts pao period ?ls) (remdups (map (mdHoa \<circ> snd) ?ls))"
    by (simp add: GetPostPraoAccountRepo_def Let_def)
  have "sum_list (map ppReceipt ?us) = sum_list (map (total_receipt whole_amounts \<circ> snd) ?ls)"
    unfolding us by (rule prao_sums) (simp add: prao_row_def Let_def sum_of_whole)
  also have "\<dots> = sum_list (map (total_receipt whole_amounts) (details_of pao period db))"
    by (rule account_lines_details) (simp add: whole_amounts_def)
  finally have receipts: "sum_list (map ppReceipt ?us) = (\<Sum>d\<leftarrow>details_of pao period db. mdReceipt d + mdTeReceipt d)"
    by (simp add: total_receipt_def [abs_def] whole_amounts_def)
  have "sum_list (map ppPayment ?us) = sum_list (map (total_payment whole_amounts \<circ> snd) ?ls)"
    unfolding us by (rule prao_sums) (simp add: prao_row_def Let_def sum_of_whole)
  also have "\<dots> = sum_list (map (total_payment whole_amounts) (details_of pao period db))"
    by (rule account_lines_details) (simp add: whole_amounts_def)
  finally have payments: "sum_list (map ppPayment ?us) = (\<Sum>d\<leftarrow>details_of pao period db. mdPayment d + mdTePayment d)"
    by (simp add: total_payment_def [abs_def] whole_amounts_def)
  have "map ppHoa ?us = remdups (map (mdHoa \<circ> snd) ?ls)"
    unfolding us by (simp add: comp_def prao_row_def Let_def)
  hence heads: "distinct (map ppHoa ?us)" by simp
  have first: "ppPao (hd ?us) = pao \<and> ppPeriod (hd ?us) = period" if "?us \<noteq> []"
    using that unfolding us by (simp add: hd_map prao_row_def Let_def)
  have "ma_prao_details db' = ma_prao_details db @ ?us
      \<and> ma_prao_main db' = ma_prao_main db @ (if ?us = [] then [] else [(pao, period)])
      \<and> (?us = [] \<or> (pao, period) \<notin> set (ma_prao_main db))"
    using posted first PostPraoAccountRepo_stored [of copied recorded ?us db db'] by (auto split: if_splits)
  with verified heads receipts payments show ?thesis by blast
qed


subsection \<open>What a reversion removes\<close>

text \<open>The month is gone from all four tables or from none, its sheets with it; everything else stays, the sheets of the
  months that were carried forward from it too.  The answer does not tell, the kept row does.\<close>
lemma month_reversion_all_or_nothing:
  assumes "CashAccountReversionHandler subaccounts finished inserted (Some req) db = (PUpdated, calls, db')"
  shows "\<exists>period. parse_month (caPeriod req) = Some period \<and> calls = [(caOfficeID req, caPeriod req)]
    \<and> (if 5 \<le> finished then
         ma_main db' = filter (\<lambda>m. mm_key m \<noteq> caDDOCode req @ period) (ma_main db)
         \<and> ma_details db' = filter (\<lambda>d. mdKey d \<noteq> caDDOCode req @ period) (ma_details db)
         \<and> ma_sheets db' = filter (\<lambda>t. \<not> (bsDdo t = caDDOCode req \<and> bsMonth t = period)) (ma_sheets db)
         \<and> ma_received db' = filter (\<lambda>k. k \<noteq> (caOfficeID req, caPeriod req)) (ma_received db)
       else ma_main db' = ma_main db \<and> ma_details db' = ma_details db \<and> ma_sheets db' = ma_sheets db
         \<and> ma_received db' = ma_received db)
    \<and> ma_prao_details db' = ma_prao_details db \<and> ma_prao_main db' = ma_prao_main db
    \<and> (if inserted then \<exists>row. ma_reversions db' = ma_reversions db @ [row] \<and> mrDdo row = caDDOCode req
           \<and> mrFinal row = (if 5 \<le> finished then ''SUCCESS'' else ''FAILED'')
       else ma_reversions db' = ma_reversions db)"
  using assms
  by (auto simp: CashAccountReversionHandler_def DeletePAOCashAccountRepoTracked_def Let_def comp_def split: if_splits)

text \<open>When the commit fails, the row says of every deletion that it was done or had nothing to do.\<close>
lemma rolled_back_deletion_claims_success:
  assumes "CashAccountReversionHandler subaccounts 4 True (Some req) db = (PUpdated, calls, db')"
    and "list_ex (\<lambda>k. k = (caOfficeID req, caPeriod req)) (ma_received db)"
  shows "ma_received db' = ma_received db \<and> mrKafka (last (ma_reversions db')) = ''SUCCESS''"
  using assms
  by (auto simp: CashAccountReversionHandler_def DeletePAOCashAccountRepoTracked_def deletion_status_def Let_def split: if_splits)

lemma verification_stored:
  assumes "monthly_ok F db" and "same_month rs" and "rs \<noteq> []" and "\<not> empty_month rs"
    and "list_all (PfmsVerifiedMonthly_ok V account) rs" and "list_all (\<lambda>b. 4 \<le> length (vmHoa b)) rs"
    and "as_bool (vmStatus (hd rs)) = Some flag"
    and "request_key (hd rs) \<in> mm_key ` set (ma_main db)" and "fresh_details rs db"
  shows "CreatePfmsMonthlyVerifiedHandler F V account as_bool Stored now (Some rs) db = (PCreated, stored_month F now flag rs db)"
proof -
  have "PfmsVerifiedMonthly_ok V account (hd rs)" using assms(3,5) by (cases rs) auto
  hence "Atoi_ok (vmPeriod (hd rs))" by (simp add: PfmsVerifiedMonthly_ok_def ValidatePeriod_digits)
  from PostPfmsMonthlyverifiedRepo_eq [OF assms(1-3) this assms(6), of as_bool now] assms(4,5,7-9) show ?thesis
    by (auto simp: CreatePfmsMonthlyVerifiedHandler_def simp del: map_append)
qed

subsection \<open>An office at the turn of a year\<close>

definition sample_month_item :: "string \<Rightarrow> int PfmsVerifiedMonthly" where
  "sample_month_item period = \<lparr>vmDdoCode = ''100001'', vmPeriod = period, vmClosing = 30, vmOpening = 0, vmBy = 7,
    vmStatus = ''true'', vmHoa = ''800101001020100'', vmPayment = 20, vmReceipt = 50, vmTePayment = 0, vmTeReceipt = 0,
    vmCodes = []\<rparr>"

definition sample_accounts :: "int ma_db" where
  "sample_accounts = \<lparr>ma_received = [(7, ''12-2025''), (7, ''01-2026'')],
    ma_offices = [\<lparr>doDdo = ''100001'', doName = ''Sample'', doOffice = 7, doPao = ''100000''\<rparr>],
    ma_main = [], ma_details = [], ma_sheets = [], ma_prao_details = [], ma_prao_main = [], ma_reversions = []\<rparr>"

definition sample_received :: "int ma_db" where
  "sample_received = snd (UpdateDdoMonthlyHandler Stored ''100000'' ''012026''
    (snd (UpdateDdoMonthlyHandler Stored ''100000'' ''122025'' sample_accounts)))"

definition sample_december :: "int ma_db" where
  "sample_december = snd (CreatePfmsMonthlyVerifiedHandler whole_amounts lenient (\<lambda>_. True) (\<lambda>s. Some (s = ''true'')) Stored
    sample_day (Some [sample_month_item ''122025'']) sample_received)"

lemma sample_month_item_fields [simp]:
  "vmDdoCode (sample_month_item p) = ''100001''" "vmPeriod (sample_month_item p) = p" "vmStatus (sample_month_item p) = ''true''"
  "vmHoa (sample_month_item p) = ''800101001020100''" "vmPayment (sample_month_item p) = 20" "vmReceipt (sample_month_item p) = 50"
  by (simp_all add: sample_month_item_def)

lemma sample_periods: "ValidatePeriod ''122025''" "ValidatePeriod ''012026''"
    "year_number ''122025'' = 122025" "year_number ''012026'' = 12026"
  by (simp_all add: ValidatePeriod_def Atoi_ok_def year_number_def is_digit_def digits_value_def)

lemma sample_received_eq:
  "sample_received = sample_accounts\<lparr>ma_main := map (received_row (hd (ma_offices sample_accounts))) [''122025'', ''012026'']\<rparr>"
  by (simp add: sample_received_def UpdateDdoMonthlyHandler_def sample_periods GetDDOlistMonthlyupdateRepo_def
      received_rows_def received_row_def Let_def ValidatePaocode_def is_digit_def sample_accounts_def)

lemma sample_reached: "monthly_reach whole_amounts lenient sample_received"
  unfolding sample_received_def
  by (intro monthly_reach.receive monthly_reach.start) (simp_all add: sample_accounts_def)

lemma sample_item_ok: "PfmsVerifiedMonthly_ok lenient (\<lambda>_. True) (sample_month_item p) = ValidatePeriod p"
  by (simp add: PfmsVerifiedMonthly_ok_def sample_month_item_def lenient_def ValidateDdocode_def is_digit_def)
     (auto simp: ValidatePeriod_def)


abbreviation sample_verified_in :: "string \<Rightarrow> int ma_db \<Rightarrow> pfms_reply \<times> int ma_db" where
  "sample_verified_in period db \<equiv> CreatePfmsMonthlyVerifiedHandler whole_amounts lenient (\<lambda>_. True) (\<lambda>s. Some (s = ''true'')) Stored
     sample_day (Some [sample_month_item period]) db"

definition sample_january :: "int ma_db" where
  "sample_january = snd (sample_verified_in ''012026'' sample_december)"

lemma sample_stored:
  assumes "monthly_ok whole_amounts db" and "ValidatePeriod p" and "''100001'' @ p \<in> mm_key ` set (ma_main db)"
    and "(''100001'' @ p, ''800101001020100'') \<notin> detail_key ` set (ma_details db)"
  shows "sample_verified_in p db = (PCreated, stored_month whole_amounts sample_day True [sample_month_item p] db)"
proof (rule verification_stored [OF assms(1)])
  show "fresh_details [sample_month_item p] db"
    using assms(1,4) by (simp add: monthly_ok_def)
qed (use assms(2,3) in \<open>simp_all add: same_month_def sample_item_ok empty_head_def\<close>)

lemma sample_december_created:
  "sample_verified_in ''122025'' sample_received = (PCreated, sample_december)"
  "sample_december = stored_month whole_amounts sample_day True [sample_month_item ''122025''] sample_received"
proof -
  have "sample_verified_in ''122025'' sample_received =
      (PCreated, stored_month whole_amounts sample_day True [sample_month_item ''122025''] sample_received)"
    by (rule sample_stored [OF monthly_reach_ok [OF sample_reached] sample_periods(1)])
       (simp_all add: sample_received_eq received_row_def sample_accounts_def)
  thus "sample_december = stored_month whole_amounts sample_day True [sample_month_item ''122025''] sample_received"
    and "sample_verified_in ''122025'' sample_received = (PCreated, sample_december)"
    by (simp_all add: sample_december_def)
qed

lemma sample_december_reached: "monthly_reach whole_amounts lenient sample_december"
  unfolding sample_december_def by (intro monthly_reach.verify sample_reached) (simp add: same_month_def)

lemma sample_balance: "sheet_balance whole_amounts ''8001'' = Some (\<lambda>prev credit debit. prev + credit - debit)"
  by (simp add: sheet_balance_def whole_amounts_def)

definition december_sheet :: "int sheet" where
  "december_sheet = \<lparr>bsMonth = ''122025'', bsHoa = ''800101001020100'', bsDdo = ''100001'', bsOpening = 0, bsCredit = 50,
     bsDebit = 20, bsClosing = 30, bsCreated = sample_day, bsBy = 7\<rparr>"

lemma sample_december_sheets: "ma_sheets sample_december = [december_sheet]"
proof -
  have "month_number (sheet_row whole_amounts sample_day (sample_month_item ''122025'')) = 122025"
    by (simp add: month_number_def sheet_row_def sample_month_item_def sample_periods)
  thus ?thesis
    by (simp add: sample_december_created(2) stored_month_def sheets_after_def sample_received_eq sample_accounts_def
        sample_month_item_def sample_balance sample_periods lag_closing_def carry_sheet_def Let_def)
       (simp add: sheet_row_def december_sheet_def whole_amounts_def)
qed

lemma sample_december_details: "ma_details sample_december = [month_detail (sample_month_item ''122025'')]"
  by (simp add: sample_december_created(2) stored_month_def sample_received_eq sample_accounts_def)

lemma sample_december_main:
  "ma_main sample_december = [verified_month sample_day True (sample_month_item ''122025'')
      (received_row (hd (ma_offices sample_accounts)) ''122025''), received_row (hd (ma_offices sample_accounts)) ''012026'']"
  by (simp add: sample_december_created(2) stored_month_def month_updated_def sample_received_eq update_where_def is_month_def)
     (simp add: received_row_def sample_month_item_def sample_accounts_def)

lemma sample_january_created: "sample_verified_in ''012026'' sample_december = (PCreated, sample_january)"
proof -
  have "sample_verified_in ''012026'' sample_december =
      (PCreated, stored_month whole_amounts sample_day True [sample_month_item ''012026''] sample_december)"
    by (rule sample_stored [OF monthly_reach_ok [OF sample_december_reached] sample_periods(2)])
       (simp_all add: sample_december_main sample_december_details received_row_def sample_accounts_def verified_month_def)
  thus ?thesis by (simp add: sample_january_def)
qed


lemma monthly_verification_answers_witness:
  "fst (sample_verified_in ''122025'' sample_received) = PCreated
    \<and> ma_details sample_december = ma_details sample_received @ [month_detail (sample_month_item ''122025'')]"
proof -
  note monthly_verification_answers [OF sample_reached _ _ _ _ _ sample_december_created(1)]
  thus ?thesis
    by (simp add: same_month_def sample_item_ok sample_periods empty_head_def sample_december_created(1))
qed

lemma broad_sheet_carries_forward_witness:
  "\<exists>t. book ''800101001020100'' ''100001'' (ma_sheets sample_december) = [t] \<and> bsOpening t = 0 \<and> bsClosing t = 30"
proof -
  have none: "book ''800101001020100'' ''100001'' (ma_sheets sample_received) = []"
    by (simp add: sample_received_eq sample_accounts_def book_def)
  note broad_sheet_carries_forward [OF sample_reached _ _ _ sample_december_created(1) refl,
    of "sample_month_item ''122025''"]
  thus ?thesis
    by (auto simp: none same_month_def sample_balance sheet_heads_def) (simp add: whole_amounts_def)
qed


subsection \<open>Sending December on\<close>

definition december_row :: "int PaoPraoAccount" where
  "december_row = \<lparr>ppPao = ''100000'', ppHoa = ''800101001020100'', ppPeriod = ''122025'', ppPayment = 20, ppReceipt = 50,
     ppShares = [\<lparr>psDdo = ''100001'', psReceipt = 50, psPayment = 20, psTeReceipt = 0, psTePayment = 0\<rparr>]\<rparr>"

lemma sample_december_account:
  "of_pao ''100000'' ''122025'' (ma_main sample_december) =
    [verified_month sample_day True (sample_month_item ''122025'') (received_row (hd (ma_offices sample_accounts)) ''122025'')]"
  by (simp add: of_pao_def sample_december_main) (simp add: verified_month_def received_row_def sample_accounts_def)

lemma sample_december_rows:
  "GetPostPraoAccountRepo whole_amounts ''100000'' ''122025'' sample_december = [december_row]"
  "details_of ''100000'' ''122025'' sample_december = [month_detail (sample_month_item ''122025'')]"
  "CheckCashAccountVerificationRepo ''100000'' ''122025'' sample_december"
  by (simp add: GetPostPraoAccountRepo_def account_lines_def sample_december_account sample_december_details Let_def
      prao_row_def sum_of_def total_receipt_def total_payment_def,
    simp add: verified_month_def month_detail_def sample_month_item_def received_row_def sample_accounts_def december_row_def
      whole_amounts_def)
    (simp add: details_of_def sample_december_account sample_december_details,
     simp add: verified_month_def month_detail_def sample_month_item_def,
     simp add: CheckCashAccountVerificationRepo_def sample_december_account, simp add: verified_month_def)

lemma sample_prao_request: "PraoAccountSubmissionRequest_ok ''100000'' ''122025''"
  by (simp add: PraoAccountSubmissionRequest_ok_def sample_periods ValidatePaocode_def is_digit_def)

lemma sample_december_nothing_sent: "ma_prao_details sample_december = []" "ma_prao_main sample_december = []"
  by (simp_all add: sample_december_created(2) stored_month_def month_updated_def sample_received_eq sample_accounts_def)

lemma prao_accounts_lose_nothing_witness:
  "\<exists>db'. CreatePraoAccountHandler whole_amounts True Stored Stored (Some (''100000'', ''122025'')) sample_december = (PCreated, db')
    \<and> sum_list (map ppReceipt (ma_prao_details db')) = 50 \<and> ma_prao_main db' = [(''100000'', ''122025'')]"
proof -
  let ?h = "CreatePraoAccountHandler whole_amounts True Stored Stored (Some (''100000'', ''122025'')) sample_december"
  obtain db' where h: "?h = (PCreated, db')"
    by (simp add: CreatePraoAccountHandler_def sample_prao_request sample_december_rows PostPraoAccountRepo_def
        sample_december_nothing_sent insert_row_def Let_def)
  from prao_accounts_lose_nothing [OF h] h show ?thesis
    by (auto simp: sample_december_rows sample_december_nothing_sent month_detail_def sample_month_item_def)
qed


end
