(* ===== verification/Spec2Isabelle.thy ===== *)
theory Spec2Isabelle
  imports Naming Workspace RuleSet Gopatch Fxwire Routes Libversion Scaffold Repomap KbBuild Mcp Catalog CliProps TransferSaga InterPao PfmsReversal CashRevert MonthlyProps
begin

text \<open>
  Verification development for the Go code of the repository: the sidecar gotools/, which checks,
  reads and writes Go services for a coding agent, and the accounting handlers of
  pao-back-end-development/, the service such tools are run on.

  \<^bold>\<open>The program.\<close> gotools/ is one binary. A command line (cmd/gotools) and a protocol server
  (internal/mcpserver) put the same components in front of a developer and of the agent: a compliance
  linter (internal/rules over internal/workspace), a scaffolder (internal/spec, internal/scaffold,
  internal/naming), surgical edits (internal/gopatch, internal/fxwire), reports on a service
  (internal/repomap, internal/routes, internal/libversion) and the documents the agent reads
  (internal/kb, internal/catalog). pao-back-end-development/ is a web service over a database: a
  handler binds and validates a request, calls repository functions that run statements, and may
  call the payment system PFMS, a budget service or a workflow.

  \<^bold>\<open>Theories.\<close> Each imports the components it calls.

  \<^item> Prelude: Go strings as byte lists, the functions of strings, strconv and sort that the sources
    call, and the lemmas on lists and strings that the others share. GoAst: the trees of go/ast with
    positions, ast.Inspect, quoting, struct tags. Json: json.Marshal on ordered values. Filepath: path/filepath
    and resolveRoot of mcpserver/server.go.
  \<^item> Naming (naming/naming.go): words, the case styles, plurals.
  \<^item> Workspace (workspace/workspace.go, configs.go): the walk that loads a module, layers, go.mod, the
    flattened keys of configuration files.
  \<^item> RuleEngine (rules/rule.go, config.go, registry's Run): a check is the list of what it reports; the locale
    \<open>rule_contract\<close> states what a set of rules promises and proves what a run over it then gives.
    AstUtil, ConfigRules, FxRules, RepoRules, DbPerf, HandlerRules, CodeRules, StyleRules, LegacyRules: the
    fifty rules and the audits, grouped by the source's files. RuleSet (registry.go, run.go): the shipped
    set, on which the locale is interpreted, and Analyze.
  \<^item> Gopatch (gopatch/gopatch.go): line endings, edits at offsets, imports. Fxwire (fxwire/fxwire.go):
    registering constructors in the fx modules. Spec, SpecView (spec/spec.go, view.go): normalising a resource
    specification and the names templates read. Scaffold (scaffold/): files from a specification,
    and writing them into a tree.
  \<^item> Repomap (repomap/repomap.go), Routes (routes/routes.go), Libversion (libversion/libversion.go; the
    interface Lister is the locale \<open>version_lister\<close>, interpreted on GoListVersions).
  \<^item> Kb, KbBuild (kb/doc.go, check.go, build.go, references.go): the citation check and the assembled
    knowledge base. Mcp (mcpserver/): the tools as functions of arguments and tree. Catalog
    (catalog/catalog.go): the published tool contract.
  \<^item> Flags, CliText, Cli (cmd/gotools): flag parsing, the printed output, the commands as functions from
    arguments and tree to exit code, output and tree. CliProps: what holds of whole runs.
  \<^item> TransferEntry (handler/transferentry.go, repo/postgres/transferentry.go): rows of pao.transfer_entry, the three
    creations, rejection and bulk verification with its budget request. TransferSaga: the handler that
    starts the verification workflow and the workflow, with its compensation and its retried posting. InterPao:
    entries between offices as a state machine, with the reachable tables as an inductive predicate.
    PfmsReversal: submission to PFMS, reset, and negative entries.
  \<^item> Objection (handler/objection.go, repo/postgres/objection.go): the two tables of objections; the locale
    \<open>row_history\<close> states what a table of growing rows keeps and is interpreted on the objections. Cashbook
    (handler/paogen.go, repo/postgres/paogen.go): the claim of a day, the submission of its cash books, and the
    negative entry of a reverted one.
  \<^item> DayGate: the verification of a day's cash books by the accounts office, which must follow the verification of
    the day before; a day without accounts has a handler of its own. PfmsStatus: asking PFMS for the status of a
    submission, polling of what is pending, and sending a stored submission again, without a limit on the
    difference. CashRevert: the reversion of an office's cash books from a date on, and the history of any sequence of
    these calls, on which \<open>row_history\<close> is interpreted twice, for the submissions and for the reversions.
  \<^item> MonthlyAccounts: the monthly cash accounts as tables with their keys and handlers as functions on them: reception,
    verification as a batch of statements with the broad sheets, submission to the principal accounts office,
    reversion; and the inductive set of the states they reach. MonthlyProps: what holds of those states.

  \<^bold>\<open>Conventions.\<close> A definition has the name of the function it translates; a local step of a function has a name of
  its own. A Go error is the left side of a sum or \<^const>\<open>None\<close>; a panic is an answer of its own.
  A nil pointer is an option. Slices are lists; a map is a function to options, or an association list where
  its order or its text matters; a map's order of iteration is an argument, unless the result is sorted. A file tree is
  a map from paths to contents. A table is the list of its rows in the order of insertion, a statement a
  function on it. Amounts are the record \<open>float64\<close> of the operations used, so that what is proved
  holds whatever they round; theorems about sums are on \<open>whole_amounts\<close>, the integers. 64-bit identifiers
  are words, with the conversions that wrap.

  \<^bold>\<open>Parameters.\<close> Code outside src/ is an argument: go/parser and go/format, yaml.Unmarshal, text/template,
  SHA-256, json.Indent, the go command, the protocol library, the validators of the validation library
  (record \<open>validators\<close>), the answers of PFMS (\<open>pfms_api\<close>), of the budget service and of the
  workflow's remote operations (\<open>nexus\<close>), whether a database statement succeeds. What a theorem needs of one
  is a hypothesis of that theorem, and its witness gives a concrete one.

  \<^bold>\<open>Loops.\<close> A loop over a tree or list is structural recursion, or a function with a measure. The prefix loop of
  routes.go is \<^const>\<open>while_option\<close>, proved to end. The retry of the posting activity may
  go on forever and is a partial function into options: that it returns once an attempt is acknowledged, and
  does not return when none is, are theorems. No definition uses fuel.

  \<^bold>\<open>What is shown.\<close> A run of the linter partitions what the rules report and blocks exactly as configured;
  credentials never reach a report; a load keeps what it promises to keep; edits preserve line endings and write
  only parsed files; writing tools stay inside the served directory and overwrite nothing; what a
  specification's check accepts is safe to interpolate; a map of a repository accounts for every package
  within its budget; a green documentation check means that citations and documents agree; agent and
  command line agree. For the accounting handlers: budget is consumed before a row is verified, and
  given back when the verification fails, with the exceptions stated; inter-office tables stay balanced and
  well-formed, and complete entries get verified; a reversal negates its submission, where the
  code does so; a submission is reversed once; the record of an objection only grows; cash books balance before
  they are sent; the claim of a day is a lease. A day is verified only after the day before, but the check that
  its submission has not failed never fires; a status reaches every table that keeps one, and polling stops at the
  first submission without one; a resubmission is the submission without its limit; a reversion has a row for each
  day it removes, and what it records can be reversed; no sequence of the calls on cash books loses a row of their
  history.
  The broad sheets mirror the monthly accounts and carry balances from month to month, but not from December to
  January; what is sent to the principal accounts office loses no amount, but can get stuck half stored.

  \<^bold>\<open>Not modelled.\<close> The texts of the knowledge base (kb/references_*.go), which are data. Of
  pao-back-end-development/: listings and reports, whose content is SQL; masters, the reversion that is read from a spreadsheet, remuneration and
  public accounts; dated copies of older handlers; docs/, which is generated, and handler/response, which copies
  fields. new-template/, a sample service without logic of its own.
  The agent, the gateway, the editor extension and the deployment, which are not Go.
  Of what is modelled: clocks beyond the time passed in, timeouts, logging, contexts and
  concurrent requests other than as sequences of whole statements.
\<close>

end
